(* ===== verification/GoPrelude.thy ===== *)
theory GoPrelude
  imports Main "HOL-Library.Char_ord" "HOL-Library.List_Lexorder" "HOL-Library.Signed_Division"
    "HOL-Library.Finite_Map" "HOL-Library.AList" "HOL-Library.Monad_Syntax"
begin

text \<open>
  Shared vocabulary of the development: the parts of Go and of its standard library that the
  controllers use (strings, \<^verbatim>\<open>strconv\<close>, 64-bit integers, slice indexing, stable sorting), the
  result type of fallible code, and the generic lemmas on lists and options that the component
  theories share.  Go's \<open>string\<close> is a byte sequence and is modelled by HOL's \<open>string\<close>; the order
  \<open><\<close> on strings is the bytewise lexicographic one, from the library's list order.
\<close>

named_theorems go_simps \<open>unfolding rules for the Go standard library model\<close>

section \<open>Results and slice access\<close>

text \<open>
  A fallible Go function returns an error or a value: \<open>Inl\<close> carries the error.  An operation
  that may panic (slice index out of range, nil dereference) or fail to terminate returns an
  \<open>option\<close>, with \<open>None\<close> for the panic or the divergence; each definition says which.
\<close>

type_synonym ('e, 'a) result = "'e + 'a"

definition slice_get :: "'a list \<Rightarrow> nat \<Rightarrow> 'a option" where
  "slice_get xs i = (if i < length xs then Some (xs ! i) else None)"

lemma slice_get_Some [go_simps]: "slice_get xs i = Some x \<longleftrightarrow> i < length xs \<and> xs ! i = x"
  by (auto simp: slice_get_def)

lemma slice_get_None [go_simps]: "slice_get xs i = None \<longleftrightarrow> length xs \<le> i"
  by (auto simp: slice_get_def)

text \<open>Reading a map of strings: the zero value for a missing key.\<close>

definition map_get :: "(string \<Rightarrow> string option) \<Rightarrow> string \<Rightarrow> string" where
  "map_get m k = (case m k of None \<Rightarrow> '''' | Some v \<Rightarrow> v)"

text \<open>Left-to-right traversal with a step that may panic.\<close>

fun map_opt :: "('a \<Rightarrow> 'b option) \<Rightarrow> 'a list \<Rightarrow> 'b list option" where
  "map_opt f [] = Some []"
| "map_opt f (x # xs) =
     (case f x of
        None \<Rightarrow> None
      | Some y \<Rightarrow> (case map_opt f xs of None \<Rightarrow> None | Some ys \<Rightarrow> Some (y # ys)))"

lemma map_opt_total: "(\<And>x. x \<in> set xs \<Longrightarrow> f x \<noteq> None) \<Longrightarrow> map_opt f xs = Some (map (the \<circ> f) xs)"
  by (induction xs) (force split: option.splits)+

lemma map_opt_SomeD: "map_opt f xs = Some ys \<Longrightarrow> list_all2 (\<lambda>x y. f x = Some y) xs ys"
  by (induction xs arbitrary: ys) (auto split: option.splits)

lemma map_opt_None: "map_opt f xs = None \<longleftrightarrow> (\<exists>x \<in> set xs. f x = None)"
  by (induction xs) (auto split: option.splits)

lemma map_opt_singletons:
  assumes "\<And>i. i \<in> set xs \<Longrightarrow> \<exists>x. P x \<and> f i = Some [x]"
  shows "\<exists>ys. map_opt f xs = Some (map (\<lambda>y. [y]) ys) \<and> length ys = length xs \<and> list_all P ys"
  using assms
proof (induction xs)
  case Nil
  then show ?case by simp
next
  case (Cons i xs)
  then obtain ys where "map_opt f xs = Some (map (\<lambda>y. [y]) ys)" "length ys = length xs" "list_all P ys"
    by auto
  moreover obtain x where "P x" "f i = Some [x]" using Cons.prems by auto
  ultimately show ?case by (intro exI [of _ "x # ys"]) simp
qed

section \<open>64-bit integers\<close>

text \<open>
  Go's \<open>int\<close> is 64 bits wide on the supported platforms.  \<open>wrap64\<close> reduces an integer to the
  two's complement range, as Go's arithmetic does; division truncates towards zero
  (\<^const>\<open>signed_divide\<close>).
\<close>

definition max_int64 :: int where "max_int64 = 2 ^ 63 - 1"

definition min_int64 :: int where "min_int64 = - (2 ^ 63)"

definition in_int64 :: "int \<Rightarrow> bool" where
  "in_int64 x \<longleftrightarrow> min_int64 \<le> x \<and> x \<le> max_int64"

definition wrap64 :: "int \<Rightarrow> int" where
  "wrap64 x = (x + 2 ^ 63) mod 2 ^ 64 - 2 ^ 63"

lemma wrap64_id: "in_int64 x \<Longrightarrow> wrap64 x = x"
  by (simp add: in_int64_def wrap64_def max_int64_def min_int64_def)

lemma wrap64_in_int64: "in_int64 (wrap64 x)"
proof -
  have "0 \<le> (x + 2 ^ 63) mod 2 ^ 64" and "(x + 2 ^ 63) mod 2 ^ 64 < 2 ^ 64"
    by simp_all
  then show ?thesis
    by (simp add: in_int64_def wrap64_def max_int64_def min_int64_def)
qed

lemma sdiv_pos: "0 \<le> a \<Longrightarrow> 0 < b \<Longrightarrow> (a :: int) sdiv b = a div b"
  by (cases "a = 0") (auto simp: signed_divide_int_def)

lemma smod_pos: "0 \<le> a \<Longrightarrow> 0 < b \<Longrightarrow> (a :: int) smod b = a mod b"
  by (cases "a = 0") (auto simp: signed_modulo_int_def signed_divide_int_def minus_div_mult_eq_mod)

section \<open>Strings\<close>

definition has_prefix :: "string \<Rightarrow> string \<Rightarrow> bool" where
  "has_prefix s p \<longleftrightarrow> take (length p) s = p"

definition has_suffix :: "string \<Rightarrow> string \<Rightarrow> bool" where
  "has_suffix s p \<longleftrightarrow> length p \<le> length s \<and> drop (length s - length p) s = p"

definition trim_suffix :: "string \<Rightarrow> string \<Rightarrow> string" where
  "trim_suffix s p = (if has_suffix s p then take (length s - length p) s else s)"

fun contains :: "string \<Rightarrow> string \<Rightarrow> bool" where
  "contains [] p = (p = [])"
| "contains (c # s) p = (has_prefix (c # s) p \<or> contains s p)"

lemma has_prefix_append [simp]: "has_prefix (p @ s) p"
  by (simp add: has_prefix_def)

lemma has_prefix_iff: "has_prefix s p \<longleftrightarrow> (\<exists>r. s = p @ r)"
  by (metis append_eq_conv_conj append_take_drop_id has_prefix_def)

lemma has_suffix_append [simp]: "has_suffix (s @ p) p"
  by (simp add: has_suffix_def)

lemma trim_suffix_append [simp]: "trim_suffix (s @ p) p = s"
  by (simp add: trim_suffix_def)

lemma contains_iff: "contains s p \<longleftrightarrow> (\<exists>a b. s = a @ p @ b)"
proof (induction s)
  case Nil
  then show ?case by auto
next
  case (Cons c s)
  show ?case
  proof
    assume "contains (c # s) p"
    then show "\<exists>a b. c # s = a @ p @ b"
      using Cons.IH by (auto simp: has_prefix_iff) (metis append_Cons append_Nil)+
  next
    assume "\<exists>a b. c # s = a @ p @ b"
    then obtain a b where ab: "c # s = a @ p @ b" by blast
    show "contains (c # s) p"
    proof (cases a)
      case Nil
      with ab have "has_prefix (c # s) p" by (simp add: has_prefix_iff)
      then show ?thesis by simp
    next
      case (Cons d a')
      with ab have "s = a' @ p @ b" by simp
      with Cons.IH show ?thesis by simp blast
    qed
  qed
qed

text \<open>\<^verbatim>\<open>%q\<close> of a text without special characters, and \<^verbatim>\<open>strings.Join\<close>.\<close>

definition quoted :: "string \<Rightarrow> string" where "quoted s = CHR 0x22 # s @ [CHR 0x22]"

fun join_strings :: "string \<Rightarrow> string list \<Rightarrow> string" where
  "join_strings sep [] = ''''"
| "join_strings sep [s] = s"
| "join_strings sep (s # t # ss) = s @ sep @ join_strings sep (t # ss)"

text \<open>\<^verbatim>\<open>strings.ReplaceAll\<close> for an old string of one character.\<close>

definition replace_char :: "char \<Rightarrow> string \<Rightarrow> string \<Rightarrow> string" where
  "replace_char old new s = concat (map (\<lambda>c. if c = old then new else [c]) s)"

lemma replace_char_simps [simp]:
  "replace_char c r [] = []"
  "replace_char c r (d # s) = (if d = c then r else [d]) @ replace_char c r s"
  "replace_char c r (s @ t) = replace_char c r s @ replace_char c r t"
  by (simp_all add: replace_char_def)

section \<open>Decimal numbers: strconv.Atoi and the verb d of fmt\<close>

definition digit_char :: "nat \<Rightarrow> char" where
  "digit_char d = char_of (48 + d)"

definition char_digit :: "char \<Rightarrow> nat option" where
  "char_digit c =
     (let k = (of_char c :: nat) in if 48 \<le> k \<and> k \<le> 57 then Some (k - 48) else None)"

fun show_nat :: "nat \<Rightarrow> string" where
  "show_nat n = (if n < 10 then [digit_char n] else show_nat (n div 10) @ [digit_char (n mod 10)])"

declare show_nat.simps [simp del]

definition show_int :: "int \<Rightarrow> string" where
  "show_int i = (if i < 0 then CHR ''-'' # show_nat (nat (- i)) else show_nat (nat i))"

fun parse_digits :: "nat \<Rightarrow> string \<Rightarrow> nat option" where
  "parse_digits acc [] = Some acc"
| "parse_digits acc (c # s) =
     (case char_digit c of None \<Rightarrow> None | Some d \<Rightarrow> parse_digits (acc * 10 + d) s)"

text \<open>
  \<^verbatim>\<open>strconv.Atoi\<close>: an optional sign, at least one digit, digits only, and a value in the range
  of a 64-bit integer; everything else is an error (\<open>None\<close>).
\<close>

definition atoi :: "string \<Rightarrow> int option" where
  "atoi s =
     (let neg = (s \<noteq> [] \<and> hd s = CHR ''-'');
          body = (if s \<noteq> [] \<and> (hd s = CHR ''-'' \<or> hd s = CHR ''+'') then tl s else s)
      in if body = [] then None
         else case parse_digits 0 body of
                None \<Rightarrow> None
              | Some n \<Rightarrow>
                  (let v = (if neg then - int n else int n)
                   in if in_int64 v then Some v else None))"

lemma char_digit_digit_char: "d < 10 \<Longrightarrow> char_digit (digit_char d) = Some d"
  by (simp add: char_digit_def digit_char_def)

lemma parse_digits_append:
  "parse_digits acc (s @ t) = (case parse_digits acc s of None \<Rightarrow> None | Some a \<Rightarrow> parse_digits a t)"
  by (induction s arbitrary: acc) (auto split: option.splits)

lemma show_nat_nonempty [simp]: "show_nat n \<noteq> []"
  by (subst show_nat.simps) simp

lemma parse_digits_show_nat: "parse_digits 0 (show_nat n) = Some n"
proof (induction n rule: show_nat.induct)
  case (1 n)
  show ?case
  proof (cases "n < 10")
    case True
    then show ?thesis
      by (subst show_nat.simps) (simp add: char_digit_digit_char)
  next
    case False
    with "1.IH" have "parse_digits 0 (show_nat (n div 10)) = Some (n div 10)" by simp
    with False show ?thesis
      by (subst show_nat.simps) (simp add: parse_digits_append char_digit_digit_char)
  qed
qed

lemma digit_char_not_sign:
  assumes "d < 10" shows "digit_char d \<noteq> CHR ''-''" and "digit_char d \<noteq> CHR ''+''"
proof -
  have some: "char_digit (digit_char d) = Some d" using assms by (rule char_digit_digit_char)
  have "char_digit (CHR ''-'') = None" and "char_digit (CHR ''+'') = None"
    by (simp_all add: char_digit_def)
  with some show "digit_char d \<noteq> CHR ''-''" and "digit_char d \<noteq> CHR ''+''" by auto
qed

lemma hd_show_nat: "hd (show_nat n) \<noteq> CHR ''-'' \<and> hd (show_nat n) \<noteq> CHR ''+''"
proof (induction n rule: show_nat.induct)
  case (1 n)
  then show ?case
    by (subst (1 2) show_nat.simps) (auto simp: hd_append digit_char_not_sign)
qed

text \<open>Printing a 64-bit number and parsing it back gives the number.\<close>

lemma atoi_show_int: "in_int64 i \<Longrightarrow> atoi (show_int i) = Some i"
  using hd_show_nat [of "nat i"]
  by (auto simp: atoi_def show_int_def parse_digits_show_nat Let_def)

lemma show_nat_small: "n < 10 \<Longrightarrow> show_nat n = [digit_char n]"
  by (subst show_nat.simps) simp

lemma show_nat_chars: "set (show_nat n) \<subseteq> digit_char ` {..<10}"
proof (induction n rule: show_nat.induct)
  case (1 n)
  show ?case
  proof (cases "n < 10")
    case True
    then show ?thesis by (auto simp: show_nat_small)
  next
    case False
    have "show_nat n = show_nat (n div 10) @ [digit_char (n mod 10)]"
      using False by (subst show_nat.simps) simp
    then show ?thesis using "1.IH" [OF False] by auto
  qed
qed

section \<open>Generic lemmas\<close>

lemma ceil_div_bounds:
  assumes "0 < (s :: int)"
  shows "d \<le> s * ((d + s - 1) div s)" and "s * ((d + s - 1) div s) < d + s"
proof -
  have eq: "s * ((d + s - 1) div s) = d + s - 1 - (d + s - 1) mod s"
    by (simp add: minus_mod_eq_mult_div)
  have "0 \<le> (d + s - 1) mod s" "(d + s - 1) mod s < s" using assms by simp_all
  with eq show "d \<le> s * ((d + s - 1) div s)" and "s * ((d + s - 1) div s) < d + s" by linarith+
qed

lemma ceil_div_le:
  assumes "0 < (s :: int)" shows "(d + s - 1) div s \<le> f \<longleftrightarrow> d \<le> f * s"
proof
  assume "(d + s - 1) div s \<le> f"
  then have "s * ((d + s - 1) div s) \<le> s * f" using assms by simp
  then show "d \<le> f * s" using ceil_div_bounds(1) [OF assms, of d] by (simp add: mult.commute)
next
  assume "d \<le> f * s"
  then have "s * ((d + s - 1) div s) < s * (f + 1)"
    using ceil_div_bounds(2) [OF assms, of d] by (simp add: algebra_simps)
  then show "(d + s - 1) div s \<le> f" using assms by simp
qed

lemma multiples_from:
  "(\<exists>k \<ge> 0. x = a + k * s) \<longleftrightarrow> x = a \<or> (\<exists>k \<ge> 0. x = a + s + k * s)" for x a s :: int
proof
  assume "\<exists>k \<ge> 0. x = a + k * s"
  then obtain k where "0 \<le> k" "x = a + k * s" by blast
  then show "x = a \<or> (\<exists>k \<ge> 0. x = a + s + k * s)"
    by (cases "k = 0") (auto intro!: exI [of _ "k - 1"] simp: algebra_simps)
next
  assume "x = a \<or> (\<exists>k \<ge> 0. x = a + s + k * s)"
  then show "\<exists>k \<ge> 0. x = a + k * s"
  proof
    assume "\<exists>k \<ge> 0. x = a + s + k * s"
    then obtain k where "0 \<le> k" "x = a + s + k * s" by blast
    then show ?thesis by (intro exI [of _ "k + 1"]) (simp add: algebra_simps)
  qed (auto intro: exI [of _ 0])
qed

lemma find_SomeD: "List.find P xs = Some x \<Longrightarrow> x \<in> set xs \<and> P x"
  by (induction xs) (auto split: if_splits)

lemma find_snoc [simp]:
  "List.find P (xs @ [x]) = (case List.find P xs of None \<Rightarrow> if P x then Some x else None | Some y \<Rightarrow> Some y)"
  by (induction xs) auto

lemma distinct_map_nth_inj:
  "distinct (map f xs) \<Longrightarrow> i < length xs \<Longrightarrow> j < length xs \<Longrightarrow> f (xs ! i) = f (xs ! j) \<Longrightarrow> i = j"
  by (metis (no_types, lifting) length_map nth_eq_iff_index_eq nth_map)

end
