(* ===== verification/ApiTypes.thy ===== *)
theory ApiTypes
  imports GoPrelude
begin

text \<open>
  The API objects the controllers work on (\<^verbatim>\<open>api/core/v1alpha2\<close>): the specification of a virtual
  machine, its block device references, networks and provisioning, and the sizing policies of a
  virtual machine class.  String-typed Go enumerations stay strings, with their constants as
  abbreviations, because the code converts and compares them as strings.  A pointer is an \<open>option\<close>;
  a slice is a list, or an \<open>option\<close> of a list where the code distinguishes the nil slice.
\<close>

section \<open>Third-party types: Kubernetes objects, quantities, feature gates\<close>

text \<open>
  Structs of \<^verbatim>\<open>k8s.io/api\<close> that the controllers only store and compare with
  \<^verbatim>\<open>reflect.DeepEqual\<close> (tolerations, affinities, spread constraints, selector requirements) are
  opaque values.
\<close>

datatype k8s_object = K8sObject string

text \<open>
  \<^verbatim>\<open>resource.Quantity\<close> of \<^verbatim>\<open>k8s.io/apimachinery\<close> is a parameter: a type \<open>'q\<close> with the operations
  the code calls.  \<open>quantity_laws\<close> states their documented behaviour through the amount of a
  quantity in its smallest unit, one billionth: comparison and equality are those of the amounts,
  \<^verbatim>\<open>Value\<close> rounds away from zero to a whole number, \<^verbatim>\<open>NewQuantity\<close> makes a whole number.
\<close>

record 'q quantity_ops =
  q_cmp :: "'q \<Rightarrow> 'q \<Rightarrow> int"
  q_equal :: "'q \<Rightarrow> 'q \<Rightarrow> bool"
  q_isZero :: "'q \<Rightarrow> bool"
  q_value :: "'q \<Rightarrow> int"
  q_add :: "'q \<Rightarrow> 'q \<Rightarrow> 'q"
  q_new :: "int \<Rightarrow> 'q"
  q_zero :: 'q

definition nano_per_unit :: int where "nano_per_unit = 10 ^ 9"

definition round_away :: "int \<Rightarrow> int" where
  "round_away n = sgn n * ((\<bar>n\<bar> + nano_per_unit - 1) div nano_per_unit)"

definition quantity_laws :: "'q quantity_ops \<Rightarrow> ('q \<Rightarrow> int) \<Rightarrow> bool" where
  "quantity_laws Q nano \<longleftrightarrow>
     (\<forall>a b. q_cmp Q a b = (if nano a < nano b then -1 else if nano a = nano b then 0 else 1)) \<and>
     (\<forall>a b. q_equal Q a b \<longleftrightarrow> nano a = nano b) \<and>
     (\<forall>a. q_isZero Q a \<longleftrightarrow> nano a = 0) \<and>
     (\<forall>a. in_int64 (round_away (nano a)) \<longrightarrow> q_value Q a = round_away (nano a)) \<and>
     (\<forall>a b. nano (q_add Q a b) = nano a + nano b) \<and>
     (\<forall>v. in_int64 v \<longrightarrow> nano (q_new Q v) = v * nano_per_unit) \<and>
     nano (q_zero Q) = 0"

lemma quantity_lawsD:
  assumes "quantity_laws Q nano"
  shows "q_cmp Q a b = (if nano a < nano b then -1 else if nano a = nano b then 0 else 1)"
    and "q_equal Q a b \<longleftrightarrow> nano a = nano b"
    and "q_isZero Q a \<longleftrightarrow> nano a = 0"
    and "in_int64 (round_away (nano a)) \<Longrightarrow> q_value Q a = round_away (nano a)"
    and "nano (q_add Q a b) = nano a + nano b"
    and "in_int64 v \<Longrightarrow> nano (q_new Q v) = v * nano_per_unit"
    and "nano (q_zero Q) = 0"
  using assms by (simp_all add: quantity_laws_def)

lemma quantity_cmp_iff:
  assumes "quantity_laws Q nano"
  shows "q_cmp Q a b = -1 \<longleftrightarrow> nano a < nano b"
    and "q_cmp Q a b = 0 \<longleftrightarrow> nano a = nano b"
    and "q_cmp Q a b = 1 \<longleftrightarrow> nano b < nano a"
    and "0 \<le> q_cmp Q a b \<longleftrightarrow> nano b \<le> nano a"
  using quantity_lawsD(1) [OF assms, of a b] by auto

text \<open>
  The reference instance used by the witnesses: a quantity is its amount in billionths.
\<close>

definition nano_quantity :: "int quantity_ops" where
  "nano_quantity =
     \<lparr> q_cmp = (\<lambda>a b. if a < b then -1 else if a = b then 0 else 1),
       q_equal = (=),
       q_isZero = (\<lambda>a. a = 0),
       q_value = round_away,
       q_add = (+),
       q_new = (\<lambda>v. v * nano_per_unit),
       q_zero = 0 \<rparr>"

lemma nano_quantity_laws: "quantity_laws nano_quantity id"
  by (simp add: quantity_laws_def nano_quantity_def)

lemma nano_quantity_sel [simp]:
  "q_cmp nano_quantity a b = (if a < b then -1 else if a = b then 0 else 1)"
  "q_equal nano_quantity a b \<longleftrightarrow> a = b"
  "q_isZero nano_quantity a \<longleftrightarrow> a = 0"
  "q_value nano_quantity a = round_away a"
  "q_add nano_quantity a b = a + b"
  "q_new nano_quantity v = v * nano_per_unit"
  "q_zero nano_quantity = 0"
  by (simp_all add: nano_quantity_def)

text \<open>The laws as an interface, interpreted on the reference instance.\<close>

locale quantity_arith =
  fixes Q :: "'q quantity_ops" and nano :: "'q \<Rightarrow> int"
  assumes laws: "quantity_laws Q nano"

interpretation nano_arith: quantity_arith nano_quantity id
  by unfold_locales (rule nano_quantity_laws)

text \<open>
  Feature gates (\<^verbatim>\<open>pkg/featuregates\<close>); a gate set is the parameter \<open>feature \<Rightarrow> bool\<close> that stands
  for \<^verbatim>\<open>featuregate.FeatureGate.Enabled\<close>.
\<close>

datatype feature =
    SDN
  | AutoMigrationIfNodePlacementChanged
  | VolumeMigration
  | TargetMigration
  | USB
  | GPU
  | HotplugCPUWithLiveMigration
  | HotplugMemoryWithLiveMigration
  | HotplugCPUAndMemoryWithInPlaceResize
  | VirtualMachinePool
  | UploadViaAPIGateway
  | VerticalVirtualMachineAutoscaler

type_synonym feature_gate = "feature \<Rightarrow> bool"

section \<open>VirtualMachineSpec\<close>

record block_device_ref =
  bd_Kind :: string
  bd_Name :: string
  bd_BootOrder :: "nat option"

abbreviation ClusterImageDevice :: string where "ClusterImageDevice \<equiv> ''ClusterVirtualImage''"
abbreviation ImageDevice :: string where "ImageDevice \<equiv> ''VirtualImage''"
abbreviation DiskDevice :: string where "DiskDevice \<equiv> ''VirtualDisk''"
abbreviation VirtualImageKind :: string where "VirtualImageKind \<equiv> ''VirtualImage''"
abbreviation VirtualDiskKind :: string where "VirtualDiskKind \<equiv> ''VirtualDisk''"

record cpu_spec =
  Cores :: int
  CoreFraction :: string

abbreviation CoreFractionAuto :: string where "CoreFractionAuto \<equiv> ''Auto''"

record disruptions =
  RestartApprovalMode :: string

abbreviation Automatic :: string where "Automatic \<equiv> ''Automatic''"
abbreviation Manual :: string where "Manual \<equiv> ''Manual''"

record secret_ref =
  ref_Kind :: string
  ref_Name :: string

record provisioning =
  prov_Type :: string
  prov_UserData :: string
  prov_UserDataRef :: "secret_ref option"
  prov_SysprepRef :: "secret_ref option"

abbreviation ProvisioningTypeUserData :: string where "ProvisioningTypeUserData \<equiv> ''UserData''"
abbreviation ProvisioningTypeUserDataRef :: string where "ProvisioningTypeUserDataRef \<equiv> ''UserDataRef''"
abbreviation ProvisioningTypeSysprepRef :: string where "ProvisioningTypeSysprepRef \<equiv> ''SysprepRef''"

record networks_spec =
  net_ID :: "int option"
  net_Type :: string
  net_Name :: string
  net_MACAddressName :: string
  net_IPAddressName :: string

abbreviation NetworksTypeMain :: string where "NetworksTypeMain \<equiv> ''Main''"
abbreviation NetworksTypeNetwork :: string where "NetworksTypeNetwork \<equiv> ''Network''"
abbreviation NetworksTypeClusterNetwork :: string where "NetworksTypeClusterNetwork \<equiv> ''ClusterNetwork''"

abbreviation AlwaysOnPolicy :: string where "AlwaysOnPolicy \<equiv> ''AlwaysOn''"
abbreviation AlwaysOffPolicy :: string where "AlwaysOffPolicy \<equiv> ''AlwaysOff''"
abbreviation ManualPolicy :: string where "ManualPolicy \<equiv> ''Manual''"
abbreviation AlwaysOnUnlessStoppedManually :: string where
  "AlwaysOnUnlessStoppedManually \<equiv> ''AlwaysOnUnlessStoppedManually''"

abbreviation WindowsOs :: string where "WindowsOs \<equiv> ''Windows''"
abbreviation GenericOs :: string where "GenericOs \<equiv> ''Generic''"
abbreviation LegacyOs :: string where "LegacyOs \<equiv> ''Legacy''"

abbreviation BIOS :: string where "BIOS \<equiv> ''BIOS''"

text \<open>
  The fields in the order of the struct; \<open>LiveMigrationPolicy\<close> included.  \<open>USBDevices\<close> and \<open>GPUs\<close>
  are lists of the names their one-field structs hold.
\<close>

record 'q vm_spec =
  RunPolicy :: string
  VirtualMachineIPAddress :: string
  TopologySpreadConstraints :: "k8s_object list"
  Affinity :: "k8s_object option"
  NodeSelector :: "(string, string) fmap"
  PriorityClassName :: string
  Tolerations :: "k8s_object list"
  Disruptions :: "disruptions option"
  TerminationGracePeriodSeconds :: "int option"
  EnableParavirtualization :: "bool option"
  OsType :: string
  Bootloader :: string
  VirtualMachineClassName :: string
  CPU :: cpu_spec
  MemorySize :: 'q
  BlockDeviceRefs :: "block_device_ref list"
  Provisioning :: "provisioning option"
  LiveMigrationPolicy :: string
  Networks :: "networks_spec list option"
  USBDevices :: "string list option"
  GPUs :: "string list"

definition IsParavirtualizationEnabled :: "'q vm_spec \<Rightarrow> bool" where
  "IsParavirtualizationEnabled s =
     (case EnableParavirtualization s of None \<Rightarrow> True | Some b \<Rightarrow> b)"

section \<open>VirtualMachine: status and metadata\<close>

text \<open>
  \<^verbatim>\<open>metav1.Condition\<close>, and the parts of the status and of the metadata that the modelled
  controllers read or write; a time is a number, 0 the zero time.  \<open>RecommendedCoreFraction\<close> stands for the pointer
  \<^verbatim>\<open>status.recommendedResources\<close> to a struct whose only field is the core fraction.
\<close>

record condition =
  cond_Type :: string
  cond_Status :: string
  cond_Reason :: string
  cond_Message :: string
  cond_ObservedGeneration :: int
  cond_LastTransitionTime :: int

abbreviation ConditionTrue :: string where "ConditionTrue \<equiv> ''True''"
abbreviation ConditionFalse :: string where "ConditionFalse \<equiv> ''False''"

record network_status =
  nst_Type :: string
  nst_Name :: string
  nst_MAC :: string

record vm_pod =
  vmpod_Name :: string
  vmpod_Active :: bool

abbreviation MachinePending :: string where "MachinePending \<equiv> ''Pending''"
abbreviation MachineRunning :: string where "MachineRunning \<equiv> ''Running''"
abbreviation MachineTerminating :: string where "MachineTerminating \<equiv> ''Terminating''"
abbreviation MachineStopped :: string where "MachineStopped \<equiv> ''Stopped''"
abbreviation MachineStopping :: string where "MachineStopping \<equiv> ''Stopping''"
abbreviation MachineStarting :: string where "MachineStarting \<equiv> ''Starting''"
abbreviation MachineMigrating :: string where "MachineMigrating \<equiv> ''Migrating''"
abbreviation MachinePause :: string where "MachinePause \<equiv> ''Pause''"
abbreviation MachineDegraded :: string where "MachineDegraded \<equiv> ''Degraded''"

record vm_migration_state =
  vms_StartTimestamp :: "int option"
  vms_EndTimestamp :: "int option"
  vms_TargetNode :: string
  vms_TargetPod :: string
  vms_SourceNode :: string
  vms_Result :: string

record vm_status =
  Phase :: string
  RecommendedResources :: "string option"
  StatusNetworks :: "network_status list"
  VirtualMachinePods :: "vm_pod list"
  StatusVirtualMachineIPAddress :: string
  StatusNode :: string
  StatusMigrationState :: "vm_migration_state option"
  Conditions :: "condition list"

record 'q virtual_machine =
  vm_Name :: string
  vm_Namespace :: string
  vm_UID :: string
  vm_Generation :: int
  vm_Deleting :: bool
  vm_Spec :: "'q vm_spec"
  vm_Status :: vm_status

section \<open>VirtualMachineClass\<close>

record sizing_policy_cores =
  spc_Min :: int
  spc_Max :: int
  spc_Step :: int

record 'q memory_min_max =
  mm_Min :: "'q option"
  mm_Max :: "'q option"

record 'q sizing_policy_memory = "'q memory_min_max" +
  spm_Step :: "'q option"
  spm_PerCore :: "'q memory_min_max option"

text \<open>\<^verbatim>\<open>intstr.IntOrString\<close>: a tagged union of a number and a string.\<close>

datatype int_or_string = IntVal int | StrVal string

record 'q sizing_policy =
  sp_Memory :: "'q sizing_policy_memory option"
  sp_CoreFractions :: "int list"
  sp_DefaultCoreFraction :: "int_or_string option"
  sp_DedicatedCores :: "bool list"
  sp_Cores :: "sizing_policy_cores option"

text \<open>The selector of a class is compared as a whole, so nil and empty are kept apart in it.\<close>

record node_selector =
  ns_MatchLabels :: "(string, string) fmap option"
  ns_MatchExpressions :: "k8s_object list option"

record 'q vm_class_spec =
  cls_NodeSelector :: node_selector
  cls_Tolerations :: "k8s_object list"
  cls_SizingPolicies :: "'q sizing_policy list"

record 'q vm_class =
  cls_Name :: string
  cls_Spec :: "'q vm_class_spec"


section \<open>An example\<close>

text \<open>The machine the witnesses evaluate the definitions on: two cores, 4 GiB, a root and a data disk.\<close>

definition example_root :: block_device_ref where
  "example_root = \<lparr> bd_Kind = DiskDevice, bd_Name = ''root'', bd_BootOrder = None \<rparr>"

definition example_data :: block_device_ref where
  "example_data = \<lparr> bd_Kind = DiskDevice, bd_Name = ''data'', bd_BootOrder = None \<rparr>"

definition example_spec :: "int vm_spec" where
  "example_spec =
     \<lparr> RunPolicy = AlwaysOnPolicy, VirtualMachineIPAddress = '''', TopologySpreadConstraints = [],
       Affinity = None, NodeSelector = fmempty, PriorityClassName = '''', Tolerations = [],
       Disruptions = Some \<lparr> RestartApprovalMode = Manual \<rparr>, TerminationGracePeriodSeconds = Some 60,
       EnableParavirtualization = Some True, OsType = GenericOs, Bootloader = BIOS,
       VirtualMachineClassName = ''generic'', CPU = \<lparr> Cores = 2, CoreFraction = ''10%'' \<rparr>,
       MemorySize = 4 * 1024 ^ 3 * nano_per_unit, BlockDeviceRefs = [example_root, example_data],
       Provisioning = None, LiveMigrationPolicy = ''PreferSafe'', Networks = None, USBDevices = None,
       GPUs = [] \<rparr>"


definition example_status :: vm_status where
  "example_status = \<lparr> Phase = ''Running'', RecommendedResources = None, StatusNetworks = [],
     VirtualMachinePods = [], StatusVirtualMachineIPAddress = '''', StatusNode = '''', StatusMigrationState = None,
     Conditions = [] \<rparr>"

definition example_vm :: "int virtual_machine" where
  "example_vm = \<lparr> vm_Name = ''vm'', vm_Namespace = ''default'', vm_UID = ''uid'', vm_Generation = 1, vm_Deleting = False, vm_Spec = example_spec,
     vm_Status = example_status \<rparr>"

definition example_policy :: "int sizing_policy" where
  "example_policy =
     \<lparr> sp_Memory = Some \<lparr> mm_Min = Some (2 * 1024 ^ 3 * nano_per_unit),
         mm_Max = Some (16 * 1024 ^ 3 * nano_per_unit), spm_Step = Some (2 * 1024 ^ 3 * nano_per_unit),
         spm_PerCore = None \<rparr>,
       sp_CoreFractions = [5, 10, 50, 100], sp_DefaultCoreFraction = None, sp_DedicatedCores = [],
       sp_Cores = Some \<lparr> spc_Min = 2, spc_Max = 8, spc_Step = 2 \<rparr> \<rparr>"

definition example_class :: "int vm_class" where
  "example_class = \<lparr> cls_Name = ''generic'', cls_Spec =
     \<lparr> cls_NodeSelector = \<lparr> ns_MatchLabels = None, ns_MatchExpressions = None \<rparr>, cls_Tolerations = [],
       cls_SizingPolicies = [example_policy] \<rparr> \<rparr>"

end
