(* ===== verification/VMChange.thy ===== *)
theory VMChange
  imports ApiTypes
begin

text \<open>
  The vocabulary of specification changes (\<^verbatim>\<open>pkg/controller/vmchange\<close>: \<^verbatim>\<open>field_change.go\<close>,
  \<^verbatim>\<open>comparator_operations.go\<close>, \<^verbatim>\<open>spec_changes.go\<close>): what a change of one field is, how two values of
  a field are compared, and how the changes of a specification are collected, upgraded and reduced
  to the action the controller has to take.
\<close>

named_theorems change_simps \<open>definitions of the comparison operations\<close>

section \<open>field\_change.go\<close>

datatype change_operation = ChangeNone | ChangeAdd | ChangeRemove | ChangeReplace

text \<open>
  \<^verbatim>\<open>ActionType\<close> is an open string type with three constants; any other string is \<open>OtherAction\<close>.
\<close>

datatype action_type = ActionNone | ActionRestart | ActionApplyImmediate | OtherAction string

fun actionDisruptionOrder :: "action_type \<Rightarrow> int option" where
  "actionDisruptionOrder ActionNone = Some 0"
| "actionDisruptionOrder ActionApplyImmediate = Some 1"
| "actionDisruptionOrder ActionRestart = Some 2"
| "actionDisruptionOrder (OtherAction _) = None"

text \<open>The dynamic types the \<^verbatim>\<open>interface{}\<close> fields of a change hold.\<close>

datatype 'q any =
    NilValue
  | StringValue string
  | QuantityValue 'q
  | IntValue int
  | PtrInt64Value "int option"
  | BoolValue bool
  | PtrBoolValue "bool option"
  | DisruptionsValue "disruptions option"
  | ProvisioningValue "provisioning option"
  | SecretRefValue "secret_ref option"
  | CPUValue cpu_spec
  | BlockDeviceRefsValue "block_device_ref list"
  | BlockDeviceRefValue block_device_ref
  | ObjectsValue "k8s_object list"
  | ObjectPtrValue "k8s_object option"
  | LabelsValue "(string, string) fmap"
  | ClassNodeSelectorValue node_selector
  | NetworksValue "networks_spec list option"
  | NamesValue "string list option"

record 'q field_change =
  Operation :: change_operation
  Path :: string
  CurrentValue :: "'q any"
  DesiredValue :: "'q any"
  ActionRequired :: action_type
  RestartMessage :: string

fun HasChanges :: "'q field_change list \<Rightarrow> bool" where
  "HasChanges [] = False"
| "HasChanges (change # changes) = (if Operation change \<noteq> ChangeNone then True else HasChanges changes)"

text \<open>\<^verbatim>\<open>cmp.Compare\<close> of the standard library on integers.\<close>

definition cmp_compare :: "int \<Rightarrow> int \<Rightarrow> int" where
  "cmp_compare x y = (if x < y then -1 else if x > y then 1 else 0)"

definition action_Cmp :: "action_type \<Rightarrow> action_type \<Rightarrow> int" where
  "action_Cmp a other =
     (case (actionDisruptionOrder a, actionDisruptionOrder other) of
        (Some aOrder, Some otherOrder) \<Rightarrow> cmp_compare aOrder otherOrder
      | _ \<Rightarrow> 0)"

fun MostDisruptiveAction_loop :: "action_type \<Rightarrow> action_type list \<Rightarrow> action_type" where
  "MostDisruptiveAction_loop result [] = result"
| "MostDisruptiveAction_loop result (action # actions) =
     (if action = ActionRestart then action
      else if action_Cmp action result = 1 then MostDisruptiveAction_loop action actions
      else MostDisruptiveAction_loop result actions)"

definition MostDisruptiveAction :: "action_type list \<Rightarrow> action_type" where
  "MostDisruptiveAction actions = MostDisruptiveAction_loop ActionNone actions"

section \<open>comparator\_operations.go\<close>

record 'q field_value =
  fv_Value :: "'q any"
  IsEmpty :: bool
  IsDefault :: bool

definition NewValue :: "'q any \<Rightarrow> bool \<Rightarrow> bool \<Rightarrow> 'q field_value" where
  "NewValue value isEmpty isDefault =
     \<lparr> fv_Value = value, IsEmpty = isEmpty, IsDefault = isDefault \<rparr>"

definition NewStringValue :: "string \<Rightarrow> string \<Rightarrow> 'q field_value" where
  "NewStringValue value defaultValue =
     (let isEmpty = (value = ''''); isDefault = (\<not> isEmpty \<and> value = defaultValue)
      in NewValue (StringValue value) isEmpty isDefault)"

definition NewQuantityValue :: "'q quantity_ops \<Rightarrow> 'q \<Rightarrow> 'q \<Rightarrow> 'q field_value" where
  "NewQuantityValue Q value defaultValue =
     (let isEmpty = q_isZero Q value;
          isDefault = (\<not> isEmpty \<and> q_cmp Q value defaultValue = 0)
      in NewValue (QuantityValue value) isEmpty isDefault)"

definition NewIntValue :: "int \<Rightarrow> int \<Rightarrow> 'q field_value" where
  "NewIntValue value defaultValue =
     (let isEmpty = (value = 0); isDefault = (\<not> isEmpty \<and> value = defaultValue)
      in NewValue (IntValue value) isEmpty isDefault)"

definition NewPtrInt64Value :: "int option \<Rightarrow> int \<Rightarrow> 'q field_value" where
  "NewPtrInt64Value value defaultValue =
     (let isEmpty = (value = None); isDefault = (value = Some defaultValue)
      in NewValue (PtrInt64Value value) isEmpty isDefault)"

definition isEqualPtrInt64 :: "int option \<Rightarrow> int option \<Rightarrow> bool" where
  "isEqualPtrInt64 a b =
     (case (a, b) of (None, None) \<Rightarrow> True | (Some x, Some y) \<Rightarrow> x = y | _ \<Rightarrow> False)"

definition NewBoolValue :: "bool \<Rightarrow> bool \<Rightarrow> 'q field_value" where
  "NewBoolValue value defaultValue =
     (let isDefault = (value = defaultValue) in NewValue (BoolValue value) False isDefault)"

definition NewPtrBoolValue :: "bool option \<Rightarrow> bool \<Rightarrow> 'q field_value" where
  "NewPtrBoolValue value defaultValue =
     (let isEmpty = (value = None); isDefault = (value = Some defaultValue)
      in NewValue (PtrBoolValue value) isEmpty isDefault)"

definition NewPtrValue :: "'q any \<Rightarrow> bool \<Rightarrow> 'q field_value" where
  "NewPtrValue value isNil = NewValue value isNil False"

text \<open>A change with the zero values of the fields its composite literal leaves out.\<close>

definition no_change :: "'q field_change" where
  "no_change = \<lparr> Operation = ChangeNone, Path = '''', CurrentValue = NilValue,
     DesiredValue = NilValue, ActionRequired = ActionNone, RestartMessage = '''' \<rparr>"

definition compareEmpty ::
  "string \<Rightarrow> 'q field_value \<Rightarrow> 'q field_value \<Rightarrow> action_type \<Rightarrow> 'q field_change list" where
  "compareEmpty path currentValue desiredValue onChange =
     (if IsEmpty currentValue \<and> IsEmpty desiredValue then [no_change]
      else if IsEmpty currentValue \<and> \<not> IsEmpty desiredValue then
        [no_change\<lparr> Operation := ChangeAdd, Path := path, DesiredValue := fv_Value desiredValue,
           ActionRequired := (if IsDefault desiredValue then ActionNone else onChange) \<rparr>]
      else if \<not> IsEmpty currentValue \<and> IsEmpty desiredValue then
        [no_change\<lparr> Operation := ChangeRemove, Path := path, CurrentValue := fv_Value currentValue,
           ActionRequired := (if IsDefault currentValue then ActionNone else onChange) \<rparr>]
      else [])"

definition compareValues ::
  "string \<Rightarrow> 'q field_value \<Rightarrow> 'q field_value \<Rightarrow> bool \<Rightarrow> action_type \<Rightarrow> 'q field_change list" where
  "compareValues path currentValue desiredValue isEqual onChange =
     (let changes = compareEmpty path currentValue desiredValue onChange
      in if length changes > 0 then changes
         else if \<not> isEqual then
           [no_change\<lparr> Operation := ChangeReplace, Path := path,
              CurrentValue := fv_Value currentValue, DesiredValue := fv_Value desiredValue,
              ActionRequired := onChange \<rparr>]
         else [])"

definition compareStrings ::
  "string \<Rightarrow> string \<Rightarrow> string \<Rightarrow> string \<Rightarrow> action_type \<Rightarrow> 'q field_change list" where
  "compareStrings path current desired defaultValue onChange =
     compareValues path (NewStringValue current defaultValue) (NewStringValue desired defaultValue)
       (current = desired) onChange"

definition compareQuantity ::
  "'q quantity_ops \<Rightarrow> string \<Rightarrow> 'q \<Rightarrow> 'q \<Rightarrow> 'q \<Rightarrow> action_type \<Rightarrow> 'q field_change list" where
  "compareQuantity Q path current desired defaultValue onChange =
     compareValues path (NewQuantityValue Q current defaultValue)
       (NewQuantityValue Q desired defaultValue) (q_equal Q current desired) onChange"

definition compareInts ::
  "string \<Rightarrow> int \<Rightarrow> int \<Rightarrow> int \<Rightarrow> action_type \<Rightarrow> 'q field_change list" where
  "compareInts path current desired defaultValue onChange =
     compareValues path (NewIntValue current defaultValue) (NewIntValue desired defaultValue)
       (current = desired) onChange"

definition comparePtrInt64 ::
  "string \<Rightarrow> int option \<Rightarrow> int option \<Rightarrow> int \<Rightarrow> action_type \<Rightarrow> 'q field_change list" where
  "comparePtrInt64 path current desired defaultValue onChange =
     (if current = None \<and> desired = None then []
      else compareValues path (NewPtrInt64Value current defaultValue)
             (NewPtrInt64Value desired defaultValue) (isEqualPtrInt64 current desired) onChange)"

definition comparePtrBools ::
  "string \<Rightarrow> bool option \<Rightarrow> bool option \<Rightarrow> bool \<Rightarrow> action_type \<Rightarrow> 'q field_change list" where
  "comparePtrBools path current desired defaultValue onChange =
     (if current = None \<and> desired = None then []
      else compareValues path (NewPtrBoolValue current defaultValue)
             (NewPtrBoolValue desired defaultValue) (current = desired) onChange)"

declare NewValue_def [change_simps] NewStringValue_def [change_simps]
  NewQuantityValue_def [change_simps] NewIntValue_def [change_simps]
  NewPtrInt64Value_def [change_simps] NewBoolValue_def [change_simps]
  NewPtrBoolValue_def [change_simps] NewPtrValue_def [change_simps]
  compareEmpty_def [change_simps] compareValues_def [change_simps]
  compareStrings_def [change_simps] compareQuantity_def [change_simps]
  compareInts_def [change_simps] comparePtrInt64_def [change_simps]
  comparePtrBools_def [change_simps] no_change_def [change_simps]
  isEqualPtrInt64_def [change_simps] Let_def [change_simps]

section \<open>spec\_changes.go\<close>

text \<open>
  \<^verbatim>\<open>SpecChanges\<close> holds one slice; the methods with a pointer receiver that modify it return the
  new value.
\<close>

record 'q spec_changes =
  changes :: "'q field_change list"

abbreviation empty_changes :: "'q spec_changes" where
  "empty_changes \<equiv> \<lparr> changes = [] \<rparr>"

abbreviation cpuPath :: string where "cpuPath \<equiv> ''cpu''"
abbreviation memoryPath :: string where "memoryPath \<equiv> ''memory''"
abbreviation blockDevicesPath :: string where "blockDevicesPath \<equiv> ''blockDeviceRefs''"

definition IsEmpty_changes :: "'q spec_changes \<Rightarrow> bool" where
  "IsEmpty_changes s \<longleftrightarrow> length (changes s) = 0"

definition GetAll :: "'q spec_changes \<Rightarrow> 'q field_change list" where
  "GetAll s = changes s"

definition GetRestartMessages :: "'q spec_changes \<Rightarrow> string list" where
  "GetRestartMessages s =
     map RestartMessage (filter (\<lambda>change. RestartMessage change \<noteq> '''') (changes s))"

text \<open>
  \<^verbatim>\<open>json.Marshal\<close> is a parameter: it gives an error or the bytes of one change.  An error stops the
  loop and is reported with the index of the change.
\<close>

fun convertPendingChanges_loop ::
  "('q field_change \<Rightarrow> ('e, string) result) \<Rightarrow> ('q field_change \<Rightarrow> bool) \<Rightarrow> nat \<Rightarrow>
     'q field_change list \<Rightarrow> (nat \<times> 'e, string list) result" where
  "convertPendingChanges_loop marshal incl i [] = Inr []"
| "convertPendingChanges_loop marshal incl i (change # rest) =
     (if \<not> incl change then convertPendingChanges_loop marshal incl (Suc i) rest
      else case marshal change of
             Inl err \<Rightarrow> Inl (i, err)
           | Inr b \<Rightarrow> (case convertPendingChanges_loop marshal incl (Suc i) rest of
                        Inl e \<Rightarrow> Inl e
                      | Inr res \<Rightarrow> Inr (b # res)))"

definition convertPendingChanges ::
  "('q field_change \<Rightarrow> ('e, string) result) \<Rightarrow> 'q spec_changes \<Rightarrow> ('q field_change \<Rightarrow> bool) \<Rightarrow>
     (nat \<times> 'e, string list) result" where
  "convertPendingChanges marshal s incl = convertPendingChanges_loop marshal incl 0 (changes s)"

definition ConvertPendingRestartChanges ::
  "('q field_change \<Rightarrow> ('e, string) result) \<Rightarrow> 'q spec_changes \<Rightarrow> (nat \<times> 'e, string list) result" where
  "ConvertPendingRestartChanges marshal s =
     convertPendingChanges marshal s (\<lambda>change. ActionRequired change = ActionRestart)"

definition path_is_or_below :: "string \<Rightarrow> string \<Rightarrow> bool" where
  "path_is_or_below p root \<longleftrightarrow> p = root \<or> has_prefix p (root @ ''.'')"

definition UpgradeBlockDeviceChangesToRestartMatching ::
  "('q field_change \<Rightarrow> bool) option \<Rightarrow> 'q spec_changes \<Rightarrow> 'q spec_changes" where
  "UpgradeBlockDeviceChangesToRestartMatching shouldUpgrade s =
     s\<lparr> changes := map (\<lambda>c.
          if path_is_or_below (Path c) blockDevicesPath \<and> ActionRequired c = ActionApplyImmediate \<and>
             (case shouldUpgrade of None \<Rightarrow> True | Some f \<Rightarrow> f c)
          then c\<lparr> ActionRequired := ActionRestart \<rparr> else c) (changes s) \<rparr>"

fun UpgradeHotplug_loop ::
  "string \<Rightarrow> bool \<Rightarrow> 'q field_change list \<Rightarrow> 'q field_change list" where
  "UpgradeHotplug_loop message messageAssigned [] = []"
| "UpgradeHotplug_loop message messageAssigned (c # cs) =
     (if (path_is_or_below (Path c) cpuPath \<or> path_is_or_below (Path c) memoryPath) \<and>
         ActionRequired c = ActionApplyImmediate
      then if message \<noteq> '''' \<and> RestartMessage c = '''' \<and> \<not> messageAssigned
           then c\<lparr> ActionRequired := ActionRestart, RestartMessage := message \<rparr>
                  # UpgradeHotplug_loop message True cs
           else c\<lparr> ActionRequired := ActionRestart \<rparr> # UpgradeHotplug_loop message messageAssigned cs
      else c # UpgradeHotplug_loop message messageAssigned cs)"

definition UpgradeHotplugComputeChangesToRestartWithMessage ::
  "string \<Rightarrow> 'q spec_changes \<Rightarrow> 'q spec_changes" where
  "UpgradeHotplugComputeChangesToRestartWithMessage message s =
     s\<lparr> changes := UpgradeHotplug_loop message False (changes s) \<rparr>"

definition UpgradeHotplugComputeChangesToRestart :: "'q spec_changes \<Rightarrow> 'q spec_changes" where
  "UpgradeHotplugComputeChangesToRestart s = UpgradeHotplugComputeChangesToRestartWithMessage '''' s"

definition Add :: "'q spec_changes \<Rightarrow> 'q field_change list \<Rightarrow> 'q spec_changes" where
  "Add s cs = s\<lparr> changes := changes s @ cs \<rparr>"

fun find_type :: "action_type list \<Rightarrow> 'q field_change list \<Rightarrow> action_type" where
  "find_type [] cs = ActionNone"
| "find_type (typ # typs) cs =
     (if list_ex (\<lambda>fieldChange. ActionRequired fieldChange = typ) cs then typ else find_type typs cs)"

definition ActionType :: "'q spec_changes \<Rightarrow> action_type" where
  "ActionType s =
     (if IsEmpty_changes s then ActionNone
      else find_type [ActionRestart, ActionApplyImmediate] (changes s))"

definition IsDisruptive :: "'q spec_changes \<Rightarrow> bool" where
  "IsDisruptive s \<longleftrightarrow> ActionType s = ActionRestart"

text \<open>
  \<^verbatim>\<open>ToJSON\<close> and \<^verbatim>\<open>ToYAML\<close> sort the receiver's slice in place, stably and by path, and serialize it;
  the serializer is a parameter, and the result pairs the sorted receiver with the text.
\<close>

definition sort_by_path :: "'q spec_changes \<Rightarrow> 'q spec_changes" where
  "sort_by_path s = s\<lparr> changes := sort_key Path (changes s) \<rparr>"

definition ToJSON :: "('q field_change list \<Rightarrow> string) \<Rightarrow> 'q spec_changes \<Rightarrow> 'q spec_changes \<times> string" where
  "ToJSON marshal s = (let s' = sort_by_path s in (s', marshal (changes s')))"

definition ToYAML :: "('q field_change list \<Rightarrow> string) \<Rightarrow> 'q spec_changes \<Rightarrow> 'q spec_changes \<times> string" where
  "ToYAML marshal s = (let s' = sort_by_path s in (s', marshal (changes s')))"

section \<open>Comparing two values\<close>

lemma HasChanges_iff: "HasChanges cs \<longleftrightarrow> (\<exists>c \<in> set cs. Operation c \<noteq> ChangeNone)"
  by (induction cs) auto

lemma HasChanges_append [simp]: "HasChanges (cs @ ds) \<longleftrightarrow> HasChanges cs \<or> HasChanges ds"
  by (auto simp: HasChanges_iff)

lemma HasChanges_compareEmpty: "HasChanges (compareEmpty p c d act) \<longleftrightarrow> IsEmpty c \<noteq> IsEmpty d"
  by (auto simp: compareEmpty_def no_change_def)

lemma HasChanges_compareValues:
  "HasChanges (compareValues p c d eq act) \<longleftrightarrow>
     IsEmpty c \<noteq> IsEmpty d \<or> (\<not> IsEmpty c \<and> \<not> IsEmpty d \<and> \<not> eq)"
  by (auto simp: compareValues_def compareEmpty_def no_change_def)

text \<open>A comparison of two values gives at most one change; its path and its action are the given ones.\<close>

lemma compareEmpty_change:
  "x \<in> set (compareEmpty p c d act) \<Longrightarrow> Operation x \<noteq> ChangeNone \<Longrightarrow>
     Path x = p \<and> ActionRequired x \<in> {ActionNone, act} \<and> compareEmpty p c d act = [x]"
  by (auto simp: compareEmpty_def no_change_def split: if_splits)

lemma compareValues_change:
  "x \<in> set (compareValues p c d eq act) \<Longrightarrow> Operation x \<noteq> ChangeNone \<Longrightarrow>
     Path x = p \<and> ActionRequired x \<in> {ActionNone, act} \<and> compareValues p c d eq act = [x]"
  by (auto simp: compareValues_def compareEmpty_def no_change_def split: if_splits)

lemma HasChanges_compareStrings:
  "HasChanges (compareStrings p c d def act) \<longleftrightarrow> c \<noteq> d"
  by (auto simp: compareStrings_def HasChanges_compareValues NewStringValue_def NewValue_def Let_def)

lemma HasChanges_compareInts:
  "HasChanges (compareInts p c d def act) \<longleftrightarrow> c \<noteq> d"
  by (auto simp: compareInts_def HasChanges_compareValues NewIntValue_def NewValue_def Let_def)

lemma HasChanges_comparePtrInt64:
  "HasChanges (comparePtrInt64 p c d def act) \<longleftrightarrow> c \<noteq> d"
  by (cases c; cases d) (auto simp: comparePtrInt64_def HasChanges_compareValues
      NewPtrInt64Value_def NewValue_def isEqualPtrInt64_def Let_def)

lemma HasChanges_comparePtrBools:
  "HasChanges (comparePtrBools p c d def act) \<longleftrightarrow> c \<noteq> d"
  by (cases c; cases d) (auto simp: comparePtrBools_def HasChanges_compareValues
      NewPtrBoolValue_def NewValue_def Let_def)

lemma HasChanges_compareQuantity:
  "quantity_laws Q nano \<Longrightarrow> HasChanges (compareQuantity Q p c d def act) \<longleftrightarrow> nano c \<noteq> nano d"
  by (auto simp: compareQuantity_def HasChanges_compareValues NewQuantityValue_def NewValue_def
      Let_def quantity_lawsD)

lemmas HasChanges_compare = HasChanges_compareStrings HasChanges_compareInts
  HasChanges_comparePtrInt64 HasChanges_comparePtrBools HasChanges_compareEmpty
  HasChanges_compareValues

text \<open>
  Replacing an unset value by its default, or a default by the unset value, is recorded as
  an addition or a removal that requires no action, whatever action a change of the field requires.
\<close>

lemma default_value_needs_no_action:
  assumes "dflt \<noteq> ''''"
  shows "map ActionRequired (compareStrings p '''' dflt dflt act) = [ActionNone] \<and>
    map Operation (compareStrings p '''' dflt dflt act) = [ChangeAdd] \<and>
    map ActionRequired (compareStrings p dflt '''' dflt act) = [ActionNone] \<and>
    map Operation (compareStrings p dflt '''' dflt act) = [ChangeRemove]"
  using assms by (simp add: change_simps)

section \<open>The most disruptive action\<close>

lemma MostDisruptive_loop_Restart:
  "MostDisruptiveAction_loop r as = ActionRestart \<longleftrightarrow> r = ActionRestart \<or> ActionRestart \<in> set as"
proof (induction as arbitrary: r)
  case Nil
  then show ?case by simp
next
  case (Cons a as)
  have "action_Cmp a ActionRestart \<noteq> 1" for a
    by (cases a) (auto simp: action_Cmp_def cmp_compare_def)
  then show ?case using Cons.IH by auto
qed

lemma MostDisruptive_loop_Apply:
  "ActionRestart \<notin> set as \<Longrightarrow>
     MostDisruptiveAction_loop ActionNone as =
       (if ActionApplyImmediate \<in> set as then ActionApplyImmediate else ActionNone) \<and>
     MostDisruptiveAction_loop ActionApplyImmediate as = ActionApplyImmediate"
proof (induction as)
  case Nil
  then show ?case by simp
next
  case (Cons a as)
  then show ?case
    by (cases a) (auto simp: action_Cmp_def cmp_compare_def)
qed

lemma MostDisruptiveAction_char:
  "MostDisruptiveAction as =
     (if ActionRestart \<in> set as then ActionRestart
      else if ActionApplyImmediate \<in> set as then ActionApplyImmediate else ActionNone)"
proof (cases "ActionRestart \<in> set as")
  case True
  then show ?thesis
    using MostDisruptive_loop_Restart [of ActionNone as] by (simp add: MostDisruptiveAction_def)
next
  case False
  then show ?thesis
    using MostDisruptive_loop_Apply [OF False] by (simp add: MostDisruptiveAction_def)
qed

lemma ActionType_char:
  "ActionType s =
     (if \<exists>c \<in> set (changes s). ActionRequired c = ActionRestart then ActionRestart
      else if \<exists>c \<in> set (changes s). ActionRequired c = ActionApplyImmediate
      then ActionApplyImmediate else ActionNone)"
  by (auto simp: ActionType_def IsEmpty_changes_def list_ex_iff)

lemma ActionType_range: "ActionType s \<in> {ActionNone, ActionApplyImmediate, ActionRestart}"
  by (simp add: ActionType_char)

text \<open>
  The action of a collection of changes, found by scanning for the most dangerous action
  first, is the one \<open>MostDisruptiveAction\<close> finds by comparing the actions pairwise, and it is an
  upper bound of every action of the collection in the disruption order.
\<close>

lemma ActionType_is_most_disruptive:
  "ActionType s = MostDisruptiveAction (map ActionRequired (changes s)) \<and>
   list_all (\<lambda>c. action_Cmp (ActionRequired c) (ActionType s) \<noteq> 1) (changes s)"
proof -
  have "action_Cmp (ActionRequired c) (ActionType s) \<noteq> 1" if "c \<in> set (changes s)" for c
    using that by (cases "ActionRequired c")
      (force simp: ActionType_char action_Cmp_def cmp_compare_def split: if_splits)+
  moreover have "ActionType s = MostDisruptiveAction (map ActionRequired (changes s))"
    by (simp add: ActionType_char MostDisruptiveAction_char image_iff eq_commute)
  ultimately show ?thesis
    by (simp add: list_all_iff)
qed

section \<open>Upgrades, serialization and pending changes\<close>

definition compute_change :: "'q field_change \<Rightarrow> bool" where
  "compute_change c \<longleftrightarrow> path_is_or_below (Path c) cpuPath \<or> path_is_or_below (Path c) memoryPath"

definition upgraded_from :: "'q field_change \<Rightarrow> 'q field_change \<Rightarrow> bool" where
  "upgraded_from c c' \<longleftrightarrow> Path c' = Path c \<and> Operation c' = Operation c \<and>
     ActionRequired c' = (if compute_change c \<and> ActionRequired c = ActionApplyImmediate
                          then ActionRestart else ActionRequired c)"

lemma UpgradeHotplug_loop_pointwise:
  "list_all2 upgraded_from cs (UpgradeHotplug_loop msg assigned cs)"
  by (induction cs arbitrary: assigned) (auto simp: compute_change_def upgraded_from_def)

lemma upgraded_changes:
  "list_all2 upgraded_from (changes s)
     (changes (UpgradeHotplugComputeChangesToRestartWithMessage msg s))"
  by (simp add: UpgradeHotplugComputeChangesToRestartWithMessage_def UpgradeHotplug_loop_pointwise)

text \<open>
  When compute hotplug is impossible, the upgrade leaves no CPU or memory change to be
  applied immediately, touches the action of no other change, keeps the number, the order, the paths
  and the operations of the changes, and never makes the overall action less disruptive.
\<close>

lemma UpgradeHotplug_correct:
  "list_all2 upgraded_from (changes s)
     (changes (UpgradeHotplugComputeChangesToRestartWithMessage msg s)) \<and>
   action_Cmp (ActionType s)
     (ActionType (UpgradeHotplugComputeChangesToRestartWithMessage msg s)) \<noteq> 1"
proof -
  let ?t = "UpgradeHotplugComputeChangesToRestartWithMessage msg s"
  have kept: "\<exists>c' \<in> set (changes ?t).
      ActionRequired c' = ActionRequired c \<or> ActionRequired c' = ActionRestart"
    if c: "c \<in> set (changes s)" for c
  proof -
    from c obtain i where i: "i < length (changes s)" "changes s ! i = c"
      by (auto simp: in_set_conv_nth)
    with upgraded_changes [of s msg] have "upgraded_from c (changes ?t ! i)" "i < length (changes ?t)"
      by (auto simp: list_all2_conv_all_nth)
    then show ?thesis
      by (intro bexI [of _ "changes ?t ! i"]) (auto simp: upgraded_from_def)
  qed
  then have "ActionType s = ActionRestart \<Longrightarrow> ActionType ?t = ActionRestart"
    and "ActionType s = ActionApplyImmediate \<Longrightarrow> ActionType ?t \<noteq> ActionNone"
    by (auto simp: ActionType_char split: if_splits) metis+
  then have "action_Cmp (ActionType s) (ActionType ?t) \<noteq> 1"
    using ActionType_range [of s] ActionType_range [of ?t]
    by (auto simp: action_Cmp_def cmp_compare_def)
  with upgraded_changes show ?thesis by blast
qed

lemma ActionType_set: "set (changes s) = set (changes t) \<Longrightarrow> ActionType s = ActionType t"
  by (simp add: ActionType_char)

text \<open>
  Serializing the changes reorders them stably by path: the result is sorted by path,
  changes of one path keep their order, and neither emptiness nor the required action of the
  collection is affected.
\<close>

lemma ToJSON_reorders:
  "sorted (map Path (changes (fst (ToJSON marshal s)))) \<and>
   (\<forall>p. filter (\<lambda>c. Path c = p) (changes (fst (ToJSON marshal s))) =
        filter (\<lambda>c. Path c = p) (changes s)) \<and>
   IsEmpty_changes (fst (ToJSON marshal s)) = IsEmpty_changes s \<and>
   ActionType (fst (ToJSON marshal s)) = ActionType s"
proof -
  have "ActionType (sort_by_path s) = ActionType s"
    by (rule ActionType_set) (simp add: sort_by_path_def)
  then show ?thesis
    by (simp add: ToJSON_def sort_by_path_def Let_def IsEmpty_changes_def sort_key_stable)
qed

lemma convertPendingChanges_loop_ok:
  "convertPendingChanges_loop marshal incl i cs = Inr bs \<longleftrightarrow>
     map marshal (filter incl cs) = map Inr bs"
  by (induction cs arbitrary: i bs) (auto split: sum.splits, metis sum.distinct(2))

lemma convertPendingChanges_loop_err:
  "convertPendingChanges_loop marshal incl i cs = Inl (k, e) \<Longrightarrow>
     i \<le> k \<and> k - i < length cs \<and> incl (cs ! (k - i)) \<and> marshal (cs ! (k - i)) = Inl e"
proof (induction cs arbitrary: i)
  case Nil
  then show ?case by simp
next
  case (Cons c cs)
  show ?case
  proof (cases "incl c \<and> (\<exists>e. marshal c = Inl e)")
    case True
    with Cons.prems show ?thesis by auto
  next
    case False
    with Cons.prems have "convertPendingChanges_loop marshal incl (Suc i) cs = Inl (k, e)"
      by (auto split: if_splits sum.splits)
    note IH = Cons.IH [OF this]
    then have "k - i = Suc (k - Suc i)" by (simp add: Suc_diff_Suc Suc_le_eq)
    with IH show ?thesis by simp
  qed
qed

end
