(* ===== verification/SizingPolicy.thy ===== *)
theory SizingPolicy
  imports ApiTypes
begin

text \<open>
  Core fractions and sizing policies (\<^verbatim>\<open>pkg/common/sizing_policy/sizing_policy.go\<close>): the policy that
  covers a number of cores, the grid of core fractions the vertical autoscaler may choose from, the
  rounding onto that grid, and the fraction that is finally applied to a virtual machine.
\<close>

abbreviation (input) MinCoreFraction :: int where "MinCoreFraction \<equiv> 1"
abbreviation (input) MaxCoreFraction :: int where "MaxCoreFraction \<equiv> 100"
abbreviation (input) MaxAutoCoreFraction :: int where "MaxAutoCoreFraction \<equiv> 99"
abbreviation (input) SeedAutoCoreFractionTarget :: int where "SeedAutoCoreFractionTarget \<equiv> 10"
abbreviation (input) MinAutoCoreFractionSteps :: nat where "MinAutoCoreFractionSteps \<equiv> 2"

definition FormatCoreFractionValues :: "int list \<Rightarrow> string list" where
  "FormatCoreFractionValues cf = map (\<lambda>v. show_int v @ ''%'') cf"

definition DefaultAutoCoreFractionSteps :: "int list" where
  "DefaultAutoCoreFractionSteps = [5, 10, 15, 20, 30, 40, 50, 60, 70, 80, 90, MaxAutoCoreFraction]"

fun match_policies :: "'q sizing_policy list \<Rightarrow> int \<Rightarrow> 'q sizing_policy option" where
  "match_policies [] cores = None"
| "match_policies (sp # sps) cores =
     (case sp_Cores sp of
        None \<Rightarrow> match_policies sps cores
      | Some c \<Rightarrow> if spc_Min c \<le> cores \<and> cores \<le> spc_Max c then Some sp
                  else match_policies sps cores)"

definition MatchSizingPolicy :: "'q vm_class option \<Rightarrow> int \<Rightarrow> 'q sizing_policy option" where
  "MatchSizingPolicy class cores =
     (case class of
        None \<Rightarrow> None
      | Some cls \<Rightarrow> match_policies (cls_SizingPolicies (cls_Spec cls)) cores)"

definition clamp :: "int \<Rightarrow> int \<Rightarrow> int \<Rightarrow> int" where
  "clamp v lo hi = (if v < lo then lo else if v > hi then hi else v)"

text \<open>The arithmetic is Go's on 64-bit integers.\<close>

definition NeededCoreFraction :: "int \<Rightarrow> int \<Rightarrow> int" where
  "NeededCoreFraction cores targetMilliCPU =
     (if cores \<le> 0 then MaxAutoCoreFraction
      else let denom = wrap64 (cores * 10);
               fraction = wrap64 (wrap64 (targetMilliCPU + denom) - 1) sdiv denom
           in clamp fraction MinCoreFraction MaxAutoCoreFraction)"

fun first_at_least :: "int \<Rightarrow> int list \<Rightarrow> int option" where
  "first_at_least raw [] = None"
| "first_at_least raw (v # vs) = (if v \<ge> raw then Some v else first_at_least raw vs)"

definition QuantizeCoreFractionUp :: "int \<Rightarrow> int list \<Rightarrow> int" where
  "QuantizeCoreFractionUp raw allowed =
     (if length allowed = 0 then raw
      else let sorted = sort allowed
           in case first_at_least raw sorted of Some v \<Rightarrow> v | None \<Rightarrow> last sorted)"

fun max_fraction :: "int \<Rightarrow> int list \<Rightarrow> int" where
  "max_fraction m [] = m"
| "max_fraction m (f # fs) = (if f > m then max_fraction f fs else max_fraction m fs)"

definition MaxAllowedCoreFraction :: "'q vm_class option \<Rightarrow> int \<Rightarrow> int" where
  "MaxAllowedCoreFraction class cores =
     (case MatchSizingPolicy class cores of
        None \<Rightarrow> MaxCoreFraction
      | Some sp \<Rightarrow> if length (sp_CoreFractions sp) = 0 then MaxCoreFraction
                   else max_fraction MinCoreFraction (sp_CoreFractions sp))"

text \<open>The loop that collects the steps; \<open>seen\<close> is the set of values already taken.\<close>

fun collect_steps :: "int list \<Rightarrow> int list \<Rightarrow> int list" where
  "collect_steps seen [] = []"
| "collect_steps seen (v # vs) =
     (if v \<ge> MaxCoreFraction then collect_steps seen vs
      else if v \<in> set seen then collect_steps seen vs
      else v # collect_steps (v # seen) vs)"

definition AutoCoreFractionSteps :: "'q sizing_policy option \<Rightarrow> int list" where
  "AutoCoreFractionSteps sp =
     (case sp of
        None \<Rightarrow> DefaultAutoCoreFractionSteps
      | Some p \<Rightarrow> if length (sp_CoreFractions p) = 0 then DefaultAutoCoreFractionSteps
                  else sort (collect_steps [] (sp_CoreFractions p)))"

definition AutoCoreFractions :: "'q vm_class option \<Rightarrow> int \<Rightarrow> int list" where
  "AutoCoreFractions class cores = AutoCoreFractionSteps (MatchSizingPolicy class cores)"

definition CanAutoscaleCoreFraction :: "'q sizing_policy option \<Rightarrow> bool" where
  "CanAutoscaleCoreFraction sp \<longleftrightarrow> length (AutoCoreFractionSteps sp) \<ge> MinAutoCoreFractionSteps"

fun closest_to_seed :: "int \<Rightarrow> int list \<Rightarrow> int" where
  "closest_to_seed seed [] = seed"
| "closest_to_seed seed (s # ss) =
     (if \<bar>s - SeedAutoCoreFractionTarget\<bar> < \<bar>seed - SeedAutoCoreFractionTarget\<bar>
      then closest_to_seed s ss else closest_to_seed seed ss)"

definition SeedAutoCoreFraction :: "'q vm_class option \<Rightarrow> int \<Rightarrow> int" where
  "SeedAutoCoreFraction class cores =
     (case AutoCoreFractions class cores of
        [] \<Rightarrow> SeedAutoCoreFractionTarget
      | s # ss \<Rightarrow> closest_to_seed s ss)"

definition RecommendedCoreFraction :: "'q virtual_machine option \<Rightarrow> string" where
  "RecommendedCoreFraction vm =
     (case vm of
        None \<Rightarrow> ''''
      | Some m \<Rightarrow> (case RecommendedResources (vm_Status m) of None \<Rightarrow> '''' | Some cf \<Rightarrow> cf))"

definition EffectiveCoreFraction :: "'q virtual_machine \<Rightarrow> 'q vm_class option \<Rightarrow> string" where
  "EffectiveCoreFraction vm class =
     (if CoreFraction (CPU (vm_Spec vm)) \<noteq> CoreFractionAuto then CoreFraction (CPU (vm_Spec vm))
      else let recommended = RecommendedCoreFraction (Some vm)
           in if recommended \<noteq> '''' then recommended
              else show_int (SeedAutoCoreFraction class (Cores (CPU (vm_Spec vm)))) @ ''%'')"

definition SetRecommendedCoreFraction :: "'q virtual_machine \<Rightarrow> string \<Rightarrow> 'q virtual_machine" where
  "SetRecommendedCoreFraction vm coreFraction =
     vm\<lparr> vm_Status := (vm_Status vm)\<lparr> RecommendedResources :=
           (if coreFraction = '''' then None else Some coreFraction) \<rparr> \<rparr>"

definition ParsePercent :: "string \<Rightarrow> int option" where
  "ParsePercent s = atoi (trim_suffix s ''%'')"

section \<open>Properties\<close>

lemma match_policies_Some:
  "match_policies sps cores = Some sp \<Longrightarrow>
     sp \<in> set sps \<and> (\<exists>c. sp_Cores sp = Some c \<and> spc_Min c \<le> cores \<and> cores \<le> spc_Max c)"
  by (induction sps) (auto split: option.splits if_splits)

lemma match_policies_None:
  "match_policies sps cores = None \<longleftrightarrow>
     (\<forall>sp \<in> set sps. \<forall>c. sp_Cores sp = Some c \<longrightarrow> \<not> (spc_Min c \<le> cores \<and> cores \<le> spc_Max c))"
  by (induction sps) (auto split: option.splits)

lemma first_at_least_None: "first_at_least raw vs = None \<longleftrightarrow> (\<forall>v \<in> set vs. v < raw)"
  by (induction vs) auto

lemma first_at_least_sorted:
  "sorted vs \<Longrightarrow> first_at_least raw vs = Some v \<Longrightarrow>
     v \<in> set vs \<and> raw \<le> v \<and> (\<forall>w \<in> set vs. raw \<le> w \<longrightarrow> v \<le> w)"
  by (induction vs) (auto split: if_splits)

lemma last_sorted_max: "sorted vs \<Longrightarrow> v \<in> set vs \<Longrightarrow> v \<le> last vs"
  by (induction vs) auto

lemma set_collect_steps: "set (collect_steps seen vs) = {v \<in> set vs. v < MaxCoreFraction} - set seen"
  by (induction vs arbitrary: seen) auto

lemma distinct_collect_steps: "distinct (collect_steps seen vs)"
  by (induction vs arbitrary: seen) (auto simp: set_collect_steps)

lemma AutoCoreFractionSteps_below: "f \<in> set (AutoCoreFractionSteps sp) \<Longrightarrow> f < MaxCoreFraction"
  by (auto simp: AutoCoreFractionSteps_def DefaultAutoCoreFractionSteps_def set_collect_steps
      split: option.splits if_splits)

lemma closest_to_seed_in: "closest_to_seed s ss \<in> insert s (set ss)"
  by (induction ss arbitrary: s) auto

lemma closest_to_seed_least:
  "t \<in> insert s (set ss) \<Longrightarrow>
     \<bar>closest_to_seed s ss - SeedAutoCoreFractionTarget\<bar> \<le> \<bar>t - SeedAutoCoreFractionTarget\<bar>"
proof (induction ss arbitrary: s t)
  case Nil
  then show ?case by simp
next
  case (Cons r ss)
  define s' where "s' = (if \<bar>r - SeedAutoCoreFractionTarget\<bar> < \<bar>s - SeedAutoCoreFractionTarget\<bar> then r else s)"
  have eq: "closest_to_seed s (r # ss) = closest_to_seed s' ss" by (simp add: s'_def)
  have le: "\<bar>s' - SeedAutoCoreFractionTarget\<bar> \<le> \<bar>s - SeedAutoCoreFractionTarget\<bar>"
    "\<bar>s' - SeedAutoCoreFractionTarget\<bar> \<le> \<bar>r - SeedAutoCoreFractionTarget\<bar>"
    by (auto simp: s'_def)
  show ?case
  proof (cases "t \<in> set ss")
    case True
    with Cons.IH [of t s'] show ?thesis by (simp only: eq) simp
  next
    case False
    with Cons.prems have "t = s \<or> t = r" by auto
    with Cons.IH [of s' s'] le show ?thesis by (simp only: eq) fastforce
  qed
qed

text \<open>Among steps in ascending order a tie is won by the lower step.\<close>

lemma closest_to_seed_tie:
  "sorted (s # ss) \<Longrightarrow> t \<in> insert s (set ss) \<Longrightarrow>
     \<bar>t - SeedAutoCoreFractionTarget\<bar> = \<bar>closest_to_seed s ss - SeedAutoCoreFractionTarget\<bar> \<Longrightarrow>
     closest_to_seed s ss \<le> t"
proof (induction ss arbitrary: s t)
  case Nil
  then show ?case by simp
next
  case (Cons r ss)
  show ?case
  proof (cases "\<bar>r - SeedAutoCoreFractionTarget\<bar> < \<bar>s - SeedAutoCoreFractionTarget\<bar>")
    case True
    have "t \<noteq> s"
      using True Cons.prems(3) closest_to_seed_least [of r r ss] by auto
    with True Cons.prems Cons.IH [of r t] show ?thesis by auto
  next
    case False
    have sorted: "sorted (s # ss)" using Cons.prems(1) by auto
    show ?thesis
    proof (cases "t \<in> insert s (set ss)")
      case True
      with False sorted Cons.prems Cons.IH [of s t] show ?thesis by auto
    next
      case False': False
      then have "t = r" using Cons.prems(2) by auto
      have "closest_to_seed s ss \<in> insert s (set ss)" by (rule closest_to_seed_in)
      have "\<bar>closest_to_seed s ss - SeedAutoCoreFractionTarget\<bar> \<le> \<bar>s - SeedAutoCoreFractionTarget\<bar>"
        by (rule closest_to_seed_least) simp
      with False \<open>t = r\<close> Cons.prems(3)
      have "\<bar>s - SeedAutoCoreFractionTarget\<bar> = \<bar>closest_to_seed s ss - SeedAutoCoreFractionTarget\<bar>" by auto
      then have "closest_to_seed s ss \<le> s" using Cons.IH [of s s] sorted by auto
      with \<open>t = r\<close> False Cons.prems(1) show ?thesis by auto
    qed
  qed
qed

lemma SeedAutoCoreFraction_below: "SeedAutoCoreFraction class cores < MaxCoreFraction"
proof (cases "AutoCoreFractions class cores")
  case Nil
  then show ?thesis by (simp add: SeedAutoCoreFraction_def)
next
  case (Cons s ss)
  have "closest_to_seed s ss \<in> set (AutoCoreFractions class cores)"
    using closest_to_seed_in [of s ss] Cons by simp
  then have "closest_to_seed s ss < MaxCoreFraction"
    unfolding AutoCoreFractions_def by (rule AutoCoreFractionSteps_below)
  with Cons show ?thesis by (simp add: SeedAutoCoreFraction_def)
qed

lemma ParsePercent_show: "in_int64 n \<Longrightarrow> ParsePercent (show_int n @ ''%'') = Some n"
  by (simp add: ParsePercent_def atoi_show_int)


text \<open>
  Rounding up onto a non-empty list of allowed fractions gives an allowed fraction: the
  least one that is not below the raw value, or the largest allowed one when all are below it.
\<close>

lemma QuantizeCoreFractionUp_least:
  assumes "allowed \<noteq> []"
  shows "QuantizeCoreFractionUp raw allowed \<in> set allowed \<and>
    (\<forall>v \<in> set allowed. raw \<le> v \<longrightarrow>
       raw \<le> QuantizeCoreFractionUp raw allowed \<and> QuantizeCoreFractionUp raw allowed \<le> v) \<and>
    ((\<forall>v \<in> set allowed. v < raw) \<longrightarrow> (\<forall>v \<in> set allowed. v \<le> QuantizeCoreFractionUp raw allowed))"
proof (cases "first_at_least raw (sort allowed)")
  case None
  have "last (sort allowed) \<in> set (sort allowed)" using assms by (intro last_in_set) (simp flip: set_empty)
  moreover have "v \<le> last (sort allowed)" if "v \<in> set allowed" for v
    using that by (intro last_sorted_max) simp_all
  moreover have "\<forall>v \<in> set allowed. v < raw" using None by (simp add: first_at_least_None)
  ultimately show ?thesis using assms None by (auto simp: QuantizeCoreFractionUp_def Let_def)
next
  case (Some v)
  then show ?thesis
    using first_at_least_sorted [OF sorted_sort Some] assms
    by (auto simp: QuantizeCoreFractionUp_def Let_def)
qed

text \<open>
  For a number of cores and a target load within the machine's arithmetic, the needed core
  fraction is between 1 and 99 percent and is the smallest such percentage whose share of all cores
  (ten milli-CPU per core and percent) covers the target, and 99 percent when none does.
\<close>

lemma NeededCoreFraction_least_cover:
  assumes "0 < cores" and "0 \<le> target" and "target + cores * 10 \<le> max_int64"
  shows "MinCoreFraction \<le> NeededCoreFraction cores target \<and>
    NeededCoreFraction cores target \<le> MaxAutoCoreFraction \<and>
    (\<forall>f. MinCoreFraction \<le> f \<and> f \<le> MaxAutoCoreFraction \<and> target \<le> f * (cores * 10) \<longrightarrow>
       target \<le> NeededCoreFraction cores target * (cores * 10) \<and> NeededCoreFraction cores target \<le> f)"
proof -
  let ?c = "cores * 10"
  have "wrap64 ?c = ?c" "wrap64 (target + ?c) = target + ?c" "wrap64 (target + ?c - 1) = target + ?c - 1"
    using assms by (auto intro!: wrap64_id simp: in_int64_def min_int64_def)
  moreover have "(target + ?c - 1) sdiv ?c = (target + ?c - 1) div ?c"
    using assms(1,2) by (intro sdiv_pos) auto
  ultimately have eq: "NeededCoreFraction cores target =
      clamp ((target + ?c - 1) div ?c) MinCoreFraction MaxAutoCoreFraction"
    using assms(1) by (simp add: NeededCoreFraction_def Let_def)
  have cover: "target \<le> f * ?c \<longleftrightarrow> (target + ?c - 1) div ?c \<le> f" for f
    using assms(1) by (intro ceil_div_le [symmetric]) simp
  show ?thesis
    unfolding eq cover by (auto simp: clamp_def)
qed

text \<open>
  The fractions the autoscaler may choose from are below 100 percent, pairwise different
  and in ascending order, and every allowed fraction of the policy below 100 percent is among them.
\<close>

lemma AutoCoreFractionSteps_grid:
  "sorted (AutoCoreFractionSteps sp) \<and> distinct (AutoCoreFractionSteps sp) \<and>
   list_all (\<lambda>f. f < MaxCoreFraction) (AutoCoreFractionSteps sp) \<and>
   (case sp of None \<Rightarrow> True | Some p \<Rightarrow> sp_CoreFractions p = [] \<or>
      set (AutoCoreFractionSteps sp) = {f \<in> set (sp_CoreFractions p). f < MaxCoreFraction})"
proof -
  have "list_all (\<lambda>f. f < MaxCoreFraction) (AutoCoreFractionSteps sp)"
    using AutoCoreFractionSteps_below [of _ sp] by (simp add: list_all_iff)
  moreover have "sorted (AutoCoreFractionSteps sp)" and "distinct (AutoCoreFractionSteps sp)"
    by (simp_all add: AutoCoreFractionSteps_def DefaultAutoCoreFractionSteps_def
        distinct_collect_steps split: option.split)
  ultimately show ?thesis
    by (simp add: AutoCoreFractionSteps_def set_collect_steps split: option.split)
qed

text \<open>
  The fraction a machine with automatic core fraction starts with is one of the steps of
  its policy, when there is one, and no step is closer to the target of 10 percent; among equally
  close steps it is the lowest.
\<close>

lemma SeedAutoCoreFraction_closest:
  assumes "AutoCoreFractions class cores \<noteq> []"
  shows "SeedAutoCoreFraction class cores \<in> set (AutoCoreFractions class cores) \<and>
    (\<forall>t \<in> set (AutoCoreFractions class cores).
       \<bar>SeedAutoCoreFraction class cores - SeedAutoCoreFractionTarget\<bar> \<le> \<bar>t - SeedAutoCoreFractionTarget\<bar> \<and>
       (\<bar>t - SeedAutoCoreFractionTarget\<bar> = \<bar>SeedAutoCoreFraction class cores - SeedAutoCoreFractionTarget\<bar> \<longrightarrow>
          SeedAutoCoreFraction class cores \<le> t))"
proof -
  obtain s ss where steps: "AutoCoreFractions class cores = s # ss" using assms by (cases "AutoCoreFractions class cores") auto
  have "sorted (AutoCoreFractions class cores)"
    by (simp add: AutoCoreFractions_def AutoCoreFractionSteps_def DefaultAutoCoreFractionSteps_def
        split: option.splits)
  then have sorted: "sorted (s # ss)" by (simp only: steps)
  have seed: "SeedAutoCoreFraction class cores = closest_to_seed s ss"
    by (simp add: SeedAutoCoreFraction_def steps)
  show ?thesis
    unfolding seed steps list.set
    using closest_to_seed_in closest_to_seed_least closest_to_seed_tie [OF sorted] by blast
qed

text \<open>
  A machine in automatic mode whose recommendation, if any, was computed from the steps of
  its class is never given the full 100 percent, so its pod never becomes Guaranteed; in every other
  mode the requested fraction is applied unchanged.
\<close>

lemma EffectiveCoreFraction_below_full:
  assumes "CoreFraction (CPU (vm_Spec vm)) = CoreFractionAuto"
    and "case RecommendedResources (vm_Status vm) of None \<Rightarrow> True
      | Some r \<Rightarrow> r = '''' \<or> (\<exists>f. 0 < f \<and> f < MaxCoreFraction \<and> r = show_int f @ ''%'')"
    and "list_all (\<lambda>f. 0 < f) (AutoCoreFractions class (Cores (CPU (vm_Spec vm))))"
  shows "\<exists>f. ParsePercent (EffectiveCoreFraction vm class) = Some f \<and> 0 < f \<and> f < MaxCoreFraction"
proof -
  let ?seed = "SeedAutoCoreFraction class (Cores (CPU (vm_Spec vm)))"
  have "0 < ?seed"
  proof (cases "AutoCoreFractions class (Cores (CPU (vm_Spec vm)))")
    case (Cons s ss)
    then show ?thesis
      using assms(3) closest_to_seed_in [of s ss] by (auto simp: SeedAutoCoreFraction_def list_all_iff)
  qed (simp add: SeedAutoCoreFraction_def)
  then have seed: "0 < ?seed \<and> ?seed < MaxCoreFraction" using SeedAutoCoreFraction_below by blast
  obtain f where f: "EffectiveCoreFraction vm class = show_int f @ ''%''" "0 < f" "f < MaxCoreFraction"
    using assms(1,2) seed by (auto simp: EffectiveCoreFraction_def RecommendedCoreFraction_def Let_def
        split: option.splits if_splits)
  then have "in_int64 f" by (simp add: in_int64_def min_int64_def max_int64_def)
  with f show ?thesis by (auto simp: ParsePercent_show)
qed

end
