(* ===== verification/VMTopology.thy ===== *)
theory VMTopology
  imports ApiTypes
begin

text \<open>
  The CPU topology of a virtual machine (\<^verbatim>\<open>pkg/common/vm/vm.go\<close>): how a number of cores is spread
  over sockets.
\<close>

abbreviation (input) MaxCoresPerSocketLow :: int where "MaxCoresPerSocketLow \<equiv> 16"
abbreviation (input) MaxCoresPerSocketHigh :: int where "MaxCoresPerSocketHigh \<equiv> 31"
abbreviation (input) MaxSockets :: int where "MaxSockets \<equiv> 8"
abbreviation (input) MaxCores :: int where "MaxCores \<equiv> MaxCoresPerSocketHigh * MaxSockets"

text \<open>The tail of the function, after the switch has set the number of sockets.\<close>

definition grow_cores :: "int \<Rightarrow> int \<Rightarrow> int" where
  "grow_cores desiredCores sockets =
     (let coresPerSocket = desiredCores sdiv sockets
      in if desiredCores smod sockets \<noteq> 0 then coresPerSocket + 1 else coresPerSocket)"

definition CalculateCoresAndSockets :: "int \<Rightarrow> int \<times> int \<times> int" where
  "CalculateCoresAndSockets desiredCores =
     (if desiredCores \<le> 0 then (1, 1, MaxCoresPerSocketLow)
      else if desiredCores \<le> MaxCoresPerSocketLow then (1, desiredCores, MaxCoresPerSocketLow)
      else if desiredCores \<le> MaxCoresPerSocketLow * 2 then
        (2, grow_cores desiredCores 2, MaxCoresPerSocketLow)
      else if desiredCores \<le> MaxCoresPerSocketLow * 4 then
        (4, grow_cores desiredCores 4, MaxCoresPerSocketLow)
      else (MaxSockets, grow_cores desiredCores MaxSockets, MaxCoresPerSocketHigh))"

definition ApprovalMode :: "'q virtual_machine \<Rightarrow> string" where
  "ApprovalMode vm =
     (case Disruptions (vm_Spec vm) of None \<Rightarrow> Manual | Some d \<Rightarrow> RestartApprovalMode d)"

definition IsComputeContainer :: "string \<Rightarrow> bool" where
  "IsComputeContainer name = has_suffix name ''compute''"

fun active_pod_name :: "vm_pod list \<Rightarrow> string option" where
  "active_pod_name [] = None"
| "active_pod_name (pod # pods) = (if vmpod_Active pod then Some (vmpod_Name pod) else active_pod_name pods)"

definition GetActivePodName :: "'q virtual_machine \<Rightarrow> string option" where
  "GetActivePodName vm = active_pod_name (VirtualMachinePods (vm_Status vm))"

section \<open>Properties\<close>

lemma grow_cores_pos:
  "0 \<le> d \<Longrightarrow> 0 < s \<Longrightarrow> grow_cores d s = (d + s - 1) div s"
proof -
  assume d: "0 \<le> d" and s: "0 < s"
  have eq: "d = s * (d div s) + d mod s" by simp
  show ?thesis
  proof (cases "d mod s = 0")
    case True
    then have "(d + s - 1) div s = (s * (d div s) + (s - 1)) div s" using eq by (simp add: algebra_simps)
    also have "\<dots> = d div s" using s by simp
    finally show ?thesis using True d s by (simp add: grow_cores_def sdiv_pos smod_pos)
  next
    case False
    have m: "0 \<le> d mod s" "d mod s < s" using s by simp_all
    have "(d + s - 1) div s = (s * (d div s) + (d mod s + s - 1)) div s"
      using eq by (simp add: algebra_simps)
    also have "\<dots> = d div s + (d mod s + s - 1) div s" using s by simp
    also have "(d mod s + s - 1) div s = 1"
      using m False by (intro int_div_pos_eq [of _ _ _ "d mod s - 1"]) auto
    finally show ?thesis using False d s by (simp add: grow_cores_def sdiv_pos smod_pos)
  qed
qed

text \<open>
  Claim C39: for every valid number of cores the computed topology provides at least the requested
  cores, wastes less than one core per socket, uses one, two, four or eight sockets, and does not
  exceed the per-socket limit it reports, up to the supported maximum of 248 cores.
\<close>

theorem CalculateCoresAndSockets_correct:
  assumes "1 \<le> cores" and "CalculateCoresAndSockets cores = (sockets, perSocket, maxPerSocket)"
  shows "cores \<le> sockets * perSocket \<and> sockets * perSocket < cores + sockets \<and>
    sockets \<in> {1, 2, 4, 8} \<and> 1 \<le> perSocket \<and> (cores \<le> MaxCores \<longrightarrow> perSocket \<le> maxPerSocket)"
proof -
  consider "cores \<le> 16" | "16 < cores" "cores \<le> 32" | "32 < cores" "cores \<le> 64" | "64 < cores"
    by linarith
  then show ?thesis
  proof cases
    case 1
    then show ?thesis using assms by (auto simp: CalculateCoresAndSockets_def)
  next
    case 2
    then have "sockets = 2" "perSocket = (cores + 2 - 1) div 2" "maxPerSocket = 16"
      using assms by (auto simp: CalculateCoresAndSockets_def grow_cores_pos)
    then show ?thesis using 2 ceil_div_bounds [of 2 cores] by auto
  next
    case 3
    then have "sockets = 4" "perSocket = (cores + 4 - 1) div 4" "maxPerSocket = 16"
      using assms by (auto simp: CalculateCoresAndSockets_def grow_cores_pos)
    then show ?thesis using 3 ceil_div_bounds [of 4 cores] by auto
  next
    case 4
    then have "sockets = 8" "perSocket = (cores + 8 - 1) div 8" "maxPerSocket = 31"
      using assms by (auto simp: CalculateCoresAndSockets_def grow_cores_pos)
    then show ?thesis using 4 ceil_div_bounds [of 8 cores] by auto
  qed
qed

theorem CalculateCoresAndSockets_correct_witness:
  "CalculateCoresAndSockets 35 = (4, 9, 16) \<and> (35 :: int) \<le> 4 * 9 \<and> 4 * 9 < 35 + (4 :: int)"
proof -
  have h: "CalculateCoresAndSockets 35 = (4, 9, 16)"
    by (simp add: CalculateCoresAndSockets_def grow_cores_pos)
  show ?thesis
    using h CalculateCoresAndSockets_correct [of 35 4 9 16] by simp
qed

lemma sockets_mono:
  "a \<le> b \<Longrightarrow> fst (CalculateCoresAndSockets a) \<le> fst (CalculateCoresAndSockets b)"
  by (auto simp: CalculateCoresAndSockets_def)

end
