(* ===== verification/VMComparators.thy ===== *)
theory VMComparators
  imports VMChange SizingPolicy VMTopology
begin

text \<open>
  The field comparators (\<^verbatim>\<open>comparators.go\<close>, \<^verbatim>\<open>comparator_cpu.go\<close>, \<^verbatim>\<open>comparator_memory.go\<close>,
  \<^verbatim>\<open>comparator_pod_placement.go\<close>, \<^verbatim>\<open>usb_change.go\<close>, \<^verbatim>\<open>gpu_change.go\<close>, \<^verbatim>\<open>vmclass_change.go\<close>): each
  compares one part of two specifications and says which action the change requires.  \<open>dg\<close> is the
  global gate set \<^verbatim>\<open>featuregates.Default()\<close>, \<open>fg\<close> the gate set the comparator was built with.
\<close>

section \<open>comparators.go\<close>

abbreviation DefaultCPUCoreFraction :: string where "DefaultCPUCoreFraction \<equiv> ''100%''"
abbreviation DefaultDisruptionsApprovalMode :: string where "DefaultDisruptionsApprovalMode \<equiv> Manual"
abbreviation DefaultOSType :: string where "DefaultOSType \<equiv> GenericOs"
abbreviation DefaultBootloader :: string where "DefaultBootloader \<equiv> BIOS"
abbreviation (input) DefaultEnableParavirtualization :: bool where "DefaultEnableParavirtualization \<equiv> True"
abbreviation (input) DefaultTerminationGracePeriodSeconds :: int where
  "DefaultTerminationGracePeriodSeconds \<equiv> 60"

definition compareVirtualMachineClass :: "'q vm_spec \<Rightarrow> 'q vm_spec \<Rightarrow> 'q field_change list" where
  "compareVirtualMachineClass current desired =
     compareStrings ''virtualMachineClassName'' (VirtualMachineClassName current)
       (VirtualMachineClassName desired) '''' ActionRestart"

definition compareRunPolicy :: "'q vm_spec \<Rightarrow> 'q vm_spec \<Rightarrow> 'q field_change list" where
  "compareRunPolicy current desired =
     compareStrings ''runPolicy'' (RunPolicy current) (RunPolicy desired) '''' ActionApplyImmediate"

definition compareVirtualMachineIPAddress :: "'q vm_spec \<Rightarrow> 'q vm_spec \<Rightarrow> 'q field_change list" where
  "compareVirtualMachineIPAddress current desired =
     compareStrings ''virtualMachineIPAddress'' (VirtualMachineIPAddress current)
       (VirtualMachineIPAddress desired) '''' ActionRestart"

definition compareDisruptions :: "'q vm_spec \<Rightarrow> 'q vm_spec \<Rightarrow> 'q field_change list" where
  "compareDisruptions current desired =
     (case (Disruptions current, Disruptions desired) of
        (Some c, Some d) \<Rightarrow>
          compareStrings ''disruptions.restartApprovalMode'' (RestartApprovalMode c)
            (RestartApprovalMode d) DefaultDisruptionsApprovalMode ActionNone
      | _ \<Rightarrow>
          compareEmpty ''disruptions''
            (NewPtrValue (DisruptionsValue (Disruptions current)) (Disruptions current = None))
            (NewPtrValue (DisruptionsValue (Disruptions desired)) (Disruptions desired = None))
            ActionNone)"

definition compareTerminationGracePeriodSeconds ::
  "'q vm_spec \<Rightarrow> 'q vm_spec \<Rightarrow> 'q field_change list" where
  "compareTerminationGracePeriodSeconds current desired =
     comparePtrInt64 ''terminationGracePeriodSeconds'' (TerminationGracePeriodSeconds current)
       (TerminationGracePeriodSeconds desired) DefaultTerminationGracePeriodSeconds ActionRestart"

definition compareEnableParavirtualization ::
  "'q vm_spec \<Rightarrow> 'q vm_spec \<Rightarrow> 'q field_change list" where
  "compareEnableParavirtualization current desired =
     comparePtrBools ''enableParavirtualization'' (EnableParavirtualization current)
       (EnableParavirtualization desired) DefaultEnableParavirtualization ActionRestart"

definition compareOSType :: "'q vm_spec \<Rightarrow> 'q vm_spec \<Rightarrow> 'q field_change list" where
  "compareOSType current desired =
     compareStrings ''osType'' (OsType current) (OsType desired) DefaultOSType ActionRestart"

definition compareBootloader :: "'q vm_spec \<Rightarrow> 'q vm_spec \<Rightarrow> 'q field_change list" where
  "compareBootloader current desired =
     compareStrings ''bootloader'' (Bootloader current) (Bootloader desired) DefaultBootloader
       ActionRestart"

definition isCloudInitProvisioning :: "provisioning option \<Rightarrow> bool" where
  "isCloudInitProvisioning p =
     (case p of
        None \<Rightarrow> False
      | Some q \<Rightarrow> prov_Type q = ProvisioningTypeUserData \<or> prov_Type q = ProvisioningTypeUserDataRef)"

text \<open>
  The comparison of two secret references, which the code writes out twice, for the Sysprep and for
  the cloud-init reference: nil checks first, then kinds, then names.
\<close>

definition compareSecretRefs ::
  "string \<Rightarrow> secret_ref option \<Rightarrow> secret_ref option \<Rightarrow> 'q field_change list" where
  "compareSecretRefs path currentSecret desiredSecret =
     (case (currentSecret, desiredSecret) of
        (Some c, Some d) \<Rightarrow>
          (let kinds = compareStrings (path @ ''.kind'') (ref_Kind c) (ref_Kind d) '''' ActionRestart
           in if length kinds > 0 then kinds
              else compareStrings (path @ ''.name'') (ref_Name c) (ref_Name d) '''' ActionRestart)
      | _ \<Rightarrow>
          compareEmpty path
            (NewPtrValue (SecretRefValue currentSecret) (currentSecret = None))
            (NewPtrValue (SecretRefValue desiredSecret) (desiredSecret = None))
            ActionRestart)"

definition compareProvisioning :: "'q vm_spec \<Rightarrow> 'q vm_spec \<Rightarrow> 'q field_change list" where
  "compareProvisioning current desired =
     (case (Provisioning current, Provisioning desired) of
        (Some c, Some d) \<Rightarrow>
          if prov_Type c \<noteq> prov_Type d then
            [no_change\<lparr> Operation := ChangeReplace, Path := ''provisioning'',
               CurrentValue := StringValue (prov_Type c), DesiredValue := StringValue (prov_Type d),
               ActionRequired := ActionRestart \<rparr>]
          else if prov_Type c = ProvisioningTypeSysprepRef then
            compareSecretRefs ''provisioning.sysprepRef'' (prov_SysprepRef c) (prov_SysprepRef d)
          else if prov_Type c = ProvisioningTypeUserData then
            compareStrings ''provisioning.userData'' (prov_UserData c) (prov_UserData d) '''' ActionRestart
          else if prov_Type c = ProvisioningTypeUserDataRef then
            compareSecretRefs ''provisioning.userDataRef'' (prov_UserDataRef c) (prov_UserDataRef d)
          else []
      | _ \<Rightarrow>
          (let changes = compareEmpty ''provisioning''
                 (NewPtrValue (ProvisioningValue (Provisioning current)) (Provisioning current = None))
                 (NewPtrValue (ProvisioningValue (Provisioning desired)) (Provisioning desired = None))
                 ActionRestart
           in if isCloudInitProvisioning (Provisioning current)
              then map (\<lambda>c. if Operation c = ChangeRemove
                             then c\<lparr> ActionRequired := ActionApplyImmediate \<rparr> else c) changes
              else changes))"

section \<open>comparator\_cpu.go\<close>

definition isCPUGuaranteed :: "string \<Rightarrow> bool" where
  "isCPUGuaranteed coreFraction =
     (case ParsePercent (if coreFraction = '''' then DefaultCPUCoreFraction else coreFraction) of
        None \<Rightarrow> False
      | Some fraction \<Rightarrow> fraction \<ge> MaxCoreFraction)"

abbreviation sockets_restart_msg :: string where
  "sockets_restart_msg \<equiv>
     ''Changing the number of CPU cores requires changing the CPU topology (number of sockets).''"

abbreviation qos_restart_msg :: string where
  "qos_restart_msg \<equiv>
     ''Changing the CPU core fraction to or from 100% changes the pod QoS class, which cannot be applied in-place.''"

text \<open>The message is stored in the first change of the list, when there is a change and a message.\<close>

definition set_restart_message :: "string \<Rightarrow> 'q field_change list \<Rightarrow> 'q field_change list" where
  "set_restart_message msg cs =
     (case cs of
        [] \<Rightarrow> []
      | c # rest \<Rightarrow> if HasChanges cs \<and> msg \<noteq> '''' then c\<lparr> RestartMessage := msg \<rparr> # rest else cs)"

definition coresChangedAction :: "feature_gate \<Rightarrow> 'q vm_spec \<Rightarrow> 'q vm_spec \<Rightarrow> action_type" where
  "coresChangedAction fg current desired =
     (if OsType desired = LegacyOs \<or> OsType current = LegacyOs then ActionRestart
      else if \<not> fg HotplugCPUWithLiveMigration \<and> \<not> fg HotplugCPUAndMemoryWithInPlaceResize
      then ActionRestart
      else if fst (CalculateCoresAndSockets (Cores (CPU current)))
              \<noteq> fst (CalculateCoresAndSockets (Cores (CPU desired)))
      then ActionRestart
      else ActionApplyImmediate)"

definition coresRestartMsg :: "'q vm_spec \<Rightarrow> 'q vm_spec \<Rightarrow> string" where
  "coresRestartMsg current desired =
     (if fst (CalculateCoresAndSockets (Cores (CPU current)))
         \<noteq> fst (CalculateCoresAndSockets (Cores (CPU desired)))
      then sockets_restart_msg else '''')"

definition fractionChangedAction :: "feature_gate \<Rightarrow> 'q vm_spec \<Rightarrow> 'q vm_spec \<Rightarrow> action_type" where
  "fractionChangedAction fg current desired =
     (if isCPUGuaranteed (CoreFraction (CPU current)) \<noteq> isCPUGuaranteed (CoreFraction (CPU desired))
      then ActionRestart
      else if OsType desired = LegacyOs \<or> OsType current = LegacyOs then ActionRestart
      else if \<not> fg HotplugCPUWithLiveMigration \<and> \<not> fg HotplugCPUAndMemoryWithInPlaceResize
      then ActionRestart
      else ActionApplyImmediate)"

definition fractionRestartMsg :: "'q vm_spec \<Rightarrow> 'q vm_spec \<Rightarrow> string" where
  "fractionRestartMsg current desired =
     (if isCPUGuaranteed (CoreFraction (CPU current)) \<noteq> isCPUGuaranteed (CoreFraction (CPU desired))
      then qos_restart_msg else '''')"

definition comparatorCPU_Compare ::
  "feature_gate \<Rightarrow> 'q vm_spec \<Rightarrow> 'q vm_spec \<Rightarrow> 'q field_change list" where
  "comparatorCPU_Compare fg current desired =
     (let coresAction = coresChangedAction fg current desired;
          coresMsg = coresRestartMsg current desired;
          fractionAction = fractionChangedAction fg current desired;
          fractionMsg = fractionRestartMsg current desired;
          coresChanges = set_restart_message coresMsg
            (compareInts ''cpu.cores'' (Cores (CPU current)) (Cores (CPU desired)) 0 coresAction);
          fractionChanges = set_restart_message fractionMsg
            (compareStrings ''cpu.coreFraction'' (CoreFraction (CPU current))
               (CoreFraction (CPU desired)) DefaultCPUCoreFraction fractionAction)
      in if HasChanges coresChanges \<and> HasChanges fractionChanges then
           [\<lparr> Operation = ChangeReplace, Path = ''cpu'',
              CurrentValue = CPUValue (CPU current), DesiredValue = CPUValue (CPU desired),
              ActionRequired = MostDisruptiveAction [coresAction, fractionAction],
              RestartMessage = (if coresMsg = '''' then fractionMsg else coresMsg) \<rparr>]
         else if HasChanges coresChanges then coresChanges
         else if HasChanges fractionChanges then fractionChanges
         else [])"

section \<open>comparator\_memory.go\<close>

definition EnableMemoryHotplugThreshold :: int where
  "EnableMemoryHotplugThreshold = 1 * 1024 * 1024 * 1024"

definition memoryAction :: "'q quantity_ops \<Rightarrow> feature_gate \<Rightarrow> 'q vm_spec \<Rightarrow> 'q vm_spec \<Rightarrow> action_type" where
  "memoryAction Q fg current desired =
     (let hotplugThreshold = q_new Q EnableMemoryHotplugThreshold;
          isHotpluggable = (q_cmp Q (MemorySize current) hotplugThreshold \<ge> 0);
          isHotpluggableDesired = (q_cmp Q (MemorySize desired) hotplugThreshold \<ge> 0)
      in if OsType desired = LegacyOs \<or> OsType current = LegacyOs then ActionRestart
         else if \<not> fg HotplugMemoryWithLiveMigration \<and> \<not> fg HotplugCPUAndMemoryWithInPlaceResize
         then ActionRestart
         else if q_cmp Q (MemorySize current) (MemorySize desired) = 1 then ActionRestart
         else if isHotpluggable \<and> isHotpluggableDesired then ActionApplyImmediate
         else ActionRestart)"

definition comparatorMemory_Compare ::
  "'q quantity_ops \<Rightarrow> feature_gate \<Rightarrow> 'q vm_spec \<Rightarrow> 'q vm_spec \<Rightarrow> 'q field_change list" where
  "comparatorMemory_Compare Q fg current desired =
     compareQuantity Q ''memory.size'' (MemorySize current) (MemorySize desired) (q_zero Q)
       (memoryAction Q fg current desired)"

section \<open>comparator\_pod\_placement.go, usb\_change.go, gpu\_change.go\<close>

definition placementAction :: "feature_gate \<Rightarrow> action_type" where
  "placementAction dg =
     (if dg AutoMigrationIfNodePlacementChanged then ActionApplyImmediate else ActionRestart)"

definition compareTopologySpreadConstraints ::
  "'q vm_spec \<Rightarrow> 'q vm_spec \<Rightarrow> 'q field_change list" where
  "compareTopologySpreadConstraints current desired =
     compareValues ''topologySpreadConstraints''
       (NewValue (ObjectsValue (TopologySpreadConstraints current))
          (length (TopologySpreadConstraints current) = 0) False)
       (NewValue (ObjectsValue (TopologySpreadConstraints desired))
          (length (TopologySpreadConstraints desired) = 0) False)
       (TopologySpreadConstraints current = TopologySpreadConstraints desired) ActionRestart"

definition compareAffinity :: "feature_gate \<Rightarrow> 'q vm_spec \<Rightarrow> 'q vm_spec \<Rightarrow> 'q field_change list" where
  "compareAffinity dg current desired =
     compareValues ''affinity''
       (NewValue (ObjectPtrValue (Affinity current)) (Affinity current = None) False)
       (NewValue (ObjectPtrValue (Affinity desired)) (Affinity desired = None) False)
       (Affinity current = Affinity desired) (placementAction dg)"

definition compareNodeSelector :: "feature_gate \<Rightarrow> 'q vm_spec \<Rightarrow> 'q vm_spec \<Rightarrow> 'q field_change list" where
  "compareNodeSelector dg current desired =
     compareValues ''nodeSelector''
       (NewValue (LabelsValue (NodeSelector current)) (NodeSelector current = fmempty) False)
       (NewValue (LabelsValue (NodeSelector desired)) (NodeSelector desired = fmempty) False)
       (NodeSelector current = NodeSelector desired) (placementAction dg)"

definition comparePriorityClassName :: "'q vm_spec \<Rightarrow> 'q vm_spec \<Rightarrow> 'q field_change list" where
  "comparePriorityClassName current desired =
     compareStrings ''priorityClassName'' (PriorityClassName current) (PriorityClassName desired)
       '''' ActionRestart"

definition compareTolerations :: "feature_gate \<Rightarrow> 'q vm_spec \<Rightarrow> 'q vm_spec \<Rightarrow> 'q field_change list" where
  "compareTolerations dg current desired =
     compareValues ''tolerations''
       (NewValue (ObjectsValue (Tolerations current)) (length (Tolerations current) = 0) False)
       (NewValue (ObjectsValue (Tolerations desired)) (length (Tolerations desired) = 0) False)
       (Tolerations current = Tolerations desired) (placementAction dg)"

definition GetMainNetworkSpec :: "networks_spec list \<Rightarrow> networks_spec option" where
  "GetMainNetworkSpec networks = find (\<lambda>n. net_Type n = NetworksTypeMain) networks"

text \<open>The nil slice has length 0; \<open>slice\<close> reads a possibly nil slice as a list.\<close>

definition slice :: "'a list option \<Rightarrow> 'a list" where
  "slice xs = (case xs of None \<Rightarrow> [] | Some ys \<Rightarrow> ys)"

definition hasMainNetwork :: "networks_spec list \<Rightarrow> bool" where
  "hasMainNetwork networks \<longleftrightarrow> length networks = 0 \<or> GetMainNetworkSpec networks \<noteq> None"

definition isOnlyNonMainNetworksChanged :: "networks_spec list \<Rightarrow> networks_spec list \<Rightarrow> bool" where
  "isOnlyNonMainNetworksChanged current desired \<longleftrightarrow> hasMainNetwork current = hasMainNetwork desired"

fun autofill_loop :: "networks_spec list \<Rightarrow> networks_spec list \<Rightarrow> bool" where
  "autofill_loop (c # cs) (d # ds) =
     (if net_Type c \<noteq> net_Type d \<or> net_Name c \<noteq> net_Name d \<or>
         net_MACAddressName c \<noteq> net_MACAddressName d \<or> net_IPAddressName c \<noteq> net_IPAddressName d
      then False
      else case net_ID c of
             None \<Rightarrow> autofill_loop cs ds
           | Some i \<Rightarrow> (case net_ID d of
                          None \<Rightarrow> False
                        | Some j \<Rightarrow> if i \<noteq> j then False else autofill_loop cs ds))"
| "autofill_loop _ _ = True"

definition isOnlyNetworkIDAutofillChange :: "networks_spec list \<Rightarrow> networks_spec list \<Rightarrow> bool" where
  "isOnlyNetworkIDAutofillChange current desired =
     (if length current \<noteq> length desired then False else autofill_loop current desired)"

definition compareNetworks :: "'q vm_spec \<Rightarrow> 'q vm_spec \<Rightarrow> 'q field_change list" where
  "compareNetworks current desired =
     (let action =
        (if isOnlyNetworkIDAutofillChange (slice (Networks current)) (slice (Networks desired))
         then ActionNone
         else if isOnlyNonMainNetworksChanged (slice (Networks current)) (slice (Networks desired))
         then ActionApplyImmediate
         else ActionRestart)
      in compareValues ''networks''
           (NewValue (NetworksValue (Networks current)) (Networks current = None) False)
           (NewValue (NetworksValue (Networks desired)) (Networks desired = None) False)
           (Networks current = Networks desired) action)"

definition compareUSBDevices :: "'q vm_spec \<Rightarrow> 'q vm_spec \<Rightarrow> 'q field_change list" where
  "compareUSBDevices current desired =
     compareValues ''usbDevices''
       (NewValue (NamesValue (USBDevices current)) (USBDevices current = None) False)
       (NewValue (NamesValue (USBDevices desired)) (USBDevices desired = None) False)
       (USBDevices current = USBDevices desired) ActionApplyImmediate"

text \<open>\<^verbatim>\<open>SortGPUDevices\<close> gives the nil slice for an empty list.\<close>

definition SortGPUDevices :: "string list \<Rightarrow> string list option" where
  "SortGPUDevices devices = (if length devices = 0 then None else Some (sort devices))"

definition compareGPUDevices :: "'q vm_spec \<Rightarrow> 'q vm_spec \<Rightarrow> 'q field_change list" where
  "compareGPUDevices current desired =
     (let currentGPUDevices = SortGPUDevices (GPUs current);
          desiredGPUDevices = SortGPUDevices (GPUs desired)
      in compareValues ''gpus''
           (NewValue (NamesValue currentGPUDevices) (length (slice currentGPUDevices) = 0) False)
           (NewValue (NamesValue desiredGPUDevices) (length (slice desiredGPUDevices) = 0) False)
           (currentGPUDevices = desiredGPUDevices) ActionRestart)"

section \<open>vmclass\_change.go\<close>

definition makePathWithClass :: "string \<Rightarrow> string" where
  "makePathWithClass path = ''VirtualMachineClass:'' @ path"

definition class_node_selector_empty :: "node_selector \<Rightarrow> bool" where
  "class_node_selector_empty ns \<longleftrightarrow>
     length (slice (ns_MatchExpressions ns)) = 0 \<and>
     (case ns_MatchLabels ns of None \<Rightarrow> True | Some labels \<Rightarrow> labels = fmempty)"

definition compareVMClassNodeSelector ::
  "feature_gate \<Rightarrow> 'q vm_class_spec \<Rightarrow> 'q vm_class_spec \<Rightarrow> 'q field_change list" where
  "compareVMClassNodeSelector dg current desired =
     compareValues (makePathWithClass ''spec.nodeSelector'')
       (NewValue (ClassNodeSelectorValue (cls_NodeSelector current))
          (class_node_selector_empty (cls_NodeSelector current)) False)
       (NewValue (ClassNodeSelectorValue (cls_NodeSelector desired))
          (class_node_selector_empty (cls_NodeSelector desired)) False)
       (cls_NodeSelector current = cls_NodeSelector desired) (placementAction dg)"

definition compareVMClassTolerations ::
  "feature_gate \<Rightarrow> 'q vm_class_spec \<Rightarrow> 'q vm_class_spec \<Rightarrow> 'q field_change list" where
  "compareVMClassTolerations dg current desired =
     compareValues (makePathWithClass ''spec.tolerations'')
       (NewValue (ObjectsValue (cls_Tolerations current)) (length (cls_Tolerations current) = 0) False)
       (NewValue (ObjectsValue (cls_Tolerations desired)) (length (cls_Tolerations desired) = 0) False)
       (cls_Tolerations current = cls_Tolerations desired) (placementAction dg)"

end
