(* ===== verification/VMBlockDevices.thy ===== *)
theory VMBlockDevices
  imports VMChange
begin

text \<open>
  Block device references: their comparator (\<^verbatim>\<open>vmchange/comparator_block_devices.go\<close>) and the
  admission check that keeps them free of doubles
  (\<^verbatim>\<open>vm/internal/validators/block_device_refs_validator.go\<close>).  Go maps from names to indexes are
  association lists with distinct keys and sets of indexes are lists without repetition; the order
  in which Go iterates over them does not matter, because the indexes are sorted before use.
  Indexing a slice out of range panics: \<open>None\<close>.
\<close>

section \<open>comparator\_block\_devices.go\<close>

fun indexed_names :: "string \<Rightarrow> nat \<Rightarrow> block_device_ref list \<Rightarrow> (string \<times> nat) list \<Rightarrow> (string \<times> nat) list" where
  "indexed_names kind idx [] res = res"
| "indexed_names kind idx (dev # devs) res =
     indexed_names kind (Suc idx) devs
       (if bd_Kind dev = kind then AList.update (bd_Name dev) idx res else res)"

definition cvmiIndexedNames :: "'q vm_spec \<Rightarrow> (string \<times> nat) list" where
  "cvmiIndexedNames vm = indexed_names ClusterImageDevice 0 (BlockDeviceRefs vm) []"

definition vmiIndexedNames :: "'q vm_spec \<Rightarrow> (string \<times> nat) list" where
  "vmiIndexedNames vm = indexed_names VirtualImageKind 0 (BlockDeviceRefs vm) []"

definition vmdIndexedNames :: "'q vm_spec \<Rightarrow> (string \<times> nat) list" where
  "vmdIndexedNames vm = indexed_names VirtualDiskKind 0 (BlockDeviceRefs vm) []"

definition blockDevicesItemPath :: "nat \<Rightarrow> string" where
  "blockDevicesItemPath idx = blockDevicesPath @ ''.'' @ show_nat idx"

definition updateIndexesForAddedDevices ::
  "nat list \<Rightarrow> (string \<times> nat) list \<Rightarrow> (string \<times> nat) list \<Rightarrow> nat list" where
  "updateIndexesForAddedDevices added currentDevices desiredDevices =
     fold (\<lambda>(name, idx) acc. if map_of currentDevices name = None then List.insert idx acc else acc)
       desiredDevices added"

definition updateIndexesForRemovedDevices ::
  "nat list \<Rightarrow> (string \<times> nat) list \<Rightarrow> (string \<times> nat) list \<Rightarrow> nat list" where
  "updateIndexesForRemovedDevices removed currentDevices desiredDevices =
     fold (\<lambda>(name, idx) acc. if map_of desiredDevices name = None then List.insert idx acc else acc)
       currentDevices removed"

definition updateIndexesForSwappedDevices ::
  "nat list \<Rightarrow> (string \<times> nat) list \<Rightarrow> (string \<times> nat) list \<Rightarrow> nat list" where
  "updateIndexesForSwappedDevices swapped currentDevices desiredDevices =
     fold (\<lambda>(name, curIdx) acc.
             case map_of desiredDevices name of
               None \<Rightarrow> acc
             | Some desIdx \<Rightarrow> if curIdx \<noteq> desIdx then List.insert curIdx acc else acc)
       currentDevices swapped"

definition getUniqueIndexes :: "nat list list \<Rightarrow> nat list" where
  "getUniqueIndexes maps = sort (fold (fold List.insert) maps [])"

definition deviceAccessors :: "('q vm_spec \<Rightarrow> (string \<times> nat) list) list" where
  "deviceAccessors = [cvmiIndexedNames, vmiIndexedNames, vmdIndexedNames]"

definition added_devices :: "'q vm_spec \<Rightarrow> 'q vm_spec \<Rightarrow> nat list" where
  "added_devices current desired =
     fold (\<lambda>acc added. updateIndexesForAddedDevices added (acc current) (acc desired))
       deviceAccessors []"

definition removed_devices :: "'q vm_spec \<Rightarrow> 'q vm_spec \<Rightarrow> nat list" where
  "removed_devices current desired =
     fold (\<lambda>acc removed. updateIndexesForRemovedDevices removed (acc current) (acc desired))
       deviceAccessors []"

definition swapped_devices :: "'q vm_spec \<Rightarrow> 'q vm_spec \<Rightarrow> nat list" where
  "swapped_devices current desired =
     (if length (added_devices current desired) = 0 \<and> length (removed_devices current desired) = 0
      then fold (\<lambda>acc swapped. updateIndexesForSwappedDevices swapped (acc current) (acc desired))
             deviceAccessors []
      else [])"

text \<open>The body of the loop over the indexes; the switch has no default branch.\<close>

definition block_device_change ::
  "'q vm_spec \<Rightarrow> 'q vm_spec \<Rightarrow> nat list \<Rightarrow> nat list \<Rightarrow> nat list \<Rightarrow> nat \<Rightarrow> 'q field_change list option" where
  "block_device_change current desired added removed swapped idx =
     (let isAdded = (idx \<in> set added);
          isRemoved = (idx \<in> set removed);
          isSwapped = (idx \<in> set swapped);
          action = (if \<not> IsParavirtualizationEnabled current then ActionRestart
                    else ActionApplyImmediate);
          change = no_change\<lparr> Path := blockDevicesItemPath idx, ActionRequired := action \<rparr>
      in if isAdded \<and> isRemoved then
           do { c \<leftarrow> slice_get (BlockDeviceRefs current) idx;
                d \<leftarrow> slice_get (BlockDeviceRefs desired) idx;
                Some [change\<lparr> Operation := ChangeReplace, CurrentValue := BlockDeviceRefValue c,
                              DesiredValue := BlockDeviceRefValue d \<rparr>] }
         else if isAdded then
           do { d \<leftarrow> slice_get (BlockDeviceRefs desired) idx;
                Some [change\<lparr> Operation := ChangeAdd, DesiredValue := BlockDeviceRefValue d \<rparr>] }
         else if isRemoved then
           do { c \<leftarrow> slice_get (BlockDeviceRefs current) idx;
                Some [change\<lparr> Operation := ChangeRemove, CurrentValue := BlockDeviceRefValue c \<rparr>] }
         else if isSwapped then
           do { c \<leftarrow> slice_get (BlockDeviceRefs current) idx;
                d \<leftarrow> slice_get (BlockDeviceRefs desired) idx;
                Some [change\<lparr> Operation := ChangeReplace, CurrentValue := BlockDeviceRefValue c,
                              DesiredValue := BlockDeviceRefValue d \<rparr>] }
         else Some [])"

definition compareBlockDevices :: "'q vm_spec \<Rightarrow> 'q vm_spec \<Rightarrow> 'q field_change list option" where
  "compareBlockDevices current desired =
     (if length (BlockDeviceRefs current) = 0 \<and> length (BlockDeviceRefs desired) = 0 then Some []
      else let fullChanges = compareEmpty blockDevicesPath
                 (NewValue (BlockDeviceRefsValue (BlockDeviceRefs current))
                    (length (BlockDeviceRefs current) = 0) False)
                 (NewValue (BlockDeviceRefsValue (BlockDeviceRefs desired))
                    (length (BlockDeviceRefs desired) = 0) False)
                 ActionApplyImmediate
           in if length fullChanges > 0 then Some fullChanges
              else let added = added_devices current desired;
                       removed = removed_devices current desired;
                       swapped = swapped_devices current desired
                   in map_option concat
                        (map_opt (block_device_change current desired added removed swapped)
                           (getUniqueIndexes [added, removed, swapped])))"

section \<open>block\_device\_refs\_validator.go\<close>

datatype block_device_error =
    DuplicateReference string string
  | BootOrderTooSmall nat string string
  | DuplicateBootOrder nat string string string

abbreviation device_key :: "block_device_ref \<Rightarrow> string \<times> string" where
  "device_key d \<equiv> (bd_Kind d, bd_Name d)"

fun noDoubles_loop :: "(string \<times> string) list \<Rightarrow> block_device_ref list \<Rightarrow> (block_device_error, unit) result" where
  "noDoubles_loop seen [] = Inr ()"
| "noDoubles_loop seen (bdRef # refs) =
     (if device_key bdRef \<in> set seen then Inl (DuplicateReference (bd_Kind bdRef) (bd_Name bdRef))
      else noDoubles_loop (device_key bdRef # seen) refs)"

definition noDoubles :: "'q vm_spec \<Rightarrow> (block_device_error, unit) result" where
  "noDoubles vm = noDoubles_loop [] (BlockDeviceRefs vm)"

definition hasBlockDeviceChanges :: "'q vm_spec \<Rightarrow> 'q vm_spec \<Rightarrow> bool" where
  "hasBlockDeviceChanges oldVM newVM =
     (let oldRefs = map device_key (BlockDeviceRefs oldVM);
          newRefs = map device_key (BlockDeviceRefs newVM)
      in list_ex (\<lambda>key. key \<notin> set newRefs) oldRefs \<or> list_ex (\<lambda>key. key \<notin> set oldRefs) newRefs)"

fun validateBootOrder_loop ::
  "(nat \<times> string) list \<Rightarrow> block_device_ref list \<Rightarrow> (block_device_error, unit) result" where
  "validateBootOrder_loop seen [] = Inr ()"
| "validateBootOrder_loop seen (bdRef # refs) =
     (case bd_BootOrder bdRef of
        None \<Rightarrow> validateBootOrder_loop seen refs
      | Some b \<Rightarrow>
          if b < 1 then Inl (BootOrderTooSmall b (bd_Kind bdRef) (bd_Name bdRef))
          else case map_of seen b of
                 Some prev \<Rightarrow> Inl (DuplicateBootOrder b prev (bd_Kind bdRef) (bd_Name bdRef))
               | None \<Rightarrow> validateBootOrder_loop
                           ((b, bd_Kind bdRef @ ''/'' @ bd_Name bdRef) # seen) refs)"

definition validateBootOrder :: "'q vm_spec \<Rightarrow> (block_device_error, unit) result" where
  "validateBootOrder vm = validateBootOrder_loop [] (BlockDeviceRefs vm)"

definition BlockDeviceSpecRefsValidator_validate :: "'q vm_spec \<Rightarrow> (block_device_error, unit) result" where
  "BlockDeviceSpecRefsValidator_validate vm =
     (case noDoubles vm of
        Inl err \<Rightarrow> Inl err
      | Inr _ \<Rightarrow> (case validateBootOrder vm of Inl err \<Rightarrow> Inl err | Inr _ \<Rightarrow> Inr ()))"

abbreviation hotplug_warning :: string where
  "hotplug_warning \<equiv> ''Hot-plugging block devices with enableParavirtualization=false is not supported. Restart the VM to apply changes.''"

definition BlockDeviceSpecRefsValidator_ValidateCreate ::
  "'q vm_spec \<Rightarrow> string list \<times> (block_device_error, unit) result" where
  "BlockDeviceSpecRefsValidator_ValidateCreate vm = ([], BlockDeviceSpecRefsValidator_validate vm)"

definition BlockDeviceSpecRefsValidator_ValidateUpdate ::
  "'q vm_spec \<Rightarrow> 'q vm_spec \<Rightarrow> string list \<times> (block_device_error, unit) result" where
  "BlockDeviceSpecRefsValidator_ValidateUpdate oldVM newVM =
     (if \<not> IsParavirtualizationEnabled newVM \<and> hasBlockDeviceChanges oldVM newVM
      then [hotplug_warning] else [],
      BlockDeviceSpecRefsValidator_validate newVM)"

section \<open>Index maps\<close>

lemma distinct_indexed_names:
  "distinct (map fst res) \<Longrightarrow> distinct (map fst (indexed_names kind idx devs res))"
  by (induction devs arbitrary: idx res) (auto simp: distinct_update)

lemma indexed_names_dom:
  "map_of (indexed_names kind idx devs res) n \<noteq> None \<longleftrightarrow>
     map_of res n \<noteq> None \<or> (kind, n) \<in> set (map device_key devs)"
  by (induction devs arbitrary: idx res) (auto simp: update_conv)

lemma indexed_names_SomeD:
  "map_of (indexed_names kind idx devs res) n = Some i \<Longrightarrow>
     map_of res n = Some i \<or> (\<exists>j < length devs. i = idx + j \<and> device_key (devs ! j) = (kind, n))"
proof (induction devs arbitrary: idx res)
  case Nil
  then show ?case by simp
next
  case (Cons d ds)
  let ?res = "if bd_Kind d = kind then AList.update (bd_Name d) idx res else res"
  from Cons.prems have "map_of (indexed_names kind (Suc idx) ds ?res) n = Some i" by simp
  from Cons.IH [OF this] show ?case
  proof
    assume "map_of ?res n = Some i"
    then have "map_of res n = Some i \<or> (i = idx \<and> device_key d = (kind, n))"
      by (auto simp: update_conv split: if_splits)
    then show ?thesis by (metis add.right_neutral length_Cons nth_Cons_0 zero_less_Suc)
  next
    assume "\<exists>j < length ds. i = Suc idx + j \<and> device_key (ds ! j) = (kind, n)"
    then obtain j where j: "j < length ds" "i = Suc idx + j" "device_key (ds ! j) = (kind, n)" by blast
    then have "Suc j < length (d # ds)" and "i = idx + Suc j"
      and "device_key ((d # ds) ! Suc j) = (kind, n)" by auto
    then show ?thesis by blast
  qed
qed

text \<open>With distinct references, a name has exactly one index.\<close>

lemma indexed_names_iff:
  assumes "distinct (map device_key devs)"
  shows "map_of (indexed_names kind 0 devs []) n = Some i \<longleftrightarrow>
     i < length devs \<and> device_key (devs ! i) = (kind, n)"
proof
  assume "map_of (indexed_names kind 0 devs []) n = Some i"
  then show "i < length devs \<and> device_key (devs ! i) = (kind, n)"
    using indexed_names_SomeD [of kind 0 devs "[]" n i] by auto
next
  assume i: "i < length devs \<and> device_key (devs ! i) = (kind, n)"
  then have "device_key (devs ! i) \<in> device_key ` set devs" by (intro imageI nth_mem) simp
  with i have "(kind, n) \<in> set (map device_key devs)" by (simp only: set_map)
  then have "map_of (indexed_names kind 0 devs []) n \<noteq> None" by (simp only: indexed_names_dom simp_thms)
  then obtain j where j: "map_of (indexed_names kind 0 devs []) n = Some j" by blast
  then have "j < length devs" "device_key (devs ! j) = (kind, n)"
    using indexed_names_SomeD [of kind 0 devs "[]" n j] by auto
  with i have "i = j" using distinct_map_nth_inj [OF assms, of i j] by simp
  with j show "map_of (indexed_names kind 0 devs []) n = Some i" by simp
qed

lemma indexed_names_mem_iff:
  assumes "distinct (map device_key devs)"
  shows "(n, i) \<in> set (indexed_names kind 0 devs []) \<longleftrightarrow>
     i < length devs \<and> device_key (devs ! i) = (kind, n)"
proof -
  have "distinct (map fst (indexed_names kind 0 devs []))"
    by (simp add: distinct_indexed_names)
  from map_of_eq_Some_iff [OF this, symmetric] show ?thesis
    by (simp only: indexed_names_iff [OF assms])
qed

lemma set_fold_filter_insert:
  "set (fold (\<lambda>(n, i) acc. if P n then List.insert i acc else acc) ps acc0) =
     set acc0 \<union> {i. \<exists>n. (n, i) \<in> set ps \<and> P n}"
  by (induction ps arbitrary: acc0) (auto split: if_splits)

lemma set_fold_swapped:
  "set (updateIndexesForSwappedDevices acc cur des) =
     set acc \<union> {i. \<exists>n j. (n, i) \<in> set cur \<and> map_of des n = Some j \<and> i \<noteq> j}"
  unfolding updateIndexesForSwappedDevices_def
  by (induction cur arbitrary: acc) (auto split: option.splits if_splits)

lemma set_updateAdded:
  "distinct (map fst des) \<Longrightarrow>
   set (updateIndexesForAddedDevices acc cur des) =
     set acc \<union> {i. \<exists>n. map_of des n = Some i \<and> map_of cur n = None}"
  by (auto simp: updateIndexesForAddedDevices_def set_fold_filter_insert)

lemma set_updateRemoved:
  "distinct (map fst cur) \<Longrightarrow>
   set (updateIndexesForRemovedDevices acc cur des) =
     set acc \<union> {i. \<exists>n. map_of cur n = Some i \<and> map_of des n = None}"
  by (auto simp: updateIndexesForRemovedDevices_def set_fold_filter_insert)

lemma set_updateSwapped:
  "distinct (map fst cur) \<Longrightarrow>
   set (updateIndexesForSwappedDevices acc cur des) =
     set acc \<union> {i. \<exists>n j. map_of cur n = Some i \<and> map_of des n = Some j \<and> i \<noteq> j}"
  by (auto simp: set_fold_swapped)

lemma set_getUniqueIndexes: "set (getUniqueIndexes ms) = \<Union> (set ` set ms)"
proof -
  have inner: "set (fold List.insert m acc) = set m \<union> set acc" for m acc :: "nat list"
    by (induction m arbitrary: acc) auto
  have "set (fold (fold List.insert) ms acc) = \<Union> (set ` set ms) \<union> set acc" for acc :: "nat list"
    by (induction ms arbitrary: acc) (auto simp: inner)
  then show ?thesis by (simp add: getUniqueIndexes_def)
qed

section \<open>The sets of added, removed and moved devices\<close>

abbreviation device_keys :: "'q vm_spec \<Rightarrow> (string \<times> string) list" where
  "device_keys s \<equiv> map device_key (BlockDeviceRefs s)"

definition known_kinds :: "string set" where
  "known_kinds = {ClusterImageDevice, VirtualImageKind, VirtualDiskKind}"

text \<open>What the API server's schema check of \<^verbatim>\<open>kind\<close> and the admission check establish.\<close>

definition valid_devices :: "'q vm_spec \<Rightarrow> bool" where
  "valid_devices s \<longleftrightarrow>
     distinct (device_keys s) \<and> list_all (\<lambda>d. bd_Kind d \<in> known_kinds) (BlockDeviceRefs s)"

lemmas accessor_defs = cvmiIndexedNames_def vmiIndexedNames_def vmdIndexedNames_def

lemma indexed_names_None:
  "map_of (indexed_names kind 0 devs []) n = None \<longleftrightarrow> (kind, n) \<notin> set (map device_key devs)"
  using indexed_names_dom [of kind 0 devs "[]" n] by auto

lemma set_added_devices:
  assumes "distinct (device_keys d)"
  shows "set (added_devices c d) =
    {i. i < length (BlockDeviceRefs d) \<and> bd_Kind (BlockDeviceRefs d ! i) \<in> known_kinds \<and>
        device_keys d ! i \<notin> set (device_keys c)}"
proof -
  define K where "K = set (device_keys c)"
  have "map_of (indexed_names kind 0 (BlockDeviceRefs c) []) n = None \<longleftrightarrow> (kind, n) \<notin> K" for kind n
    by (simp only: K_def indexed_names_None)
  then show ?thesis
    using assms unfolding K_def [symmetric]
    by (auto simp: added_devices_def deviceAccessors_def accessor_defs set_updateAdded
        distinct_indexed_names indexed_names_mem_iff known_kinds_def)
qed

lemma set_removed_devices:
  assumes "distinct (device_keys c)"
  shows "set (removed_devices c d) =
    {i. i < length (BlockDeviceRefs c) \<and> bd_Kind (BlockDeviceRefs c ! i) \<in> known_kinds \<and>
        device_keys c ! i \<notin> set (device_keys d)}"
proof -
  define K where "K = set (device_keys d)"
  have "map_of (indexed_names kind 0 (BlockDeviceRefs d) []) n = None \<longleftrightarrow> (kind, n) \<notin> K" for kind n
    by (simp only: K_def indexed_names_None)
  then show ?thesis
    using assms unfolding K_def [symmetric]
    by (auto simp: removed_devices_def deviceAccessors_def accessor_defs set_updateRemoved
        distinct_indexed_names indexed_names_mem_iff known_kinds_def)
qed

lemma set_swapped_devices:
  assumes "distinct (device_keys c)" and "distinct (device_keys d)"
    and "added_devices c d = []" and "removed_devices c d = []"
  shows "set (swapped_devices c d) =
    {i. i < length (BlockDeviceRefs c) \<and> bd_Kind (BlockDeviceRefs c ! i) \<in> known_kinds \<and>
        (\<exists>j < length (BlockDeviceRefs d). device_keys d ! j = device_keys c ! i \<and> i \<noteq> j)}"
  using assms
  by (auto simp: swapped_devices_def deviceAccessors_def accessor_defs set_updateSwapped
      distinct_indexed_names indexed_names_mem_iff known_kinds_def)

lemma no_added_subset:
  assumes "valid_devices d" and "added_devices c d = []"
  shows "set (device_keys d) \<subseteq> set (device_keys c)"
proof
  fix k assume "k \<in> set (device_keys d)"
  then obtain i where i: "i < length (BlockDeviceRefs d)" "device_keys d ! i = k"
    by (auto simp: in_set_conv_nth)
  have "bd_Kind (BlockDeviceRefs d ! i) \<in> known_kinds"
    using assms(1) i(1) by (simp add: valid_devices_def list_all_length)
  moreover have "i \<notin> set (added_devices c d)" using assms(2) by simp
  ultimately show "k \<in> set (device_keys c)"
    using assms(1) i by (simp add: set_added_devices valid_devices_def)
qed

lemma no_removed_subset:
  assumes "valid_devices c" and "removed_devices c d = []"
  shows "set (device_keys c) \<subseteq> set (device_keys d)"
proof
  fix k assume "k \<in> set (device_keys c)"
  then obtain i where i: "i < length (BlockDeviceRefs c)" "device_keys c ! i = k"
    by (auto simp: in_set_conv_nth)
  have "bd_Kind (BlockDeviceRefs c ! i) \<in> known_kinds"
    using assms(1) i(1) by (simp add: valid_devices_def list_all_length)
  moreover have "i \<notin> set (removed_devices c d)" using assms(2) by simp
  ultimately show "k \<in> set (device_keys d)"
    using assms(1) i by (simp add: set_removed_devices valid_devices_def)
qed

lemma same_devices_same_length:
  assumes "valid_devices c" and "valid_devices d"
    and "added_devices c d = []" and "removed_devices c d = []"
  shows "length (BlockDeviceRefs c) = length (BlockDeviceRefs d)"
proof -
  have "set (device_keys c) = set (device_keys d)"
    using no_added_subset [OF assms(2,3)] no_removed_subset [OF assms(1,4)] by blast
  moreover have "card (set (device_keys c)) = length (device_keys c)"
    using assms(1) unfolding valid_devices_def by (blast intro: distinct_card)
  moreover have "card (set (device_keys d)) = length (device_keys d)"
    using assms(2) unfolding valid_devices_def by (blast intro: distinct_card)
  ultimately show ?thesis by (simp only: length_map)
qed

lemma no_swapped_equal:
  assumes "valid_devices c" and "valid_devices d"
    and "added_devices c d = []" and "removed_devices c d = []" and "swapped_devices c d = []"
  shows "device_keys c = device_keys d"
proof (rule nth_equalityI)
  have len: "length (BlockDeviceRefs c) = length (BlockDeviceRefs d)"
    using assms(1-4) by (rule same_devices_same_length)
  then show "length (device_keys c) = length (device_keys d)" by simp
  fix i assume i: "i < length (device_keys c)"
  have "device_keys c ! i \<in> set (device_keys d)"
    using i no_removed_subset [OF assms(1,4)] nth_mem by blast
  then obtain j where j: "j < length (BlockDeviceRefs d)" "device_keys d ! j = device_keys c ! i"
    by (auto simp: in_set_conv_nth)
  have "bd_Kind (BlockDeviceRefs c ! i) \<in> known_kinds"
    using assms(1) i by (simp add: valid_devices_def list_all_length)
  moreover have "i \<notin> set (swapped_devices c d)" using assms(5) by simp
  ultimately have "i = j"
    using assms(1-4) i j set_swapped_devices [of c d] by (auto simp: valid_devices_def)
  with j show "device_keys c ! i = device_keys d ! i" by simp
qed

text \<open>Every index the loop visits is in range of the slices it reads.\<close>

lemma block_device_change_total:
  assumes "valid_devices c" and "valid_devices d"
    and "idx \<in> set (added_devices c d) \<union> set (removed_devices c d) \<union> set (swapped_devices c d)"
  shows "\<exists>x. Operation x \<noteq> ChangeNone \<and>
    block_device_change c d (added_devices c d) (removed_devices c d) (swapped_devices c d) idx = Some [x] \<and>
    Path x = blockDevicesItemPath idx \<and>
    ActionRequired x = (if IsParavirtualizationEnabled c then ActionApplyImmediate else ActionRestart)"
proof -
  have added: "idx \<in> set (added_devices c d) \<Longrightarrow> idx < length (BlockDeviceRefs d)"
    using assms(2) by (auto simp: set_added_devices valid_devices_def)
  have removed: "idx \<in> set (removed_devices c d) \<Longrightarrow> idx < length (BlockDeviceRefs c)"
    using assms(1) by (auto simp: set_removed_devices valid_devices_def)
  have swapped: "idx < length (BlockDeviceRefs c) \<and> idx < length (BlockDeviceRefs d)"
    if "idx \<in> set (swapped_devices c d)"
  proof -
    from that have none: "added_devices c d = []" "removed_devices c d = []"
      by (auto simp: swapped_devices_def split: if_splits)
    then have "idx < length (BlockDeviceRefs c)"
      using that assms set_swapped_devices [of c d] by (auto simp: valid_devices_def)
    with none assms same_devices_same_length show ?thesis by metis
  qed
  show ?thesis
    using assms(3) added removed swapped
    by (auto simp: block_device_change_def Let_def slice_get_def no_change_def)
qed

lemma equal_devices_no_change:
  assumes "valid_devices c" and "valid_devices d" and eq: "device_keys c = device_keys d"
  shows "added_devices c d = []" and "removed_devices c d = []" and "swapped_devices c d = []"
proof -
  have dist: "distinct (device_keys c)" "distinct (device_keys d)"
    using assms(1,2) by (simp_all add: valid_devices_def)
  have len: "length (BlockDeviceRefs c) = length (BlockDeviceRefs d)"
    using eq map_eq_imp_length_eq by blast
  have mem: "device_keys d ! i \<in> set (device_keys d)" if "i < length (BlockDeviceRefs d)" for i
    using that by (intro nth_mem) simp
  have "set (added_devices c d) = {}" using dist mem by (auto simp only: set_added_devices eq)
  then show added: "added_devices c d = []" by simp
  have "set (removed_devices c d) = {}"
    using dist mem len by (auto simp only: set_removed_devices eq)
  then show removed: "removed_devices c d = []" by simp
  have inj: "i = j" if "device_keys d ! j = device_keys d ! i"
      "i < length (BlockDeviceRefs d)" "j < length (BlockDeviceRefs d)" for i j
    using that dist(2) nth_eq_iff_index_eq [of "device_keys d" i j] by simp
  have "set (swapped_devices c d) = {}"
    using inj len by (auto simp only: set_swapped_devices [OF dist added removed] eq)
  then show "swapped_devices c d = []" by simp
qed

definition device_action :: "'q vm_spec \<Rightarrow> action_type" where
  "device_action c = (if IsParavirtualizationEnabled c then ActionApplyImmediate else ActionRestart)"

lemma compareBlockDevices_items:
  assumes "valid_devices c" and "valid_devices d"
    and "BlockDeviceRefs c \<noteq> []" and "BlockDeviceRefs d \<noteq> []"
  shows "\<exists>ys. compareBlockDevices c d = Some ys \<and> (ys \<noteq> [] \<longleftrightarrow> device_keys c \<noteq> device_keys d) \<and>
    list_all (\<lambda>x. Operation x \<noteq> ChangeNone \<and> ActionRequired x = device_action c) ys"
proof -
  let ?a = "added_devices c d" and ?r = "removed_devices c d" and ?s = "swapped_devices c d"
  let ?idx = "getUniqueIndexes [?a, ?r, ?s]"
  let ?f = "block_device_change c d ?a ?r ?s"
  let ?P = "\<lambda>x. Operation x \<noteq> ChangeNone \<and> ActionRequired x = device_action c"
  have full: "compareBlockDevices c d = map_option concat (map_opt ?f ?idx)"
    using assms(3,4) by (simp add: compareBlockDevices_def change_simps)
  have idx: "set ?idx = set ?a \<union> set ?r \<union> set ?s" by (auto simp: set_getUniqueIndexes)
  have each: "\<exists>x. ?P x \<and> ?f i = Some [x]" if "i \<in> set ?idx" for i
    using block_device_change_total [OF assms(1,2), of i] that idx
    unfolding device_action_def by blast
  obtain ys where ys: "map_opt ?f ?idx = Some (map (\<lambda>y. [y]) ys)" "length ys = length ?idx"
      "list_all ?P ys"
    using map_opt_singletons [of ?idx ?P ?f] each by blast
  have "ys \<noteq> [] \<longleftrightarrow> ?idx \<noteq> []" using ys(2) by (cases ys) auto
  also have "\<dots> \<longleftrightarrow> \<not> (?a = [] \<and> ?r = [] \<and> ?s = [])" using idx by (metis Un_empty set_empty)
  also have "\<dots> \<longleftrightarrow> device_keys c \<noteq> device_keys d"
    using equal_devices_no_change [OF assms(1,2)] no_swapped_equal [OF assms(1,2)] by blast
  finally show ?thesis using full ys(1,3) by simp
qed

lemma compareBlockDevices_empty:
  assumes "BlockDeviceRefs c = [] \<or> BlockDeviceRefs d = []"
  shows "\<exists>ys. compareBlockDevices c d = Some ys \<and> (ys \<noteq> [] \<longleftrightarrow> device_keys c \<noteq> device_keys d) \<and>
    list_all (\<lambda>x. Operation x \<noteq> ChangeNone \<and> ActionRequired x = ActionApplyImmediate) ys"
  using assms by (cases "BlockDeviceRefs c"; cases "BlockDeviceRefs d")
    (auto simp: compareBlockDevices_def change_simps)

lemma compareBlockDevices_cases:
  assumes "valid_devices c" and "valid_devices d"
  shows "\<exists>cs. compareBlockDevices c d = Some cs \<and> (HasChanges cs \<longleftrightarrow> device_keys c \<noteq> device_keys d) \<and>
    ((\<exists>x \<in> set cs. ActionRequired x = ActionRestart) \<longleftrightarrow>
       device_keys c \<noteq> device_keys d \<and> BlockDeviceRefs c \<noteq> [] \<and> BlockDeviceRefs d \<noteq> [] \<and>
       \<not> IsParavirtualizationEnabled c)"
proof (cases "BlockDeviceRefs c = [] \<or> BlockDeviceRefs d = []")
  case True
  then obtain ys where ys: "compareBlockDevices c d = Some ys" "ys \<noteq> [] \<longleftrightarrow> device_keys c \<noteq> device_keys d"
    "list_all (\<lambda>x. Operation x \<noteq> ChangeNone \<and> ActionRequired x = ActionApplyImmediate) ys"
    using compareBlockDevices_empty by blast
  moreover from ys(3) have "HasChanges ys \<longleftrightarrow> ys \<noteq> []" by (cases ys) auto
  moreover from ys(3) have "\<not> (\<exists>x \<in> set ys. ActionRequired x = ActionRestart)"
    by (auto simp: list_all_iff)
  ultimately show ?thesis using True by blast
next
  case False
  then obtain ys where ys: "compareBlockDevices c d = Some ys" "ys \<noteq> [] \<longleftrightarrow> device_keys c \<noteq> device_keys d"
    "list_all (\<lambda>x. Operation x \<noteq> ChangeNone \<and> ActionRequired x = device_action c) ys"
    using compareBlockDevices_items [OF assms] by blast
  moreover from ys(3) have "HasChanges ys \<longleftrightarrow> ys \<noteq> []" by (cases ys) auto
  moreover from ys(3) have "(\<exists>x \<in> set ys. ActionRequired x = ActionRestart) \<longleftrightarrow>
      ys \<noteq> [] \<and> \<not> IsParavirtualizationEnabled c"
    by (cases ys) (auto simp: list_all_iff device_action_def)
  ultimately show ?thesis using False by blast
qed

section \<open>Properties\<close>

text \<open>
  On two specifications whose references are distinct and of known kinds, the comparator of
  block devices never indexes a slice out of range, and it reports a change exactly when the two
  ordered lists of devices (kind and name) differ.
\<close>

lemma compareBlockDevices_reports:
  assumes "valid_devices current" and "valid_devices desired"
  shows "\<exists>cs. compareBlockDevices current desired = Some cs \<and>
    (HasChanges cs \<longleftrightarrow> device_keys current \<noteq> device_keys desired)"
  using compareBlockDevices_cases [OF assms] by blast


lemma noDoubles_loop_ok:
  "noDoubles_loop seen refs = Inr () \<longleftrightarrow>
     distinct (map device_key refs) \<and> set (map device_key refs) \<inter> set seen = {}"
  by (induction refs arbitrary: seen) auto

lemma noDoubles_ok: "noDoubles vm = Inr () \<longleftrightarrow> distinct (device_keys vm)"
  by (simp add: noDoubles_def noDoubles_loop_ok)

definition boot_orders :: "block_device_ref list \<Rightarrow> nat list" where
  "boot_orders refs = List.map_filter bd_BootOrder refs"

lemma boot_orders_simps [simp]:
  "boot_orders [] = []"
  "boot_orders (r # rs) = (case bd_BootOrder r of None \<Rightarrow> boot_orders rs | Some b \<Rightarrow> b # boot_orders rs)"
  by (simp_all add: boot_orders_def map_filter_simps split: option.split)

lemma validateBootOrder_loop_ok:
  "validateBootOrder_loop seen refs = Inr () \<longleftrightarrow>
     distinct (boot_orders refs) \<and> list_all (\<lambda>b. 1 \<le> b) (boot_orders refs) \<and>
     set (boot_orders refs) \<inter> dom (map_of seen) = {}"
  by (induction refs arbitrary: seen) (auto split: option.splits)

text \<open>
  The admission check accepts a specification exactly when no block device is referenced
  twice and the boot orders that are set are positive and pairwise different; together with the
  schema check of the kinds this is the validity the comparator of block devices relies on.
\<close>

lemma BlockDeviceSpecRefsValidator_accepts:
  "BlockDeviceSpecRefsValidator_validate vm = Inr () \<longleftrightarrow>
     distinct (device_keys vm) \<and> distinct (boot_orders (BlockDeviceRefs vm)) \<and>
     list_all (\<lambda>b. 1 \<le> b) (boot_orders (BlockDeviceRefs vm))"
proof -
  have "BlockDeviceSpecRefsValidator_validate vm = Inr () \<longleftrightarrow>
      noDoubles vm = Inr () \<and> validateBootOrder vm = Inr ()"
    by (auto simp: BlockDeviceSpecRefsValidator_validate_def split: sum.splits)
  then show ?thesis
    by (simp add: noDoubles_ok validateBootOrder_def validateBootOrder_loop_ok)
qed

lemma admitted_valid_devices:
  assumes "BlockDeviceSpecRefsValidator_validate vm = Inr ()"
    and "list_all (\<lambda>d. bd_Kind d \<in> known_kinds) (BlockDeviceRefs vm)"
  shows "valid_devices vm"
proof -
  have "noDoubles vm = Inr ()"
    using assms(1) by (auto simp: BlockDeviceSpecRefsValidator_validate_def split: sum.splits)
  with assms(2) show ?thesis by (simp add: valid_devices_def noDoubles_ok)
qed

end
