(* ===== verification/VMCompare.thy ===== *)
theory VMCompare
  imports VMComparators VMBlockDevices "HOL-Library.Multiset"
begin

text \<open>
  The comparison of whole specifications (\<^verbatim>\<open>vmchange/compare.go\<close>).  The loop that runs a list of
  comparators and collects their changes is written twice in the code, for virtual machines and for
  classes; the locale \<open>comparator_suite\<close> states what it relies on and is interpreted on both lists.
\<close>

section \<open>compare.go\<close>

type_synonym ('s, 'q) comparator = "'s \<Rightarrow> 's \<Rightarrow> 'q field_change list option"

text \<open>A comparator built from a function; the nil function reports nothing.\<close>

definition vmSpecFieldComparator :: "('s, 'q) comparator option \<Rightarrow> ('s, 'q) comparator" where
  "vmSpecFieldComparator fn prev nxt = (case fn of None \<Rightarrow> Some [] | Some f \<Rightarrow> f prev nxt)"

abbreviation pure_comparator :: "('s \<Rightarrow> 's \<Rightarrow> 'q field_change list) \<Rightarrow> ('s, 'q) comparator" where
  "pure_comparator f \<equiv> vmSpecFieldComparator (Some (\<lambda>c d. Some (f c d)))"

definition comparators ::
  "'q quantity_ops \<Rightarrow> feature_gate \<Rightarrow> feature_gate \<Rightarrow> ('q vm_spec, 'q) comparator list" where
  "comparators Q dg fg =
     [ pure_comparator compareVirtualMachineClass,
       pure_comparator compareRunPolicy,
       pure_comparator compareVirtualMachineIPAddress,
       pure_comparator compareTopologySpreadConstraints,
       pure_comparator (compareAffinity dg),
       pure_comparator (compareNodeSelector dg),
       pure_comparator comparePriorityClassName,
       pure_comparator (compareTolerations dg),
       pure_comparator compareDisruptions,
       pure_comparator compareTerminationGracePeriodSeconds,
       pure_comparator compareEnableParavirtualization,
       pure_comparator compareOSType,
       pure_comparator compareBootloader,
       pure_comparator (comparatorCPU_Compare fg),
       pure_comparator (comparatorMemory_Compare Q fg),
       vmSpecFieldComparator (Some compareBlockDevices),
       pure_comparator compareProvisioning,
       pure_comparator compareNetworks,
       pure_comparator compareUSBDevices,
       pure_comparator compareGPUDevices ]"

definition vmclassSpecComparators :: "feature_gate \<Rightarrow> ('q vm_class_spec, 'q) comparator list" where
  "vmclassSpecComparators dg =
     [ pure_comparator (compareVMClassNodeSelector dg), pure_comparator (compareVMClassTolerations dg) ]"

fun run_comparators ::
  "('s, 'q) comparator list \<Rightarrow> 's \<Rightarrow> 's \<Rightarrow> 'q spec_changes \<Rightarrow> 'q spec_changes option" where
  "run_comparators [] prev nxt specChanges = Some specChanges"
| "run_comparators (comparator # rest) prev nxt specChanges =
     (case comparator prev nxt of
        None \<Rightarrow> None
      | Some cs \<Rightarrow>
          run_comparators rest prev nxt
            (if HasChanges cs then Add specChanges cs else specChanges))"

definition VMSpecComparator_Compare ::
  "'q quantity_ops \<Rightarrow> feature_gate \<Rightarrow> feature_gate \<Rightarrow> 'q vm_spec \<Rightarrow> 'q vm_spec \<Rightarrow> 'q spec_changes option" where
  "VMSpecComparator_Compare Q dg fg prev nxt = run_comparators (comparators Q dg fg) prev nxt empty_changes"

definition CompareClassSpecs ::
  "feature_gate \<Rightarrow> 'q vm_class_spec \<Rightarrow> 'q vm_class_spec \<Rightarrow> 'q spec_changes option" where
  "CompareClassSpecs dg prevClass nextClass =
     run_comparators (vmclassSpecComparators dg) prevClass nextClass empty_changes"

section \<open>The contract of a suite of comparators\<close>

text \<open>
  \<open>ok\<close> is the validity the comparators may rely on and \<open>same\<close> the equivalence the suite decides:
  on valid inputs no comparator panics, and no comparator reports a change exactly on equivalent
  inputs.
\<close>

locale comparator_suite =
  fixes suite :: "('s, 'q) comparator list"
    and ok :: "'s \<Rightarrow> bool"
    and same :: "'s \<Rightarrow> 's \<Rightarrow> bool"
  assumes total: "f \<in> set suite \<Longrightarrow> ok c \<Longrightarrow> ok d \<Longrightarrow> \<exists>cs. f c d = Some cs"
    and exact: "ok c \<Longrightarrow> ok d \<Longrightarrow>
      (\<forall>f \<in> set suite. \<forall>cs. f c d = Some cs \<longrightarrow> \<not> HasChanges cs) \<longleftrightarrow> same c d"
begin

lemma run_collects:
  "(\<And>f. f \<in> set fs \<Longrightarrow> \<exists>cs. f c d = Some cs) \<Longrightarrow>
     run_comparators fs c d s = Some \<lparr> changes = changes s @
       concat (map (\<lambda>f. case f c d of None \<Rightarrow> [] | Some cs \<Rightarrow> if HasChanges cs then cs else []) fs) \<rparr>"
proof (induction fs arbitrary: s)
  case Nil
  then show ?case by simp
next
  case (Cons f fs)
  then obtain cs where "f c d = Some cs" by auto
  with Cons show ?case by (auto simp: Add_def)
qed

lemma suite_collects:
  "ok c \<Longrightarrow> ok d \<Longrightarrow> \<exists>s. run_comparators suite c d empty_changes = Some s \<and>
     (\<forall>x. x \<in> set (changes s) \<longleftrightarrow>
       (\<exists>f \<in> set suite. \<exists>cs. f c d = Some cs \<and> HasChanges cs \<and> x \<in> set cs))"
proof -
  assume ok: "ok c" "ok d"
  define g :: "('s, 'q) comparator \<Rightarrow> 'q field_change list"
    where "g = (\<lambda>f. case f c d of None \<Rightarrow> [] | Some cs \<Rightarrow> if HasChanges cs then cs else [])"
  have "x \<in> set (g f) \<longleftrightarrow> (\<exists>cs. f c d = Some cs \<and> HasChanges cs \<and> x \<in> set cs)" for f x
    by (cases "f c d") (auto simp: g_def)
  then have "\<forall>x. x \<in> set (concat (map g suite)) \<longleftrightarrow>
      (\<exists>f \<in> set suite. \<exists>cs. f c d = Some cs \<and> HasChanges cs \<and> x \<in> set cs)"
    by simp
  moreover have "run_comparators suite c d empty_changes = Some \<lparr> changes = concat (map g suite) \<rparr>"
    unfolding g_def
    by (rule run_collects [where s = empty_changes, unfolded spec_changes.select_convs append_Nil])
      (rule total [OF _ ok])
  ultimately show ?thesis
    by (intro exI [of _ "\<lparr> changes = concat (map g suite) \<rparr>"])
      (simp only: spec_changes.select_convs simp_thms)
qed

lemma suite_decides:
  "ok c \<Longrightarrow> ok d \<Longrightarrow> \<exists>s. run_comparators suite c d empty_changes = Some s \<and>
     (IsEmpty_changes s \<longleftrightarrow> same c d)"
proof -
  assume ok: "ok c" "ok d"
  then obtain s where s: "run_comparators suite c d empty_changes = Some s"
    and mem: "\<And>x. x \<in> set (changes s) \<longleftrightarrow>
      (\<exists>f \<in> set suite. \<exists>cs. f c d = Some cs \<and> HasChanges cs \<and> x \<in> set cs)"
    using suite_collects by blast
  have "IsEmpty_changes s \<longleftrightarrow> (\<forall>x. x \<notin> set (changes s))"
    by (auto simp: IsEmpty_changes_def)
  also have "\<dots> \<longleftrightarrow> (\<forall>f \<in> set suite. \<forall>cs. f c d = Some cs \<longrightarrow> \<not> HasChanges cs)"
    unfolding mem by (auto simp: HasChanges_iff)
  finally show ?thesis using s exact [OF ok] by blast
qed

end

section \<open>What each comparator decides\<close>

lemma set_restart_message_HasChanges [simp]:
  "HasChanges (set_restart_message msg cs) \<longleftrightarrow> HasChanges cs"
  by (cases cs) (auto simp: set_restart_message_def)

lemma HasChanges_compareDisruptions:
  "HasChanges (compareDisruptions c d) \<longleftrightarrow> Disruptions c \<noteq> Disruptions d"
  by (cases "Disruptions c"; cases "Disruptions d")
    (auto simp: compareDisruptions_def HasChanges_compare NewPtrValue_def NewValue_def)

lemma HasChanges_comparatorCPU:
  "HasChanges (comparatorCPU_Compare fg c d) \<longleftrightarrow> CPU c \<noteq> CPU d"
  by (auto simp: comparatorCPU_Compare_def Let_def HasChanges_compare intro: cpu_spec.equality)

lemma HasChanges_comparatorMemory:
  "quantity_laws Q nano \<Longrightarrow>
     HasChanges (comparatorMemory_Compare Q fg c d) \<longleftrightarrow> nano (MemorySize c) \<noteq> nano (MemorySize d)"
  by (simp add: comparatorMemory_Compare_def HasChanges_compareQuantity)

definition refs_equiv :: "secret_ref option \<Rightarrow> secret_ref option \<Rightarrow> bool" where
  "refs_equiv c d =
     (case (c, d) of
        (None, None) \<Rightarrow> True
      | (Some x, Some y) \<Rightarrow> ref_Kind x = ref_Kind y \<and> (ref_Kind x = '''' \<or> ref_Name x = ref_Name y)
      | _ \<Rightarrow> False)"

lemma HasChanges_compareSecretRefs: "HasChanges (compareSecretRefs p c d) \<longleftrightarrow> \<not> refs_equiv c d"
proof (cases c; cases d)
  fix x y assume cd: "c = Some x" "d = Some y"
  show ?thesis
  proof (cases "ref_Kind x = '''' \<and> ref_Kind y = ''''")
    case True
    then show ?thesis
      using cd by (simp add: compareSecretRefs_def refs_equiv_def change_simps)
  next
    case False
    have "compareStrings (p @ ''.kind'') (ref_Kind x) (ref_Kind y) '''' ActionRestart = []
      \<longleftrightarrow> ref_Kind x = ref_Kind y"
      using False by (auto simp: change_simps)
    then show ?thesis
      using cd False HasChanges_compareStrings [of "p @ ''.kind''" "ref_Kind x" "ref_Kind y" "''''"]
      by (auto simp: compareSecretRefs_def refs_equiv_def Let_def HasChanges_compareStrings)
  qed
qed (auto simp: compareSecretRefs_def refs_equiv_def HasChanges_compareEmpty NewPtrValue_def NewValue_def)

definition provisioning_equiv :: "provisioning option \<Rightarrow> provisioning option \<Rightarrow> bool" where
  "provisioning_equiv c d =
     (case (c, d) of
        (None, None) \<Rightarrow> True
      | (Some x, Some y) \<Rightarrow>
          prov_Type x = prov_Type y \<and>
          (prov_Type x = ProvisioningTypeSysprepRef \<longrightarrow> refs_equiv (prov_SysprepRef x) (prov_SysprepRef y)) \<and>
          (prov_Type x = ProvisioningTypeUserData \<longrightarrow> prov_UserData x = prov_UserData y) \<and>
          (prov_Type x = ProvisioningTypeUserDataRef \<longrightarrow> refs_equiv (prov_UserDataRef x) (prov_UserDataRef y))
      | _ \<Rightarrow> False)"

lemma HasChanges_compareProvisioning:
  "HasChanges (compareProvisioning c d) \<longleftrightarrow> \<not> provisioning_equiv (Provisioning c) (Provisioning d)"
proof (cases "Provisioning c"; cases "Provisioning d")
  fix x y assume "Provisioning c = Some x" "Provisioning d = Some y"
  then show ?thesis
    by (auto simp: compareProvisioning_def provisioning_equiv_def HasChanges_compareSecretRefs
        HasChanges_compareStrings no_change_def)
qed (auto simp: compareProvisioning_def provisioning_equiv_def change_simps isCloudInitProvisioning_def)

lemma HasChanges_compareGPUDevices:
  "HasChanges (compareGPUDevices c d) \<longleftrightarrow> mset (GPUs c) \<noteq> mset (GPUs d)"
proof -
  have "sort (GPUs c) = sort (GPUs d) \<longleftrightarrow> mset (GPUs c) = mset (GPUs d)"
    by (metis mset_sort properties_for_sort sorted_sort)
  then show ?thesis
    by (auto simp: compareGPUDevices_def SortGPUDevices_def slice_def HasChanges_compareValues
        NewValue_def Let_def)
qed

lemmas placement_defs = compareTopologySpreadConstraints_def compareAffinity_def
  compareNodeSelector_def comparePriorityClassName_def compareTolerations_def compareNetworks_def
  compareUSBDevices_def compareVirtualMachineClass_def compareRunPolicy_def
  compareVirtualMachineIPAddress_def compareTerminationGracePeriodSeconds_def
  compareEnableParavirtualization_def compareOSType_def compareBootloader_def

lemma HasChanges_simple_fields:
  "HasChanges (compareVirtualMachineClass c d) \<longleftrightarrow> VirtualMachineClassName c \<noteq> VirtualMachineClassName d"
  "HasChanges (compareRunPolicy c d) \<longleftrightarrow> RunPolicy c \<noteq> RunPolicy d"
  "HasChanges (compareVirtualMachineIPAddress c d) \<longleftrightarrow> VirtualMachineIPAddress c \<noteq> VirtualMachineIPAddress d"
  "HasChanges (compareTopologySpreadConstraints c d) \<longleftrightarrow> TopologySpreadConstraints c \<noteq> TopologySpreadConstraints d"
  "HasChanges (compareAffinity dg c d) \<longleftrightarrow> Affinity c \<noteq> Affinity d"
  "HasChanges (compareNodeSelector dg c d) \<longleftrightarrow> NodeSelector c \<noteq> NodeSelector d"
  "HasChanges (comparePriorityClassName c d) \<longleftrightarrow> PriorityClassName c \<noteq> PriorityClassName d"
  "HasChanges (compareTolerations dg c d) \<longleftrightarrow> Tolerations c \<noteq> Tolerations d"
  "HasChanges (compareTerminationGracePeriodSeconds c d) \<longleftrightarrow>
     TerminationGracePeriodSeconds c \<noteq> TerminationGracePeriodSeconds d"
  "HasChanges (compareEnableParavirtualization c d) \<longleftrightarrow> EnableParavirtualization c \<noteq> EnableParavirtualization d"
  "HasChanges (compareOSType c d) \<longleftrightarrow> OsType c \<noteq> OsType d"
  "HasChanges (compareBootloader c d) \<longleftrightarrow> Bootloader c \<noteq> Bootloader d"
  "HasChanges (compareNetworks c d) \<longleftrightarrow> Networks c \<noteq> Networks d"
  "HasChanges (compareUSBDevices c d) \<longleftrightarrow> USBDevices c \<noteq> USBDevices d"
  by (auto simp: placement_defs HasChanges_compare NewValue_def Let_def)

lemmas HasChanges_fields = HasChanges_simple_fields HasChanges_compareDisruptions
  HasChanges_comparatorCPU HasChanges_compareProvisioning HasChanges_compareGPUDevices

text \<open>
  Two specifications the suite does not tell apart: equal field by field, with memory compared by
  amount, block devices by kind and name in order, GPUs up to order, and provisioning as above.
  The live migration policy is not compared.
\<close>

definition spec_equiv :: "('q \<Rightarrow> int) \<Rightarrow> 'q vm_spec \<Rightarrow> 'q vm_spec \<Rightarrow> bool" where
  "spec_equiv nano c d \<longleftrightarrow>
     VirtualMachineClassName c = VirtualMachineClassName d \<and> RunPolicy c = RunPolicy d \<and>
     VirtualMachineIPAddress c = VirtualMachineIPAddress d \<and>
     TopologySpreadConstraints c = TopologySpreadConstraints d \<and> Affinity c = Affinity d \<and>
     NodeSelector c = NodeSelector d \<and> PriorityClassName c = PriorityClassName d \<and>
     Tolerations c = Tolerations d \<and> Disruptions c = Disruptions d \<and>
     TerminationGracePeriodSeconds c = TerminationGracePeriodSeconds d \<and>
     EnableParavirtualization c = EnableParavirtualization d \<and> OsType c = OsType d \<and>
     Bootloader c = Bootloader d \<and> CPU c = CPU d \<and> nano (MemorySize c) = nano (MemorySize d) \<and>
     device_keys c = device_keys d \<and> provisioning_equiv (Provisioning c) (Provisioning d) \<and>
     Networks c = Networks d \<and> USBDevices c = USBDevices d \<and> mset (GPUs c) = mset (GPUs d)"

lemma vm_comparator_suite:
  assumes "quantity_laws Q nano"
  shows "comparator_suite (comparators Q dg fg) valid_devices (spec_equiv nano)"
proof
  fix f :: "('a vm_spec, 'a) comparator" and c d :: "'a vm_spec"
  assume "f \<in> set (comparators Q dg fg)" and ok: "valid_devices c" "valid_devices d"
  moreover obtain cs where "compareBlockDevices c d = Some cs"
    using compareBlockDevices_cases [OF ok] by blast
  ultimately show "\<exists>cs. f c d = Some cs"
    by (auto simp: comparators_def vmSpecFieldComparator_def)
next
  fix c d :: "'a vm_spec"
  assume ok: "valid_devices c" "valid_devices d"
  obtain cs where cs: "compareBlockDevices c d = Some cs"
    "HasChanges cs \<longleftrightarrow> device_keys c \<noteq> device_keys d"
    using compareBlockDevices_cases [OF ok] by blast
  show "(\<forall>f \<in> set (comparators Q dg fg). \<forall>cs. f c d = Some cs \<longrightarrow> \<not> HasChanges cs)
      \<longleftrightarrow> spec_equiv nano c d"
    unfolding comparators_def spec_equiv_def
    by (simp add: vmSpecFieldComparator_def HasChanges_fields HasChanges_comparatorMemory [OF assms]
        cs conj_assoc)
qed


text \<open>Under the laws of quantities the suite of a virtual machine meets its contract.\<close>

sublocale quantity_arith \<subseteq> vm_suite: comparator_suite "comparators Q dg fg" valid_devices "spec_equiv nano"
  for dg fg
  by (rule vm_comparator_suite) (rule laws)

definition class_spec_equiv :: "'q vm_class_spec \<Rightarrow> 'q vm_class_spec \<Rightarrow> bool" where
  "class_spec_equiv c d \<longleftrightarrow> cls_Tolerations c = cls_Tolerations d \<and>
     (cls_NodeSelector c = cls_NodeSelector d \<or>
      class_node_selector_empty (cls_NodeSelector c) \<and> class_node_selector_empty (cls_NodeSelector d))"

interpretation class_suite: comparator_suite "vmclassSpecComparators dg" "\<lambda>_. True" class_spec_equiv
  for dg :: feature_gate
proof
  fix f :: "('q vm_class_spec, 'q) comparator" and c d :: "'q vm_class_spec"
  assume "f \<in> set (vmclassSpecComparators dg)"
  then show "\<exists>cs. f c d = Some cs"
    by (auto simp: vmclassSpecComparators_def vmSpecFieldComparator_def)
next
  fix c d :: "'q vm_class_spec"
  show "(\<forall>f \<in> set (vmclassSpecComparators dg). \<forall>cs. f c d = Some cs \<longrightarrow> \<not> HasChanges cs)
      \<longleftrightarrow> class_spec_equiv c d"
    by (auto simp: vmclassSpecComparators_def vmSpecFieldComparator_def class_spec_equiv_def
        compareVMClassNodeSelector_def compareVMClassTolerations_def HasChanges_compareValues NewValue_def)
qed

section \<open>When a restart is required\<close>

definition restarts :: "'q field_change list \<Rightarrow> bool" where
  "restarts cs \<longleftrightarrow> HasChanges cs \<and> (\<exists>x \<in> set cs. ActionRequired x = ActionRestart)"

lemma restarts_compareValues:
  "restarts (compareValues p c d eq act) \<longleftrightarrow> act = ActionRestart \<and>
     (if IsEmpty c then \<not> IsEmpty d \<and> \<not> IsDefault d
      else if IsEmpty d then \<not> IsDefault c else \<not> eq)"
  by (auto simp: restarts_def change_simps)

lemma restarts_Nil [simp]: "\<not> restarts []"
  by (simp add: restarts_def)

lemma restarts_compareEmpty:
  "restarts (compareEmpty p c d act) \<longleftrightarrow> act = ActionRestart \<and> IsEmpty c \<noteq> IsEmpty d \<and>
     (if IsEmpty c then \<not> IsDefault d else \<not> IsDefault c)"
  by (auto simp: restarts_def change_simps)

text \<open>The value of a field after defaulting.\<close>

definition or_default :: "string \<Rightarrow> string \<Rightarrow> string" where
  "or_default dflt v = (if v = '''' then dflt else v)"

definition the_default :: "'a \<Rightarrow> 'a option \<Rightarrow> 'a" where
  "the_default dflt v = (case v of None \<Rightarrow> dflt | Some x \<Rightarrow> x)"

lemma restarts_compareStrings:
  "restarts (compareStrings p c d dflt act) \<longleftrightarrow>
     act = ActionRestart \<and> or_default dflt c \<noteq> or_default dflt d"
  by (auto simp: compareStrings_def restarts_compareValues NewStringValue_def NewValue_def Let_def or_default_def)

lemma restarts_compareInts: "restarts (compareInts p c d 0 act) \<longleftrightarrow> act = ActionRestart \<and> c \<noteq> d"
  by (auto simp: compareInts_def restarts_compareValues NewIntValue_def NewValue_def Let_def)

lemma restarts_comparePtrInt64:
  "restarts (comparePtrInt64 p c d dflt act) \<longleftrightarrow>
     act = ActionRestart \<and> the_default dflt c \<noteq> the_default dflt d"
  by (cases c; cases d) (auto simp: comparePtrInt64_def restarts_compareValues NewPtrInt64Value_def
      NewValue_def isEqualPtrInt64_def Let_def the_default_def)

lemma restarts_comparePtrBools:
  "restarts (comparePtrBools p c d dflt act) \<longleftrightarrow>
     act = ActionRestart \<and> the_default dflt c \<noteq> the_default dflt d"
  by (cases c; cases d) (auto simp: comparePtrBools_def restarts_compareValues NewPtrBoolValue_def
      NewValue_def Let_def the_default_def)

lemma restarts_comparatorMemory:
  "quantity_laws Q nano \<Longrightarrow> restarts (comparatorMemory_Compare Q fg c d) \<longleftrightarrow>
     memoryAction Q fg c d = ActionRestart \<and> nano (MemorySize c) \<noteq> nano (MemorySize d)"
  by (auto simp: comparatorMemory_Compare_def compareQuantity_def restarts_compareValues
      NewQuantityValue_def NewValue_def Let_def quantity_lawsD quantity_cmp_iff)

lemma restarts_set_message [simp]: "restarts (set_restart_message msg cs) \<longleftrightarrow> restarts cs"
  by (cases cs) (auto simp: set_restart_message_def restarts_def)


abbreviation legacy_os :: "'q vm_spec \<Rightarrow> 'q vm_spec \<Rightarrow> bool" where
  "legacy_os c d \<equiv> OsType c = LegacyOs \<or> OsType d = LegacyOs"

abbreviation sockets_of :: "'q vm_spec \<Rightarrow> int" where
  "sockets_of c \<equiv> fst (CalculateCoresAndSockets (Cores (CPU c)))"

text \<open>The declarative counterparts of the actions the comparators of CPU and memory choose.\<close>

definition no_cpu_hotplug :: "feature_gate \<Rightarrow> 'q vm_spec \<Rightarrow> 'q vm_spec \<Rightarrow> bool" where
  "no_cpu_hotplug fg c d \<longleftrightarrow> legacy_os c d \<or>
     \<not> fg HotplugCPUWithLiveMigration \<and> \<not> fg HotplugCPUAndMemoryWithInPlaceResize"

definition cpu_restart :: "feature_gate \<Rightarrow> 'q vm_spec \<Rightarrow> 'q vm_spec \<Rightarrow> bool" where
  "cpu_restart fg c d \<longleftrightarrow>
     Cores (CPU c) \<noteq> Cores (CPU d) \<and> (no_cpu_hotplug fg c d \<or> sockets_of c \<noteq> sockets_of d) \<or>
     or_default DefaultCPUCoreFraction (CoreFraction (CPU c))
       \<noteq> or_default DefaultCPUCoreFraction (CoreFraction (CPU d)) \<and>
     (no_cpu_hotplug fg c d \<or>
      isCPUGuaranteed (CoreFraction (CPU c)) \<noteq> isCPUGuaranteed (CoreFraction (CPU d)))"

definition memory_restart :: "('q \<Rightarrow> int) \<Rightarrow> feature_gate \<Rightarrow> 'q vm_spec \<Rightarrow> 'q vm_spec \<Rightarrow> bool" where
  "memory_restart nano fg c d \<longleftrightarrow>
     nano (MemorySize c) \<noteq> nano (MemorySize d) \<and>
     (legacy_os c d \<or> \<not> fg HotplugMemoryWithLiveMigration \<and> \<not> fg HotplugCPUAndMemoryWithInPlaceResize \<or>
      nano (MemorySize d) < nano (MemorySize c) \<or>
      nano (MemorySize c) < EnableMemoryHotplugThreshold * nano_per_unit)"

lemma isCPUGuaranteed_default:
  "isCPUGuaranteed c = isCPUGuaranteed (or_default DefaultCPUCoreFraction c)"
  by (simp add: isCPUGuaranteed_def or_default_def)

lemma cores_action: "coresChangedAction fg c d = ActionRestart \<longleftrightarrow>
    no_cpu_hotplug fg c d \<or> sockets_of c \<noteq> sockets_of d"
  by (auto simp: coresChangedAction_def no_cpu_hotplug_def)

lemma fraction_action: "fractionChangedAction fg c d = ActionRestart \<longleftrightarrow>
    no_cpu_hotplug fg c d \<or> isCPUGuaranteed (CoreFraction (CPU c)) \<noteq> isCPUGuaranteed (CoreFraction (CPU d))"
  by (auto simp: fractionChangedAction_def no_cpu_hotplug_def)

lemma restarts_comparatorCPU: "restarts (comparatorCPU_Compare fg c d) \<longleftrightarrow> cpu_restart fg c d"
proof (cases "Cores (CPU c) \<noteq> Cores (CPU d) \<and> CoreFraction (CPU c) \<noteq> CoreFraction (CPU d)")
  case True
  then have "restarts (comparatorCPU_Compare fg c d) \<longleftrightarrow>
      coresChangedAction fg c d = ActionRestart \<or> fractionChangedAction fg c d = ActionRestart"
    by (auto simp: comparatorCPU_Compare_def Let_def HasChanges_compare restarts_def
        MostDisruptiveAction_char)
  also have "\<dots> \<longleftrightarrow> cpu_restart fg c d"
    using True isCPUGuaranteed_default [of "CoreFraction (CPU c)"]
      isCPUGuaranteed_default [of "CoreFraction (CPU d)"]
    unfolding cores_action fraction_action cpu_restart_def by metis
  finally show ?thesis .
next
  case False
  then have "restarts (comparatorCPU_Compare fg c d) \<longleftrightarrow>
      coresChangedAction fg c d = ActionRestart \<and> Cores (CPU c) \<noteq> Cores (CPU d) \<or>
      fractionChangedAction fg c d = ActionRestart \<and>
        or_default DefaultCPUCoreFraction (CoreFraction (CPU c))
          \<noteq> or_default DefaultCPUCoreFraction (CoreFraction (CPU d))"
    by (auto simp: comparatorCPU_Compare_def Let_def HasChanges_compare restarts_compareInts
        restarts_compareStrings)
  then show ?thesis
    unfolding cores_action fraction_action cpu_restart_def by blast
qed

lemma restarts_memory:
  assumes "quantity_laws Q nano"
  shows "restarts (comparatorMemory_Compare Q fg c d) \<longleftrightarrow> memory_restart nano fg c d"
proof -
  have "nano (q_new Q EnableMemoryHotplugThreshold) = EnableMemoryHotplugThreshold * nano_per_unit"
    using assms by (rule quantity_lawsD(6))
      (simp add: EnableMemoryHotplugThreshold_def in_int64_def max_int64_def min_int64_def)
  then have "memoryAction Q fg c d = ActionRestart \<longleftrightarrow>
      legacy_os c d \<or> \<not> fg HotplugMemoryWithLiveMigration \<and> \<not> fg HotplugCPUAndMemoryWithInPlaceResize \<or>
      nano (MemorySize d) < nano (MemorySize c) \<or>
      nano (MemorySize c) < EnableMemoryHotplugThreshold * nano_per_unit \<or>
      nano (MemorySize d) < EnableMemoryHotplugThreshold * nano_per_unit"
    by (auto simp: memoryAction_def Let_def quantity_cmp_iff [OF assms])
  then show ?thesis
    unfolding restarts_comparatorMemory [OF assms] memory_restart_def by auto
qed

lemma restarts_all_restart:
  "list_all (\<lambda>x. ActionRequired x = ActionRestart \<or> Operation x = ChangeNone) cs \<Longrightarrow>
     restarts cs \<longleftrightarrow> HasChanges cs"
  by (auto simp: restarts_def HasChanges_iff list_all_iff)

lemma restarts_compareSecretRefs: "restarts (compareSecretRefs p c d) \<longleftrightarrow> \<not> refs_equiv c d"
  by (subst restarts_all_restart, cases c; cases d)
    (auto simp: HasChanges_compareSecretRefs, auto simp: compareSecretRefs_def change_simps)

definition provisioning_restart :: "provisioning option \<Rightarrow> provisioning option \<Rightarrow> bool" where
  "provisioning_restart c d \<longleftrightarrow>
     \<not> provisioning_equiv c d \<and> \<not> (isCloudInitProvisioning c \<and> d = None)"

lemma restarts_compareProvisioning:
  "restarts (compareProvisioning c d) \<longleftrightarrow> provisioning_restart (Provisioning c) (Provisioning d)"
proof (cases "Provisioning c"; cases "Provisioning d")
  fix x y assume "Provisioning c = Some x" "Provisioning d = Some y"
  then show ?thesis
    by (auto simp: compareProvisioning_def provisioning_restart_def provisioning_equiv_def
        restarts_compareSecretRefs restarts_compareStrings or_default_def)
      (auto simp: restarts_def no_change_def)
qed (auto simp: compareProvisioning_def provisioning_restart_def provisioning_equiv_def restarts_def
    change_simps isCloudInitProvisioning_def)


definition network_restart :: "networks_spec list option \<Rightarrow> networks_spec list option \<Rightarrow> bool" where
  "network_restart c d \<longleftrightarrow>
     c \<noteq> d \<and> \<not> isOnlyNetworkIDAutofillChange (slice c) (slice d) \<and>
     hasMainNetwork (slice c) \<noteq> hasMainNetwork (slice d)"

lemma restarts_compareNetworks:
  "restarts (compareNetworks c d) \<longleftrightarrow> network_restart (Networks c) (Networks d)"
  by (auto simp: compareNetworks_def restarts_compareValues NewValue_def Let_def network_restart_def
      isOnlyNonMainNetworksChanged_def)

lemma restarts_compareGPUDevices:
  "restarts (compareGPUDevices c d) \<longleftrightarrow> mset (GPUs c) \<noteq> mset (GPUs d)"
proof -
  have "restarts (compareGPUDevices c d) \<longleftrightarrow> HasChanges (compareGPUDevices c d)"
    by (auto simp: compareGPUDevices_def restarts_compareValues HasChanges_compareValues NewValue_def Let_def)
  then show ?thesis by (simp only: HasChanges_compareGPUDevices)
qed

lemma placementAction_restart: "placementAction dg = ActionRestart \<longleftrightarrow> \<not> dg AutoMigrationIfNodePlacementChanged"
  by (simp add: placementAction_def)

lemma restarts_simple_fields:
  "restarts (compareVirtualMachineClass c d) \<longleftrightarrow> VirtualMachineClassName c \<noteq> VirtualMachineClassName d"
  "\<not> restarts (compareRunPolicy c d)"
  "restarts (compareVirtualMachineIPAddress c d) \<longleftrightarrow> VirtualMachineIPAddress c \<noteq> VirtualMachineIPAddress d"
  "restarts (compareTopologySpreadConstraints c d) \<longleftrightarrow> TopologySpreadConstraints c \<noteq> TopologySpreadConstraints d"
  "restarts (compareAffinity dg c d) \<longleftrightarrow> \<not> dg AutoMigrationIfNodePlacementChanged \<and> Affinity c \<noteq> Affinity d"
  "restarts (compareNodeSelector dg c d) \<longleftrightarrow>
     \<not> dg AutoMigrationIfNodePlacementChanged \<and> NodeSelector c \<noteq> NodeSelector d"
  "restarts (comparePriorityClassName c d) \<longleftrightarrow> PriorityClassName c \<noteq> PriorityClassName d"
  "restarts (compareTolerations dg c d) \<longleftrightarrow>
     \<not> dg AutoMigrationIfNodePlacementChanged \<and> Tolerations c \<noteq> Tolerations d"
  "\<not> restarts (compareDisruptions c d)"
  "restarts (compareTerminationGracePeriodSeconds c d) \<longleftrightarrow>
     the_default DefaultTerminationGracePeriodSeconds (TerminationGracePeriodSeconds c)
       \<noteq> the_default DefaultTerminationGracePeriodSeconds (TerminationGracePeriodSeconds d)"
  "restarts (compareEnableParavirtualization c d) \<longleftrightarrow>
     IsParavirtualizationEnabled c \<noteq> IsParavirtualizationEnabled d"
  "restarts (compareOSType c d) \<longleftrightarrow> or_default DefaultOSType (OsType c) \<noteq> or_default DefaultOSType (OsType d)"
  "restarts (compareBootloader c d) \<longleftrightarrow>
     or_default DefaultBootloader (Bootloader c) \<noteq> or_default DefaultBootloader (Bootloader d)"
  "\<not> restarts (compareUSBDevices c d)"
  by (auto simp: placement_defs restarts_compareStrings restarts_comparePtrInt64 restarts_comparePtrBools
      restarts_compareValues NewValue_def or_default_def placementAction_restart
      IsParavirtualizationEnabled_def the_default_def compareDisruptions_def restarts_compareEmpty
      split: option.splits)

lemmas restarts_fields = restarts_simple_fields restarts_comparatorCPU restarts_compareProvisioning
  restarts_compareNetworks restarts_compareGPUDevices

text \<open>
  The documented rules, as one predicate: which differences between two specifications cannot be
  applied to a running machine.
\<close>

definition restart_required ::
  "('q \<Rightarrow> int) \<Rightarrow> feature_gate \<Rightarrow> feature_gate \<Rightarrow> 'q vm_spec \<Rightarrow> 'q vm_spec \<Rightarrow> bool" where
  "restart_required nano dg fg c d \<longleftrightarrow>
     VirtualMachineClassName c \<noteq> VirtualMachineClassName d \<or>
     VirtualMachineIPAddress c \<noteq> VirtualMachineIPAddress d \<or>
     TopologySpreadConstraints c \<noteq> TopologySpreadConstraints d \<or>
     \<not> dg AutoMigrationIfNodePlacementChanged \<and>
       (Affinity c \<noteq> Affinity d \<or> NodeSelector c \<noteq> NodeSelector d \<or> Tolerations c \<noteq> Tolerations d) \<or>
     PriorityClassName c \<noteq> PriorityClassName d \<or>
     the_default DefaultTerminationGracePeriodSeconds (TerminationGracePeriodSeconds c)
       \<noteq> the_default DefaultTerminationGracePeriodSeconds (TerminationGracePeriodSeconds d) \<or>
     IsParavirtualizationEnabled c \<noteq> IsParavirtualizationEnabled d \<or>
     or_default DefaultOSType (OsType c) \<noteq> or_default DefaultOSType (OsType d) \<or>
     or_default DefaultBootloader (Bootloader c) \<noteq> or_default DefaultBootloader (Bootloader d) \<or>
     cpu_restart fg c d \<or> memory_restart nano fg c d \<or>
     device_keys c \<noteq> device_keys d \<and> BlockDeviceRefs c \<noteq> [] \<and> BlockDeviceRefs d \<noteq> [] \<and>
       \<not> IsParavirtualizationEnabled c \<or>
     provisioning_restart (Provisioning c) (Provisioning d) \<or>
     network_restart (Networks c) (Networks d) \<or> mset (GPUs c) \<noteq> mset (GPUs d)"

lemma suite_restart_iff:
  assumes "quantity_laws Q nano" and ok: "valid_devices c" "valid_devices d"
  shows "(\<exists>f \<in> set (comparators Q dg fg). \<exists>cs. f c d = Some cs \<and> restarts cs) \<longleftrightarrow>
    restart_required nano dg fg c d"
proof -
  obtain cs where cs: "compareBlockDevices c d = Some cs"
    "HasChanges cs \<longleftrightarrow> device_keys c \<noteq> device_keys d"
    "(\<exists>x \<in> set cs. ActionRequired x = ActionRestart) \<longleftrightarrow>
       device_keys c \<noteq> device_keys d \<and> BlockDeviceRefs c \<noteq> [] \<and> BlockDeviceRefs d \<noteq> [] \<and>
       \<not> IsParavirtualizationEnabled c"
    using compareBlockDevices_cases [OF ok] by blast
  then have "restarts cs \<longleftrightarrow> device_keys c \<noteq> device_keys d \<and> BlockDeviceRefs c \<noteq> [] \<and>
      BlockDeviceRefs d \<noteq> [] \<and> \<not> IsParavirtualizationEnabled c"
    unfolding restarts_def by blast
  then show ?thesis
    unfolding comparators_def restart_required_def
    by (simp add: vmSpecFieldComparator_def restarts_fields restarts_memory [OF assms(1)] cs(1)) blast
qed


lemma Compare_restart_iff:
  assumes "quantity_laws Q nano" and "valid_devices c" and "valid_devices d"
  shows "\<exists>s. VMSpecComparator_Compare Q dg fg c d = Some s \<and>
    (ActionType s = ActionRestart \<longleftrightarrow> restart_required nano dg fg c d)"
proof -
  obtain s where s: "run_comparators (comparators Q dg fg) c d empty_changes = Some s"
    and mem: "\<And>x. x \<in> set (changes s) \<longleftrightarrow>
      (\<exists>f \<in> set (comparators Q dg fg). \<exists>cs. f c d = Some cs \<and> HasChanges cs \<and> x \<in> set cs)"
    using comparator_suite.suite_collects [OF vm_comparator_suite [OF assms(1)] assms(2,3)] by blast
  have "ActionType s = ActionRestart \<longleftrightarrow> (\<exists>x \<in> set (changes s). ActionRequired x = ActionRestart)"
    by (simp add: ActionType_char)
  also have "\<dots> \<longleftrightarrow> (\<exists>f \<in> set (comparators Q dg fg). \<exists>cs. f c d = Some cs \<and> restarts cs)"
    unfolding restarts_def Bex_def mem by blast
  finally show ?thesis
    using s suite_restart_iff [OF assms] unfolding VMSpecComparator_Compare_def by blast
qed

section \<open>Properties\<close>





text \<open>
  The comparison of two classes never panics and reports a change exactly when their
  tolerations or their node selectors differ, an empty selector being the same as a missing one.
\<close>

lemma CompareClassSpecs_decides:
  "\<exists>s. CompareClassSpecs dg prevClass nextClass = Some s \<and>
     (IsEmpty_changes s \<longleftrightarrow> class_spec_equiv prevClass nextClass)"
  unfolding CompareClassSpecs_def by (rule class_suite.suite_decides) simp_all

text \<open>
  The boot order of block devices takes no part in the comparison: however the boot orders
  of a valid specification are changed, and whatever the gates, the comparison reports nothing.
\<close>

lemma boot_order_change_not_reported:
  assumes "quantity_laws Q nano" and "valid_devices spec"
  shows "\<exists>s. VMSpecComparator_Compare Q dg fg spec
      (spec\<lparr> BlockDeviceRefs := map (\<lambda>r. r\<lparr> bd_BootOrder := order r \<rparr>) (BlockDeviceRefs spec) \<rparr>) = Some s \<and>
    IsEmpty_changes s"
proof -
  let ?d = "spec\<lparr> BlockDeviceRefs := map (\<lambda>r. r\<lparr> bd_BootOrder := order r \<rparr>) (BlockDeviceRefs spec) \<rparr>"
  have keys: "device_keys ?d = device_keys spec" by simp
  then have "valid_devices ?d"
    using assms(2) unfolding valid_devices_def keys by (simp add: list_all_iff)
  moreover have "spec_equiv nano spec ?d"
    unfolding spec_equiv_def keys by (simp add: provisioning_equiv_def refs_equiv_def split: option.split)
  ultimately show ?thesis
    using comparator_suite.suite_decides [OF vm_comparator_suite [OF assms(1)] assms(2)]
    unfolding VMSpecComparator_Compare_def by blast
qed

end
