(* ===== verification/SizePolicyService.thy ===== *)
theory SizePolicyService
  imports SizingPolicy
begin

text \<open>
  Admission of a virtual machine by the sizing policy of its class
  (\<^verbatim>\<open>pkg/controller/service/size_policy_service.go\<close>, \<^verbatim>\<open>errors.go\<close>).  Messages are values of an
  error type that carries the arguments of the format string.  The two loops that generate a grid
  of allowed values have no bound of their own: a loop that does not end is \<open>None\<close>, and so is a
  panic.
\<close>

section \<open>Errors\<close>

type_synonym core_range = "int \<times> int"

datatype 'q memory_clause = Between 'q 'q | AtLeast 'q | AtMost 'q | NoClause

datatype 'q size_policy_error =
    CoreFractionUnparsable string
  | CoreFractionNotAllowed string "string list"
  | CoresOffStep int int int
  | MemoryOutOfRange 'q "'q memory_clause"
  | MemoryOffStep 'q 'q 'q
  | PerCoreMemoryOutOfRange 'q int "'q memory_clause" "'q memory_clause"
  | PerCoreMemoryOffStep 'q int 'q 'q

text \<open>
  The result of the check: no policy matches the cores, or the failures found, of which there is at
  least one.
\<close>

datatype 'q check_error =
    NoSizingPolicyMatchError int string "core_range list"
  | SizePolicyValidationError string "'q size_policy_error list"

definition setMemoryClause :: "'q option \<Rightarrow> 'q option \<Rightarrow> 'q memory_clause" where
  "setMemoryClause mn mx =
     (case (mn, mx) of
        (Some lo, Some hi) \<Rightarrow> Between lo hi
      | (Some lo, None) \<Rightarrow> AtLeast lo
      | (None, Some hi) \<Rightarrow> AtMost hi
      | (None, None) \<Rightarrow> NoClause)"

definition memoryRangeClause :: "'q option \<Rightarrow> 'q option \<Rightarrow> 'q memory_clause" where
  "memoryRangeClause mn mx =
     (case (mn, mx) of
        (Some lo, Some hi) \<Rightarrow> Between lo hi
      | (Some lo, None) \<Rightarrow> AtLeast lo
      | (None, Some hi) \<Rightarrow> AtMost hi
      | (None, None) \<Rightarrow> NoClause)"

definition scaleQuantity :: "'q quantity_ops \<Rightarrow> 'q \<Rightarrow> int \<Rightarrow> 'q" where
  "scaleQuantity Q q factor = q_new Q (wrap64 (q_value Q q * factor))"

definition memoryOutOfRangeError :: "'q \<Rightarrow> 'q option \<Rightarrow> 'q option \<Rightarrow> 'q size_policy_error" where
  "memoryOutOfRangeError sz mn mx = MemoryOutOfRange sz (setMemoryClause mn mx)"

definition perCoreMemoryOutOfRangeError ::
  "'q quantity_ops \<Rightarrow> 'q \<Rightarrow> 'q option \<Rightarrow> 'q option \<Rightarrow> int \<Rightarrow> 'q size_policy_error" where
  "perCoreMemoryOutOfRangeError Q sz perCoreMin perCoreMax cores =
     (let minTotal = map_option (\<lambda>q. scaleQuantity Q q cores) perCoreMin;
          maxTotal = map_option (\<lambda>q. scaleQuantity Q q cores) perCoreMax
      in PerCoreMemoryOutOfRange sz cores (setMemoryClause minTotal maxTotal)
           (memoryRangeClause perCoreMin perCoreMax))"

section \<open>Grids\<close>

text \<open>
  The loop both generators run: collect values from \<open>v\<close> on while they are below the maximum, then
  append the maximum.
\<close>

partial_function (option) grid_from ::
  "('a \<Rightarrow> 'a \<Rightarrow> bool) \<Rightarrow> ('a \<Rightarrow> 'a \<Rightarrow> 'a) \<Rightarrow> 'a \<Rightarrow> 'a \<Rightarrow> 'a \<Rightarrow> 'a list option" where
  "grid_from below advance mx step v =
     (if below v mx
      then Option.bind (grid_from below advance mx step (advance v step)) (\<lambda>grid. Some (v # grid))
      else Some [mx])"

definition generateValidGrid :: "'q quantity_ops \<Rightarrow> 'q \<Rightarrow> 'q \<Rightarrow> 'q \<Rightarrow> 'q list option" where
  "generateValidGrid Q mn mx step = grid_from (\<lambda>v m. q_cmp Q v m = -1) (q_add Q) mx step mn"

definition generateValidCoreGrid :: "int \<Rightarrow> int \<Rightarrow> int \<Rightarrow> int list option" where
  "generateValidCoreGrid mn mx step = grid_from (<) (\<lambda>v s. wrap64 (v + s)) mx step mn"

text \<open>
  \<^verbatim>\<open>validateIsQuantized\<close> returns the two neighbours and \<open>false\<close> for a value off the grid, and two
  zero quantities and \<open>true\<close> otherwise: \<open>Some (lower, upper)\<close> and \<open>None\<close> here.
\<close>

fun quantized_in :: "'q quantity_ops \<Rightarrow> 'q \<Rightarrow> 'q list \<Rightarrow> ('q \<times> 'q) option" where
  "quantized_in Q value (a # b # grid) =
     (let cmpLeftResult = q_cmp Q value a; cmpRightResult = q_cmp Q value b
      in if cmpLeftResult = 0 \<or> cmpRightResult = 0 then None
         else if cmpLeftResult = 1 \<and> cmpRightResult = -1 then Some (a, b)
         else quantized_in Q value (b # grid))"
| "quantized_in Q value _ = None"

definition validateIsQuantized :: "'q quantity_ops \<Rightarrow> 'q \<Rightarrow> 'q \<Rightarrow> 'q \<Rightarrow> 'q \<Rightarrow> ('q \<times> 'q) option option" where
  "validateIsQuantized Q value mn mx step =
     (case generateValidGrid Q mn mx step of
        None \<Rightarrow> None
      | Some grid \<Rightarrow> Some (quantized_in Q value grid))"

section \<open>The checks\<close>

definition validateCoreFraction :: "'q virtual_machine \<Rightarrow> 'q sizing_policy \<Rightarrow> 'q size_policy_error option" where
  "validateCoreFraction vm sp =
     (let cf = CoreFraction (CPU (vm_Spec vm))
      in if cf = CoreFractionAuto then None
         else if length (sp_CoreFractions sp) = 0 then None
         else case atoi (trim_suffix cf ''%'') of
                None \<Rightarrow> Some (CoreFractionUnparsable cf)
              | Some fraction \<Rightarrow>
                  if list_ex (\<lambda>spFraction. fraction = spFraction) (sp_CoreFractions sp) then None
                  else Some (CoreFractionNotAllowed cf (FormatCoreFractionValues (sp_CoreFractions sp))))"

fun neighbours :: "int \<Rightarrow> int \<times> int \<Rightarrow> int list \<Rightarrow> int \<times> int" where
  "neighbours cores dflt (a # b # grid) =
     (if cores > a \<and> cores < b then (a, b) else neighbours cores dflt (b # grid))"
| "neighbours cores dflt _ = dflt"

definition validateCores :: "'q virtual_machine \<Rightarrow> 'q sizing_policy \<Rightarrow> 'q size_policy_error option option" where
  "validateCores vm sp =
     (case sp_Cores sp of
        None \<Rightarrow> Some None
      | Some c \<Rightarrow>
          if spc_Step c \<le> 0 then Some None
          else let cores = Cores (CPU (vm_Spec vm))
               in case generateValidCoreGrid (spc_Min c) (spc_Max c) (spc_Step c) of
                    None \<Rightarrow> None
                  | Some grid \<Rightarrow>
                      if list_ex (\<lambda>v. v = cores) grid then Some None
                      else let (lower, upper) = neighbours cores (hd grid, last grid) grid
                           in Some (Some (CoresOffStep cores lower upper)))"

definition is_set :: "'q quantity_ops \<Rightarrow> 'q option \<Rightarrow> bool" where
  "is_set Q q = (case q of None \<Rightarrow> False | Some v \<Rightarrow> \<not> q_isZero Q v)"

definition validateMemory ::
  "'q quantity_ops \<Rightarrow> 'q virtual_machine \<Rightarrow> 'q sizing_policy \<Rightarrow> 'q size_policy_error option option" where
  "validateMemory Q vm sp =
     (case sp_Memory sp of
        None \<Rightarrow> Some None
      | Some m \<Rightarrow>
          (let sz = MemorySize (vm_Spec vm); mn = mm_Min m; mx = mm_Max m;
               minSet = is_set Q mn; maxSet = is_set Q mx
           in if minSet \<and> q_cmp Q sz (the mn) = -1 then Some (Some (memoryOutOfRangeError sz mn mx))
              else if maxSet \<and> q_cmp Q sz (the mx) = 1 then Some (Some (memoryOutOfRangeError sz mn mx))
              else if maxSet \<and> is_set Q (spm_Step m) then
                (let minVal = (if minSet then the mn else q_zero Q)
                 in case validateIsQuantized Q sz minVal (the mx) (the (spm_Step m)) of
                      None \<Rightarrow> None
                    | Some (Some (lower, upper)) \<Rightarrow> Some (Some (MemoryOffStep sz lower upper))
                    | Some None \<Rightarrow> Some None)
              else Some None))"

definition validatePerCoreMemory ::
  "'q quantity_ops \<Rightarrow> 'q virtual_machine \<Rightarrow> 'q sizing_policy \<Rightarrow> 'q size_policy_error option option" where
  "validatePerCoreMemory Q vm sp =
     (case sp_Memory sp of
        None \<Rightarrow> Some None
      | Some m \<Rightarrow>
          (case spm_PerCore m of
             None \<Rightarrow> Some None
           | Some pc \<Rightarrow>
               (let cores = Cores (CPU (vm_Spec vm));
                    perCoreMin = mm_Min pc; perCoreMax = mm_Max pc;
                    minSet = is_set Q perCoreMin; maxSet = is_set Q perCoreMax
                in if cores \<le> 0 then Some None
                   else if \<not> minSet \<and> \<not> maxSet then Some None
                   else
                     let sz = MemorySize (vm_Spec vm);
                         perCoreMemory = q_new Q (q_value Q sz sdiv cores)
                     in if minSet \<and> q_cmp Q perCoreMemory (the perCoreMin) = -1
                        then Some (Some (perCoreMemoryOutOfRangeError Q sz perCoreMin perCoreMax cores))
                        else if maxSet \<and> q_cmp Q perCoreMemory (the perCoreMax) = 1
                        then Some (Some (perCoreMemoryOutOfRangeError Q sz perCoreMin perCoreMax cores))
                        else if maxSet \<and> is_set Q (spm_Step m) then
                          (let minVal = (if minSet then the perCoreMin else q_zero Q)
                           in case validateIsQuantized Q perCoreMemory minVal (the perCoreMax) (the (spm_Step m)) of
                                None \<Rightarrow> None
                              | Some (Some (lower, upper)) \<Rightarrow>
                                  Some (Some (PerCoreMemoryOffStep sz cores
                                    (scaleQuantity Q lower cores) (scaleQuantity Q upper cores)))
                              | Some None \<Rightarrow> Some None)
                        else Some None)))"

definition getVMSizePolicy :: "'q virtual_machine \<Rightarrow> 'q vm_class \<Rightarrow> 'q sizing_policy option" where
  "getVMSizePolicy vm vmClass = MatchSizingPolicy (Some vmClass) (Cores (CPU (vm_Spec vm)))"

definition collectCoreRanges :: "'q vm_class \<Rightarrow> core_range list" where
  "collectCoreRanges vmClass =
     List.map_filter (\<lambda>sp. map_option (\<lambda>c. (spc_Min c, spc_Max c)) (sp_Cores sp))
       (cls_SizingPolicies (cls_Spec vmClass))"

definition newSizePolicyValidationError :: "string \<Rightarrow> 'q size_policy_error list \<Rightarrow> 'q check_error" where
  "newSizePolicyValidationError className errs = SizePolicyValidationError className errs"

text \<open>The errors that were found, in the order of the checks; \<open>None\<close> when a check does not return.\<close>

definition policy_errors ::
  "'q quantity_ops \<Rightarrow> 'q virtual_machine \<Rightarrow> 'q sizing_policy \<Rightarrow> 'q size_policy_error list option" where
  "policy_errors Q vm sizePolicy =
     do { coresErr \<leftarrow> validateCores vm sizePolicy;
          memoryErr \<leftarrow> validateMemory Q vm sizePolicy;
          perCoreErr \<leftarrow> validatePerCoreMemory Q vm sizePolicy;
          Some (List.map_filter id [validateCoreFraction vm sizePolicy, coresErr, memoryErr, perCoreErr]) }"

definition CheckVMMatchedSizePolicy ::
  "'q quantity_ops \<Rightarrow> 'q virtual_machine \<Rightarrow> 'q vm_class option \<Rightarrow> ('q check_error, unit) result option" where
  "CheckVMMatchedSizePolicy Q vm vmClass =
     (case vmClass of
        None \<Rightarrow> Some (Inr ())
      | Some cls \<Rightarrow>
          if length (cls_SizingPolicies (cls_Spec cls)) = 0 then Some (Inr ())
          else case getVMSizePolicy vm cls of
                 None \<Rightarrow> Some (Inl (NoSizingPolicyMatchError (Cores (CPU (vm_Spec vm))) (cls_Name cls)
                                      (collectCoreRanges cls)))
               | Some sizePolicy \<Rightarrow>
                   map_option (\<lambda>errs. if length errs = 0 then Inr ()
                                      else Inl (newSizePolicyValidationError (cls_Name cls) errs))
                     (policy_errors Q vm sizePolicy))"


section \<open>The contract of a grid generator\<close>

text \<open>
  \<open>amount\<close> measures a value, \<open>inr\<close> is the range in which the arithmetic of the values is exact and
  \<open>usable mx step\<close> holds when the loop towards \<open>mx\<close> with this step stays in it and makes progress.
\<close>

locale step_grid =
  fixes amount :: "'a \<Rightarrow> int"
    and below :: "'a \<Rightarrow> 'a \<Rightarrow> bool"
    and advance :: "'a \<Rightarrow> 'a \<Rightarrow> 'a"
    and inr :: "'a \<Rightarrow> bool"
    and usable :: "'a \<Rightarrow> 'a \<Rightarrow> bool"
  assumes below_amount: "below v mx \<longleftrightarrow> amount v < amount mx"
    and step_pos: "usable mx s \<Longrightarrow> 0 < amount s"
    and advance_amount: "usable mx s \<Longrightarrow> inr v \<Longrightarrow> amount v < amount mx \<Longrightarrow>
      amount (advance v s) = amount v + amount s \<and> inr (advance v s)"
begin

lemma grid_walk:
  "usable mx s \<Longrightarrow> inr v \<Longrightarrow> \<exists>g. grid_from below advance mx s v = Some g \<and> g \<noteq> [] \<and> last g = mx \<and>
     (amount v \<le> amount mx \<longrightarrow> amount (hd g) = amount v \<and> sorted_wrt (<) (map amount g)) \<and>
     amount ` set g = {amount mx} \<union> {x. x < amount mx \<and> (\<exists>k \<ge> 0. x = amount v + k * amount s)}"
proof (induction "nat (amount mx - amount v)" arbitrary: v rule: less_induct)
  case less
  note prems = \<open>usable mx s\<close> \<open>inr v\<close>
  have pos: "0 < amount s" using prems(1) by (rule step_pos)
  show ?case
  proof (cases "amount v < amount mx")
    case False
    then have "grid_from below advance mx s v = Some [mx]"
      by (subst grid_from.simps) (simp add: below_amount)
    moreover have "\<not> (amount v + k * amount s < amount mx)" if "0 \<le> k" for k
      using that False pos by (smt (verit) mult_nonneg_nonneg)
    ultimately show ?thesis using False by auto
  next
    case True
    let ?w = "advance v s"
    have w: "amount ?w = amount v + amount s" "inr ?w" using advance_amount prems True by blast+
    then have "nat (amount mx - amount ?w) < nat (amount mx - amount v)" using True pos by simp
    from less.hyps [OF this prems(1) w(2)] obtain g where
      g: "grid_from below advance mx s ?w = Some g" "g \<noteq> []" "last g = mx"
        "amount ?w \<le> amount mx \<longrightarrow> amount (hd g) = amount ?w \<and> sorted_wrt (<) (map amount g)"
        "amount ` set g = {amount mx} \<union> {x. x < amount mx \<and> (\<exists>k \<ge> 0. x = amount ?w + k * amount s)}"
      by blast
    have run: "grid_from below advance mx s v = Some (v # g)"
      using True g(1) by (subst grid_from.simps) (simp add: below_amount)
    have split: "(\<exists>k \<ge> 0. x = amount v + k * amount s) \<longleftrightarrow>
        x = amount v \<or> (\<exists>k \<ge> 0. x = amount ?w + k * amount s)" for x
      using multiples_from [of x "amount v" "amount s"] by (simp add: w(1))
    have sorted: "sorted_wrt (<) (map amount (v # g))"
    proof (cases "amount ?w \<le> amount mx")
      case True
      have "amount ?w \<le> y" if "y \<in> amount ` set g" for y
        using that True pos unfolding g(5) by (auto simp: mult_nonneg_nonneg)
      then show ?thesis using True g(4) w(1) pos by force
    next
      case False
      then have "grid_from below advance mx s ?w = Some [mx]"
        by (subst grid_from.simps) (simp add: below_amount)
      then show ?thesis using g(1) \<open>amount v < amount mx\<close> by simp
    qed
    have "amount ` set (v # g) = {amount mx} \<union> {x. x < amount mx \<and> (\<exists>k \<ge> 0. x = amount v + k * amount s)}"
      unfolding split using g(5) True by auto
    then show ?thesis using run g(2,3) sorted by auto
  qed
qed

end

text \<open>The grid of cores: 64-bit numbers, far enough from the largest one.\<close>

interpretation core_grid: step_grid id "(<)" "\<lambda>v s. wrap64 (v + s)" in_int64
    "\<lambda>mx s. 0 < s \<and> mx + s \<le> max_int64"
  by unfold_locales (auto simp: wrap64_id in_int64_def min_int64_def)

text \<open>The grid of memory sizes.\<close>

sublocale quantity_arith \<subseteq> memory_grid: step_grid nano "\<lambda>v m. q_cmp Q v m = -1" "q_add Q" "\<lambda>_. True"
    "\<lambda>_ s. 0 < nano s"
  by unfold_locales (simp_all add: quantity_cmp_iff [OF laws] quantity_lawsD(5) [OF laws])

section \<open>Values on and off the grid\<close>

definition on_grid :: "int \<Rightarrow> int \<Rightarrow> int \<Rightarrow> int \<Rightarrow> bool" where
  "on_grid x lo hi step \<longleftrightarrow> x = hi \<or> lo \<le> x \<and> x < hi \<and> (x - lo) mod step = 0"

lemma on_grid_multiples:
  assumes "0 < step"
  shows "on_grid x lo hi step \<longleftrightarrow> x \<in> {hi} \<union> {x. x < hi \<and> (\<exists>k \<ge> 0. x = lo + k * step)}"
proof -
  have "(lo \<le> x \<and> (x - lo) mod step = 0) \<longleftrightarrow> (\<exists>k \<ge> 0. x = lo + k * step)"
  proof
    assume "lo \<le> x \<and> (x - lo) mod step = 0"
    then show "\<exists>k \<ge> 0. x = lo + k * step"
      using assms by (intro exI [of _ "(x - lo) div step"])
        (auto simp: pos_imp_zdiv_nonneg_iff minus_mod_eq_div_mult [symmetric])
  next
    assume "\<exists>k \<ge> 0. x = lo + k * step"
    then show "lo \<le> x \<and> (x - lo) mod step = 0" using assms by auto
  qed
  then show ?thesis unfolding on_grid_def by auto
qed

lemma on_grid_set:
  "0 < step \<Longrightarrow> {x. on_grid x lo hi step} = {hi} \<union> {x. x < hi \<and> (\<exists>k \<ge> 0. x = lo + k * step)}"
  using on_grid_multiples by blast

text \<open>Neighbours in a strictly increasing grid enclose a value that is not on it.\<close>

lemma neighbours_enclose:
  "sorted_wrt (<) grid \<Longrightarrow> grid \<noteq> [] \<Longrightarrow> hd grid < x \<Longrightarrow> x < last grid \<Longrightarrow> x \<notin> set grid \<Longrightarrow>
     case neighbours x dflt grid of (a, b) \<Rightarrow>
       a < x \<and> x < b \<and> a \<in> set grid \<and> b \<in> set grid \<and> (\<forall>y \<in> set grid. y \<le> a \<or> b \<le> y)"
proof (induction x dflt grid rule: neighbours.induct)
  case (1 x dflt a b grid)
  show ?case
  proof (cases "a < x \<and> x < b")
    case True
    with "1.prems"(1) show ?thesis by (auto simp: less_imp_le)
  next
    case False
    then have "b < x" using "1.prems" by auto
    obtain p q where pq: "neighbours x dflt (b # grid) = (p, q)" by fastforce
    then have "p < x \<and> x < q \<and> p \<in> set (b # grid) \<and> q \<in> set (b # grid) \<and>
        (\<forall>y \<in> set (b # grid). y \<le> p \<or> q \<le> y)"
      using "1.IH" [OF False] "1.prems" \<open>b < x\<close> by auto
    moreover from this have "a < p" using "1.prems"(1) by auto
    ultimately show ?thesis using False pq by auto
  qed
qed simp_all

lemma quantized_in_exact:
  assumes laws: "quantity_laws Q nano"
  shows "sorted_wrt (<) (map nano grid) \<Longrightarrow> grid \<noteq> [] \<Longrightarrow> nano (hd grid) \<le> nano v \<Longrightarrow>
    nano v \<le> nano (last grid) \<Longrightarrow>
    case quantized_in Q v grid of
      None \<Rightarrow> nano v \<in> nano ` set grid
    | Some (a, b) \<Rightarrow> nano a < nano v \<and> nano v < nano b \<and> a \<in> set grid \<and> b \<in> set grid \<and>
        (\<forall>y \<in> set grid. nano y \<le> nano a \<or> nano b \<le> nano y)"
proof (induction grid rule: induct_list012)
  case (3 x y grid)
  show ?case
  proof (cases "nano v < nano y \<or> nano v = nano x \<or> nano v = nano y")
    case True
    with 3 show ?thesis
      by (auto simp: Let_def quantity_cmp_iff [OF laws] less_imp_le)
  next
    case False
    then have step: "quantized_in Q v (x # y # grid) = quantized_in Q v (y # grid)"
      using 3(3,5) by (simp add: Let_def quantity_cmp_iff [OF laws])
    have "nano x < nano a" if "a \<in> set (y # grid)" for a using that 3(3) by auto
    then show ?thesis
      unfolding step using 3(2) 3(3-6) False by (fastforce split: option.splits prod.splits)
  qed
qed simp_all


lemma is_set_iff: "quantity_laws Q nano \<Longrightarrow> is_set Q q \<longleftrightarrow> (\<exists>v. q = Some v \<and> nano v \<noteq> 0)"
  by (cases q) (auto simp: is_set_def quantity_lawsD(3))

context quantity_arith
begin

lemma memory_grid_walk:
  "0 < nano step \<Longrightarrow> \<exists>g. generateValidGrid Q mn mx step = Some g \<and> g \<noteq> [] \<and> last g = mx \<and>
    (nano mn \<le> nano mx \<longrightarrow> nano (hd g) = nano mn \<and> sorted_wrt (<) (map nano g)) \<and>
    nano ` set g = {x. on_grid x (nano mn) (nano mx) (nano step)}"
  unfolding generateValidGrid_def using memory_grid.grid_walk [of step mx mn] by (simp add: on_grid_set)

end

lemma generateValidGrid_walk:
  assumes "quantity_laws Q nano" and "0 < nano step"
  shows "\<exists>g. generateValidGrid Q mn mx step = Some g \<and> g \<noteq> [] \<and> last g = mx \<and>
    (nano mn \<le> nano mx \<longrightarrow> nano (hd g) = nano mn \<and> sorted_wrt (<) (map nano g)) \<and>
    nano ` set g = {x. on_grid x (nano mn) (nano mx) (nano step)}"
  using assms(2) by (rule quantity_arith.memory_grid_walk [OF quantity_arith.intro [OF assms(1)]])

lemma validateIsQuantized_exact:
  assumes "quantity_laws Q nano" and "0 < nano step" and "nano mn \<le> nano v" and "nano v \<le> nano mx"
  shows "\<exists>r. validateIsQuantized Q v mn mx step = Some r \<and>
    (r = None \<longleftrightarrow> on_grid (nano v) (nano mn) (nano mx) (nano step)) \<and>
    (\<forall>a b. r = Some (a, b) \<longrightarrow> nano a < nano v \<and> nano v < nano b \<and>
       on_grid (nano a) (nano mn) (nano mx) (nano step) \<and> on_grid (nano b) (nano mn) (nano mx) (nano step) \<and>
       (\<forall>y. on_grid y (nano mn) (nano mx) (nano step) \<longrightarrow> y \<le> nano a \<or> nano b \<le> y))"
proof -
  obtain g where g: "generateValidGrid Q mn mx step = Some g" "g \<noteq> []" "last g = mx"
      "nano (hd g) = nano mn" "sorted_wrt (<) (map nano g)"
    and img: "nano ` set g = {x. on_grid x (nano mn) (nano mx) (nano step)}"
    using generateValidGrid_walk [OF assms(1,2), of mn mx] assms(3,4) by force
  have "on_grid y (nano mn) (nano mx) (nano step) \<longleftrightarrow> (\<exists>z \<in> set g. y = nano z)" for y
    using img by blast
  then show ?thesis
    using quantized_in_exact [OF assms(1) g(5,2), of v] g(1,3,4) assms(3,4)
    unfolding validateIsQuantized_def
    by (cases "quantized_in Q v g") (auto split: prod.splits)
qed

section \<open>What the checks accept\<close>

text \<open>The limits of a policy, declaratively; amounts are in billionths.\<close>

definition range_allows :: "('q \<Rightarrow> int) \<Rightarrow> 'q option \<Rightarrow> 'q option \<Rightarrow> 'q option \<Rightarrow> int \<Rightarrow> bool" where
  "range_allows nano mn mx step x \<longleftrightarrow>
     (case mn of None \<Rightarrow> True | Some lo \<Rightarrow> nano lo = 0 \<or> nano lo \<le> x) \<and>
     (case mx of
        None \<Rightarrow> True
      | Some hi \<Rightarrow> nano hi = 0 \<or>
          x \<le> nano hi \<and>
          (case step of
             None \<Rightarrow> True
           | Some s \<Rightarrow> nano s = 0 \<or>
               on_grid x (case mn of None \<Rightarrow> 0 | Some lo \<Rightarrow> nano lo) (nano hi) (nano s)))"

definition cores_allowed :: "sizing_policy_cores option \<Rightarrow> int \<Rightarrow> bool" where
  "cores_allowed c cores \<longleftrightarrow>
     (case c of None \<Rightarrow> True
      | Some p \<Rightarrow> spc_Step p \<le> 0 \<or> on_grid cores (spc_Min p) (spc_Max p) (spc_Step p))"

definition fraction_allowed :: "int list \<Rightarrow> string \<Rightarrow> bool" where
  "fraction_allowed fractions cf \<longleftrightarrow>
     cf = CoreFractionAuto \<or> fractions = [] \<or> (\<exists>f \<in> set fractions. ParsePercent cf = Some f)"

text \<open>
  What makes the loops end: a memory step that is set is positive, and adding the step of the cores
  to their maximum does not overflow.
\<close>

definition wf_policy :: "('q \<Rightarrow> int) \<Rightarrow> 'q sizing_policy \<Rightarrow> bool" where
  "wf_policy nano sp \<longleftrightarrow>
     (case sp_Cores sp of None \<Rightarrow> True
      | Some c \<Rightarrow> in_int64 (spc_Min c) \<and> spc_Max c + spc_Step c \<le> max_int64) \<and>
     (case sp_Memory sp of None \<Rightarrow> True
      | Some m \<Rightarrow> (case spm_Step m of None \<Rightarrow> True | Some s \<Rightarrow> 0 \<le> nano s))"

lemma validateCoreFraction_ok:
  "validateCoreFraction vm sp = None \<longleftrightarrow>
     fraction_allowed (sp_CoreFractions sp) (CoreFraction (CPU (vm_Spec vm)))"
  by (auto simp: validateCoreFraction_def fraction_allowed_def ParsePercent_def Let_def list_ex_iff
      split: option.splits)

lemma validateCores_walk:
  assumes "sp_Cores sp = Some c" and "0 < spc_Step c" and "wf_policy nano sp"
  shows "\<exists>g. generateValidCoreGrid (spc_Min c) (spc_Max c) (spc_Step c) = Some g \<and> g \<noteq> [] \<and>
    last g = spc_Max c \<and> (spc_Min c \<le> spc_Max c \<longrightarrow> hd g = spc_Min c \<and> sorted_wrt (<) g) \<and>
    set g = {x. on_grid x (spc_Min c) (spc_Max c) (spc_Step c)}"
  unfolding generateValidCoreGrid_def
  using core_grid.grid_walk [of "spc_Step c" "spc_Max c" "spc_Min c"] assms
  by (simp add: wf_policy_def on_grid_set)

lemma validateCores_exact:
  assumes "wf_policy nano sp"
  shows "\<exists>r. validateCores vm sp = Some r \<and>
    (r = None \<longleftrightarrow> cores_allowed (sp_Cores sp) (Cores (CPU (vm_Spec vm))))"
proof (cases "\<exists>c. sp_Cores sp = Some c \<and> 0 < spc_Step c")
  case True
  then obtain c where c: "sp_Cores sp = Some c" "0 < spc_Step c" by blast
  with validateCores_walk [OF c assms] show ?thesis
    by (auto simp: validateCores_def cores_allowed_def list_ex_iff Let_def split: prod.splits)
next
  case False
  then show ?thesis by (auto simp: validateCores_def cores_allowed_def split: option.splits)
qed


text \<open>The range and step check that total and per-core memory share.\<close>

definition range_check ::
  "'q quantity_ops \<Rightarrow> 'q \<Rightarrow> 'q option \<Rightarrow> 'q option \<Rightarrow> 'q option \<Rightarrow> 'e \<Rightarrow> ('q \<Rightarrow> 'q \<Rightarrow> 'e) \<Rightarrow> 'e option option" where
  "range_check Q v mn mx step out off =
     (if is_set Q mn \<and> q_cmp Q v (the mn) = -1 then Some (Some out)
      else if is_set Q mx \<and> q_cmp Q v (the mx) = 1 then Some (Some out)
      else if is_set Q mx \<and> is_set Q step then
        (case validateIsQuantized Q v (if is_set Q mn then the mn else q_zero Q) (the mx) (the step) of
           None \<Rightarrow> None
         | Some (Some (lower, upper)) \<Rightarrow> Some (Some (off lower upper))
         | Some None \<Rightarrow> Some None)
      else Some None)"

lemma range_check_grid:
  assumes laws: "quantity_laws Q nano" and "0 \<le> nano v" and "0 < nano s" and hi: "nano hi \<noteq> 0" "nano v \<le> nano hi"
    and lo: "case mn of None \<Rightarrow> True | Some l \<Rightarrow> nano l = 0 \<or> nano l \<le> nano v"
  shows "\<exists>r. range_check Q v mn (Some hi) (Some s) out off = Some r \<and>
    (r = None \<longleftrightarrow> on_grid (nano v) (case mn of None \<Rightarrow> 0 | Some l \<Rightarrow> nano l) (nano hi) (nano s))"
proof -
  let ?lo = "if is_set Q mn then the mn else q_zero Q"
  have lo_eq: "nano ?lo = (case mn of None \<Rightarrow> 0 | Some l \<Rightarrow> nano l)"
    by (auto simp: is_set_iff [OF laws] quantity_lawsD(7) [OF laws] split: option.splits)
  then have "nano ?lo \<le> nano v" using lo assms(2) by (auto split: option.splits)
  then obtain r where r: "validateIsQuantized Q v ?lo hi s = Some r"
    "r = None \<longleftrightarrow> on_grid (nano v) (nano ?lo) (nano hi) (nano s)"
    using validateIsQuantized_exact [OF laws assms(3) _ hi(2)] by blast
  have "is_set Q (Some hi)" "is_set Q (Some s)"
    using hi assms(3) by (simp_all add: is_set_iff [OF laws])
  moreover have "\<not> (is_set Q mn \<and> q_cmp Q v (the mn) = -1)" "q_cmp Q v hi \<noteq> 1"
    using lo hi by (auto simp: is_set_iff [OF laws] quantity_cmp_iff [OF laws])
  ultimately have run: "range_check Q v mn (Some hi) (Some s) out off =
      (case r of Some (lower, upper) \<Rightarrow> Some (Some (off lower upper)) | None \<Rightarrow> Some None)"
    unfolding range_check_def using r(1) by (auto split: option.split)
  show ?thesis
    unfolding run using r(2) lo_eq by (cases r) auto
qed

lemma range_check_exact:
  assumes laws: "quantity_laws Q nano" and "0 \<le> nano v"
    and "case step of None \<Rightarrow> True | Some s \<Rightarrow> 0 \<le> nano s"
  shows "\<exists>r. range_check Q v mn mx step out off = Some r \<and>
    (r = None \<longleftrightarrow> range_allows nano mn mx step (nano v))"
proof (cases "\<exists>hi s. mx = Some hi \<and> nano hi \<noteq> 0 \<and> nano v \<le> nano hi \<and> step = Some s \<and> nano s \<noteq> 0 \<and>
    (case mn of None \<Rightarrow> True | Some l \<Rightarrow> nano l = 0 \<or> nano l \<le> nano v)")
  case True
  then obtain hi s where c: "mx = Some hi" "nano hi \<noteq> 0" "nano v \<le> nano hi" "step = Some s" "nano s \<noteq> 0"
    "case mn of None \<Rightarrow> True | Some l \<Rightarrow> nano l = 0 \<or> nano l \<le> nano v" by blast
  moreover have "0 < nano s" using c(4,5) assms(3) by simp
  ultimately show ?thesis
    using range_check_grid [OF laws assms(2), of s hi mn out off] by (simp add: range_allows_def)
next
  case False
  then show ?thesis
    by (auto simp: range_check_def range_allows_def is_set_iff [OF laws] quantity_cmp_iff [OF laws]
        split: option.splits)
qed

definition memory_allowed :: "('q \<Rightarrow> int) \<Rightarrow> 'q sizing_policy_memory option \<Rightarrow> int \<Rightarrow> bool" where
  "memory_allowed nano memory x \<longleftrightarrow>
     (case memory of None \<Rightarrow> True | Some m \<Rightarrow> range_allows nano (mm_Min m) (mm_Max m) (spm_Step m) x)"

definition per_core_allowed ::
  "('q \<Rightarrow> int) \<Rightarrow> 'q sizing_policy_memory option \<Rightarrow> int \<Rightarrow> int \<Rightarrow> bool" where
  "per_core_allowed nano memory cores x \<longleftrightarrow>
     (case memory of
        None \<Rightarrow> True
      | Some m \<Rightarrow> (case spm_PerCore m of
                    None \<Rightarrow> True
                  | Some pc \<Rightarrow> cores \<le> 0 \<or>
                      range_allows nano (mm_Min pc) (mm_Max pc) (spm_Step m)
                        (round_away x div cores * nano_per_unit)))"

lemma validateMemory_exact:
  assumes "quantity_laws Q nano" and "wf_policy nano sp" and "0 \<le> nano (MemorySize (vm_Spec vm))"
  shows "\<exists>r. validateMemory Q vm sp = Some r \<and>
    (r = None \<longleftrightarrow> memory_allowed nano (sp_Memory sp) (nano (MemorySize (vm_Spec vm))))"
proof (cases "sp_Memory sp")
  case (Some m)
  then have run: "validateMemory Q vm sp = range_check Q (MemorySize (vm_Spec vm)) (mm_Min m) (mm_Max m)
      (spm_Step m) (memoryOutOfRangeError (MemorySize (vm_Spec vm)) (mm_Min m) (mm_Max m))
      (MemoryOffStep (MemorySize (vm_Spec vm)))"
    by (simp add: validateMemory_def range_check_def Let_def)
  have "case spm_Step m of None \<Rightarrow> True | Some s \<Rightarrow> 0 \<le> nano s"
    using assms(2) Some by (simp add: wf_policy_def)
  then show ?thesis
    unfolding run memory_allowed_def Some option.case by (rule range_check_exact [OF assms(1,3)])
qed (simp add: validateMemory_def memory_allowed_def)


lemma range_allows_unset:
  assumes "quantity_laws Q nano" and "\<not> is_set Q mn" and "\<not> is_set Q mx"
  shows "range_allows nano mn mx step x"
  using assms(2,3) by (auto simp: range_allows_def is_set_iff [OF assms(1)] split: option.splits)

lemma round_away_nonneg: "0 \<le> x \<Longrightarrow> 0 \<le> round_away x"
  by (cases "x = 0") (simp_all add: round_away_def nano_per_unit_def)

lemma per_core_amount:
  assumes laws: "quantity_laws Q nano" and "0 \<le> nano q" and "in_int64 (round_away (nano q))" and "0 < cores"
  shows "nano (q_new Q (q_value Q q sdiv cores)) = round_away (nano q) div cores * nano_per_unit"
proof -
  have "0 \<le> round_away (nano q)" using assms(2) by (rule round_away_nonneg)
  then have "round_away (nano q) sdiv cores = round_away (nano q) div cores"
    and "0 \<le> round_away (nano q) div cores" and "round_away (nano q) div cores \<le> round_away (nano q)"
    using assms(4) zdiv_mono2 [of "round_away (nano q)" 1 cores]
    by (simp_all add: sdiv_pos pos_imp_zdiv_nonneg_iff)
  then show ?thesis
    using assms(3) laws by (simp add: quantity_lawsD(4,6) in_int64_def min_int64_def)
qed

lemma validatePerCoreMemory_run:
  assumes "sp_Memory sp = Some m" and "spm_PerCore m = Some pc" and "0 < Cores (CPU (vm_Spec vm))"
    and "is_set Q (mm_Min pc) \<or> is_set Q (mm_Max pc)"
  shows "validatePerCoreMemory Q vm sp =
    range_check Q (q_new Q (q_value Q (MemorySize (vm_Spec vm)) sdiv Cores (CPU (vm_Spec vm))))
      (mm_Min pc) (mm_Max pc) (spm_Step m)
      (perCoreMemoryOutOfRangeError Q (MemorySize (vm_Spec vm)) (mm_Min pc) (mm_Max pc) (Cores (CPU (vm_Spec vm))))
      (\<lambda>lower upper. PerCoreMemoryOffStep (MemorySize (vm_Spec vm)) (Cores (CPU (vm_Spec vm)))
         (scaleQuantity Q lower (Cores (CPU (vm_Spec vm)))) (scaleQuantity Q upper (Cores (CPU (vm_Spec vm)))))"
  using assms unfolding validatePerCoreMemory_def range_check_def Let_def by (simp add: linorder_not_le)

lemma validatePerCoreMemory_exact:
  assumes laws: "quantity_laws Q nano" and wf: "wf_policy nano sp"
    and "0 \<le> nano (MemorySize (vm_Spec vm))" and "in_int64 (round_away (nano (MemorySize (vm_Spec vm))))"
  shows "\<exists>r. validatePerCoreMemory Q vm sp = Some r \<and>
    (r = None \<longleftrightarrow> per_core_allowed nano (sp_Memory sp) (Cores (CPU (vm_Spec vm))) (nano (MemorySize (vm_Spec vm))))"
proof (cases "\<exists>m pc. sp_Memory sp = Some m \<and> spm_PerCore m = Some pc \<and> 0 < Cores (CPU (vm_Spec vm)) \<and>
    (is_set Q (mm_Min pc) \<or> is_set Q (mm_Max pc))")
  case True
  then obtain m pc where c: "sp_Memory sp = Some m" "spm_PerCore m = Some pc" "0 < Cores (CPU (vm_Spec vm))"
    "is_set Q (mm_Min pc) \<or> is_set Q (mm_Max pc)" by blast
  let ?v = "q_new Q (q_value Q (MemorySize (vm_Spec vm)) sdiv Cores (CPU (vm_Spec vm)))"
  have v: "nano ?v = round_away (nano (MemorySize (vm_Spec vm))) div Cores (CPU (vm_Spec vm)) * nano_per_unit"
    using per_core_amount [OF laws assms(3,4) c(3)] .
  have "0 \<le> nano ?v"
    unfolding v using round_away_nonneg [OF assms(3)] c(3)
    by (simp add: pos_imp_zdiv_nonneg_iff nano_per_unit_def)
  moreover have "case spm_Step m of None \<Rightarrow> True | Some s \<Rightarrow> 0 \<le> nano s"
    using wf c(1) by (simp add: wf_policy_def)
  ultimately have "\<exists>r. validatePerCoreMemory Q vm sp = Some r \<and>
      (r = None \<longleftrightarrow> range_allows nano (mm_Min pc) (mm_Max pc) (spm_Step m) (nano ?v))"
    unfolding validatePerCoreMemory_run [OF c] by (rule range_check_exact [OF laws])
  then show ?thesis
    using c unfolding v per_core_allowed_def by simp
next
  case False
  then show ?thesis
    by (auto simp: validatePerCoreMemory_def per_core_allowed_def Let_def range_allows_unset [OF laws]
        split: option.splits)
qed

text \<open>The policy of the class, declaratively.\<close>

definition policy_allows :: "('q \<Rightarrow> int) \<Rightarrow> 'q sizing_policy \<Rightarrow> 'q vm_spec \<Rightarrow> bool" where
  "policy_allows nano sp spec \<longleftrightarrow>
     fraction_allowed (sp_CoreFractions sp) (CoreFraction (CPU spec)) \<and>
     cores_allowed (sp_Cores sp) (Cores (CPU spec)) \<and>
     memory_allowed nano (sp_Memory sp) (nano (MemorySize spec)) \<and>
     per_core_allowed nano (sp_Memory sp) (Cores (CPU spec)) (nano (MemorySize spec))"

definition valid_memory_size :: "('q \<Rightarrow> int) \<Rightarrow> 'q vm_spec \<Rightarrow> bool" where
  "valid_memory_size nano spec \<longleftrightarrow>
     0 \<le> nano (MemorySize spec) \<and> in_int64 (round_away (nano (MemorySize spec)))"

lemma policy_errors_exact:
  assumes "quantity_laws Q nano" and "wf_policy nano sp" and "valid_memory_size nano (vm_Spec vm)"
  shows "\<exists>errs. policy_errors Q vm sp = Some errs \<and> (errs = [] \<longleftrightarrow> policy_allows nano sp (vm_Spec vm))"
proof -
  obtain c where "validateCores vm sp = Some c"
    "c = None \<longleftrightarrow> cores_allowed (sp_Cores sp) (Cores (CPU (vm_Spec vm)))"
    using validateCores_exact [OF assms(2)] by blast
  moreover obtain m where "validateMemory Q vm sp = Some m"
    "m = None \<longleftrightarrow> memory_allowed nano (sp_Memory sp) (nano (MemorySize (vm_Spec vm)))"
    using validateMemory_exact [OF assms(1,2)] assms(3) unfolding valid_memory_size_def by blast
  moreover obtain p where "validatePerCoreMemory Q vm sp = Some p"
    "p = None \<longleftrightarrow> per_core_allowed nano (sp_Memory sp) (Cores (CPU (vm_Spec vm))) (nano (MemorySize (vm_Spec vm)))"
    using validatePerCoreMemory_exact [OF assms(1,2)] assms(3) unfolding valid_memory_size_def by blast
  moreover have "validateCoreFraction vm sp = None \<longleftrightarrow>
      fraction_allowed (sp_CoreFractions sp) (CoreFraction (CPU (vm_Spec vm)))"
    by (rule validateCoreFraction_ok)
  ultimately show ?thesis
    unfolding policy_errors_def policy_allows_def by (auto simp: map_filter_simps split: option.splits)
qed


section \<open>Properties\<close>

text \<open>
  Claim C14: for well-formed policies the admission check always returns, and it accepts a virtual
  machine exactly when the class has no policies, or some policy covers its cores and the first such
  policy allows its core fraction, its number of cores, its memory and its memory per core, each
  range and step check included.
\<close>

theorem CheckVMMatchedSizePolicy_exact:
  assumes "quantity_laws Q nano" and "valid_memory_size nano (vm_Spec vm)"
    and "list_all (wf_policy nano) (cls_SizingPolicies (cls_Spec cls))"
  shows "\<exists>r. CheckVMMatchedSizePolicy Q vm (Some cls) = Some r \<and>
    (r = Inr () \<longleftrightarrow> cls_SizingPolicies (cls_Spec cls) = [] \<or>
       (\<exists>sp. MatchSizingPolicy (Some cls) (Cores (CPU (vm_Spec vm))) = Some sp \<and>
             policy_allows nano sp (vm_Spec vm)))"
proof (cases "cls_SizingPolicies (cls_Spec cls) = [] \<or> getVMSizePolicy vm cls = None")
  case True
  then show ?thesis by (auto simp: CheckVMMatchedSizePolicy_def getVMSizePolicy_def)
next
  case False
  then obtain sp where sp: "getVMSizePolicy vm cls = Some sp" by blast
  then have "sp \<in> set (cls_SizingPolicies (cls_Spec cls))"
    by (auto simp: getVMSizePolicy_def MatchSizingPolicy_def dest: match_policies_Some)
  then have "wf_policy nano sp" using assms(3) by (simp add: list_all_iff)
  then obtain errs where "policy_errors Q vm sp = Some errs" "errs = [] \<longleftrightarrow> policy_allows nano sp (vm_Spec vm)"
    using policy_errors_exact [OF assms(1) _ assms(2)] by blast
  then show ?thesis using False sp
    by (auto simp: CheckVMMatchedSizePolicy_def getVMSizePolicy_def)
qed

theorem CheckVMMatchedSizePolicy_exact_witness:
  "CheckVMMatchedSizePolicy nano_quantity example_vm (Some example_class) = Some (Inr ())"
proof -
  note defs = example_class_def example_policy_def example_vm_def example_spec_def
  have "in_int64 (round_away (4 * 1024 ^ 3 * nano_per_unit))"
    by (simp add: in_int64_def max_int64_def min_int64_def round_away_def nano_per_unit_def)
  then have "valid_memory_size id (vm_Spec example_vm)"
    by (simp add: valid_memory_size_def defs nano_per_unit_def)
  moreover have "list_all (wf_policy id) (cls_SizingPolicies (cls_Spec example_class))"
    by (simp add: wf_policy_def defs in_int64_def max_int64_def min_int64_def nano_per_unit_def)
  moreover have "ParsePercent ''10%'' = Some 10"
    by (simp add: ParsePercent_def atoi_def trim_suffix_def has_suffix_def char_digit_def in_int64_def
        max_int64_def min_int64_def)
  then have "policy_allows id example_policy (vm_Spec example_vm)"
    by (simp add: policy_allows_def fraction_allowed_def cores_allowed_def memory_allowed_def
        per_core_allowed_def range_allows_def on_grid_def defs nano_per_unit_def)
  moreover have "MatchSizingPolicy (Some example_class) (Cores (CPU (vm_Spec example_vm))) = Some example_policy"
    by (simp add: MatchSizingPolicy_def defs)
  ultimately show ?thesis
    using CheckVMMatchedSizePolicy_exact [OF nano_quantity_laws, of example_vm example_class] by blast
qed

text \<open>
  A memory size within the limits of the policy that is not on the grid is rejected with
  its two neighbours on the grid: the suggested sizes enclose the requested one, are allowed, and no
  allowed size lies between them; a size on the grid is accepted.
\<close>

lemma validateIsQuantized_neighbours:
  assumes "quantity_laws Q nano" and "0 < nano step" and "nano lo \<le> nano v" and "nano v \<le> nano hi"
  shows "\<exists>r. validateIsQuantized Q v lo hi step = Some r \<and>
    (r = None \<longleftrightarrow> on_grid (nano v) (nano lo) (nano hi) (nano step)) \<and>
    (\<forall>a b. r = Some (a, b) \<longrightarrow> nano a < nano v \<and> nano v < nano b \<and>
       on_grid (nano a) (nano lo) (nano hi) (nano step) \<and> on_grid (nano b) (nano lo) (nano hi) (nano step) \<and>
       (\<forall>y. on_grid y (nano lo) (nano hi) (nano step) \<longrightarrow> y \<le> nano a \<or> nano b \<le> y))"
  using assms by (rule validateIsQuantized_exact)

text \<open>
  A number of cores between the limits of a policy that is off its step is rejected with
  the two neighbouring allowed numbers.
\<close>

lemma validateCores_suggests:
  assumes "wf_policy nano sp" and "sp_Cores sp = Some c" and "0 < spc_Step c"
    and "spc_Min c < Cores (CPU (vm_Spec vm))" and "Cores (CPU (vm_Spec vm)) < spc_Max c"
    and "(Cores (CPU (vm_Spec vm)) - spc_Min c) mod spc_Step c \<noteq> 0"
  shows "\<exists>a b. validateCores vm sp = Some (Some (CoresOffStep (Cores (CPU (vm_Spec vm))) a b)) \<and>
    a < Cores (CPU (vm_Spec vm)) \<and> Cores (CPU (vm_Spec vm)) < b \<and>
    cores_allowed (Some c) a \<and> cores_allowed (Some c) b \<and>
    (\<forall>y. cores_allowed (Some c) y \<longrightarrow> y \<le> a \<or> b \<le> y)"
proof -
  let ?n = "Cores (CPU (vm_Spec vm))"
  obtain g where g: "generateValidCoreGrid (spc_Min c) (spc_Max c) (spc_Step c) = Some g" "g \<noteq> []"
      "last g = spc_Max c" "hd g = spc_Min c" "sorted_wrt (<) g"
    and set: "set g = {x. on_grid x (spc_Min c) (spc_Max c) (spc_Step c)}"
    using validateCores_walk [OF assms(2,3,1)] assms(4,5) by force
  have off: "?n \<notin> set g" using set assms(4-6) by (simp add: on_grid_def)
  obtain a b where ab: "neighbours ?n (hd g, last g) g = (a, b)" by fastforce
  then have "a < ?n \<and> ?n < b \<and> a \<in> set g \<and> b \<in> set g \<and> (\<forall>y \<in> set g. y \<le> a \<or> b \<le> y)"
    using neighbours_enclose [OF g(5,2) _ _ off, of "(hd g, last g)"] g(3,4) assms(4,5) by simp
  moreover have "validateCores vm sp = Some (Some (CoresOffStep ?n a b))"
    using g(1) off ab assms(2,3) by (auto simp: validateCores_def list_ex_iff Let_def)
  moreover have "cores_allowed (Some c) y \<longleftrightarrow> y \<in> set g" for y
    using set assms(3) by (simp add: cores_allowed_def)
  ultimately show ?thesis by blast
qed

lemma grid_from_no_progress:
  assumes "grid_from below advance mx step v = Some g"
    and "\<And>v. below v mx \<Longrightarrow> below (advance v step) mx"
  shows "\<not> below v mx"
proof -
  have "(\<forall>v. below v mx \<longrightarrow> below (advance v step) mx) \<longrightarrow> \<not> below v mx"
    using assms(1)
    by (rule grid_from.raw_induct [where P = "\<lambda>below advance mx step v g.
          (\<forall>v. below v mx \<longrightarrow> below (advance v step) mx) \<longrightarrow> \<not> below v mx", rotated])
      (auto split: if_splits bind_splits, blast)
  with assms(2) show ?thesis by blast
qed

text \<open>
  With a negative memory step, which the schema of the class admits, and a lower limit
  below the upper one, the loop that builds the grid never ends: the check does not return.
\<close>

lemma negative_step_diverges:
  assumes "quantity_laws Q nano" and "nano step < 0" and "nano lo < nano hi"
  shows "generateValidGrid Q lo hi step = None \<and> validateIsQuantized Q v lo hi step = None"
proof -
  have "generateValidGrid Q lo hi step \<noteq> Some g" for g
    using grid_from_no_progress [of "\<lambda>v m. q_cmp Q v m = -1" "q_add Q" hi step lo g] assms
    by (auto simp: generateValidGrid_def quantity_cmp_iff quantity_lawsD(5))
  then have "generateValidGrid Q lo hi step = None" by blast
  then show ?thesis by (simp add: validateIsQuantized_def)
qed

end
