(* ===== verification/SizingValidators.thy ===== *)
theory SizingValidators
  imports SizingPolicy
begin

text \<open>
  The admission checks of a virtual machine class that concern its sizing policies
  (\<^verbatim>\<open>vmclass/internal/validators\<close>: \<^verbatim>\<open>sizing_policies_validator.go\<close> and
  \<^verbatim>\<open>default_core_fraction_validator.go\<close>).
\<close>

section \<open>sizing\_policies\_validator.go\<close>

text \<open>
  The body of the two nested loops for one pair of indexes.  The state is the set of used pairs;
  \<open>Inl\<close> is the early return of \<open>true\<close>.
\<close>

definition pair_crosses :: "sizing_policy_cores \<Rightarrow> sizing_policy_cores \<Rightarrow> bool" where
  "pair_crosses c1 c2 \<longleftrightarrow>
     spc_Min c1 \<ge> spc_Min c2 \<and> spc_Min c1 \<le> spc_Max c2 \<or>
     spc_Max c1 \<ge> spc_Min c2 \<and> spc_Max c1 \<le> spc_Max c2"

fun crosses_inner ::
  "nat \<Rightarrow> 'q sizing_policy \<Rightarrow> nat \<Rightarrow> 'q sizing_policy list \<Rightarrow> (nat \<times> nat) set \<Rightarrow> unit + (nat \<times> nat) set" where
  "crosses_inner i policy1 j [] usedPairs = Inr usedPairs"
| "crosses_inner i policy1 j (policy2 # rest) usedPairs =
     (if i = j then crosses_inner i policy1 (Suc j) rest usedPairs
      else if (i, j) \<in> usedPairs then crosses_inner i policy1 (Suc j) rest usedPairs
      else case (sp_Cores policy1, sp_Cores policy2) of
             (Some c1, Some c2) \<Rightarrow>
               if pair_crosses c1 c2 then Inl ()
               else crosses_inner i policy1 (Suc j) rest (insert (j, i) (insert (i, j) usedPairs))
           | _ \<Rightarrow> crosses_inner i policy1 (Suc j) rest usedPairs)"

fun crosses_outer ::
  "'q sizing_policy list \<Rightarrow> nat \<Rightarrow> 'q sizing_policy list \<Rightarrow> (nat \<times> nat) set \<Rightarrow> bool" where
  "crosses_outer policies i [] usedPairs = False"
| "crosses_outer policies i (policy1 # rest) usedPairs =
     (case crosses_inner i policy1 0 policies usedPairs of
        Inl _ \<Rightarrow> True
      | Inr used \<Rightarrow> crosses_outer policies (Suc i) rest used)"

definition HasCPUSizePoliciesCrosses :: "'q vm_class_spec \<Rightarrow> bool" where
  "HasCPUSizePoliciesCrosses vmclass =
     crosses_outer (cls_SizingPolicies vmclass) 0 (cls_SizingPolicies vmclass) {}"

definition HasValidCores :: "'q vm_class_spec \<Rightarrow> bool" where
  "HasValidCores vmclass \<longleftrightarrow>
     length (cls_SizingPolicies vmclass) = 0 \<or>
     \<not> list_ex (\<lambda>policy. sp_Cores policy = None) (cls_SizingPolicies vmclass)"

datatype sizing_policies_error = PoliciesWithoutCores string | PolicyCPUCrosses string

definition SizingPoliciesValidator_ValidateCreate :: "'q vm_class \<Rightarrow> (sizing_policies_error, unit) result" where
  "SizingPoliciesValidator_ValidateCreate vmclass =
     (if \<not> HasValidCores (cls_Spec vmclass) then Inl (PoliciesWithoutCores (cls_Name vmclass))
      else if HasCPUSizePoliciesCrosses (cls_Spec vmclass) then Inl (PolicyCPUCrosses (cls_Name vmclass))
      else Inr ())"

definition SizingPoliciesValidator_ValidateUpdate ::
  "'q vm_class \<Rightarrow> 'q vm_class \<Rightarrow> (sizing_policies_error, unit) result" where
  "SizingPoliciesValidator_ValidateUpdate oldVMClass newVMClass =
     (if HasCPUSizePoliciesCrosses (cls_Spec newVMClass) then Inl (PolicyCPUCrosses (cls_Name newVMClass))
      else Inr ())"

section \<open>default\_core\_fraction\_validator.go\<close>

datatype default_fraction_error =
    DefaultFractionInvalid string nat string
  | AutoscalingDisabled string nat
  | InPlaceResizeRequired string nat
  | TooFewSteps string nat "string list"
  | DefaultFractionNotAllowed string nat int "string list"

definition hasAutoDefaultCoreFraction :: "'q vm_class option \<Rightarrow> bool" where
  "hasAutoDefaultCoreFraction vmclass =
     (case vmclass of
        None \<Rightarrow> False
      | Some cls \<Rightarrow>
          list_ex (\<lambda>policy. sp_DefaultCoreFraction policy = Some (StrVal CoreFractionAuto))
            (cls_SizingPolicies (cls_Spec cls)))"

definition validateAuto ::
  "feature_gate \<Rightarrow> 'q vm_class option \<Rightarrow> 'q vm_class \<Rightarrow> nat \<Rightarrow> 'q sizing_policy \<Rightarrow> string \<Rightarrow>
     (default_fraction_error, unit) result" where
  "validateAuto fg oldVMClass newVMClass policyIndex policy value =
     (if value \<noteq> CoreFractionAuto then Inl (DefaultFractionInvalid (cls_Name newVMClass) policyIndex value)
      else if hasAutoDefaultCoreFraction oldVMClass then Inr ()
      else if \<not> fg VerticalVirtualMachineAutoscaler then Inl (AutoscalingDisabled (cls_Name newVMClass) policyIndex)
      else if \<not> fg HotplugCPUAndMemoryWithInPlaceResize
      then Inl (InPlaceResizeRequired (cls_Name newVMClass) policyIndex)
      else if \<not> CanAutoscaleCoreFraction (Some policy)
      then Inl (TooFewSteps (cls_Name newVMClass) policyIndex
                 (FormatCoreFractionValues (AutoCoreFractionSteps (Some policy))))
      else Inr ())"

fun default_fraction_loop ::
  "feature_gate \<Rightarrow> 'q vm_class option \<Rightarrow> 'q vm_class \<Rightarrow> nat \<Rightarrow> 'q sizing_policy list \<Rightarrow>
     (default_fraction_error, unit) result" where
  "default_fraction_loop fg oldVMClass newVMClass i [] = Inr ()"
| "default_fraction_loop fg oldVMClass newVMClass i (policy # rest) =
     (case sp_DefaultCoreFraction policy of
        None \<Rightarrow> default_fraction_loop fg oldVMClass newVMClass (Suc i) rest
      | Some (StrVal value) \<Rightarrow>
          (case validateAuto fg oldVMClass newVMClass i policy value of
             Inl err \<Rightarrow> Inl err
           | Inr _ \<Rightarrow> default_fraction_loop fg oldVMClass newVMClass (Suc i) rest)
      | Some (IntVal fraction) \<Rightarrow>
          if length (sp_CoreFractions policy) = 0
          then default_fraction_loop fg oldVMClass newVMClass (Suc i) rest
          else if fraction \<notin> set (sp_CoreFractions policy)
          then Inl (DefaultFractionNotAllowed (cls_Name newVMClass) i fraction
                     (FormatCoreFractionValues (sp_CoreFractions policy)))
          else default_fraction_loop fg oldVMClass newVMClass (Suc i) rest)"

definition DefaultCoreFractionValidator_validate ::
  "feature_gate \<Rightarrow> 'q vm_class option \<Rightarrow> 'q vm_class \<Rightarrow> (default_fraction_error, unit) result" where
  "DefaultCoreFractionValidator_validate fg oldVMClass newVMClass =
     default_fraction_loop fg oldVMClass newVMClass 0 (cls_SizingPolicies (cls_Spec newVMClass))"

definition DefaultCoreFractionValidator_ValidateCreate ::
  "feature_gate \<Rightarrow> 'q vm_class \<Rightarrow> (default_fraction_error, unit) result" where
  "DefaultCoreFractionValidator_ValidateCreate fg vmclass =
     DefaultCoreFractionValidator_validate fg None vmclass"

definition DefaultCoreFractionValidator_ValidateUpdate ::
  "feature_gate \<Rightarrow> 'q vm_class \<Rightarrow> 'q vm_class \<Rightarrow> (default_fraction_error, unit) result" where
  "DefaultCoreFractionValidator_ValidateUpdate fg oldVMClass newVMClass =
     DefaultCoreFractionValidator_validate fg (Some oldVMClass) newVMClass"

section \<open>Which crossings the nested loops find\<close>

text \<open>The two policies with these indexes have cores, and the first one's bound lies in the second's range.\<close>

definition crossing :: "'q sizing_policy list \<Rightarrow> nat \<Rightarrow> nat \<Rightarrow> bool" where
  "crossing ps i j \<longleftrightarrow>
     (\<exists>c1 c2. sp_Cores (ps ! i) = Some c1 \<and> sp_Cores (ps ! j) = Some c2 \<and> pair_crosses c1 c2)"

definition both_cores :: "'q sizing_policy list \<Rightarrow> nat \<Rightarrow> nat \<Rightarrow> bool" where
  "both_cores ps i j \<longleftrightarrow> sp_Cores (ps ! i) \<noteq> None \<and> sp_Cores (ps ! j) \<noteq> None"

text \<open>The pairs that are used once the rows below \<open>i\<close> are done.\<close>

definition used_below :: "'q sizing_policy list \<Rightarrow> nat \<Rightarrow> (nat \<times> nat) set" where
  "used_below ps i = {(a, b). a \<noteq> b \<and> a < length ps \<and> b < length ps \<and> min a b < i \<and> both_cores ps a b}"

text \<open>The pairs of row \<open>i\<close> that are used once the columns below \<open>j\<close> are done.\<close>

definition used_row :: "'q sizing_policy list \<Rightarrow> nat \<Rightarrow> nat \<Rightarrow> (nat \<times> nat) set" where
  "used_row ps i j = {(a, b). (a = i \<and> i < b \<and> b < j \<or> b = i \<and> i < a \<and> a < j) \<and> both_cores ps a b}"

lemma crosses_inner_spec:
  assumes "j + length rest = length ps" and "drop j ps = rest" and "i < length ps"
  shows "crosses_inner i (ps ! i) j rest (used_below ps i \<union> used_row ps i j) =
    (if \<exists>b. i < b \<and> j \<le> b \<and> b < length ps \<and> crossing ps i b then Inl ()
     else Inr (used_below ps i \<union> used_row ps i (length ps)))"
  using assms
proof (induction rest arbitrary: j)
  case Nil
  then show ?case by auto
next
  case (Cons p rest)
  have j: "j < length ps" "ps ! j = p" "drop (Suc j) ps = rest"
    using Cons.prems by (auto simp: nth_via_drop drop_Suc tl_drop [symmetric])
  let ?U = "\<lambda>k. used_below ps i \<union> used_row ps i k"
  let ?hit = "\<lambda>k. \<exists>b. i < b \<and> k \<le> b \<and> b < length ps \<and> crossing ps i b"
  have IH: "crosses_inner i (ps ! i) (Suc j) rest (?U (Suc j)) =
      (if ?hit (Suc j) then Inl () else Inr (?U (length ps)))"
    using Cons.IH [of "Suc j"] Cons.prems j(3) by simp
  have mem: "(i, j) \<in> ?U j \<longleftrightarrow> j < i \<and> both_cores ps i j"
    using j(1) Cons.prems(3) by (auto simp: used_below_def used_row_def min_def)
  have hit: "?hit j \<longleftrightarrow> (i < j \<and> crossing ps i j) \<or> ?hit (Suc j)"
    using j(1) by (metis Suc_leD Suc_leI le_eq_less_or_eq)
  show ?case
  proof (cases "i < j \<and> both_cores ps i j")
    case True
    then obtain c1 c2 where c: "sp_Cores (ps ! i) = Some c1" "sp_Cores p = Some c2"
      using j(2) by (auto simp: both_cores_def)
    have "insert (j, i) (insert (i, j) (?U j)) = ?U (Suc j)"
      using True by (auto simp: used_row_def both_cores_def)
    moreover have "crossing ps i j \<longleftrightarrow> pair_crosses c1 c2" using c j(2) by (simp add: crossing_def)
    ultimately show ?thesis using True c mem IH hit by auto
  next
    case False
    then have same: "?U (Suc j) = ?U j" and none: "\<not> (i < j \<and> crossing ps i j)"
      by (auto simp: used_row_def both_cores_def crossing_def less_Suc_eq)
    have skip: "crosses_inner i (ps ! i) j (p # rest) (?U j) = crosses_inner i (ps ! i) (Suc j) rest (?U j)"
      using False mem j(2) by (auto simp: both_cores_def split: option.splits)
    show ?thesis unfolding skip unfolding same [symmetric] IH using hit none by auto
  qed
qed

lemma used_next_row: "i < length ps \<Longrightarrow> used_below ps i \<union> used_row ps i (length ps) = used_below ps (Suc i)"
  by (auto simp: used_below_def used_row_def both_cores_def min_def split: if_splits)

lemma crosses_outer_spec:
  assumes "drop i ps = rest"
  shows "crosses_outer ps i rest (used_below ps i) \<longleftrightarrow>
    (\<exists>a b. i \<le> a \<and> a < b \<and> b < length ps \<and> crossing ps a b)"
  using assms
proof (induction rest arbitrary: i)
  case Nil
  then show ?case by auto
next
  case (Cons p rest)
  have i: "i < length ps" "ps ! i = p" "drop (Suc i) ps = rest"
    using Cons.prems by (auto simp: nth_via_drop drop_Suc tl_drop [symmetric])
       (metis drop_all leI list.distinct(1))
  have row0: "used_row ps i 0 = {}" by (auto simp: used_row_def)
  have inner: "crosses_inner i p 0 ps (used_below ps i) =
      (if \<exists>b. i < b \<and> b < length ps \<and> crossing ps i b then Inl () else Inr (used_below ps (Suc i)))"
    using crosses_inner_spec [of 0 ps ps i] i by (auto simp: row0 used_next_row)
  show ?case
    using inner Cons.IH [OF i(3)] by (auto simp: Suc_le_eq) (metis le_eq_less_or_eq)+
qed

lemma HasCPUSizePoliciesCrosses_iff:
  "HasCPUSizePoliciesCrosses cls \<longleftrightarrow>
     (\<exists>a b. a < b \<and> b < length (cls_SizingPolicies cls) \<and> crossing (cls_SizingPolicies cls) a b)"
  using crosses_outer_spec [of 0 "cls_SizingPolicies cls" "cls_SizingPolicies cls"]
  by (simp add: HasCPUSizePoliciesCrosses_def used_below_def)


definition covers :: "'q sizing_policy \<Rightarrow> int \<Rightarrow> bool" where
  "covers sp cores \<longleftrightarrow> (\<exists>c. sp_Cores sp = Some c \<and> spc_Min c \<le> cores \<and> cores \<le> spc_Max c)"

text \<open>The range of the second policy lies strictly inside the range of the first one.\<close>

definition nested :: "'q sizing_policy \<Rightarrow> 'q sizing_policy \<Rightarrow> bool" where
  "nested p q \<longleftrightarrow> (\<exists>c d. sp_Cores p = Some c \<and> sp_Cores q = Some d \<and>
     spc_Min c < spc_Min d \<and> spc_Min d \<le> spc_Max d \<and> spc_Max d < spc_Max c)"

lemma overlap_crosses_or_nested:
  "covers (ps ! i) x \<Longrightarrow> covers (ps ! j) x \<Longrightarrow> crossing ps i j \<or> nested (ps ! i) (ps ! j)"
  unfolding covers_def crossing_def nested_def pair_crosses_def by fastforce

lemma crossing_overlaps:
  "crossing ps i j \<Longrightarrow> (\<And>c. sp_Cores (ps ! i) = Some c \<Longrightarrow> spc_Min c \<le> spc_Max c) \<Longrightarrow>
     \<exists>x. covers (ps ! i) x \<and> covers (ps ! j) x"
  unfolding covers_def crossing_def pair_crosses_def by force

section \<open>Properties\<close>

text \<open>
  Claim C38: what the crossing check of the policies decides.  If it reports no crossing, two policies
  can cover a common number of cores only when the range of the later one lies strictly inside the
  range of the earlier one; and if no two policies cover a common number of cores, it reports none.
\<close>

theorem HasCPUSizePoliciesCrosses_exact:
  assumes "\<forall>p \<in> set (cls_SizingPolicies cls). \<forall>c. sp_Cores p = Some c \<longrightarrow> spc_Min c \<le> spc_Max c"
  shows "(\<not> HasCPUSizePoliciesCrosses cls \<longrightarrow>
      (\<forall>i j x. i < j \<and> j < length (cls_SizingPolicies cls) \<and> covers (cls_SizingPolicies cls ! i) x \<and>
         covers (cls_SizingPolicies cls ! j) x \<longrightarrow>
         nested (cls_SizingPolicies cls ! i) (cls_SizingPolicies cls ! j))) \<and>
    ((\<forall>i j x. i < j \<and> j < length (cls_SizingPolicies cls) \<longrightarrow>
        \<not> (covers (cls_SizingPolicies cls ! i) x \<and> covers (cls_SizingPolicies cls ! j) x)) \<longrightarrow>
      \<not> HasCPUSizePoliciesCrosses cls)"
proof (intro conjI impI allI)
  fix i j x
  assume "\<not> HasCPUSizePoliciesCrosses cls"
    and "i < j \<and> j < length (cls_SizingPolicies cls) \<and> covers (cls_SizingPolicies cls ! i) x \<and>
      covers (cls_SizingPolicies cls ! j) x"
  then show "nested (cls_SizingPolicies cls ! i) (cls_SizingPolicies cls ! j)"
    using overlap_crosses_or_nested [of "cls_SizingPolicies cls" i x j]
    by (auto simp: HasCPUSizePoliciesCrosses_iff)
next
  let ?ps = "cls_SizingPolicies cls"
  assume disjoint: "\<forall>i j x. i < j \<and> j < length ?ps \<longrightarrow> \<not> (covers (?ps ! i) x \<and> covers (?ps ! j) x)"
  have "\<not> crossing ?ps a b" if ab: "a < b" "b < length ?ps" for a b
  proof
    assume "crossing ?ps a b"
    moreover have "?ps ! a \<in> set ?ps" using ab by simp
    ultimately obtain x where "covers (?ps ! a) x" "covers (?ps ! b) x"
      using crossing_overlaps assms by blast
    with disjoint ab show False by blast
  qed
  then show "\<not> HasCPUSizePoliciesCrosses cls" by (auto simp: HasCPUSizePoliciesCrosses_iff)
qed

definition policy_of_range :: "int \<Rightarrow> int \<Rightarrow> int sizing_policy" where
  "policy_of_range lo hi = \<lparr> sp_Memory = None, sp_CoreFractions = [], sp_DefaultCoreFraction = None,
     sp_DedicatedCores = [], sp_Cores = Some \<lparr> spc_Min = lo, spc_Max = hi, spc_Step = 0 \<rparr> \<rparr>"

definition class_of_policies :: "int sizing_policy list \<Rightarrow> int vm_class" where
  "class_of_policies ps = \<lparr> cls_Name = ''class'', cls_Spec =
     \<lparr> cls_NodeSelector = \<lparr> ns_MatchLabels = None, ns_MatchExpressions = None \<rparr>, cls_Tolerations = [],
       cls_SizingPolicies = ps \<rparr> \<rparr>"

theorem HasCPUSizePoliciesCrosses_exact_witness:
  "\<not> HasCPUSizePoliciesCrosses (cls_Spec (class_of_policies [policy_of_range 1 4, policy_of_range 5 8]))"
proof -
  have "\<forall>i j x. i < j \<and> j < length [policy_of_range 1 4, policy_of_range 5 8] \<longrightarrow>
      \<not> (covers ([policy_of_range 1 4, policy_of_range 5 8] ! i) x \<and>
         covers ([policy_of_range 1 4, policy_of_range 5 8] ! j) x)"
    by (auto simp: less_Suc_eq covers_def policy_of_range_def)
  then show ?thesis
    using HasCPUSizePoliciesCrosses_exact [of "cls_Spec (class_of_policies [policy_of_range 1 4, policy_of_range 5 8])"]
    by (auto simp: class_of_policies_def policy_of_range_def)
qed

text \<open>
  The check of pairs in one direction only lets overlapping ranges through: a class whose
  first policy covers 1 to 10 cores and whose second covers 3 to 5 is accepted on creation, though
  both cover 4 cores; with the policies in the other order it is rejected.
\<close>

lemma nested_ranges_accepted:
  "SizingPoliciesValidator_ValidateCreate (class_of_policies [policy_of_range 1 10, policy_of_range 3 5]) = Inr () \<and>
   covers (policy_of_range 1 10) 4 \<and> covers (policy_of_range 3 5) 4 \<and>
   SizingPoliciesValidator_ValidateCreate (class_of_policies [policy_of_range 3 5, policy_of_range 1 10])
     = Inl (PolicyCPUCrosses ''class'')"
  by (simp add: SizingPoliciesValidator_ValidateCreate_def HasValidCores_def HasCPUSizePoliciesCrosses_def
      class_of_policies_def policy_of_range_def pair_crosses_def covers_def)

text \<open>
  In a class that passed the check and has no nested ranges, the policy of a virtual machine
  is unique: the policy found for a number of cores is the only one that covers it.
\<close>

lemma accepted_class_policy_unique:
  assumes "SizingPoliciesValidator_ValidateCreate cls = Inr ()"
    and "\<forall>p \<in> set (cls_SizingPolicies (cls_Spec cls)). \<forall>q \<in> set (cls_SizingPolicies (cls_Spec cls)). \<not> nested p q"
    and "sp \<in> set (cls_SizingPolicies (cls_Spec cls))" and "covers sp cores"
  shows "MatchSizingPolicy (Some cls) cores = Some sp"
proof -
  let ?ps = "cls_SizingPolicies (cls_Spec cls)"
  have none: "\<not> (\<exists>a b. a < b \<and> b < length ?ps \<and> crossing ?ps a b)"
    using assms(1) HasCPUSizePoliciesCrosses_iff [of "cls_Spec cls"]
    by (auto simp: SizingPoliciesValidator_ValidateCreate_def split: if_splits)
  have unique: "i = j" if "i < length ?ps" "j < length ?ps" "covers (?ps ! i) cores" "covers (?ps ! j) cores" for i j
    using that none assms(2) overlap_crosses_or_nested [of ?ps i cores j]
      overlap_crosses_or_nested [of ?ps j cores i] by (metis nat_neq_iff nth_mem)
  obtain q where q: "match_policies ?ps cores = Some q"
    using assms(3,4) match_policies_None [of ?ps cores] unfolding covers_def by blast
  then have "q \<in> set ?ps" "covers q cores" using match_policies_Some [OF q] by (auto simp: covers_def)
  then have "q = sp" using assms(3,4) unique by (metis in_set_conv_nth)
  with q show ?thesis by (simp add: MatchSizingPolicy_def)
qed

definition default_fraction_ok :: "feature_gate \<Rightarrow> bool \<Rightarrow> 'q sizing_policy \<Rightarrow> bool" where
  "default_fraction_ok fg ratchet policy =
     (case sp_DefaultCoreFraction policy of
        None \<Rightarrow> True
      | Some (IntVal f) \<Rightarrow> sp_CoreFractions policy = [] \<or> f \<in> set (sp_CoreFractions policy)
      | Some (StrVal v) \<Rightarrow> v = CoreFractionAuto \<and>
          (ratchet \<or> fg VerticalVirtualMachineAutoscaler \<and> fg HotplugCPUAndMemoryWithInPlaceResize \<and>
             MinAutoCoreFractionSteps \<le> length (AutoCoreFractionSteps (Some policy))))"

lemma default_fraction_loop_ok:
  "default_fraction_loop fg old new i ps = Inr () \<longleftrightarrow>
     list_all (default_fraction_ok fg (hasAutoDefaultCoreFraction old)) ps"
  by (induction ps arbitrary: i)
    (auto simp: default_fraction_ok_def validateAuto_def CanAutoscaleCoreFraction_def
      split: option.splits int_or_string.splits)

text \<open>
  An update of a class is accepted exactly when every numeric default core fraction is
  among the allowed ones (if any are listed) and every other default is the automatic mode, which,
  unless the old class already used it, needs both feature gates and at least two fractions to
  choose from.
\<close>

lemma DefaultCoreFractionValidator_exact:
  "DefaultCoreFractionValidator_ValidateUpdate fg old new = Inr () \<longleftrightarrow>
     list_all (default_fraction_ok fg (hasAutoDefaultCoreFraction (Some old)))
       (cls_SizingPolicies (cls_Spec new))"
  by (simp add: DefaultCoreFractionValidator_ValidateUpdate_def DefaultCoreFractionValidator_validate_def
      default_fraction_loop_ok)

end
