(* ===== verification/NetworkIDs.thy ===== *)
theory NetworkIDs
  imports VMComparators
begin

text \<open>
  Network interfaces of a virtual machine: the identifiers the defaulting webhook fills in
  (\<^verbatim>\<open>pkg/common/network/ids.go\<close>) and the admission check of the networks
  (\<^verbatim>\<open>vm/internal/validators/networks_validator.go\<close>).
\<close>

section \<open>ids.go\<close>

abbreviation (input) ReservedMainID :: int where "ReservedMainID \<equiv> 1"
abbreviation (input) StartGenericID :: int where "StartGenericID \<equiv> 2"

definition MaxID :: int where "MaxID = 16 * 1024 - 1"

text \<open>The first free identifier from \<open>nextID\<close> on, with the set of used ones extended by it.\<close>

function allocateNextID :: "int set \<Rightarrow> int \<Rightarrow> (int \<times> int set) option" where
  "allocateNextID used ident =
     (if ident \<le> MaxID
      then if ident = ReservedMainID then allocateNextID used (ident + 1)
           else if ident \<in> used then allocateNextID used (ident + 1)
           else Some (ident, insert ident used)
      else None)"
  by pat_completeness auto
termination
  by (relation "measure (\<lambda>(used, ident). nat (MaxID + 1 - ident))") auto

declare allocateNextID.simps [simp del]

text \<open>
  The second loop: the networks with the identifiers written into them, and whether any was
  assigned.  When no identifier is free the loop stops, and the rest of the list stays as it is.
\<close>

fun ensure_loop :: "int set \<Rightarrow> int \<Rightarrow> networks_spec list \<Rightarrow> networks_spec list \<times> bool" where
  "ensure_loop used nextID [] = ([], False)"
| "ensure_loop used nextID (n # ns) =
     (if net_ID n \<noteq> None then
        (let (ns', changed) = ensure_loop used nextID ns in (n # ns', changed))
      else if net_Type n = NetworksTypeMain then
        (let (ns', changed) = ensure_loop (insert ReservedMainID used) nextID ns
         in (n\<lparr> net_ID := Some ReservedMainID \<rparr> # ns', True))
      else case allocateNextID used nextID of
             None \<Rightarrow> (n # ns, False)
           | Some (ident, used') \<Rightarrow>
               (let (ns', changed) = ensure_loop used' (ident + 1) ns
                in (n\<lparr> net_ID := Some ident \<rparr> # ns', True)))"

definition used_ids :: "networks_spec list \<Rightarrow> int set" where
  "used_ids networks = set (filter (\<lambda>i. i > 0) (List.map_filter net_ID networks))"

definition EnsureNetworkInterfaceIDs :: "networks_spec list \<Rightarrow> networks_spec list \<times> bool" where
  "EnsureNetworkInterfaceIDs networks =
     (if length networks = 0 then (networks, False)
      else ensure_loop (used_ids networks) StartGenericID networks)"

section \<open>networks\_validator.go\<close>

datatype networks_error =
    MainNotFirst nat
  | MainHasName
  | NameRequired string
  | DuplicateNetwork string string
  | DuplicateID int string
  | IDOutOfRange int string
  | MainIDNotOne int
  | IDChangedWhileRunning string string
  | ExplicitMainUnavailable
  | ImplicitMainUnavailable
  | SDNRequired bool
  | NetworkDoesNotExist string string
  | NetworkLookupFailed string string

definition getNetworkIdentifier :: "networks_spec \<Rightarrow> string" where
  "getNetworkIdentifier network =
     (if net_Type network = NetworksTypeMain then net_Type network
      else net_Type network @ ''/'' @ net_Name network)"

definition validateNetworkName :: "string \<Rightarrow> string \<Rightarrow> (networks_error, unit) result" where
  "validateNetworkName networkType networkName =
     (if networkType = NetworksTypeMain
      then if networkName \<noteq> '''' then Inl MainHasName else Inr ()
      else if networkName = '''' then Inl (NameRequired networkType) else Inr ())"

definition validateNetworkUniqueness ::
  "string \<Rightarrow> string \<Rightarrow> string list \<Rightarrow> (networks_error, string list) result" where
  "validateNetworkUniqueness networkType networkName namesSet =
     (let key = networkType @ ''/'' @ networkName
      in if key \<in> set namesSet then Inl (DuplicateNetwork networkType networkName)
         else Inr (key # namesSet))"

text \<open>\<^verbatim>\<open>ptr.Deref(network.ID, 0)\<close>.\<close>

definition id_or_zero :: "networks_spec \<Rightarrow> int" where
  "id_or_zero network = (case net_ID network of None \<Rightarrow> 0 | Some i \<Rightarrow> i)"

definition validateNetworkIDUniqueness ::
  "networks_spec \<Rightarrow> int list \<Rightarrow> (networks_error, int list) result" where
  "validateNetworkIDUniqueness network idsSet =
     (let ident = id_or_zero network
      in if ident = 0 then Inr idsSet
         else if ident \<in> set idsSet then Inl (DuplicateID ident (getNetworkIdentifier network))
         else Inr (ident # idsSet))"

definition validateNetworkID :: "networks_spec \<Rightarrow> (networks_error, unit) result" where
  "validateNetworkID network =
     (case net_ID network of
        None \<Rightarrow> Inr ()
      | Some ident \<Rightarrow>
          if ident < 1 \<or> ident > MaxID then Inl (IDOutOfRange ident (getNetworkIdentifier network))
          else if net_Type network = NetworksTypeMain \<and> ident \<noteq> 1 then Inl (MainIDNotOne ident)
          else Inr ())"

fun validateNetworksSpec_loop ::
  "nat \<Rightarrow> string list \<Rightarrow> int list \<Rightarrow> networks_spec list \<Rightarrow> (networks_error, unit) result" where
  "validateNetworksSpec_loop i namesSet idsSet [] = Inr ()"
| "validateNetworksSpec_loop i namesSet idsSet (network # rest) =
     (if net_Type network = NetworksTypeMain \<and> i > 0 then Inl (MainNotFirst i)
      else case validateNetworkName (net_Type network) (net_Name network) of
        Inl err \<Rightarrow> Inl err
      | Inr _ \<Rightarrow>
          (case validateNetworkUniqueness (net_Type network) (net_Name network) namesSet of
             Inl err \<Rightarrow> Inl err
           | Inr namesSet' \<Rightarrow>
               (case validateNetworkIDUniqueness network idsSet of
                  Inl err \<Rightarrow> Inl err
                | Inr idsSet' \<Rightarrow>
                    (case validateNetworkID network of
                       Inl err \<Rightarrow> Inl err
                     | Inr _ \<Rightarrow> validateNetworksSpec_loop (Suc i) namesSet' idsSet' rest))))"

definition validateNetworksSpec :: "networks_spec list \<Rightarrow> (networks_error, unit) result" where
  "validateNetworksSpec networksSpec = validateNetworksSpec_loop 0 [] [] networksSpec"

definition buildNetworksMap :: "networks_spec list \<Rightarrow> (string \<times> networks_spec) list" where
  "buildNetworksMap networksSpec =
     fold (\<lambda>network m. AList.update (getNetworkIdentifier network) network m) networksSpec []"


text \<open>
  Go iterates over the map in an unspecified order; the order only decides which of several changed
  identifiers the error names.
\<close>

definition validateNetworkIDsUnchanged ::
  "networks_spec list \<Rightarrow> networks_spec list \<Rightarrow> string \<Rightarrow> (networks_error, unit) result" where
  "validateNetworkIDsUnchanged oldNetworksSpec newNetworksSpec phase =
     (let newNetworksMap = buildNetworksMap newNetworksSpec;
          offends = (\<lambda>(key, oldNetwork).
            case map_of newNetworksMap key of
              None \<Rightarrow> False
            | Some newNetwork \<Rightarrow>
                id_or_zero oldNetwork \<noteq> id_or_zero newNetwork \<and> net_ID oldNetwork \<noteq> None \<and>
                phase \<noteq> MachineStopped)
      in case List.find offends (buildNetworksMap oldNetworksSpec) of
           None \<Rightarrow> Inr ()
         | Some (_, oldNetwork) \<Rightarrow> Inl (IDChangedWhileRunning (getNetworkIdentifier oldNetwork) phase))"

definition isImplicitMainNet :: "networks_spec list \<Rightarrow> bool" where
  "isImplicitMainNet networks \<longleftrightarrow> length networks = 0"

definition isSingleMainNet :: "networks_spec list \<Rightarrow> bool" where
  "isSingleMainNet networks \<longleftrightarrow> length networks = 1 \<and> net_Type (networks ! 0) = NetworksTypeMain"

definition hasAdditionalNetworks :: "networks_spec list \<Rightarrow> bool" where
  "hasAdditionalNetworks networks \<longleftrightarrow> \<not> isImplicitMainNet networks \<and> \<not> isSingleMainNet networks"

definition HasMainNetworkSpec :: "networks_spec list \<Rightarrow> bool" where
  "HasMainNetworkSpec networks \<longleftrightarrow> GetMainNetworkSpec networks \<noteq> None"

text \<open>The validator holds the gates and the configured address ranges of virtual machines.\<close>

record networks_validator =
  nv_featureGate :: feature_gate
  nv_virtualMachineCIDRs :: "string list"

definition validateMainAvailability ::
  "networks_validator \<Rightarrow> networks_spec list \<Rightarrow> (networks_error, unit) result" where
  "validateMainAvailability v networksSpec =
     (let hasCIDRs = (length (nv_virtualMachineCIDRs v) > 0)
      in if \<not> hasCIDRs \<and> HasMainNetworkSpec networksSpec then Inl ExplicitMainUnavailable
         else if \<not> hasCIDRs \<and> isImplicitMainNet networksSpec then Inl ImplicitMainUnavailable
         else Inr ())"

text \<open>The flag of \<open>SDNRequired\<close> tells whether the message is extended by the note on the main network.\<close>

definition validateAdditionalNetworksAvailability ::
  "networks_validator \<Rightarrow> networks_spec list \<Rightarrow> (networks_error, unit) result" where
  "validateAdditionalNetworksAvailability v networksSpec =
     (if \<not> hasAdditionalNetworks networksSpec \<or> nv_featureGate v SDN then Inr ()
      else Inl (SDNRequired False))"

definition validateNetworkRequirements ::
  "networks_validator \<Rightarrow> networks_spec list \<Rightarrow> (networks_error, unit) result" where
  "validateNetworkRequirements v networksSpec =
     (case validateMainAvailability v networksSpec of
        Inl err \<Rightarrow> Inl err
      | Inr _ \<Rightarrow>
          (case validateAdditionalNetworksAvailability v networksSpec of
             Inl err \<Rightarrow> if length (nv_virtualMachineCIDRs v) = 0 then Inl (SDNRequired True) else Inl err
           | Inr _ \<Rightarrow> Inr ()))"

definition networksAdded :: "networks_spec list \<Rightarrow> networks_spec list \<Rightarrow> networks_spec list" where
  "networksAdded oldSpec newSpec =
     (let key = (\<lambda>n. net_Type n @ ''/'' @ net_Name n); old = map key oldSpec
      in filter (\<lambda>n. key n \<notin> set old) newSpec)"

text \<open>
  The lookup of a referenced network through the API client is a parameter: found, not found, or
  failed with an error.  A validator without a client is \<open>None\<close>.
\<close>

datatype lookup = Found | NotFound | LookupError string

fun validateNetworksExist ::
  "(string \<Rightarrow> string \<Rightarrow> lookup) option \<Rightarrow> networks_spec list \<Rightarrow> (networks_error, unit) result" where
  "validateNetworksExist None networks = Inr ()"
| "validateNetworksExist (Some get) [] = Inr ()"
| "validateNetworksExist (Some get) (n # ns) =
     (if net_Type n = NetworksTypeClusterNetwork \<or> net_Type n = NetworksTypeNetwork
      then case get (net_Type n) (net_Name n) of
             NotFound \<Rightarrow> Inl (NetworkDoesNotExist (net_Type n) (net_Name n))
           | LookupError e \<Rightarrow> Inl (NetworkLookupFailed (net_Name n) e)
           | Found \<Rightarrow> validateNetworksExist (Some get) ns
      else validateNetworksExist (Some get) ns)"

definition NetworksValidator_ValidateCreate ::
  "networks_validator \<Rightarrow> 'q vm_spec \<Rightarrow> (networks_error, unit) result" where
  "NetworksValidator_ValidateCreate v vm =
     (let networksSpec = slice (Networks vm)
      in case validateNetworkRequirements v networksSpec of
           Inl err \<Rightarrow> Inl err
         | Inr _ \<Rightarrow> if length networksSpec = 0 then Inr () else validateNetworksSpec networksSpec)"

text \<open>\<^verbatim>\<open>equality.Semantic.DeepEqual\<close> does not distinguish the nil slice from the empty one.\<close>

definition NetworksValidator_ValidateUpdate ::
  "networks_validator \<Rightarrow> (string \<Rightarrow> string \<Rightarrow> lookup) option \<Rightarrow> 'q vm_spec \<Rightarrow> 'q vm_spec \<Rightarrow> string \<Rightarrow>
     (networks_error, unit) result" where
  "NetworksValidator_ValidateUpdate v get oldVM newVM phase =
     (let newNetworksSpec = slice (Networks newVM); oldNetworksSpec = slice (Networks oldVM)
      in if newNetworksSpec = oldNetworksSpec then Inr ()
         else case validateNetworkRequirements v newNetworksSpec of
           Inl err \<Rightarrow> Inl err
         | Inr _ \<Rightarrow>
             if length newNetworksSpec = 0 then Inr ()
             else (case validateNetworkIDsUnchanged oldNetworksSpec newNetworksSpec phase of
                     Inl err \<Rightarrow> Inl err
                   | Inr _ \<Rightarrow>
                       (case validateNetworksSpec newNetworksSpec of
                          Inl err \<Rightarrow> Inl err
                        | Inr _ \<Rightarrow>
                            (let added = networksAdded oldNetworksSpec newNetworksSpec
                             in if length added = 0 then Inr () else validateNetworksExist get added))))"


section \<open>Allocation of identifiers\<close>

lemma allocateNextID_Some:
  "allocateNextID used n = Some (i, used') \<Longrightarrow>
     n \<le> i \<and> i \<le> MaxID \<and> i \<noteq> ReservedMainID \<and> i \<notin> used \<and> used' = insert i used \<and>
     (\<forall>k. n \<le> k \<and> k < i \<longrightarrow> k = ReservedMainID \<or> k \<in> used)"
proof (induction used n rule: allocateNextID.induct)
  case (1 used n)
  show ?case
  proof (cases "n \<le> MaxID \<and> (n = ReservedMainID \<or> n \<in> used)")
    case True
    then have "allocateNextID used (n + 1) = Some (i, used')"
      using "1.prems" by (subst (asm) allocateNextID.simps) (auto split: if_splits)
    with "1.IH" True have "n + 1 \<le> i \<and> i \<le> MaxID \<and> i \<noteq> ReservedMainID \<and> i \<notin> used \<and> used' = insert i used \<and>
        (\<forall>k. n + 1 \<le> k \<and> k < i \<longrightarrow> k = ReservedMainID \<or> k \<in> used)" by blast
    with True show ?thesis by (smt (verit))
  next
    case False
    with "1.prems" show ?thesis by (subst (asm) allocateNextID.simps) (auto split: if_splits)
  qed
qed

lemma allocateNextID_None:
  "allocateNextID used n = None \<Longrightarrow> n \<le> k \<Longrightarrow> k \<le> MaxID \<Longrightarrow> k \<noteq> ReservedMainID \<Longrightarrow> k \<in> used"
proof (induction used n rule: allocateNextID.induct)
  case (1 used n)
  then have skip: "n = ReservedMainID \<or> n \<in> used" "allocateNextID used (n + 1) = None"
    by (subst (asm) (3) allocateNextID.simps, auto split: if_splits)+
  show ?case
  proof (cases "k = n")
    case True
    with skip 1 show ?thesis by auto
  next
    case False
    with skip "1.IH" "1.prems" show ?thesis by (cases "n = ReservedMainID") auto
  qed
qed

definition assigned_ids :: "networks_spec list \<Rightarrow> int list" where
  "assigned_ids ns = List.map_filter net_ID ns"

lemma assigned_ids_simps [simp]:
  "assigned_ids [] = []"
  "assigned_ids (n # ns) = (case net_ID n of None \<Rightarrow> assigned_ids ns | Some i \<Rightarrow> i # assigned_ids ns)"
  by (simp_all add: assigned_ids_def map_filter_simps split: option.split)

text \<open>The result of filling in identifiers: nothing else of a network changes, and no identifier does.\<close>

definition filled_in :: "networks_spec \<Rightarrow> networks_spec \<Rightarrow> bool" where
  "filled_in n n' \<longleftrightarrow> n' = n \<or> net_ID n = None \<and> (\<exists>i. n' = n\<lparr> net_ID := Some i \<rparr>)"

lemma filled_in_refl [simp]: "filled_in n n"
  by (simp add: filled_in_def)

lemma ensure_loop_Cons [simp]:
  "fst (ensure_loop used nextID (n # ns)) =
     (if net_ID n \<noteq> None then n # fst (ensure_loop used nextID ns)
      else if net_Type n = NetworksTypeMain
      then n\<lparr> net_ID := Some ReservedMainID \<rparr> # fst (ensure_loop (insert ReservedMainID used) nextID ns)
      else case allocateNextID used nextID of
             None \<Rightarrow> n # ns
           | Some p \<Rightarrow> n\<lparr> net_ID := Some (fst p) \<rparr> # fst (ensure_loop (snd p) (fst p + 1) ns))"
  by (simp add: split_beta Let_def split: option.split)

declare ensure_loop.simps(2) [simp del]

lemma ensure_loop_filled: "list_all2 filled_in ns (fst (ensure_loop used nextID ns))"
  by (induction ns arbitrary: used nextID)
    (auto simp: filled_in_def list_all2_same split: option.split)

text \<open>Unless the main network needs one: existing identifiers and fresh, distinct ones.\<close>

lemma ensure_loop_ids:
  "list_all (\<lambda>n. net_Type n = NetworksTypeMain \<longrightarrow> net_ID n \<noteq> None) ns \<Longrightarrow> distinct (assigned_ids ns) \<Longrightarrow>
   set (assigned_ids ns) \<subseteq> used \<Longrightarrow> 2 \<le> nextID \<Longrightarrow>
   distinct (assigned_ids (fst (ensure_loop used nextID ns))) \<and>
   set (assigned_ids (fst (ensure_loop used nextID ns))) \<subseteq>
     set (assigned_ids ns) \<union> {i. nextID \<le> i \<and> i \<le> MaxID \<and> i \<notin> used}"
proof (induction ns arbitrary: used nextID)
  case (Cons n ns)
  show ?case
  proof (cases "net_ID n")
    case (Some j)
    then have "set (assigned_ids ns) \<subseteq> used" "distinct (assigned_ids ns)" "j \<in> used" "j \<notin> set (assigned_ids ns)"
      using Cons.prems by auto
    moreover note Cons.IH [OF _ this(2,1) Cons.prems(4)]
    ultimately show ?thesis using Cons.prems(1) Some by auto
  next
    case None
    show ?thesis
    proof (cases "allocateNextID used nextID")
      case None': None
      with None Cons.prems show ?thesis by simp
    next
      case (Some p)
      obtain i used' where p: "p = (i, used')" by (cases p)
      note i = allocateNextID_Some [OF Some [unfolded p]]
      have "distinct (assigned_ids (fst (ensure_loop used' (i + 1) ns))) \<and>
          set (assigned_ids (fst (ensure_loop used' (i + 1) ns))) \<subseteq>
            set (assigned_ids ns) \<union> {k. i + 1 \<le> k \<and> k \<le> MaxID \<and> k \<notin> used'}"
        using None Cons.prems i by (intro Cons.IH) auto
      moreover have "i \<notin> set (assigned_ids ns)" "net_Type n \<noteq> NetworksTypeMain"
        using i Cons.prems None by auto
      moreover have "fst (ensure_loop used nextID (n # ns)) =
          n\<lparr> net_ID := Some i \<rparr> # fst (ensure_loop used' (i + 1) ns)"
        using None Some p calculation(3) by simp
      ultimately show ?thesis
        using i None by (simp only: assigned_ids_simps) force
    qed
  qed
qed simp


abbreviation generic_ids :: "int set" where "generic_ids \<equiv> {StartGenericID..MaxID}"

definition missing :: "networks_spec list \<Rightarrow> nat" where
  "missing ns = length (filter (\<lambda>n. net_ID n = None) ns)"

lemma missing_simps [simp]:
  "missing [] = 0" "missing (n # ns) = (if net_ID n = None then Suc (missing ns) else missing ns)"
  by (simp_all add: missing_def)

lemma ensure_loop_total:
  "list_all (\<lambda>n. net_Type n = NetworksTypeMain \<longrightarrow> net_ID n \<noteq> None) ns \<Longrightarrow>
   {StartGenericID..<nextID} \<subseteq> used \<Longrightarrow> 2 \<le> nextID \<Longrightarrow>
   card (used \<inter> generic_ids) + missing ns \<le> card generic_ids \<Longrightarrow>
   list_all (\<lambda>n. net_ID n \<noteq> None) (fst (ensure_loop used nextID ns))"
proof (induction ns arbitrary: used nextID)
  case (Cons n ns)
  show ?case
  proof (cases "net_ID n")
    case (Some j)
    with Cons show ?thesis by simp
  next
    case None
    show ?thesis
    proof (cases "allocateNextID used nextID")
      case None': None
      have "generic_ids \<subseteq> used"
      proof
        fix k assume "k \<in> generic_ids"
        then show "k \<in> used"
          using allocateNextID_None [OF None', of k] Cons.prems(2) by (cases "k < nextID") auto
      qed
      then have "card (used \<inter> generic_ids) = card generic_ids" by (simp add: Int_absorb1)
      with Cons.prems(4) None show ?thesis by simp
    next
      case (Some p)
      obtain i used' where p: "p = (i, used')" by (cases p)
      note i = allocateNextID_Some [OF Some [unfolded p]]
      have "card (used' \<inter> generic_ids) = Suc (card (used \<inter> generic_ids))"
        using i Cons.prems(3) by (simp add: Int_insert_left)
      moreover have "{StartGenericID..<i + 1} \<subseteq> used'"
      proof
        fix k assume "k \<in> {StartGenericID..<i + 1}"
        moreover have "nextID \<le> k \<and> k < i \<longrightarrow> k = ReservedMainID \<or> k \<in> used" using i by blast
        ultimately show "k \<in> used'" using i Cons.prems(2) by (cases "k < nextID"; cases "k = i") auto
      qed
      ultimately have "list_all (\<lambda>n. net_ID n \<noteq> None) (fst (ensure_loop used' (i + 1) ns))"
        using Cons.prems None i by (intro Cons.IH) auto
      then show ?thesis using None Some p Cons.prems(1) by simp
    qed
  qed
qed simp

text \<open>
  The form of a list of networks the webhook works on: the main network only in first place, the
  identifiers that are given positive, at most \<open>MaxID\<close> and pairwise different, and the reserved
  identifier not taken by another network when the main network still needs it.
\<close>

definition networks_fillable :: "networks_spec list \<Rightarrow> bool" where
  "networks_fillable ns \<longleftrightarrow>
     list_all (\<lambda>n. net_Type n \<noteq> NetworksTypeMain) (tl ns) \<and> distinct (assigned_ids ns) \<and>
     list_all (\<lambda>i. 1 \<le> i \<and> i \<le> MaxID) (assigned_ids ns) \<and>
     (ns \<noteq> [] \<and> net_Type (hd ns) = NetworksTypeMain \<and> net_ID (hd ns) = None \<longrightarrow>
        ReservedMainID \<notin> set (assigned_ids ns)) \<and>
     int (length ns) < MaxID"

lemma used_ids_assigned: "used_ids ns = {i \<in> set (assigned_ids ns). 0 < i}"
  by (induction ns) (auto simp: used_ids_def assigned_ids_def map_filter_simps split: option.splits)

lemma length_assigned: "length (assigned_ids ns) + missing ns = length ns"
  by (induction ns) (auto split: option.splits)

lemma room_for_all:
  assumes "int (length ns) < MaxID"
  shows "card (set (assigned_ids ns) \<inter> generic_ids) + missing ns \<le> card generic_ids"
proof -
  have "card (set (assigned_ids ns) \<inter> generic_ids) \<le> card (set (assigned_ids ns))"
    by (intro card_mono) auto
  also have "\<dots> \<le> length (assigned_ids ns)" by (rule card_length)
  finally show ?thesis using length_assigned [of ns] assms by simp
qed

lemma filled_keeps_ids:
  "list_all2 filled_in ns ns' \<Longrightarrow> list_all2 (\<lambda>n n'. net_ID n \<noteq> None \<longrightarrow> n' = n) ns ns'"
  by (erule list_all2_mono) (auto simp: filled_in_def)

lemma ensure_none_missing:
  "list_all (\<lambda>n. net_ID n \<noteq> None) ns \<Longrightarrow> ensure_loop used nextID ns = (ns, False)"
  by (induction ns) (auto simp: ensure_loop.simps)


lemma ensure_correct:
  assumes "networks_fillable ns" and "ns \<noteq> []"
  shows "let ns' = fst (ensure_loop (used_ids ns) StartGenericID ns) in
    list_all (\<lambda>n. net_ID n \<noteq> None) ns' \<and> distinct (assigned_ids ns') \<and>
    set (assigned_ids ns') \<subseteq> {1..MaxID}"
proof -
  have ids: "distinct (assigned_ids ns)" "set (assigned_ids ns) \<subseteq> {1..MaxID}" and len: "int (length ns) < MaxID"
    using assms(1) by (auto simp: networks_fillable_def list_all_iff)
  then have used: "used_ids ns = set (assigned_ids ns)" by (auto simp: used_ids_assigned)
  note room = room_for_all [OF len]
  obtain m rest where ns: "ns = m # rest" using assms(2) by (cases ns) auto
  have rest: "list_all (\<lambda>n. net_Type n = NetworksTypeMain \<longrightarrow> net_ID n \<noteq> None) rest"
    using assms(1) ns by (simp add: networks_fillable_def list_all_iff)
  show ?thesis
  proof (cases "net_Type m = NetworksTypeMain \<and> net_ID m = None")
    case False
    then have all: "list_all (\<lambda>n. net_Type n = NetworksTypeMain \<longrightarrow> net_ID n \<noteq> None) ns"
      using rest ns by simp
    have "set (assigned_ids (fst (ensure_loop (used_ids ns) StartGenericID ns))) \<subseteq>
        set (assigned_ids ns) \<union> {i. StartGenericID \<le> i \<and> i \<le> MaxID \<and> i \<notin> used_ids ns}"
      and "distinct (assigned_ids (fst (ensure_loop (used_ids ns) StartGenericID ns)))"
      using ensure_loop_ids [OF all ids(1)] used by blast+
    moreover have "list_all (\<lambda>n. net_ID n \<noteq> None) (fst (ensure_loop (used_ids ns) StartGenericID ns))"
      using ensure_loop_total [OF all] room used by simp
    ultimately show ?thesis using ids(2) unfolding Let_def by force
  next
    case True
    let ?used = "insert ReservedMainID (set (assigned_ids ns))"
    let ?rest' = "fst (ensure_loop ?used StartGenericID rest)"
    have eq: "assigned_ids rest = assigned_ids ns" and one: "ReservedMainID \<notin> set (assigned_ids ns)"
      using True assms(1) ns by (auto simp: networks_fillable_def)
    have "set (assigned_ids ?rest') \<subseteq>
        set (assigned_ids rest) \<union> {i. StartGenericID \<le> i \<and> i \<le> MaxID \<and> i \<notin> ?used}"
      and "distinct (assigned_ids ?rest')"
      using ensure_loop_ids [OF rest, of ?used StartGenericID] ids(1) eq by auto
    moreover have "list_all (\<lambda>n. net_ID n \<noteq> None) ?rest'"
      using ensure_loop_total [OF rest, of StartGenericID ?used] room True ns by simp
    moreover have "fst (ensure_loop (used_ids ns) StartGenericID ns) = m\<lparr> net_ID := Some ReservedMainID \<rparr> # ?rest'"
      using True used unfolding ns by simp
    ultimately show ?thesis
      using one eq ids(2) unfolding Let_def by (force simp: MaxID_def)
  qed
qed


section \<open>What the admission check accepts\<close>

definition network_key :: "networks_spec \<Rightarrow> string" where
  "network_key n = net_Type n @ ''/'' @ net_Name n"

definition network_ok :: "networks_spec \<Rightarrow> bool" where
  "network_ok n \<longleftrightarrow>
     (net_Type n = NetworksTypeMain \<longleftrightarrow> net_Name n = '''') \<and>
     (case net_ID n of None \<Rightarrow> True
      | Some i \<Rightarrow> 1 \<le> i \<and> i \<le> MaxID \<and> (net_Type n = NetworksTypeMain \<longrightarrow> i = 1))"

lemma validateNetworksSpec_loop_ok:
  "0 < i \<Longrightarrow> validateNetworksSpec_loop i names ids ns = Inr () \<longleftrightarrow>
     list_all (\<lambda>n. net_Type n \<noteq> NetworksTypeMain \<and> network_ok n) ns \<and>
     distinct (map network_key ns) \<and> set (map network_key ns) \<inter> set names = {} \<and>
     distinct (assigned_ids ns) \<and> set (assigned_ids ns) \<inter> set ids = {}"
proof (induction ns arbitrary: i names ids)
  case (Cons n ns)
  show ?case
  proof (cases "net_Type n \<noteq> NetworksTypeMain \<and> network_ok n \<and> network_key n \<notin> set names")
    case False
    then show ?thesis
      using Cons.prems
      by (auto simp: validateNetworkName_def validateNetworkUniqueness_def network_ok_def network_key_def
          validateNetworkIDUniqueness_def validateNetworkID_def id_or_zero_def Let_def
          split: sum.splits option.splits if_splits)
  next
    case True
    have step: "validateNetworksSpec_loop i names ids (n # ns) =
        (case net_ID n of
           None \<Rightarrow> validateNetworksSpec_loop (Suc i) (network_key n # names) ids ns
         | Some j \<Rightarrow> if j \<in> set ids then Inl (DuplicateID j (getNetworkIdentifier n))
                     else validateNetworksSpec_loop (Suc i) (network_key n # names) (j # ids) ns)"
      using True Cons.prems
      by (auto simp: validateNetworkName_def validateNetworkUniqueness_def network_ok_def network_key_def
          validateNetworkIDUniqueness_def validateNetworkID_def id_or_zero_def Let_def
          split: option.splits)
    show ?thesis unfolding step using True by (auto simp: Cons.IH split: option.splits)
  qed
qed simp

definition networks_valid :: "networks_spec list \<Rightarrow> bool" where
  "networks_valid ns \<longleftrightarrow>
     list_all (\<lambda>n. net_Type n \<noteq> NetworksTypeMain) (tl ns) \<and> list_all network_ok ns \<and>
     distinct (map network_key ns) \<and> distinct (assigned_ids ns)"

lemma validateNetworksSpec_ok: "validateNetworksSpec ns = Inr () \<longleftrightarrow> networks_valid ns"
proof (cases ns)
  case (Cons n rest)
  have step: "validateNetworksSpec_loop 0 [] [] (n # rest) = Inr () \<longleftrightarrow>
      network_ok n \<and>
      validateNetworksSpec_loop 1 [network_key n] (case net_ID n of None \<Rightarrow> [] | Some j \<Rightarrow> [j]) rest = Inr ()"
    by (auto simp: validateNetworkName_def validateNetworkUniqueness_def network_ok_def network_key_def
        validateNetworkIDUniqueness_def validateNetworkID_def id_or_zero_def Let_def
        split: sum.splits option.splits if_splits)
  show ?thesis
    unfolding validateNetworksSpec_def networks_valid_def Cons step
    by (auto simp: validateNetworksSpec_loop_ok list_all_iff split: option.splits)
qed (simp add: validateNetworksSpec_def networks_valid_def)


section \<open>Properties\<close>

lemma ensure_loop_changed: "snd (ensure_loop used nextID ns) \<longleftrightarrow> fst (ensure_loop used nextID ns) \<noteq> ns"
proof (induction ns arbitrary: used nextID)
  case (Cons n ns)
  have "n\<lparr> net_ID := Some i \<rparr> \<noteq> n" if "net_ID n = None" for i
    using that by (metis networks_spec.select_convs(1) networks_spec.surjective networks_spec.update_convs(1)
        option.distinct(1))
  with Cons.IH show ?case
    by (auto simp: ensure_loop.simps split_beta Let_def split: option.split)
qed simp

lemma ensure_filled: "list_all2 filled_in ns (fst (EnsureNetworkInterfaceIDs ns))"
  using ensure_loop_filled [of ns "used_ids ns" StartGenericID] by (simp add: EnsureNetworkInterfaceIDs_def)

lemma ensure_facts:
  assumes "networks_fillable ns"
  shows "list_all (\<lambda>n. net_ID n \<noteq> None) (fst (EnsureNetworkInterfaceIDs ns)) \<and>
    distinct (assigned_ids (fst (EnsureNetworkInterfaceIDs ns))) \<and>
    list_all (\<lambda>i. 1 \<le> i \<and> i \<le> MaxID) (assigned_ids (fst (EnsureNetworkInterfaceIDs ns))) \<and>
    list_all2 filled_in ns (fst (EnsureNetworkInterfaceIDs ns))"
proof (cases "ns = []")
  case False
  then show ?thesis
    using ensure_correct [OF assms False] ensure_filled [of ns]
    by (simp add: EnsureNetworkInterfaceIDs_def Let_def list_all_iff subset_iff)
qed (simp add: EnsureNetworkInterfaceIDs_def)

text \<open>
  Claim C36: filling in the interface identifiers gives every network of a well-formed list one, all
  of them different and between 1 and the maximum; networks that had one, and everything else of the
  others, stay as they are; the result says whether anything changed; and a second run changes nothing.
\<close>

theorem EnsureNetworkInterfaceIDs_correct:
  assumes "networks_fillable ns" and "EnsureNetworkInterfaceIDs ns = (ns', changed)"
  shows "list_all (\<lambda>n. net_ID n \<noteq> None) ns' \<and> distinct (assigned_ids ns') \<and>
    list_all (\<lambda>i. 1 \<le> i \<and> i \<le> MaxID) (assigned_ids ns') \<and> list_all2 filled_in ns ns' \<and>
    (changed \<longleftrightarrow> ns' \<noteq> ns) \<and> EnsureNetworkInterfaceIDs ns' = (ns', False)"
proof -
  have "changed \<longleftrightarrow> ns' \<noteq> ns"
    using assms(2) ensure_loop_changed [of "used_ids ns" StartGenericID ns]
    by (auto simp: EnsureNetworkInterfaceIDs_def split: if_splits)
  with ensure_facts [OF assms(1)] assms(2) show ?thesis
    by (auto simp: EnsureNetworkInterfaceIDs_def ensure_none_missing list_all_iff)
qed

definition example_net :: "int option \<Rightarrow> string \<Rightarrow> string \<Rightarrow> networks_spec" where
  "example_net ident typ name = \<lparr> net_ID = ident, net_Type = typ, net_Name = name, net_MACAddressName = '''',
     net_IPAddressName = '''' \<rparr>"

definition example_nets :: "networks_spec list" where
  "example_nets = [example_net None NetworksTypeMain '''', example_net (Some 2) NetworksTypeNetwork ''a'',
     example_net None NetworksTypeClusterNetwork ''b'']"

theorem EnsureNetworkInterfaceIDs_correct_witness:
  "distinct (assigned_ids (fst (EnsureNetworkInterfaceIDs example_nets))) \<and>
   list_all (\<lambda>n. net_ID n \<noteq> None) (fst (EnsureNetworkInterfaceIDs example_nets))"
proof -
  have "networks_fillable example_nets"
    by (simp add: networks_fillable_def example_nets_def example_net_def MaxID_def)
  from EnsureNetworkInterfaceIDs_correct [OF this, of "fst (EnsureNetworkInterfaceIDs example_nets)"
      "snd (EnsureNetworkInterfaceIDs example_nets)"]
  show ?thesis by simp
qed

text \<open>
  The admission check of the networks accepts a list exactly when the main network, if
  listed, is first and nameless, every other network is named, no network of one type is listed
  twice, and the given identifiers are between 1 and the maximum, pairwise different, and 1 for the
  main network.
\<close>

lemma validateNetworksSpec_exact: "validateNetworksSpec ns = Inr () \<longleftrightarrow> networks_valid ns"
  by (rule validateNetworksSpec_ok)

lemma filled_in_key: "filled_in n n' \<Longrightarrow> net_Type n' = net_Type n \<and> net_Name n' = net_Name n"
  by (auto simp: filled_in_def)

lemma filled_in_keys:
  "list_all2 filled_in ns ns' \<Longrightarrow> map network_key ns' = map network_key ns \<and> map net_Type ns' = map net_Type ns \<and>
     map net_Name ns' = map net_Name ns"
  by (induction rule: list_all2_induct) (auto simp: network_key_def dest: filled_in_key)

lemma filled_autofill_loop: "list_all2 filled_in ns ns' \<Longrightarrow> autofill_loop ns ns'"
  by (induction rule: list_all2_induct) (auto simp: filled_in_def split: option.splits)

text \<open>
  The identifiers the webhook fills in are invisible to change detection: comparing a
  specification with its defaulted form never asks for an action on the networks, and defaulting
  turns the nil list of networks into itself.
\<close>

lemma autofilled_networks_need_no_action:
  "list_all (\<lambda>x. ActionRequired x = ActionNone)
     (compareNetworks spec (spec\<lparr> Networks := map_option (fst \<circ> EnsureNetworkInterfaceIDs) (Networks spec) \<rparr>))"
proof -
  have "isOnlyNetworkIDAutofillChange ns (fst (EnsureNetworkInterfaceIDs ns))" for ns
    using ensure_filled by (metis filled_autofill_loop isOnlyNetworkIDAutofillChange_def list_all2_lengthD)
  then show ?thesis
    by (cases "Networks spec") (auto simp: compareNetworks_def slice_def Let_def change_simps)
qed


lemma ensure_loop_main:
  "n' \<in> set (fst (ensure_loop used nextID ns)) \<Longrightarrow> net_Type n' = NetworksTypeMain \<Longrightarrow>
     n' \<in> set ns \<or> net_ID n' = Some ReservedMainID"
  by (induction ns arbitrary: used nextID) (auto split: option.splits if_splits)

lemma filled_network_ok:
  assumes "filled_in n n'" and "network_ok n" and "net_ID n' = Some i" and "1 \<le> i" "i \<le> MaxID"
    and "net_Type n' = NetworksTypeMain \<longrightarrow> i = 1"
  shows "network_ok n'"
  using assms filled_in_key [OF assms(1)] by (auto simp: network_ok_def)

lemma set_assigned_ids: "set (assigned_ids ns) = {i. \<exists>n \<in> set ns. net_ID n = Some i}"
  by (induction ns) (auto split: option.splits)

lemma ensured_network_ok:
  assumes "networks_fillable ns" and "list_all network_ok ns"
  shows "list_all network_ok (fst (EnsureNetworkInterfaceIDs ns))"
  unfolding list_all_length
proof (intro allI impI)
  let ?ns' = "fst (EnsureNetworkInterfaceIDs ns)"
  fix k assume k: "k < length ?ns'"
  note facts = ensure_facts [OF assms(1)]
  from k facts obtain i where i: "net_ID (?ns' ! k) = Some i" by (auto simp: list_all_length)
  then have "i \<in> set (assigned_ids ?ns')" using k nth_mem by (auto simp: set_assigned_ids)
  then have "1 \<le> i" "i \<le> MaxID" using facts by (auto simp: list_all_iff)
  moreover have "filled_in (ns ! k) (?ns' ! k)" using k facts by (simp add: list_all2_conv_all_nth)
  moreover have "k < length ns" using k facts list_all2_lengthD [OF ensure_filled, of ns] by simp
  then have "network_ok (ns ! k)" using assms(2) by (simp add: list_all_length)
  moreover have "i = 1" if "net_Type (?ns' ! k) = NetworksTypeMain"
  proof -
    have "?ns' ! k \<in> set ns \<or> net_ID (?ns' ! k) = Some ReservedMainID"
      using that k ensure_loop_main [of "?ns' ! k" "used_ids ns" StartGenericID ns]
      by (auto simp: EnsureNetworkInterfaceIDs_def split: if_splits)
    then show "i = 1" using i assms(2) that by (auto simp: list_all_iff network_ok_def)
  qed
  ultimately show "network_ok (?ns' ! k)" using i filled_network_ok by blast
qed

text \<open>
  A list of networks that is valid stays valid when the webhook fills in the identifiers,
  provided that no additional network claims the reserved identifier of a main network that has none.
\<close>

lemma defaulted_networks_admitted:
  assumes "validateNetworksSpec ns = Inr ()" and "int (length ns) < MaxID"
    and "net_Type (hd ns) = NetworksTypeMain \<and> net_ID (hd ns) = None \<longrightarrow> ReservedMainID \<notin> set (assigned_ids ns)"
  shows "validateNetworksSpec (fst (EnsureNetworkInterfaceIDs ns)) = Inr ()"
proof -
  let ?ns' = "fst (EnsureNetworkInterfaceIDs ns)"
  have valid: "networks_valid ns" using assms(1) by (simp add: validateNetworksSpec_ok)
  have "list_all (\<lambda>i. 1 \<le> i \<and> i \<le> MaxID) (assigned_ids ns)"
    using valid by (fastforce simp: networks_valid_def network_ok_def set_assigned_ids list_all_iff)
  then have fill: "networks_fillable ns"
    using valid assms(2,3) by (simp add: networks_fillable_def networks_valid_def)
  note keys = filled_in_keys [OF ensure_filled [of ns]]
  have "list_all network_ok ?ns'" using fill valid by (intro ensured_network_ok) (simp_all add: networks_valid_def)
  moreover have "list_all (\<lambda>n. net_Type n \<noteq> NetworksTypeMain) (tl ?ns')"
  proof -
    have "map net_Type (tl ?ns') = map net_Type (tl ns)" using keys by (metis map_tl)
    moreover have "list_all (\<lambda>t. t \<noteq> NetworksTypeMain) (map net_Type (tl ns))"
      using valid by (simp add: networks_valid_def list_all_iff)
    ultimately have "list_all (\<lambda>t. t \<noteq> NetworksTypeMain) (map net_Type (tl ?ns'))" by simp
    then show ?thesis by (simp add: list_all_iff)
  qed
  ultimately have "networks_valid ?ns'"
    using valid ensure_facts [OF fill] keys by (simp add: networks_valid_def)
  then show ?thesis by (simp add: validateNetworksSpec_ok)
qed

lemma map_of_fold_update:
  "map_of (fold (\<lambda>n m. AList.update (f n) n m) ns m0) k =
     (case List.find (\<lambda>n. f n = k) (rev ns) of None \<Rightarrow> map_of m0 k | Some n \<Rightarrow> Some n)"
proof (induction ns arbitrary: m0)
  case (Cons n ns)
  then show ?case by (auto simp: update_conv split: option.splits)
qed simp

lemma buildNetworksMap_iff:
  assumes "distinct (map getNetworkIdentifier ns)"
  shows "map_of (buildNetworksMap ns) k = Some n \<longleftrightarrow> n \<in> set ns \<and> getNetworkIdentifier n = k"
proof -
  have eq: "map_of (buildNetworksMap ns) k = List.find (\<lambda>n. getNetworkIdentifier n = k) (rev ns)"
    by (simp add: buildNetworksMap_def map_of_fold_update split: option.split)
  have inj: "a = b" if "a \<in> set ns" "b \<in> set ns" "getNetworkIdentifier a = getNetworkIdentifier b" for a b
    using assms that by (auto simp: distinct_map inj_on_def)
  show ?thesis
  proof (cases "List.find (\<lambda>n. getNetworkIdentifier n = k) (rev ns)")
    case None
    then have "\<forall>n \<in> set ns. getNetworkIdentifier n \<noteq> k" by (auto simp: find_None_iff)
    then show ?thesis unfolding eq None by auto
  next
    case (Some m)
    then have "m \<in> set ns" "getNetworkIdentifier m = k" by (auto dest: find_SomeD)
    then show ?thesis unfolding eq Some using inj by auto
  qed
qed

lemma valid_distinct_identifiers:
  assumes "networks_valid ns" shows "distinct (map getNetworkIdentifier ns)"
proof -
  have "network_key a = network_key b"
    if "a \<in> set ns" "b \<in> set ns" "getNetworkIdentifier a = getNetworkIdentifier b" for a b
  proof -
    have slash: "CHR ''/'' \<in> set (getNetworkIdentifier c) \<longleftrightarrow> net_Type c \<noteq> NetworksTypeMain" for c
      by (simp add: getNetworkIdentifier_def)
    have main: "net_Name c = ''''" if "c \<in> set ns" "net_Type c = NetworksTypeMain" for c
      using that assms by (simp add: networks_valid_def network_ok_def list_all_iff)
    show ?thesis
    proof (cases "net_Type a = NetworksTypeMain")
      case True
      then have "net_Type b = NetworksTypeMain" using slash [of a] slash [of b] that(3) by simp
      then show ?thesis using True main that(1,2) by (simp only: network_key_def)
    next
      case False
      then have "net_Type b \<noteq> NetworksTypeMain" using slash [of a] slash [of b] that(3) by simp
      then show ?thesis using False that(3) by (simp only: getNetworkIdentifier_def network_key_def if_False)
    qed
  qed
  moreover have "distinct ns" and "inj_on network_key (set ns)"
    using assms by (simp_all add: networks_valid_def distinct_map)
  ultimately show ?thesis by (metis (no_types, lifting) distinct_map inj_on_def)
qed

text \<open>
  While a virtual machine is not stopped, an update that passes the admission check keeps
  the identifier of every network it keeps: a network with an identifier that is still listed (same
  type and name) is listed with the same identifier.
\<close>

lemma network_ids_immutable_while_running:
  assumes "validateNetworksSpec old = Inr ()" and "validateNetworksSpec new = Inr ()"
    and "validateNetworkIDsUnchanged old new phase = Inr ()" and "phase \<noteq> MachineStopped"
    and "n \<in> set old" and "net_ID n = Some i" and "m \<in> set new"
    and "getNetworkIdentifier m = getNetworkIdentifier n"
  shows "net_ID m = Some i"
proof -
  have dist: "distinct (map getNetworkIdentifier old)" "distinct (map getNetworkIdentifier new)"
    using assms(1,2) by (simp_all add: validateNetworksSpec_ok valid_distinct_identifiers)
  have "(getNetworkIdentifier n, n) \<in> set (buildNetworksMap old)"
    using buildNetworksMap_iff [OF dist(1), of _ n] assms(5) by (intro map_of_SomeD) simp
  moreover have "map_of (buildNetworksMap new) (getNetworkIdentifier n) = Some m"
    using buildNetworksMap_iff [OF dist(2), of _ m] assms(7,8) by simp
  ultimately have "id_or_zero n = id_or_zero m"
    using assms(3,4,6)
    by (fastforce simp: validateNetworkIDsUnchanged_def Let_def find_None_iff split: option.splits prod.splits)
  moreover have "1 \<le> i" using assms(1,5,6) by (auto simp: validateNetworksSpec_ok networks_valid_def
      network_ok_def list_all_iff split: option.splits)
  ultimately show ?thesis using assms(6) by (auto simp: id_or_zero_def split: option.splits)
qed

end
