(* ===== verification/NetworkSpec.thy ===== *)
theory NetworkSpec
  imports NetworkIDs
begin

text \<open>
  From the networks of a specification to the interfaces of the pod (\<^verbatim>\<open>pkg/common/network\<close>:
  \<^verbatim>\<open>mac_pool.go\<close>, \<^verbatim>\<open>spec.go\<close>, \<^verbatim>\<open>types.go\<close>, \<^verbatim>\<open>ipaddress.go\<close>, \<^verbatim>\<open>readiness.go\<close>): MAC addresses are
  assigned, interface specifications created, and interfaces whose IP address is not ready are left
  out.
\<close>

section \<open>mac\_pool.go\<close>

record mac_address_pool =
  reservedByName :: "string \<Rightarrow> string option"
  available :: "string list"

text \<open>The addresses (\<^verbatim>\<open>status.address\<close>) of the MAC address objects are the second argument.\<close>

definition NewMacAddressPool :: "'q virtual_machine \<Rightarrow> string list \<Rightarrow> mac_address_pool" where
  "NewMacAddressPool vm vmmacs =
     (let nets = filter (\<lambda>n. nst_Type n \<noteq> NetworksTypeMain \<and> nst_MAC n \<noteq> '''') (StatusNetworks (vm_Status vm));
          reserved = fold (\<lambda>n m. m(nst_Name n \<mapsto> nst_MAC n)) nets Map.empty;
          takenMacs = map nst_MAC nets
      in \<lparr> reservedByName = reserved,
           available = filter (\<lambda>mac. mac \<noteq> '''' \<and> mac \<notin> set takenMacs) vmmacs \<rparr>)"

definition Assign :: "mac_address_pool \<Rightarrow> string \<Rightarrow> string \<times> mac_address_pool" where
  "Assign p networkName =
     (case reservedByName p networkName of
        Some mac \<Rightarrow> (mac, p)
      | None \<Rightarrow> (case available p of
                   [] \<Rightarrow> ('''', p)
                 | mac # rest \<Rightarrow> (mac, p\<lparr> available := rest \<rparr>)))"

section \<open>types.go and spec.go: interface specifications\<close>

record interface_spec =
  if_ID :: int
  if_Type :: string
  if_Name :: string
  if_InterfaceName :: string
  if_MAC :: string
  if_UID :: int
  if_GID :: int
  if_IPAssignmentMode :: string
  if_IPAddressNames :: "string list"

abbreviation NameDefaultInterface :: string where "NameDefaultInterface \<equiv> ''default''"
abbreviation IPAssignmentModeDHCP :: string where "IPAssignmentModeDHCP \<equiv> ''DHCP''"
abbreviation (input) deckhouseUID :: int where "deckhouseUID \<equiv> 64535"

definition createMainInterfaceSpec :: "networks_spec \<Rightarrow> interface_spec" where
  "createMainInterfaceSpec net =
     \<lparr> if_ID = id_or_zero net, if_Type = net_Type net, if_Name = net_Name net,
       if_InterfaceName = NameDefaultInterface, if_MAC = '''', if_UID = deckhouseUID,
       if_GID = deckhouseUID, if_IPAssignmentMode = '''', if_IPAddressNames = [] \<rparr>"

text \<open>The parameter \<open>md5\<close> gives the hexadecimal MD5 digest of a string.\<close>

definition generateInterfaceName :: "(string \<Rightarrow> string) \<Rightarrow> string \<Rightarrow> string \<Rightarrow> string" where
  "generateInterfaceName md5 macAddress networkType =
     (let hashHex = md5 macAddress
      in if networkType = NetworksTypeNetwork then ''veth_n'' @ take 8 hashHex
         else if networkType = NetworksTypeClusterNetwork then ''veth_cn'' @ take 8 hashHex
         else '''')"

definition createAdditionalInterfaceSpec :: "(string \<Rightarrow> string) \<Rightarrow> networks_spec \<Rightarrow> string \<Rightarrow> interface_spec" where
  "createAdditionalInterfaceSpec md5 net mac =
     \<lparr> if_ID = id_or_zero net, if_Type = net_Type net, if_Name = net_Name net,
       if_InterfaceName = generateInterfaceName md5 mac (net_Type net), if_MAC = mac,
       if_UID = deckhouseUID, if_GID = deckhouseUID, if_IPAssignmentMode = '''',
       if_IPAddressNames = (if net_IPAddressName net \<noteq> '''' then [net_IPAddressName net] else []) \<rparr>"

fun network_spec_loop :: "(string \<Rightarrow> string) \<Rightarrow> mac_address_pool \<Rightarrow> networks_spec list \<Rightarrow> interface_spec list" where
  "network_spec_loop md5 macPool [] = []"
| "network_spec_loop md5 macPool (net # nets) =
     (if net_Type net = NetworksTypeMain
      then createMainInterfaceSpec net # network_spec_loop md5 macPool nets
      else let (mac, macPool') = Assign macPool (net_Name net)
           in if mac \<noteq> '''' then createAdditionalInterfaceSpec md5 net mac # network_spec_loop md5 macPool' nets
              else network_spec_loop md5 macPool' nets)"

definition main_network :: networks_spec where
  "main_network = \<lparr> net_ID = Some ReservedMainID, net_Type = NetworksTypeMain, net_Name = '''',
     net_MACAddressName = '''', net_IPAddressName = '''' \<rparr>"

definition CreateNetworkSpec ::
  "(string \<Rightarrow> string) \<Rightarrow> 'q virtual_machine \<Rightarrow> string list \<Rightarrow> interface_spec list" where
  "CreateNetworkSpec md5 vm vmmacs =
     (let macPool = NewMacAddressPool vm vmmacs
      in if length (slice (Networks (vm_Spec vm))) = 0 then [createMainInterfaceSpec main_network]
         else network_spec_loop md5 macPool (slice (Networks (vm_Spec vm))))"

definition HasOnlyMain :: "interface_spec list \<Rightarrow> bool" where
  "HasOnlyMain s = list_all (\<lambda>spec. if_Type spec = NetworksTypeMain) s"

definition HasMainNetworkStatus :: "network_status list \<Rightarrow> bool" where
  "HasMainNetworkStatus networks = list_ex (\<lambda>network. nst_Type network = NetworksTypeMain) networks"

text \<open>\<^verbatim>\<open>ToString\<close> serializes the interfaces other than the main one; the serializer is a parameter.\<close>

definition InterfaceSpecList_ToString :: "(interface_spec list \<Rightarrow> string) \<Rightarrow> interface_spec list \<Rightarrow> string" where
  "InterfaceSpecList_ToString marshal s = marshal (filter (\<lambda>spec. if_Type spec \<noteq> NetworksTypeMain) s)"

section \<open>readiness.go and ipaddress.go: lookups in the cluster\<close>

text \<open>
  Objects of the network module are read through the API client, a parameter: \<open>get\<close> gives an
  error, nothing, or the object; \<open>list\<close> gives an error or the objects.  An object is represented by
  the fields the code reads from it; a missing field reads as the empty string.  The texts that
  \<^verbatim>\<open>fmt.Errorf\<close> wraps around an error of the client are left out.
\<close>

record sdn_condition =
  sc_Type :: string
  sc_Status :: string
  sc_Reason :: string

record sdn_network =
  sn_PoolRefName :: "string option"
  sn_Conditions :: "sdn_condition list"

record sdn_ip_address =
  ip_Name :: string
  ip_NetworkRefKind :: string
  ip_NetworkRefName :: string
  ip_Address :: string
  ip_Phase :: string
  ip_Conditions :: "sdn_condition list"

record other_vm =
  ovm_Name :: string
  ovm_Networks :: "networks_spec list"

record 'e sdn_client =
  get_network :: "string \<Rightarrow> string \<Rightarrow> string \<Rightarrow> ('e, sdn_network option) result"
  get_ip_address :: "string \<Rightarrow> string \<Rightarrow> ('e, sdn_ip_address option) result"
  list_ip_addresses :: "string \<Rightarrow> string \<Rightarrow> ('e, sdn_ip_address list) result"
  list_vms :: "string \<Rightarrow> ('e, other_vm list) result"

text \<open>\<open>getNetworkObject\<close>: a network is looked up in the namespace, a cluster network without one.\<close>

definition getNetworkObject :: "'e sdn_client \<Rightarrow> string \<Rightarrow> networks_spec \<Rightarrow> ('e, sdn_network option) result" where
  "getNetworkObject c namespace netSpec =
     (if net_Type netSpec = NetworksTypeClusterNetwork then get_network c (net_Type netSpec) '''' (net_Name netSpec)
      else if net_Type netSpec = NetworksTypeNetwork then get_network c (net_Type netSpec) namespace (net_Name netSpec)
      else Inr None)"

definition isReadyTrue :: "sdn_network \<Rightarrow> bool" where
  "isReadyTrue obj =
     (case List.find (\<lambda>c. sc_Type c = ''Ready'') (sn_Conditions obj) of
        None \<Rightarrow> False
      | Some c \<Rightarrow> sc_Status c = ConditionTrue)"

definition IsNetworkSpecReady :: "'e sdn_client \<Rightarrow> string \<Rightarrow> networks_spec \<Rightarrow> ('e, bool) result" where
  "IsNetworkSpecReady c namespace netSpec =
     (if net_Type netSpec = NetworksTypeMain then Inr True
      else case getNetworkObject c namespace netSpec of
             Inl err \<Rightarrow> Inl err
           | Inr None \<Rightarrow> Inr False
           | Inr (Some obj) \<Rightarrow> Inr (isReadyTrue obj))"

definition hasIPAddressPoolRef :: "sdn_network \<Rightarrow> bool" where
  "hasIPAddressPoolRef obj = (case sn_PoolRefName obj of None \<Rightarrow> False | Some name \<Rightarrow> name \<noteq> '''')"

definition HasIPAM :: "'e sdn_client \<Rightarrow> string \<Rightarrow> networks_spec \<Rightarrow> ('e, bool) result" where
  "HasIPAM c namespace netSpec =
     (if net_Type netSpec = NetworksTypeMain then Inr False
      else case getNetworkObject c namespace netSpec of
             Inl err \<Rightarrow> Inl err
           | Inr None \<Rightarrow> Inr False
           | Inr (Some obj) \<Rightarrow> Inr (hasIPAddressPoolRef obj))"

definition FindSDNIPAddress :: "'e sdn_client \<Rightarrow> 'q virtual_machine \<Rightarrow> networks_spec \<Rightarrow> ('e, string) result" where
  "FindSDNIPAddress c vm netSpec =
     (if net_Type netSpec = NetworksTypeMain then Inr ''''
      else case list_ip_addresses c (vm_Namespace vm) (vm_UID vm) of
             Inl err \<Rightarrow> Inl err
           | Inr items \<Rightarrow>
               (case List.find (\<lambda>item. ip_NetworkRefKind item = net_Type netSpec \<and>
                                       ip_NetworkRefName item = net_Name netSpec) items of
                  None \<Rightarrow> Inr ''''
                | Some item \<Rightarrow> Inr (ip_Name item)))"

record sdn_ip_status =
  is_Name :: string
  is_Address :: string
  is_Phase :: string
  is_NoFreeAddress :: bool
  is_Allocated :: bool

text \<open>Only the first condition of type \<^verbatim>\<open>Allocated\<close> counts: the loop stops there.\<close>

definition GetSDNIPAddressStatus ::
  "'e sdn_client \<Rightarrow> string \<Rightarrow> string \<Rightarrow> ('e, sdn_ip_status option) result" where
  "GetSDNIPAddressStatus c namespace name =
     (case get_ip_address c namespace name of
        Inl err \<Rightarrow> Inl err
      | Inr None \<Rightarrow> Inr None
      | Inr (Some obj) \<Rightarrow>
          (let cond = List.find (\<lambda>m. sc_Type m = ''Allocated'') (ip_Conditions obj)
           in Inr (Some \<lparr> is_Name = name, is_Address = ip_Address obj, is_Phase = ip_Phase obj,
                is_NoFreeAddress = (case cond of None \<Rightarrow> False | Some m \<Rightarrow> sc_Reason m = ''NoFreeIPAddress''),
                is_Allocated = (case cond of None \<Rightarrow> False | Some m \<Rightarrow> sc_Status m = ConditionTrue) \<rparr>)))"

definition SDNIPAddressExists ::
  "'e sdn_client \<Rightarrow> string \<Rightarrow> string \<Rightarrow> string \<Rightarrow> string \<Rightarrow> ('e, bool) result" where
  "SDNIPAddressExists c namespace name networkKind networkName =
     (case get_ip_address c namespace name of
        Inl err \<Rightarrow> Inl err
      | Inr None \<Rightarrow> Inr False
      | Inr (Some obj) \<Rightarrow> Inr (ip_NetworkRefKind obj = networkKind \<and> ip_NetworkRefName obj = networkName))"

definition IsIPAddressNameUsedByAnotherVM ::
  "'e sdn_client \<Rightarrow> 'q virtual_machine \<Rightarrow> string \<Rightarrow> networks_spec \<Rightarrow> ('e, string) result" where
  "IsIPAddressNameUsedByAnotherVM c vm ipAddressName netSpec =
     (case list_vms c (vm_Namespace vm) of
        Inl err \<Rightarrow> Inl err
      | Inr vms \<Rightarrow>
          (case List.find (\<lambda>other. ovm_Name other \<noteq> vm_Name vm \<and>
                   list_ex (\<lambda>net. net_IPAddressName net = ipAddressName \<and> net_Type net = net_Type netSpec \<and>
                                  net_Name net = net_Name netSpec) (ovm_Networks other)) vms of
             None \<Rightarrow> Inr ''''
           | Some other \<Rightarrow> Inr (ovm_Name other)))"


section \<open>types.go: which interfaces are provisioned\<close>

text \<open>\<^verbatim>\<open>if err != nil || cond { return false, err }\<close> on the result of a lookup.\<close>

definition and_then :: "('e, 'a) result \<Rightarrow> ('a \<Rightarrow> ('e, 'b) result) \<Rightarrow> ('e, 'b) result" where
  "and_then r f = (case r of Inl err \<Rightarrow> Inl err | Inr x \<Rightarrow> f x)"

lemma and_then_simps [simp]: "and_then (Inl e) f = Inl e" "and_then (Inr x) f = f x"
  by (simp_all add: and_then_def)

definition allocated :: "sdn_ip_status option \<Rightarrow> bool" where
  "allocated status = (case status of None \<Rightarrow> False | Some s \<Rightarrow> is_Allocated s)"

definition WillProvisionInterface ::
  "'e sdn_client \<Rightarrow> string \<Rightarrow> 'q virtual_machine \<Rightarrow> networks_spec \<Rightarrow> ('e, bool) result" where
  "WillProvisionInterface c namespace vm netSpec =
     (if net_Type netSpec = NetworksTypeMain then Inr False
      else and_then (HasIPAM c namespace netSpec) (\<lambda>hasPool.
        if \<not> hasPool then Inr (net_IPAddressName netSpec = '''')
        else if net_IPAddressName netSpec \<noteq> '''' then
          and_then (SDNIPAddressExists c namespace (net_IPAddressName netSpec) (net_Type netSpec) (net_Name netSpec))
            (\<lambda>exists. if \<not> exists then Inr False
             else and_then (GetSDNIPAddressStatus c namespace (net_IPAddressName netSpec)) (\<lambda>status.
               if \<not> allocated status then Inr False
               else and_then (IsIPAddressNameUsedByAnotherVM c vm (net_IPAddressName netSpec) netSpec)
                 (\<lambda>conflictVM. Inr (conflictVM = ''''))))
        else
          and_then (FindSDNIPAddress c vm netSpec) (\<lambda>name.
            if name = '''' then Inr False
            else and_then (GetSDNIPAddressStatus c namespace name) (\<lambda>status. Inr (allocated status)))))"

text \<open>
  The body of the loop for one interface: an error, nothing when the interface is skipped, or the
  interface to append.  The network of an interface is rebuilt from its type and name.
\<close>

definition network_of :: "interface_spec \<Rightarrow> networks_spec" where
  "network_of spec = \<lparr> net_ID = None, net_Type = if_Type spec, net_Name = if_Name spec,
     net_MACAddressName = '''', net_IPAddressName = '''' \<rparr>"

definition enrich_interface ::
  "'e sdn_client \<Rightarrow> string \<Rightarrow> 'q virtual_machine \<Rightarrow> interface_spec \<Rightarrow> ('e, interface_spec option) result" where
  "enrich_interface c namespace vm spec =
     (if if_Type spec = NetworksTypeMain then Inr (Some spec)
      else and_then (HasIPAM c namespace (network_of spec)) (\<lambda>hasPool.
        if \<not> hasPool then
          (if length (if_IPAddressNames spec) > 0 then Inr None
           else Inr (Some (spec\<lparr> if_IPAddressNames := [] \<rparr>)))
        else case if_IPAddressNames spec of
          ipName # _ \<Rightarrow>
            and_then (SDNIPAddressExists c namespace ipName (if_Type spec) (if_Name spec)) (\<lambda>exists.
              if \<not> exists then Inr None
              else and_then (GetSDNIPAddressStatus c namespace ipName) (\<lambda>status.
                if \<not> allocated status then Inr None
                else and_then (IsIPAddressNameUsedByAnotherVM c vm ipName (network_of spec)) (\<lambda>conflictVM.
                  if conflictVM \<noteq> '''' then Inr None
                  else Inr (Some (spec\<lparr> if_IPAssignmentMode := IPAssignmentModeDHCP \<rparr>)))))
        | [] \<Rightarrow>
            and_then (FindSDNIPAddress c vm (network_of spec)) (\<lambda>name.
              if name = '''' then Inr None
              else and_then (GetSDNIPAddressStatus c namespace name) (\<lambda>status.
                if \<not> allocated status then Inr None
                else Inr (Some (spec\<lparr> if_IPAddressNames := [name],
                                      if_IPAssignmentMode := IPAssignmentModeDHCP \<rparr>))))))"

fun EnrichWithIPAM ::
  "'e sdn_client \<Rightarrow> string \<Rightarrow> 'q virtual_machine \<Rightarrow> interface_spec list \<Rightarrow> ('e, interface_spec list) result" where
  "EnrichWithIPAM c namespace vm [] = Inr []"
| "EnrichWithIPAM c namespace vm (spec # specs) =
     and_then (enrich_interface c namespace vm spec) (\<lambda>r.
       and_then (EnrichWithIPAM c namespace vm specs) (\<lambda>rest.
         Inr (case r of None \<Rightarrow> rest | Some spec' \<Rightarrow> spec' # rest)))"

section \<open>Properties of MAC assignment\<close>

text \<open>The MAC addresses of additional interfaces.\<close>

definition additional_macs :: "interface_spec list \<Rightarrow> string list" where
  "additional_macs specs = map if_MAC (filter (\<lambda>s. if_Type s \<noteq> NetworksTypeMain) specs)"

text \<open>What a pool promises: a reserved address is neither available nor reserved twice.\<close>

definition pool_inv :: "mac_address_pool \<Rightarrow> bool" where
  "pool_inv p \<longleftrightarrow> inj_on (reservedByName p) (dom (reservedByName p)) \<and> distinct (available p) \<and>
     ran (reservedByName p) \<inter> set (available p) = {} \<and> '''' \<notin> ran (reservedByName p) \<union> set (available p)"

lemma fold_reserved:
  "fold (\<lambda>n m. m(nst_Name n \<mapsto> nst_MAC n)) nets m0 k =
     (case List.find (\<lambda>n. nst_Name n = k) (rev nets) of None \<Rightarrow> m0 k | Some n \<Rightarrow> Some (nst_MAC n))"
proof (induction nets arbitrary: m0)
  case (Cons n nets)
  then show ?case by (auto split: option.splits)
qed simp

lemma NewMacAddressPool_inv:
  assumes "distinct (map nst_MAC (filter (\<lambda>n. nst_Type n \<noteq> NetworksTypeMain \<and> nst_MAC n \<noteq> '''')
      (StatusNetworks (vm_Status vm))))" and "distinct vmmacs"
  shows "pool_inv (NewMacAddressPool vm vmmacs)"
proof -
  let ?nets = "filter (\<lambda>n. nst_Type n \<noteq> NetworksTypeMain \<and> nst_MAC n \<noteq> '''') (StatusNetworks (vm_Status vm))"
  let ?r = "reservedByName (NewMacAddressPool vm vmmacs)"
  have r: "?r k = Some mac \<Longrightarrow> \<exists>n \<in> set ?nets. nst_Name n = k \<and> nst_MAC n = mac" for k mac
    by (auto simp: NewMacAddressPool_def Let_def fold_reserved split: option.splits dest!: find_SomeD)
  have inj: "n = m" if "n \<in> set ?nets" "m \<in> set ?nets" "nst_MAC n = nst_MAC m" for n m
    using assms(1) that by (auto simp: distinct_map inj_on_def)
  have "inj_on ?r (dom ?r)"
  proof (rule inj_onI)
    fix k l assume "k \<in> dom ?r" "l \<in> dom ?r" and eq: "?r k = ?r l"
    then obtain mac where "?r k = Some mac" "?r l = Some mac" by auto
    with r [of k mac] r [of l mac] inj show "k = l" by blast
  qed
  moreover have "ran ?r \<inter> set (available (NewMacAddressPool vm vmmacs)) = {}"
    using r by (fastforce simp: ran_def NewMacAddressPool_def Let_def)
  moreover have "'''' \<notin> ran ?r" using r by (fastforce simp: ran_def)
  ultimately show ?thesis
    using assms(2) by (auto simp: pool_inv_def NewMacAddressPool_def Let_def)
qed


definition additional_names :: "networks_spec list \<Rightarrow> string list" where
  "additional_names nets = map net_Name (filter (\<lambda>n. net_Type n \<noteq> NetworksTypeMain) nets)"

lemma additional_macs_simps [simp]:
  "additional_macs [] = []"
  "additional_macs (createMainInterfaceSpec n # specs) =
     (if net_Type n = NetworksTypeMain then additional_macs specs else '''' # additional_macs specs)"
  "additional_macs (createAdditionalInterfaceSpec md5 n mac # specs) =
     (if net_Type n = NetworksTypeMain then additional_macs specs else mac # additional_macs specs)"
  by (simp_all add: additional_macs_def createMainInterfaceSpec_def createAdditionalInterfaceSpec_def)

lemma network_spec_loop_macs:
  "pool_inv p \<Longrightarrow> distinct (additional_names nets) \<Longrightarrow>
     distinct (additional_macs (network_spec_loop md5 p nets)) \<and>
     set (additional_macs (network_spec_loop md5 p nets)) \<subseteq>
       Option.these (reservedByName p ` set (additional_names nets)) \<union> set (available p)"
proof (induction nets arbitrary: p)
  case (Cons net nets)
  show ?case
  proof (cases "net_Type net = NetworksTypeMain")
    case True
    with Cons show ?thesis by (simp add: additional_names_def)
  next
    case main: False
    have names: "additional_names (net # nets) = net_Name net # additional_names nets"
      using main by (simp add: additional_names_def)
    then have dist: "distinct (additional_names nets)" "net_Name net \<notin> set (additional_names nets)"
      using Cons.prems(2) by simp_all
    show ?thesis
    proof (cases "reservedByName p (net_Name net)")
      case (Some mac)
      then have mac: "mac \<noteq> ''''" "mac \<notin> set (available p)"
        using Cons.prems(1) by (auto simp: pool_inv_def ran_def)
      have "mac \<notin> Option.these (reservedByName p ` set (additional_names nets))"
        using Some dist(2) Cons.prems(1) by (force simp: pool_inv_def inj_on_def in_these_eq)
      with Cons.IH [OF Cons.prems(1) dist(1)] mac Some main names show ?thesis
        by (auto simp: Assign_def in_these_eq)
    next
      case None
      show ?thesis
      proof (cases "available p")
        case Nil
        with Cons.IH [OF Cons.prems(1) dist(1)] None main names show ?thesis
          by (auto simp: Assign_def in_these_eq)
      next
        case avail: (Cons mac rest)
        let ?p = "p\<lparr> available := rest \<rparr>"
        have inv: "pool_inv ?p" and mac: "mac \<noteq> ''''" "mac \<notin> set rest" "mac \<notin> ran (reservedByName p)"
          using Cons.prems(1) avail by (auto simp: pool_inv_def)
        have "mac \<notin> Option.these (reservedByName p ` set (additional_names nets))"
          using mac(3) by (force simp: ran_def in_these_eq)
        with Cons.IH [OF inv dist(1)] mac avail None main names show ?thesis
          by (auto simp: Assign_def in_these_eq)
      qed
    qed
  qed
qed (simp add: additional_names_def)

section \<open>Properties\<close>

text \<open>
  When the additional networks of a virtual machine have pairwise different names and its
  status and its MAC address objects hold no address twice, the interfaces created for them have
  pairwise different MAC addresses.
\<close>

lemma CreateNetworkSpec_distinct_macs:
  assumes "distinct (additional_names (slice (Networks (vm_Spec vm))))"
    and "distinct (map nst_MAC (filter (\<lambda>n. nst_Type n \<noteq> NetworksTypeMain \<and> nst_MAC n \<noteq> '''')
      (StatusNetworks (vm_Status vm))))"
    and "distinct vmmacs"
  shows "distinct (additional_macs (CreateNetworkSpec md5 vm vmmacs))"
proof (cases "slice (Networks (vm_Spec vm)) = []")
  case True
  then show ?thesis by (simp add: CreateNetworkSpec_def main_network_def)
next
  case False
  with network_spec_loop_macs [OF NewMacAddressPool_inv [OF assms(2,3)] assms(1)] show ?thesis
    by (simp add: CreateNetworkSpec_def Let_def)
qed

definition example_networked_vm :: "networks_spec list \<Rightarrow> network_status list \<Rightarrow> int virtual_machine" where
  "example_networked_vm nets status =
     example_vm\<lparr> vm_Spec := example_spec\<lparr> Networks := Some nets \<rparr>,
                 vm_Status := example_status\<lparr> StatusNetworks := status \<rparr> \<rparr>"

definition example_nst :: "string \<Rightarrow> string \<Rightarrow> string \<Rightarrow> network_status" where
  "example_nst typ name mac = \<lparr> nst_Type = typ, nst_Name = name, nst_MAC = mac \<rparr>"

text \<open>
  Addresses are reserved by the name of a network alone.  A list of networks with a network
  and a cluster network of one name passes the admission check, but once the status records an
  address for one of them both interfaces are given that same address, although another one is
  available.
\<close>

lemma same_name_networks_share_mac:
  "let nets = [example_net (Some 2) NetworksTypeNetwork ''net'', example_net (Some 3) NetworksTypeClusterNetwork ''net''];
       vm = example_networked_vm nets [example_nst NetworksTypeNetwork ''net'' ''m1'']
   in validateNetworksSpec nets = Inr () \<and>
      additional_macs (CreateNetworkSpec md5 vm [''m1'', ''m2'']) = [''m1'', ''m1'']"
  by (simp add: validateNetworksSpec_ok networks_valid_def network_ok_def network_key_def MaxID_def
      CreateNetworkSpec_def NewMacAddressPool_def Assign_def example_networked_vm_def example_net_def
      example_nst_def example_vm_def slice_def Let_def)

lemma enrich_matches_provision:
  assumes "net_Type net \<noteq> NetworksTypeMain"
  shows "map_sum id (\<lambda>r. r \<noteq> None) (enrich_interface c namespace vm (createAdditionalInterfaceSpec md5 net mac)) =
    WillProvisionInterface c namespace vm net"
proof -
  let ?s = "createAdditionalInterfaceSpec md5 net mac"
  have ty: "if_Type ?s = net_Type net" "if_Name ?s = net_Name net"
    "net_Type (network_of ?s) = net_Type net" "net_Name (network_of ?s) = net_Name net"
    by (simp_all add: createAdditionalInterfaceSpec_def network_of_def)
  have same: "HasIPAM c namespace (network_of ?s) = HasIPAM c namespace net"
    "FindSDNIPAddress c vm (network_of ?s) = FindSDNIPAddress c vm net"
    "IsIPAddressNameUsedByAnotherVM c vm ip (network_of ?s) = IsIPAddressNameUsedByAnotherVM c vm ip net" for ip
    unfolding HasIPAM_def getNetworkObject_def FindSDNIPAddress_def IsIPAddressNameUsedByAnotherVM_def ty
    by (rule refl)+
  have names: "if_IPAddressNames ?s = (if net_IPAddressName net \<noteq> '''' then [net_IPAddressName net] else [])"
    by (simp add: createAdditionalInterfaceSpec_def)
  show ?thesis
    unfolding enrich_interface_def WillProvisionInterface_def ty same names
    using assms by (auto simp: and_then_def split: sum.split)
qed

lemma enrich_keeps_mac: "enrich_interface c namespace vm spec = Inr (Some s) \<Longrightarrow> if_MAC s = if_MAC spec"
  by (auto simp: enrich_interface_def and_then_def split: sum.splits if_splits list.splits)

text \<open>
  Claim C40: the two copies of the provisioning rules agree.  For interfaces created from additional
  networks, the enrichment with IP addresses fails exactly with the first error the prediction gives,
  and otherwise keeps, in order, exactly the interfaces that are predicted to be provisioned.
\<close>

theorem EnrichWithIPAM_matches_WillProvision:
  assumes "list_all (\<lambda>(net, mac). net_Type net \<noteq> NetworksTypeMain) pairs"
  shows "map_sum id (map if_MAC)
      (EnrichWithIPAM c namespace vm (map (\<lambda>(net, mac). createAdditionalInterfaceSpec md5 net mac) pairs)) =
    (case List.find (\<lambda>(net, mac). isl (WillProvisionInterface c namespace vm net)) pairs of
       Some (net, mac) \<Rightarrow> Inl (projl (WillProvisionInterface c namespace vm net))
     | None \<Rightarrow> Inr (map snd (filter (\<lambda>(net, mac). WillProvisionInterface c namespace vm net = Inr True) pairs)))"
  using assms
proof (induction pairs)
  case (Cons p pairs)
  obtain net mac where p: "p = (net, mac)" by (cases p)
  have "net_Type net \<noteq> NetworksTypeMain" using Cons.prems p by simp
  from enrich_matches_provision [OF this, of c namespace vm md5 mac]
  have will: "WillProvisionInterface c namespace vm net =
      map_sum id (\<lambda>r. r \<noteq> None) (enrich_interface c namespace vm (createAdditionalInterfaceSpec md5 net mac))" by simp
  have mac: "if_MAC s = mac"
    if "enrich_interface c namespace vm (createAdditionalInterfaceSpec md5 net mac) = Inr (Some s)" for s
    using that enrich_keeps_mac [OF that] by (simp add: createAdditionalInterfaceSpec_def)
  show ?case
  proof (cases "enrich_interface c namespace vm (createAdditionalInterfaceSpec md5 net mac)")
    case (Inl e)
    then show ?thesis using p will by simp
  next
    case (Inr r)
    then show ?thesis
      using Cons p will mac
      by (cases "EnrichWithIPAM c namespace vm (map (\<lambda>(net, mac). createAdditionalInterfaceSpec md5 net mac) pairs)";
          cases r) (auto split: option.splits)
  qed
qed simp


definition example_client :: "string sdn_client" where
  "example_client = \<lparr> get_network = (\<lambda>_ _ _. Inr None), get_ip_address = (\<lambda>_ _. Inr None),
     list_ip_addresses = (\<lambda>_ _. Inr []), list_vms = (\<lambda>_. Inr []) \<rparr>"

theorem EnrichWithIPAM_matches_WillProvision_witness:
  "map_sum id (map if_MAC) (EnrichWithIPAM example_client ''default'' example_vm
     (map (\<lambda>(net, mac). createAdditionalInterfaceSpec id net mac)
        [(example_net (Some 2) NetworksTypeNetwork ''a'', ''m1'')])) = Inr [''m1'']"
proof -
  have "WillProvisionInterface example_client ''default'' example_vm (example_net (Some 2) NetworksTypeNetwork ''a'')
      = Inr True"
    by (simp add: WillProvisionInterface_def HasIPAM_def getNetworkObject_def example_client_def example_net_def)
  then show ?thesis
    by (subst EnrichWithIPAM_matches_WillProvision) (simp_all add: example_net_def)
qed

end
