(* ===== verification/PowerState.thy ===== *)
theory PowerState
  imports VMTopology
begin

text \<open>
  Power operations on the internal virtual machine (\<^verbatim>\<open>pkg/controller/powerstate\<close>:
  \<^verbatim>\<open>kvvm_request.go\<close>, \<^verbatim>\<open>operations.go\<close>, \<^verbatim>\<open>shutdown_reason.go\<close>; \<^verbatim>\<open>pkg/common/kvvm/kvvm.go\<close>): the
  requests written to the status of the internal machine (KVVM), the pod of an instance (KVVMI) and
  the reason it stopped.
\<close>

section \<open>Internal objects\<close>

record state_change_request =
  scr_Action :: string
  scr_UID :: "string option"

abbreviation StartRequest :: string where "StartRequest \<equiv> ''Start''"
abbreviation StopRequest :: string where "StopRequest \<equiv> ''Stop''"

text \<open>
  \<open>kvvm_OtherStatus\<close> holds the status fields the code does not look at, \<open>None\<close> when they are all
  zero; so a status is empty when it has no requests, no start failure and no other field.
\<close>

record kvvm =
  kvvm_Annotations :: "string \<Rightarrow> string option"
  kvvm_RunStrategy :: "string option"
  kvvm_StateChangeRequests :: "state_change_request list"
  kvvm_StartFailure :: bool
  kvvm_OtherStatus :: "k8s_object option"

record kvvmi =
  kvvmi_UID :: string
  kvvmi_Phase :: string
  kvvmi_Deleting :: bool
  kvvmi_NodeName :: string
  kvvmi_ActivePods :: "string list"
  kvvmi_Created :: int

abbreviation Succeeded :: string where "Succeeded \<equiv> ''Succeeded''"
abbreviation Failed :: string where "Failed \<equiv> ''Failed''"
abbreviation Running :: string where "Running \<equiv> ''Running''"

record container_status =
  cs_Name :: string
  cs_LastTermination :: "string option"
  cs_Termination :: "string option"

record pod =
  pod_Name :: string
  pod_UID :: string
  pod_NodeName :: string
  pod_Phase :: string
  pod_Created :: int
  pod_Deleting :: bool
  pod_Containers :: "container_status list"

section \<open>kvvm\_request.go\<close>

text \<open>The operations of a JSON patch that the two builders emit.\<close>

datatype patch_op =
    AddStatus "state_change_request list"
  | AddRequests "state_change_request list"
  | ReplaceRequests "state_change_request list"
  | RemoveStartFailure

datatype patch_error = ErrChangesAlreadyExist | ErrAlreadyUnderway

definition status_empty :: "kvvm \<Rightarrow> bool" where
  "status_empty vm \<longleftrightarrow>
     kvvm_StateChangeRequests vm = [] \<and> \<not> kvvm_StartFailure vm \<and> kvvm_OtherStatus vm = None"

definition BuildPatch :: "kvvm \<Rightarrow> state_change_request list \<Rightarrow> (patch_error, patch_op list) result" where
  "BuildPatch vm requests =
     (let tail = (if kvvm_StartFailure vm then [RemoveStartFailure] else [])
      in if status_empty vm then Inr (AddStatus requests # tail)
         else
           let failOnConflict = \<not> (length requests = 1 \<and> scr_Action (requests ! 0) = StopRequest)
           in if length (kvvm_StateChangeRequests vm) \<noteq> 0 then
                if kvvm_StateChangeRequests vm = requests then Inl ErrChangesAlreadyExist
                else if failOnConflict then Inl ErrAlreadyUnderway
                else Inr (ReplaceRequests requests # tail)
              else Inr (AddRequests requests # tail))"

definition restartRequest :: "kvvmi \<Rightarrow> state_change_request list" where
  "restartRequest kvvmi =
     [\<lparr> scr_Action = StopRequest, scr_UID = Some (kvvmi_UID kvvmi) \<rparr>,
      \<lparr> scr_Action = StartRequest, scr_UID = None \<rparr>]"

text \<open>\<open>None\<close> is the nil patch: there is a request already.\<close>

definition BuildPatchSafeRestart :: "kvvm \<Rightarrow> kvvmi \<Rightarrow> patch_op list option" where
  "BuildPatchSafeRestart kvvm kvvmi =
     (if length (kvvm_StateChangeRequests kvvm) > 0 then None
      else if status_empty kvvm then Some [AddStatus (restartRequest kvvmi)]
      else Some [AddRequests (restartRequest kvvmi)])"

text \<open>
  What the API server does with the operations (RFC 6902): adding a member sets it, whether or not it
  exists; replacing or removing one that does not exist fails.
\<close>

definition apply_op :: "patch_op \<Rightarrow> kvvm \<Rightarrow> kvvm option" where
  "apply_op op vm =
     (case op of
        AddStatus rs \<Rightarrow> Some (vm\<lparr> kvvm_StateChangeRequests := rs, kvvm_StartFailure := False, kvvm_OtherStatus := None \<rparr>)
      | AddRequests rs \<Rightarrow> if status_empty vm then None else Some (vm\<lparr> kvvm_StateChangeRequests := rs \<rparr>)
      | ReplaceRequests rs \<Rightarrow>
          if kvvm_StateChangeRequests vm = [] then None else Some (vm\<lparr> kvvm_StateChangeRequests := rs \<rparr>)
      | RemoveStartFailure \<Rightarrow>
          if kvvm_StartFailure vm then Some (vm\<lparr> kvvm_StartFailure := False \<rparr>) else None)"

fun apply_patch :: "patch_op list \<Rightarrow> kvvm \<Rightarrow> kvvm option" where
  "apply_patch [] vm = Some vm"
| "apply_patch (op # ops) vm = Option.bind (apply_op op vm) (apply_patch ops)"

section \<open>kvvm.go\<close>

abbreviation (input) RunStrategyUnknown :: string where "RunStrategyUnknown \<equiv> ''''"
abbreviation RunStrategyManual :: string where "RunStrategyManual \<equiv> ''Manual''"
abbreviation RunStrategyAlways :: string where "RunStrategyAlways \<equiv> ''Always''"

definition GetRunStrategy :: "kvvm option \<Rightarrow> string" where
  "GetRunStrategy kvvm =
     (case kvvm of
        None \<Rightarrow> RunStrategyUnknown
      | Some vm \<Rightarrow> (case kvvm_RunStrategy vm of None \<Rightarrow> RunStrategyUnknown | Some s \<Rightarrow> s))"

definition kvvmiCompleted :: "kvvmi \<Rightarrow> bool" where
  "kvvmiCompleted kvvmi \<longleftrightarrow> kvvmi_Phase kvvmi = Succeeded \<or> kvvmi_Phase kvvmi = Failed"

text \<open>The order of pods with one creation time is unspecified in Go; the stable sort picks one.\<close>

definition GetVMPod :: "kvvmi option \<Rightarrow> pod list \<Rightarrow> pod option" where
  "GetVMPod kvvmi podList =
     (case kvvmi of
        None \<Rightarrow> None
      | Some vmi \<Rightarrow>
          (let nodeName = kvvmi_NodeName vmi;
               pods = filter (\<lambda>pod.
                 (kvvmiCompleted vmi \<and> nodeName = '''' \<or> nodeName = pod_NodeName pod) \<and>
                 pod_UID pod \<in> set (kvvmi_ActivePods vmi)) podList
           in case pods of
                [] \<Rightarrow> None
              | [p] \<Rightarrow> Some p
              | _ \<Rightarrow>
                  (let sorted = sort_key pod_Created pods
                   in case List.find (\<lambda>pod. pod_Phase pod = Running) sorted of
                        Some p \<Rightarrow> Some p
                      | None \<Rightarrow> Some (sorted ! 0))))"

section \<open>shutdown\_reason.go\<close>

abbreviation GuestResetReason :: string where "GuestResetReason \<equiv> ''guest-reset''"
abbreviation GuestShutdownReason :: string where "GuestShutdownReason \<equiv> ''guest-shutdown''"

record shutdown_info =
  si_Reason :: string
  si_PodCompleted :: bool
  si_Pod :: "pod option"

definition no_shutdown_info :: shutdown_info where
  "no_shutdown_info = \<lparr> si_Reason = '''', si_PodCompleted = False, si_Pod = None \<rparr>"

definition podCompleted :: "pod \<Rightarrow> bool" where
  "podCompleted pod \<longleftrightarrow> pod_Phase pod = Succeeded \<or> pod_Phase pod = Failed"

definition getActivePod :: "'q virtual_machine \<Rightarrow> pod list \<Rightarrow> pod option" where
  "getActivePod vm kvPods =
     (case GetActivePodName vm of
        None \<Rightarrow> None
      | Some activePodName \<Rightarrow> List.find (\<lambda>pod. pod_Name pod = activePodName) kvPods)"

definition termination_message :: "container_status \<Rightarrow> string" where
  "termination_message contStatus =
     (case cs_Termination contStatus of
        Some msg \<Rightarrow> msg
      | None \<Rightarrow> (case cs_LastTermination contStatus of Some msg \<Rightarrow> msg | None \<Rightarrow> ''''))"

fun shutdown_from :: "pod \<Rightarrow> container_status list \<Rightarrow> shutdown_info" where
  "shutdown_from activePod [] = \<lparr> si_Reason = '''', si_PodCompleted = True, si_Pod = Some activePod \<rparr>"
| "shutdown_from activePod (contStatus # rest) =
     (if \<not> IsComputeContainer (cs_Name contStatus) then shutdown_from activePod rest
      else let msg = termination_message contStatus
           in if contains msg GuestResetReason
              then \<lparr> si_Reason = GuestResetReason, si_PodCompleted = True, si_Pod = Some activePod \<rparr>
              else if contains msg GuestShutdownReason
              then \<lparr> si_Reason = GuestShutdownReason, si_PodCompleted = True, si_Pod = Some activePod \<rparr>
              else shutdown_from activePod rest)"

definition ShutdownReason :: "'q virtual_machine \<Rightarrow> kvvmi option \<Rightarrow> pod list option \<Rightarrow> shutdown_info" where
  "ShutdownReason vm kvvmi kvPods =
     (case (kvvmi, kvPods) of
        (Some vmi, Some pods) \<Rightarrow>
          if \<not> kvvmiCompleted vmi \<or> length pods = 0 then no_shutdown_info
          else (case getActivePod vm pods of
                  None \<Rightarrow> no_shutdown_info
                | Some activePod \<Rightarrow>
                    if \<not> podCompleted activePod then no_shutdown_info
                    else shutdown_from activePod (pod_Containers activePod))
      | _ \<Rightarrow> no_shutdown_info)"


section \<open>Properties\<close>

lemma BuildPatch_applies:
  assumes "BuildPatch vm requests = Inr ops"
  shows "apply_patch ops vm = Some (vm\<lparr> kvvm_StateChangeRequests := requests, kvvm_StartFailure := False \<rparr>)"
proof (cases "status_empty vm")
  case True
  then show ?thesis
    using assms by (auto simp: BuildPatch_def apply_op_def status_empty_def Let_def)
next
  case False
  then show ?thesis
    using assms by (cases "kvvm_StartFailure vm")
      (auto simp: BuildPatch_def apply_op_def Let_def status_empty_def split: if_splits)
qed

lemma BuildPatchSafeRestart_applies:
  "BuildPatchSafeRestart vm vmi = Some ops \<Longrightarrow>
     apply_patch ops vm = Some (vm\<lparr> kvvm_StateChangeRequests := restartRequest vmi \<rparr>)"
  by (auto simp: BuildPatchSafeRestart_def apply_op_def status_empty_def split: if_splits)

text \<open>
  Claim C37: the patch that is built for a power request can be applied to the object it was built
  for, and its effect is exactly that the requests are the new ones and the start failure is gone.
\<close>

theorem BuildPatch_effect:
  assumes "BuildPatch vm requests = Inr ops"
  shows "apply_patch ops vm = Some (vm\<lparr> kvvm_StateChangeRequests := requests, kvvm_StartFailure := False \<rparr>)"
  using assms by (rule BuildPatch_applies)

definition example_kvvm :: kvvm where
  "example_kvvm = \<lparr> kvvm_Annotations = Map.empty, kvvm_RunStrategy = Some RunStrategyManual,
     kvvm_StateChangeRequests = [\<lparr> scr_Action = StartRequest, scr_UID = None \<rparr>], kvvm_StartFailure = True,
     kvvm_OtherStatus = Some (K8sObject ''created'') \<rparr>"

theorem BuildPatch_effect_witness:
  "apply_patch [ReplaceRequests [\<lparr> scr_Action = StopRequest, scr_UID = None \<rparr>], RemoveStartFailure] example_kvvm =
     Some (example_kvvm\<lparr> kvvm_StateChangeRequests := [\<lparr> scr_Action = StopRequest, scr_UID = None \<rparr>],
                         kvvm_StartFailure := False \<rparr>)"
  by (rule BuildPatch_effect) (simp add: BuildPatch_def example_kvvm_def status_empty_def)

text \<open>
  The decision table of power requests.  A request is refused exactly when another one is
  pending: as already existing if it is the same, and as a conflict if it is another one and not a
  single stop; a single stop replaces whatever is pending, and without a pending request every
  request is accepted.
\<close>

lemma BuildPatch_decision:
  "(BuildPatch vm requests = Inl ErrChangesAlreadyExist \<longleftrightarrow>
      kvvm_StateChangeRequests vm \<noteq> [] \<and> kvvm_StateChangeRequests vm = requests) \<and>
   (BuildPatch vm requests = Inl ErrAlreadyUnderway \<longleftrightarrow>
      kvvm_StateChangeRequests vm \<noteq> [] \<and> kvvm_StateChangeRequests vm \<noteq> requests \<and>
      map scr_Action requests \<noteq> [StopRequest])"
proof -
  have "map scr_Action requests = [StopRequest] \<longleftrightarrow>
      length requests = 1 \<and> scr_Action (requests ! 0) = StopRequest"
    by (cases requests) auto
  then show ?thesis by (auto simp: BuildPatch_def status_empty_def Let_def)
qed

text \<open>
  A safe restart never touches pending requests; when none is pending its patch applies and
  leaves exactly the stop of the given instance followed by a start.
\<close>

lemma BuildPatchSafeRestart_respects_pending:
  "(case BuildPatchSafeRestart vm vmi of
      None \<Rightarrow> kvvm_StateChangeRequests vm \<noteq> []
    | Some ops \<Rightarrow> kvvm_StateChangeRequests vm = [] \<and>
        apply_patch ops vm = Some (vm\<lparr> kvvm_StateChangeRequests := restartRequest vmi \<rparr>))"
  by (auto simp: BuildPatchSafeRestart_def apply_op_def status_empty_def)

lemma hd_sort_key_least:
  "xs \<noteq> [] \<Longrightarrow> x \<in> set xs \<Longrightarrow> f (sort_key f xs ! 0) \<le> f x"
proof -
  assume ne: "xs \<noteq> []" and x: "x \<in> set xs"
  then obtain y ys where ys: "sort_key f xs = y # ys" by (cases "sort_key f xs") (auto simp flip: set_empty)
  have "sorted (map f (y # ys))" unfolding ys [symmetric] by simp
  moreover have "x \<in> set (y # ys)" using x unfolding ys [symmetric] by simp
  ultimately show ?thesis unfolding ys by auto
qed

lemma find_in_sorted:
  assumes "sorted (map f xs)" and "List.find P xs = Some p" and "q \<in> set xs" and "P q"
  shows "f p \<le> f q"
  using assms by (induction xs) (auto split: if_splits)

text \<open>The pods that may belong to an instance.\<close>

definition candidate_pods :: "kvvmi \<Rightarrow> pod list \<Rightarrow> pod list" where
  "candidate_pods vmi pods = filter (\<lambda>pod.
     (kvvmiCompleted vmi \<and> kvvmi_NodeName vmi = '''' \<or> kvvmi_NodeName vmi = pod_NodeName pod) \<and>
     pod_UID pod \<in> set (kvvmi_ActivePods vmi)) pods"

lemma GetVMPod_candidates:
  "GetVMPod (Some vmi) pods =
     (case candidate_pods vmi pods of
        [] \<Rightarrow> None
      | [p] \<Rightarrow> Some p
      | _ \<Rightarrow> (case List.find (\<lambda>pod. pod_Phase pod = Running) (sort_key pod_Created (candidate_pods vmi pods)) of
                Some p \<Rightarrow> Some p
              | None \<Rightarrow> Some (sort_key pod_Created (candidate_pods vmi pods) ! 0)))"
  unfolding GetVMPod_def candidate_pods_def Let_def option.case by (rule refl)

text \<open>
  The pod chosen for an instance is one of its active pods on its node, and one is chosen
  whenever there is one; if one of them is running the chosen pod is running; and no candidate in
  the same situation is older.
\<close>

lemma GetVMPod_oldest_running:
  "(GetVMPod (Some vmi) pods = None \<longleftrightarrow> candidate_pods vmi pods = []) \<and>
   (\<forall>p. GetVMPod (Some vmi) pods = Some p \<longrightarrow>
      p \<in> set (candidate_pods vmi pods) \<and>
      (\<forall>q \<in> set (candidate_pods vmi pods).
         (pod_Phase q = Running \<longrightarrow> pod_Phase p = Running \<and> pod_Created p \<le> pod_Created q) \<and>
         (pod_Phase p \<noteq> Running \<longrightarrow> pod_Created p \<le> pod_Created q)))"
proof (cases "candidate_pods vmi pods")
  case Nil
  then show ?thesis by (simp add: GetVMPod_candidates)
next
  case (Cons a rest)
  let ?cs = "candidate_pods vmi pods"
  let ?found = "List.find (\<lambda>pod. pod_Phase pod = Running) (sort_key pod_Created ?cs)"
  show ?thesis
  proof (cases rest)
    case Nil
    then show ?thesis using Cons by (simp add: GetVMPod_candidates)
  next
    case (Cons b rest')
    with \<open>candidate_pods vmi pods = a # rest\<close>
    have run: "GetVMPod (Some vmi) pods =
        (case ?found of Some p \<Rightarrow> Some p | None \<Rightarrow> Some (sort_key pod_Created ?cs ! 0))" and ne: "?cs \<noteq> []"
      by (simp_all add: GetVMPod_candidates)
    show ?thesis
    proof (cases ?found)
      case None
      then have "\<forall>q \<in> set ?cs. pod_Phase q \<noteq> Running" by (auto simp: find_None_iff)
      moreover have "sort_key pod_Created ?cs ! 0 \<in> set (sort_key pod_Created ?cs)"
        using ne by (intro nth_mem) (simp flip: length_greater_0_conv)
      ultimately show ?thesis using run None ne hd_sort_key_least [OF ne] by auto
    next
      case (Some p)
      then have "p \<in> set ?cs" "pod_Phase p = Running" using find_SomeD by fastforce+
      moreover have "pod_Created p \<le> pod_Created q" if "q \<in> set ?cs" "pod_Phase q = Running" for q
        using find_in_sorted [OF _ Some, of pod_Created q] that by simp
      ultimately show ?thesis using run Some ne by auto
    qed
  qed
qed


definition example_pod :: "string \<Rightarrow> string \<Rightarrow> int \<Rightarrow> pod" where
  "example_pod name phase created = \<lparr> pod_Name = name, pod_UID = name, pod_NodeName = ''node'', pod_Phase = phase,
     pod_Created = created, pod_Deleting = False, pod_Containers = [] \<rparr>"

definition example_kvvmi :: kvvmi where
  "example_kvvmi = \<lparr> kvvmi_UID = ''vmi'', kvvmi_Phase = Running, kvvmi_Deleting = False,
     kvvmi_NodeName = ''node'', kvvmi_ActivePods = [''a'', ''b''], kvvmi_Created = 0 \<rparr>"

text \<open>A container that reports no guest signal.\<close>

definition silent :: "container_status \<Rightarrow> bool" where
  "silent d \<longleftrightarrow> \<not> IsComputeContainer (cs_Name d) \<or>
     \<not> contains (termination_message d) GuestShutdownReason \<and>
     \<not> contains (termination_message d) GuestResetReason"

lemma shutdown_from_reset:
  "si_Reason (shutdown_from p cs) = GuestResetReason \<longleftrightarrow>
     (\<exists>pre c post. cs = pre @ c # post \<and> IsComputeContainer (cs_Name c) \<and>
        contains (termination_message c) GuestResetReason \<and>
        list_all silent pre)"
proof (induction cs)
  case (Cons d cs)
  let ?R = "\<lambda>cs. \<exists>pre c post. cs = pre @ c # post \<and> IsComputeContainer (cs_Name c) \<and>
      contains (termination_message c) GuestResetReason \<and> list_all silent pre"
  have unfold_R: "?R (d # cs) \<longleftrightarrow>
      (IsComputeContainer (cs_Name d) \<and> contains (termination_message d) GuestResetReason) \<or> silent d \<and> ?R cs"
    (is "?l \<longleftrightarrow> ?r")
  proof
    assume ?l
    then obtain pre c post where "d # cs = pre @ c # post" "IsComputeContainer (cs_Name c)"
      "contains (termination_message c) GuestResetReason" "list_all silent pre" by blast
    then show ?r by (cases pre) auto
  next
    assume ?r
    then show ?l
    proof
      assume "IsComputeContainer (cs_Name d) \<and> contains (termination_message d) GuestResetReason"
      then show ?l by (intro exI [of _ "[]"]) auto
    next
      assume "silent d \<and> ?R cs"
      then obtain pre c post where "cs = pre @ c # post" "IsComputeContainer (cs_Name c)"
        "contains (termination_message c) GuestResetReason" "list_all silent (d # pre)" by auto
      then show ?l by (intro exI [of _ "d # pre"] exI [of _ c] exI [of _ post]) (simp del: contains.simps)
    qed
  qed
  have step: "si_Reason (shutdown_from p (d # cs)) = GuestResetReason \<longleftrightarrow>
      (IsComputeContainer (cs_Name d) \<and> contains (termination_message d) GuestResetReason) \<or>
      silent d \<and> si_Reason (shutdown_from p cs) = GuestResetReason"
    by (simp add: Let_def silent_def del: contains.simps)
  show ?case by (rule trans [OF step, OF trans [OF _ unfold_R [symmetric]]]) (simp only: Cons.IH)
qed simp


text \<open>
  A reboot from inside the guest is recognized exactly when the instance and its active pod
  have completed and the first compute container that reports a guest signal reports a reset.
\<close>

lemma ShutdownReason_guest_reset:
  "si_Reason (ShutdownReason vm kvvmi kvPods) = GuestResetReason \<longleftrightarrow>
     (\<exists>vmi pods p. kvvmi = Some vmi \<and> kvPods = Some pods \<and> kvvmiCompleted vmi \<and>
        getActivePod vm pods = Some p \<and> podCompleted p \<and>
        (\<exists>pre c post. pod_Containers p = pre @ c # post \<and> IsComputeContainer (cs_Name c) \<and>
           contains (termination_message c) GuestResetReason \<and>
           list_all silent pre))"
proof -
  have "getActivePod vm [] = None" by (simp add: getActivePod_def split: option.split)
  then have "si_Reason (ShutdownReason vm kvvmi kvPods) = GuestResetReason \<longleftrightarrow>
      (\<exists>vmi pods p. kvvmi = Some vmi \<and> kvPods = Some pods \<and> kvvmiCompleted vmi \<and>
         getActivePod vm pods = Some p \<and> podCompleted p \<and>
         si_Reason (shutdown_from p (pod_Containers p)) = GuestResetReason)"
    by (cases kvvmi; cases kvPods) (auto simp: ShutdownReason_def no_shutdown_info_def split: option.split)
  then show ?thesis by (simp only: shutdown_from_reset)
qed

end
