(* ===== verification/Conditions.thy ===== *)
theory Conditions
  imports ApiTypes
begin

text \<open>
  Status conditions (\<^verbatim>\<open>pkg/controller/conditions/builder.go\<close>): the builder of a condition, the
  functions that read and set conditions in a status, and the check that the dependencies of a
  virtual machine are ready (\<^verbatim>\<open>vm/internal/util.go\<close>).
\<close>

section \<open>builder.go: reading and setting\<close>

definition HasCondition :: "string \<Rightarrow> condition list \<Rightarrow> bool" where
  "HasCondition conditionType conditions = list_ex (\<lambda>c. cond_Type c = conditionType) conditions"

fun FindStatusCondition :: "condition list \<Rightarrow> string \<Rightarrow> nat option" where
  "FindStatusCondition [] conditionType = None"
| "FindStatusCondition (c # cs) conditionType =
     (if cond_Type c = conditionType then Some 0 else map_option Suc (FindStatusCondition cs conditionType))"

definition empty_condition :: condition where
  "empty_condition = \<lparr> cond_Type = '''', cond_Status = '''', cond_Reason = '''', cond_Message = '''',
     cond_ObservedGeneration = 0, cond_LastTransitionTime = 0 \<rparr>"

definition GetCondition :: "string \<Rightarrow> condition list \<Rightarrow> condition \<times> bool" where
  "GetCondition condType conditions =
     (case List.find (\<lambda>c. cond_Type c = condType) conditions of
        Some c \<Rightarrow> (c, True)
      | None \<Rightarrow> (empty_condition, False))"

definition IsLastUpdated :: "condition \<Rightarrow> int \<Rightarrow> bool" where
  "IsLastUpdated c generation \<longleftrightarrow> cond_ObservedGeneration c = generation"

text \<open>
  The update of an existing condition in place.  The clock is read at most once for the status and
  once for the reason: \<open>now1\<close> and \<open>now2\<close>.
\<close>

definition update_condition :: "int \<Rightarrow> int \<Rightarrow> condition \<Rightarrow> condition \<Rightarrow> condition" where
  "update_condition now1 now2 new existing =
     (let e1 = (if cond_Status existing \<noteq> cond_Status new
                then existing\<lparr> cond_Status := cond_Status new,
                       cond_LastTransitionTime :=
                         (if cond_LastTransitionTime new \<noteq> 0 then cond_LastTransitionTime new else now1) \<rparr>
                else existing);
          e2 = (if cond_Reason e1 \<noteq> cond_Reason new
                then e1\<lparr> cond_Reason := cond_Reason new,
                       cond_LastTransitionTime :=
                         (if cond_LastTransitionTime new \<noteq> 0 \<and>
                             cond_LastTransitionTime e1 < cond_LastTransitionTime new
                          then cond_LastTransitionTime new else now2) \<rparr>
                else e1);
          e3 = (if cond_Message e2 \<noteq> cond_Message new then e2\<lparr> cond_Message := cond_Message new \<rparr> else e2)
      in if cond_ObservedGeneration e3 \<noteq> cond_ObservedGeneration new
         then e3\<lparr> cond_ObservedGeneration := cond_ObservedGeneration new \<rparr> else e3)"

definition SetCondition :: "int \<Rightarrow> int \<Rightarrow> condition \<Rightarrow> condition list \<Rightarrow> condition list" where
  "SetCondition now1 now2 newCondition conditions =
     (case FindStatusCondition conditions (cond_Type newCondition) of
        None \<Rightarrow> conditions @ [if cond_LastTransitionTime newCondition = 0
                               then newCondition\<lparr> cond_LastTransitionTime := now1 \<rparr> else newCondition]
      | Some i \<Rightarrow> conditions[i := update_condition now1 now2 newCondition (conditions ! i)])"

section \<open>builder.go: the builder\<close>

record condition_builder =
  cb_status :: string
  cb_conditionType :: string
  cb_reason :: string
  cb_message :: string
  cb_generation :: int
  cb_lastTransitionTime :: int

abbreviation ConditionUnknown :: string where "ConditionUnknown \<equiv> ''Unknown''"

definition NewConditionBuilder :: "string \<Rightarrow> condition_builder" where
  "NewConditionBuilder conditionType =
     \<lparr> cb_status = ConditionUnknown, cb_conditionType = conditionType, cb_reason = ''Unknown'',
       cb_message = '''', cb_generation = 0, cb_lastTransitionTime = 0 \<rparr>"

definition builder_Condition :: "condition_builder \<Rightarrow> condition" where
  "builder_Condition c =
     \<lparr> cond_Type = cb_conditionType c, cond_Status = cb_status c, cond_Reason = cb_reason c,
       cond_Message = cb_message c, cond_ObservedGeneration = cb_generation c,
       cond_LastTransitionTime = cb_lastTransitionTime c \<rparr>"

definition builder_Status :: "string \<Rightarrow> condition_builder \<Rightarrow> condition_builder" where
  "builder_Status status c = (if status \<noteq> '''' then c\<lparr> cb_status := status \<rparr> else c)"

definition builder_Reason :: "string \<Rightarrow> condition_builder \<Rightarrow> condition_builder" where
  "builder_Reason reason c = (if reason \<noteq> '''' then c\<lparr> cb_reason := reason \<rparr> else c)"

definition builder_Message :: "string \<Rightarrow> condition_builder \<Rightarrow> condition_builder" where
  "builder_Message msg c = c\<lparr> cb_message := msg \<rparr>"

definition builder_Generation :: "int \<Rightarrow> condition_builder \<Rightarrow> condition_builder" where
  "builder_Generation generation c = c\<lparr> cb_generation := generation \<rparr>"

definition builder_LastTransitionTime :: "int \<Rightarrow> condition_builder \<Rightarrow> condition_builder" where
  "builder_LastTransitionTime t c = c\<lparr> cb_lastTransitionTime := t \<rparr>"

text \<open>
  \<^verbatim>\<open>Clone\<close> writes through a pointer that was declared and never set: \<open>deref\<close> of the nil pointer
  panics, before anything is copied.
\<close>

definition builder_Clone :: "condition_builder \<Rightarrow> condition_builder option" where
  "builder_Clone c =
     (let out = (None :: condition_builder option)
      in case out of None \<Rightarrow> None | Some _ \<Rightarrow> Some c)"

section \<open>util.go: readiness of the dependencies\<close>

abbreviation TypeIPAddressReady :: string where "TypeIPAddressReady \<equiv> ''VirtualMachineIPAddressReady''"
abbreviation TypeMACAddressReady :: string where "TypeMACAddressReady \<equiv> ''VirtualMachineMACAddressReady''"
abbreviation TypeClassReady :: string where "TypeClassReady \<equiv> ''VirtualMachineClassReady''"
abbreviation TypeBlockDevicesReady :: string where "TypeBlockDevicesReady \<equiv> ''BlockDevicesReady''"
abbreviation TypeProvisioningReady :: string where "TypeProvisioningReady \<equiv> ''ProvisioningReady''"
abbreviation TypeSizingPolicyMatched :: string where "TypeSizingPolicyMatched \<equiv> ''SizingPolicyMatched''"
abbreviation TypeSnapshotting :: string where "TypeSnapshotting \<equiv> ''Snapshotting''"
abbreviation TypeNetworkReady :: string where "TypeNetworkReady \<equiv> ''NetworkReady''"
abbreviation TypeMaintenance :: string where "TypeMaintenance \<equiv> ''Maintenance''"
abbreviation TypeAwaitingRestart :: string where "TypeAwaitingRestart \<equiv> ''AwaitingRestartToApplyConfiguration''"

definition dependency_ready :: "condition \<Rightarrow> bool" where
  "dependency_ready c =
     (if cond_Type c = TypeBlockDevicesReady then
        cond_Status c = ConditionTrue \<or>
        cond_Reason c = ''WaitingForWaitForFirstConsumerBlockDevicesToBeReady''
      else if cond_Type c = TypeSnapshotting then
        \<not> (cond_Status c = ConditionTrue \<and> cond_Reason c = ''SnapshottingInProgress'')
      else if cond_Type c = TypeIPAddressReady then
        cond_Status c = ConditionTrue \<or> cond_Reason c = ''VirtualMachineIPAddressNotAssigned''
      else if cond_Type c \<in> {TypeProvisioningReady, TypeClassReady, TypeSizingPolicyMatched, TypeMACAddressReady}
      then cond_Status c = ConditionTrue
      else if cond_Type c = TypeNetworkReady then
        \<not> (cond_Status c = ConditionFalse \<and> cond_Reason c = ''SDNModuleDisabled'')
      else True)"

definition virtualMachineDependenciesAreReady :: "'q virtual_machine \<Rightarrow> bool" where
  "virtualMachineDependenciesAreReady vm = list_all dependency_ready (Conditions (vm_Status vm))"

section \<open>Properties\<close>

lemma FindStatusCondition_Some:
  "FindStatusCondition cs t = Some i \<Longrightarrow>
     i < length cs \<and> cond_Type (cs ! i) = t \<and> (\<forall>j < i. cond_Type (cs ! j) \<noteq> t)"
proof (induction cs arbitrary: i)
  case (Cons c cs)
  then show ?case by (cases i) (auto split: if_splits simp: less_Suc_eq_0_disj)
qed simp

lemma FindStatusCondition_None: "FindStatusCondition cs t = None \<longleftrightarrow> t \<notin> cond_Type ` set cs"
  by (induction cs) auto

lemma find_first:
  "i < length cs \<Longrightarrow> P (cs ! i) \<Longrightarrow> (\<And>j. j < i \<Longrightarrow> \<not> P (cs ! j)) \<Longrightarrow> List.find P cs = Some (cs ! i)"
proof (induction cs arbitrary: i)
  case (Cons c cs)
  show ?case
  proof (cases i)
    case 0
    with Cons.prems show ?thesis by simp
  next
    case (Suc k)
    have "\<not> P (cs ! j)" if "j < k" for j using Cons.prems(3) [of "Suc j"] that Suc by simp
    then have "List.find P cs = Some (cs ! k)" using Cons Suc by simp
    moreover have "\<not> P c" using Cons.prems(3) [of 0] Suc by simp
    ultimately show ?thesis using Suc by simp
  qed
qed simp

lemma update_condition_fields:
  "cond_Type (update_condition n1 n2 new old) = cond_Type old"
  "cond_Status (update_condition n1 n2 new old) = cond_Status new"
  "cond_Reason (update_condition n1 n2 new old) = cond_Reason new"
  "cond_Message (update_condition n1 n2 new old) = cond_Message new"
  "cond_ObservedGeneration (update_condition n1 n2 new old) = cond_ObservedGeneration new"
  by (simp_all add: update_condition_def Let_def)

lemma GetCondition_SetCondition:
  "GetCondition (cond_Type new) (SetCondition n1 n2 new cs) =
     (case FindStatusCondition cs (cond_Type new) of
        None \<Rightarrow> (if cond_LastTransitionTime new = 0 then new\<lparr> cond_LastTransitionTime := n1 \<rparr> else new, True)
      | Some i \<Rightarrow> (update_condition n1 n2 new (cs ! i), True))"
proof (cases "FindStatusCondition cs (cond_Type new)")
  case None
  then have "List.find (\<lambda>c. cond_Type c = cond_Type new) cs = None"
    by (auto simp: FindStatusCondition_None find_None_iff image_iff)
  with None show ?thesis by (auto simp: SetCondition_def GetCondition_def)
next
  case (Some i)
  let ?cs = "cs[i := update_condition n1 n2 new (cs ! i)]"
  have i: "i < length cs" "cond_Type (cs ! i) = cond_Type new" "\<forall>j < i. cond_Type (cs ! j) \<noteq> cond_Type new"
    using FindStatusCondition_Some [OF Some] by auto
  have "List.find (\<lambda>c. cond_Type c = cond_Type new) ?cs = Some (?cs ! i)"
    using i by (intro find_first) (auto simp: update_condition_fields)
  with Some i show ?thesis by (simp add: SetCondition_def GetCondition_def)
qed

lemma SetCondition_same:
  assumes "cond_Type new = t"
  shows "cond_Status (fst (GetCondition t (SetCondition n1 n2 new cs))) = cond_Status new"
    and "cond_Reason (fst (GetCondition t (SetCondition n1 n2 new cs))) = cond_Reason new"
    and "cond_ObservedGeneration (fst (GetCondition t (SetCondition n1 n2 new cs))) = cond_ObservedGeneration new"
  unfolding assms [symmetric] GetCondition_SetCondition
  by (auto simp: update_condition_fields split: option.split)

lemma find_update_other:
  "i < length cs \<Longrightarrow> \<not> P (cs ! i) \<Longrightarrow> \<not> P u \<Longrightarrow> List.find P (cs[i := u]) = List.find P cs"
proof (induction cs arbitrary: i)
  case (Cons c cs)
  then show ?case by (cases i) auto
qed simp

lemma find_append_other: "\<not> P u \<Longrightarrow> List.find P (cs @ [u]) = List.find P cs"
  by (induction cs) auto

lemma SetCondition_other:
  assumes "cond_Type new \<noteq> t"
  shows "GetCondition t (SetCondition n1 n2 new cs) = GetCondition t cs"
proof (cases "FindStatusCondition cs (cond_Type new)")
  case None
  then show ?thesis
    using assms by (auto simp: SetCondition_def GetCondition_def find_append_other split: option.split)
next
  case (Some i)
  then have "i < length cs" "cond_Type (cs ! i) = cond_Type new" using FindStatusCondition_Some by blast+
  then have "List.find (\<lambda>c. cond_Type c = t) (cs[i := update_condition n1 n2 new (cs ! i)]) =
      List.find (\<lambda>c. cond_Type c = t) cs"
    using assms by (intro find_update_other) (auto simp: update_condition_fields)
  with Some show ?thesis by (simp add: SetCondition_def GetCondition_def)
qed

lemma GetCondition_Find:
  "GetCondition t cs = (case FindStatusCondition cs t of None \<Rightarrow> (empty_condition, False) | Some i \<Rightarrow> (cs ! i, True))"
proof (cases "FindStatusCondition cs t")
  case None
  then show ?thesis by (auto simp: GetCondition_def FindStatusCondition_None find_None_iff image_iff split: option.split)
next
  case (Some i)
  then have "List.find (\<lambda>c. cond_Type c = t) cs = Some (cs ! i)" using FindStatusCondition_Some [OF Some] by (intro find_first) auto
  with Some show ?thesis by (simp add: GetCondition_def)
qed

text \<open>The transition time is kept as long as neither the status nor the reason changes, and is the clock otherwise.\<close>

lemma SetCondition_transition:
  assumes "cond_LastTransitionTime new = 0" and "GetCondition (cond_Type new) cs = (old, found)"
  shows "cond_LastTransitionTime (fst (GetCondition (cond_Type new) (SetCondition n1 n2 new cs))) \<in>
    (if found \<and> cond_Status old = cond_Status new \<and> cond_Reason old = cond_Reason new then {cond_LastTransitionTime old} else {n1, n2})"
  using assms(1) assms(2) [unfolded GetCondition_Find] unfolding GetCondition_SetCondition
  by (auto simp: update_condition_def Let_def split: option.splits)

text \<open>
  Setting a condition makes it the one that is read back for its type, with the new
  status, reason, message and generation; conditions of other types keep their values; the types
  listed are the old ones and the new one, none twice; and when neither status nor reason changes,
  the transition time stays.
\<close>

lemma SetCondition_correct:
  assumes "distinct (map cond_Type cs)"
  shows "(let (c, found) = GetCondition (cond_Type new) (SetCondition n1 n2 new cs) in
      found \<and> cond_Type c = cond_Type new \<and> cond_Status c = cond_Status new \<and> cond_Reason c = cond_Reason new \<and>
      cond_Message c = cond_Message new \<and> cond_ObservedGeneration c = cond_ObservedGeneration new) \<and>
    filter (\<lambda>c. cond_Type c \<noteq> cond_Type new) (SetCondition n1 n2 new cs) =
      filter (\<lambda>c. cond_Type c \<noteq> cond_Type new) cs \<and>
    distinct (map cond_Type (SetCondition n1 n2 new cs)) \<and>
    (\<forall>old. GetCondition (cond_Type new) cs = (old, True) \<and> cond_Status old = cond_Status new \<and>
       cond_Reason old = cond_Reason new \<longrightarrow>
       cond_LastTransitionTime (fst (GetCondition (cond_Type new) (SetCondition n1 n2 new cs))) =
         cond_LastTransitionTime old)"
proof (cases "FindStatusCondition cs (cond_Type new)")
  case None
  then have "List.find (\<lambda>c. cond_Type c = cond_Type new) cs = None"
    by (auto simp: FindStatusCondition_None find_None_iff image_iff)
  moreover have "cond_Type new \<notin> cond_Type ` set cs" using None by (simp add: FindStatusCondition_None)
  ultimately show ?thesis
    using assms unfolding GetCondition_SetCondition SetCondition_def None option.case
    by (simp add: GetCondition_def)
next
  case (Some i)
  have i: "i < length cs" "cond_Type (cs ! i) = cond_Type new" "\<forall>j < i. cond_Type (cs ! j) \<noteq> cond_Type new"
    using FindStatusCondition_Some [OF Some] by auto
  have old: "List.find (\<lambda>c. cond_Type c = cond_Type new) cs = Some (cs ! i)"
    using i by (intro find_first) auto
  have set: "SetCondition n1 n2 new cs = cs[i := update_condition n1 n2 new (cs ! i)]"
    using Some by (simp add: SetCondition_def)
  have types: "map cond_Type (SetCondition n1 n2 new cs) = map cond_Type cs"
    unfolding set map_update update_condition_fields using i(1) by (metis list_update_id nth_map)
  have "filter (\<lambda>c. cond_Type c \<noteq> cond_Type new) (SetCondition n1 n2 new cs) =
      filter (\<lambda>c. cond_Type c \<noteq> cond_Type new) cs"
  proof -
    have "cs = take i cs @ cs ! i # drop (Suc i) cs" using i(1) by (rule id_take_nth_drop)
    then have "filter P cs = filter P (take i cs) @ filter P (drop (Suc i) cs)" if "\<not> P (cs ! i)" for P
      using that by (metis filter.simps(2) filter_append)
    then show ?thesis
      unfolding set using i(1,2) by (simp add: upd_conv_take_nth_drop update_condition_fields)
  qed
  then show ?thesis
    unfolding GetCondition_SetCondition types using Some i old assms
    by (auto simp: update_condition_fields GetCondition_def update_condition_def Let_def)
qed

lemma SetCondition_distinct: "distinct (map cond_Type cs) \<Longrightarrow> distinct (map cond_Type (SetCondition n1 n2 new cs))"
  using SetCondition_correct [of cs new n1 n2] by (simp add: Let_def split: prod.splits)


definition example_condition :: "string \<Rightarrow> string \<Rightarrow> condition" where
  "example_condition typ status = \<lparr> cond_Type = typ, cond_Status = status, cond_Reason = ''R'', cond_Message = '''',
     cond_ObservedGeneration = 1, cond_LastTransitionTime = 5 \<rparr>"

end
