(* ===== verification/Effects.thy ===== *)
theory Effects
  imports GoPrelude
begin

text \<open>
  Computations with effects.  A run reads and extends a log of API calls (of a type \<open>'c\<close> the component
  chooses) and events.  The API server is a parameter \<open>api\<close> that decides, from the log so far and
  the call, how the call ends.  A run returns a value, fails with an error, or panics.  The texts of
  errors and events are left out; an error is named by the step that failed.  The second half is a
  small logic of runs: what a run may send, what it may return, and that it completes.
\<close>

section \<open>Effects\<close>

datatype 'c effect = Call 'c | Event string

datatype api_outcome =
  OK | NotFoundErr | ConflictErr | AlreadyExistsErr | NoNewFinalizersErr | APIFailure

type_synonym 'c api_server = "'c effect list \<Rightarrow> 'c \<Rightarrow> api_outcome"

datatype 'a outcome = Returned 'a | Failure string | Panic

type_synonym ('c, 'a) run = "'c effect list \<Rightarrow> 'a outcome \<times> 'c effect list"

definition ret :: "'a \<Rightarrow> ('c, 'a) run" where "ret x log = (Returned x, log)"

definition err :: "string \<Rightarrow> ('c, 'a) run" where "err e log = (Failure e, log)"

definition panic :: "('c, 'a) run" where "panic log = (Panic, log)"

definition bind_run :: "('c, 'a) run \<Rightarrow> ('a \<Rightarrow> ('c, 'b) run) \<Rightarrow> ('c, 'b) run" where
  "bind_run m f log =
     (case m log of
        (Returned x, log') \<Rightarrow> f x log'
      | (Failure e, log') \<Rightarrow> (Failure e, log')
      | (Panic, log') \<Rightarrow> (Panic, log'))"

definition call :: "'c api_server \<Rightarrow> 'c \<Rightarrow> ('c, api_outcome) run" where
  "call api c log = (Returned (api log c), log @ [Call c])"

definition event :: "string \<Rightarrow> ('c, unit) run" where
  "event reason log = (Returned (), log @ [Event reason])"

text \<open>A call whose every error is returned.\<close>

definition do_call :: "string \<Rightarrow> 'c api_server \<Rightarrow> 'c \<Rightarrow> ('c, unit) run" where
  "do_call step api c = bind_run (call api c) (\<lambda>r. if r = OK then ret () else err step)"

text \<open>A call whose not-found error is ignored.\<close>

definition do_call_ignore_missing :: "string \<Rightarrow> 'c api_server \<Rightarrow> 'c \<Rightarrow> ('c, unit) run" where
  "do_call_ignore_missing step api c =
     bind_run (call api c) (\<lambda>r. if r = OK \<or> r = NotFoundErr then ret () else err step)"

text \<open>An error as a value: the caller goes on after it.\<close>

definition try_run :: "('c, 'a) run \<Rightarrow> ('c, string + 'a) run" where
  "try_run m log =
     (case m log of
        (Returned x, log') \<Rightarrow> (Returned (Inr x), log')
      | (Failure e, log') \<Rightarrow> (Returned (Inl e), log')
      | (Panic, log') \<Rightarrow> (Panic, log'))"

text \<open>
  A run of one component inside another one: its calls \<open>c\<close> are calls \<open>f c\<close> of the other, and it meets
  the server in the log of the other.
\<close>

definition lift_run :: "('c \<Rightarrow> 'd) \<Rightarrow> 'd api_server \<Rightarrow> ('c api_server \<Rightarrow> ('c, 'a) run) \<Rightarrow> ('d, 'a) run" where
  "lift_run f api m log =
     (case m (\<lambda>new c. api (log @ map (map_effect f) new) (f c)) [] of
        (r, new) \<Rightarrow> (r, log @ map (map_effect f) new))"

text \<open>
  The helpers of controller-runtime that add and remove a finalizer are a parameter; \<open>finalizer_laws\<close> states
  their documentation.
\<close>

record finalizer_ops =
  fin_Add :: "string \<Rightarrow> string list \<Rightarrow> string list"
  fin_Remove :: "string \<Rightarrow> string list \<Rightarrow> string list"

definition finalizer_laws :: "finalizer_ops \<Rightarrow> bool" where
  "finalizer_laws fo \<longleftrightarrow>
     (\<forall>f fs. set (fin_Add fo f fs) = insert f (set fs) \<and> set (fin_Remove fo f fs) = set fs - {f})"

definition list_finalizers :: finalizer_ops where
  "list_finalizers = \<lparr> fin_Add = (\<lambda>f fs. if f \<in> set fs then fs else fs @ [f]), fin_Remove = removeAll \<rparr>"

lemma list_finalizers_laws: "finalizer_laws list_finalizers"
  by (auto simp: finalizer_laws_def list_finalizers_def)

section \<open>Reasoning about runs\<close>

text \<open>
  \<open>emits P m\<close>: whatever the log, \<open>m\<close> only appends to it, and every effect it appends satisfies
  \<open>P\<close>.  \<open>may_return m x\<close>: from some log, \<open>m\<close> returns \<open>x\<close>.
\<close>

definition emits :: "('c effect \<Rightarrow> bool) \<Rightarrow> ('c, 'a) run \<Rightarrow> bool" where
  "emits P m \<longleftrightarrow> (\<forall>log. \<exists>new. snd (m log) = log @ new \<and> list_all P new)"

definition may_return :: "('c, 'a) run \<Rightarrow> 'a \<Rightarrow> bool" where
  "may_return m x \<longleftrightarrow> (\<exists>log log'. m log = (Returned x, log'))"

named_theorems emits_rules

lemma emits_pure [emits_rules]: "emits P (ret x)" "emits P (err e)" "emits P panic"
  by (simp_all add: emits_def ret_def err_def panic_def)

lemma emits_call [emits_rules]: "P (Call c) \<Longrightarrow> emits P (call api c)"
  by (simp add: emits_def call_def)

lemma emits_event [emits_rules]: "P (Event r) \<Longrightarrow> emits P (event r)"
  by (simp add: emits_def event_def)

lemma emits_bind:
  assumes m: "emits P m" and f: "\<And>x. may_return m x \<Longrightarrow> emits P (f x)"
  shows "emits P (bind_run m f)"
  unfolding emits_def
proof
  fix log
  obtain r log' where run: "m log = (r, log')" by fastforce
  then obtain new where new: "log' = log @ new" "list_all P new" using m by (metis emits_def snd_conv)
  show "\<exists>new. snd (bind_run m f log) = log @ new \<and> list_all P new"
  proof (cases r)
    case (Returned x)
    then have "emits P (f x)" using f run by (auto simp: may_return_def)
    then obtain new' where "snd (f x log') = log' @ new'" "list_all P new'" by (auto simp: emits_def)
    then show ?thesis using run new Returned by (auto simp: bind_run_def)
  qed (use run new in \<open>auto simp: bind_run_def\<close>)
qed

lemma emits_bind_any [emits_rules]: "emits P m \<Longrightarrow> (\<And>x. emits P (f x)) \<Longrightarrow> emits P (bind_run m f)"
  by (rule emits_bind)

lemma emits_if [emits_rules]: "(b \<Longrightarrow> emits P m) \<Longrightarrow> (\<not> b \<Longrightarrow> emits P n) \<Longrightarrow> emits P (if b then m else n)"
  by simp

lemma may_return_pure [simp]:
  "may_return (ret x) y \<longleftrightarrow> y = x" "\<not> may_return (err e) y" "\<not> may_return panic y"
  by (auto simp: may_return_def ret_def err_def panic_def)

lemma may_return_event [simp]: "may_return (event r) y"
  by (simp add: may_return_def event_def)

lemma may_return_bindD:
  assumes "may_return (bind_run m f) y"
  obtains x where "may_return m x" and "may_return (f x) y"
proof -
  obtain log log' where run: "bind_run m f log = (Returned y, log')" using assms by (auto simp: may_return_def)
  obtain r log1 where m: "m log = (r, log1)" by fastforce
  show thesis
  proof (cases r)
    case (Returned x)
    then show thesis using run m that [of x] by (simp add: bind_run_def may_return_def) blast
  qed (use run m in \<open>simp_all add: bind_run_def\<close>)
qed

lemma may_return_bind: "may_return (bind_run m f) y \<Longrightarrow> \<exists>x. may_return m x \<and> may_return (f x) y"
  by (erule may_return_bindD) (intro exI conjI)

lemma may_return_then [simp]: "may_return (bind_run (event r) (\<lambda>_. ret x)) y \<longleftrightarrow> y = x"
  by (auto simp: may_return_def bind_run_def event_def ret_def)

lemma emits_try [emits_rules]: "emits P m \<Longrightarrow> emits P (try_run m)"
proof -
  have "snd (try_run m log) = snd (m log)" for log by (simp add: try_run_def split: prod.split outcome.split)
  then show "emits P m \<Longrightarrow> emits P (try_run m)" by (simp add: emits_def)
qed

lemma emits_lift:
  assumes "\<And>api. emits (\<lambda>e. P (map_effect f e)) (m api)"
  shows "emits P (lift_run f api m)"
  unfolding emits_def
proof
  fix log
  let ?api = "\<lambda>new c. api (log @ map (map_effect f) new) (f c)"
  have "\<exists>new. snd (m ?api []) = [] @ new \<and> list_all (\<lambda>e. P (map_effect f e)) new"
    using assms [of ?api] unfolding emits_def by blast
  then obtain new where "snd (m ?api []) = new" "list_all (\<lambda>e. P (map_effect f e)) new" by auto
  then show "\<exists>new. snd (lift_run f api m log) = log @ new \<and> list_all P new"
    by (intro exI [of _ "map (map_effect f) new"]) (auto simp: lift_run_def list_all_iff split: prod.splits)
qed

definition new_effects :: "('c, 'a) run \<Rightarrow> 'c effect list \<Rightarrow> 'c effect list" where
  "new_effects m log = drop (length log) (snd (m log))"

lemma emits_new_effects: "emits P m \<Longrightarrow> list_all P (new_effects m log)"
  unfolding emits_def new_effects_def by (metis append_eq_conv_conj)

lemma not_emitted:
  assumes "emits (\<lambda>e. e \<noteq> bad) m"
  shows "bad \<notin> set (new_effects m log)"
  using emits_new_effects [OF assms] by (auto simp: list_all_iff)

lemma emits_do_call [emits_rules]:
  "P (Call c) \<Longrightarrow> emits P (do_call step api c)"
  "P (Call c) \<Longrightarrow> emits P (do_call_ignore_missing step api c)"
  unfolding do_call_def do_call_ignore_missing_def by (intro emits_rules; simp)+

text \<open>Runs that succeed, whatever the log, when the API server accepts every call.\<close>

definition completes :: "('c, 'a) run \<Rightarrow> 'a \<Rightarrow> bool" where
  "completes m x \<longleftrightarrow> (\<forall>log. \<exists>new. m log = (Returned x, log @ new))"

lemma completes_ret: "completes (ret x) x"
  by (simp add: completes_def ret_def)

lemma completes_bind: "completes m x \<Longrightarrow> completes (f x) y \<Longrightarrow> completes (bind_run m f) y"
  unfolding completes_def bind_run_def
proof
  fix log
  assume m: "\<forall>log. \<exists>new. m log = (Returned x, log @ new)" and f: "\<forall>log. \<exists>new. f x log = (Returned y, log @ new)"
  obtain n1 where n1: "m log = (Returned x, log @ n1)" using m by blast
  obtain n2 where "f x (log @ n1) = (Returned y, (log @ n1) @ n2)" using f by blast
  with n1 show "\<exists>new. (case m log of (Returned x, log') \<Rightarrow> f x log' | (Failure e, log') \<Rightarrow> (Failure e, log')
      | (Panic, log') \<Rightarrow> (Panic, log')) = (Returned y, log @ new)" by simp
qed

lemma do_call_ok:
  "(\<And>log c. api log c = OK) \<Longrightarrow> do_call step api c log = (Returned (), log @ [Call c])"
  by (simp add: do_call_def bind_run_def call_def ret_def)

lemma completes_do_call: "(\<And>log c. api log c = OK) \<Longrightarrow> completes (do_call step api c) ()"
  by (simp add: completes_def do_call_ok)

lemma completes_event: "completes (event r) ()"
  by (simp add: completes_def event_def)

text \<open>A run that sends one call and then completes has sent it.\<close>

lemma completes_after:
  assumes "completes m a" and "\<And>log. f a log = (Returned b, log @ [Call c])" and "completes (g b) x"
  shows "\<exists>new. bind_run m (\<lambda>y. bind_run (f y) g) log = (Returned x, log @ new) \<and> Call c \<in> set new"
proof -
  obtain n1 where "m log = (Returned a, log @ n1)" using assms(1) by (auto simp: completes_def)
  moreover obtain n2 where "g b ((log @ n1) @ [Call c]) = (Returned x, ((log @ n1) @ [Call c]) @ n2)"
    using assms(3) unfolding completes_def by blast
  ultimately show ?thesis
    by (intro exI [of _ "n1 @ [Call c] @ n2"]) (simp add: bind_run_def assms(2))
qed

lemma bind_run_assoc: "bind_run (bind_run m f) g = bind_run m (\<lambda>x. bind_run (f x) g)"
  by (rule ext) (simp add: bind_run_def split: prod.split outcome.split)

lemma bind_run_Returned:
  assumes "bind_run m f log = (Returned y, log')"
  obtains x log1 where "m log = (Returned x, log1)" and "f x log1 = (Returned y, log')"
  using assms by (auto simp: bind_run_def split: prod.splits outcome.splits)

lemma emits_log: "emits (\<lambda>_. True) m \<Longrightarrow> m log = (r, log') \<Longrightarrow> \<exists>new. log' = log @ new"
  unfolding emits_def by (metis snd_conv)

lemma emits_True: "emits P m \<Longrightarrow> emits (\<lambda>_. True) m"
  unfolding emits_def by (auto simp: list_all_iff)

text \<open>Runs that never panic.\<close>

definition no_panic :: "('c, 'a) run \<Rightarrow> bool" where
  "no_panic m \<longleftrightarrow> (\<forall>log. fst (m log) \<noteq> Panic)"

named_theorems no_panic_rules

lemma no_panic_basic [no_panic_rules]:
  "no_panic (ret x)" "no_panic (err e)" "no_panic (call api c)" "no_panic (event r)"
  by (simp_all add: no_panic_def ret_def err_def call_def event_def)

lemma no_panic_bind [no_panic_rules]: "no_panic m \<Longrightarrow> (\<And>x. no_panic (f x)) \<Longrightarrow> no_panic (bind_run m f)"
  unfolding no_panic_def bind_run_def by (auto split: prod.splits outcome.splits) (metis fst_conv)

lemma no_panic_do_call [no_panic_rules]: "no_panic (do_call step api c)" "no_panic (do_call_ignore_missing step api c)"
  unfolding do_call_def do_call_ignore_missing_def by (auto intro!: no_panic_rules)

lemma no_panic_try [no_panic_rules]: "no_panic m \<Longrightarrow> no_panic (try_run m)"
  unfolding no_panic_def try_run_def by (auto split: prod.splits outcome.splits) (metis fst_conv)

lemma no_panic_lift [no_panic_rules]: "(\<And>a. no_panic (m a)) \<Longrightarrow> no_panic (lift_run f api m)"
  unfolding no_panic_def lift_run_def by (auto split: prod.splits) (metis fst_conv)

text \<open>Runs that return a value, whatever the server does.\<close>

definition returns :: "('c, 'a) run \<Rightarrow> bool" where
  "returns m \<longleftrightarrow> (\<forall>log. \<exists>x log'. m log = (Returned x, log'))"

named_theorems returns_rules

lemma returns_basic [returns_rules]: "returns (ret x)" "returns (call api c)" "returns (event r)"
  by (simp_all add: returns_def ret_def call_def event_def)

lemma returns_bind [returns_rules]: "returns m \<Longrightarrow> (\<And>x. returns (f x)) \<Longrightarrow> returns (bind_run m f)"
  unfolding returns_def bind_run_def by (auto split: prod.splits outcome.splits) (metis outcome.distinct prod.inject)+

lemma returns_try [returns_rules]: "no_panic m \<Longrightarrow> returns (try_run m)"
  unfolding returns_def no_panic_def try_run_def
  by (auto split: prod.splits outcome.splits) (metis fst_conv outcome.exhaust)+

text \<open>
  Triples: from a state with the precondition, a run sends only effects that satisfy \<open>P\<close>, and what it
  returns satisfies the postcondition.
\<close>

lemma bind_run_ret [simp]: "bind_run (ret x) f = f x"
  by (rule ext) (simp add: bind_run_def ret_def)

lemma may_return_cond_event [simp]:
  "may_return (bind_run (if b then event r else ret ()) (\<lambda>_. ret x)) y \<longleftrightarrow> y = x"
  by (cases b) simp_all

definition triple :: "('s \<Rightarrow> bool) \<Rightarrow> ('c effect \<Rightarrow> bool) \<Rightarrow> ('s \<Rightarrow> ('c, 'a) run) \<Rightarrow> ('a \<Rightarrow> bool) \<Rightarrow> bool" where
  "triple pre P m post \<longleftrightarrow> (\<forall>s. pre s \<longrightarrow> emits P (m s) \<and> (\<forall>x. may_return (m s) x \<longrightarrow> post x))"

lemma tripleI:
  "(\<And>s. pre s \<Longrightarrow> emits P (m s)) \<Longrightarrow> (\<And>s x. pre s \<Longrightarrow> may_return (m s) x \<Longrightarrow> post x) \<Longrightarrow> triple pre P m post"
  by (simp add: triple_def)

lemma triple_emits: "triple pre P m post \<Longrightarrow> pre s \<Longrightarrow> emits P (m s)"
  by (simp add: triple_def)

lemma triple_bind:
  assumes "triple pre P m mid" and "\<And>x. mid x \<Longrightarrow> emits P (f x) \<and> (\<forall>y. may_return (f x) y \<longrightarrow> post y)"
  shows "triple pre P (\<lambda>s. bind_run (m s) f) post"
  using assms by (auto simp: triple_def intro: emits_bind elim!: may_return_bindD)

text \<open>Runs of one component inside another one.\<close>

lemma may_return_lift:
  assumes "may_return (lift_run f api m) x"
  shows "\<exists>api'. may_return (m api') x"
proof -
  obtain log log' where run: "lift_run f api m log = (Returned x, log')" using assms by (auto simp: may_return_def)
  let ?api = "\<lambda>new c. api (log @ map (map_effect f) new) (f c)"
  obtain r new where inner: "m ?api [] = (r, new)" by fastforce
  then have "r = Returned x" using run by (simp add: lift_run_def)
  with inner have "may_return (m ?api) x" unfolding may_return_def by blast
  then show ?thesis by blast
qed

lemma emits_lift_any:
  "(\<And>e. P (map_effect f e)) \<Longrightarrow> (\<And>a. emits (\<lambda>_. True) (m a)) \<Longrightarrow> emits P (lift_run f api m)"
  by (intro emits_lift) simp

lemma lift_run_ret [simp]: "lift_run f api (\<lambda>_. ret x) = ret x"
  by (rule ext) (simp add: lift_run_def ret_def)

lemma may_return_lift_bind:
  assumes "may_return (bind_run (lift_run f api m) g) y"
  obtains api' x where "may_return (m api') x" and "may_return (g x) y"
proof -
  obtain x where x: "may_return (lift_run f api m) x" and y: "may_return (g x) y" using assms by (rule may_return_bindD)
  obtain api' where "may_return (m api') x" using may_return_lift [OF x] by blast
  then show thesis using y by (rule that)
qed

end
