(* ===== verification/SyncPowerState.thy ===== *)
theory SyncPowerState
  imports PowerState Conditions Effects
begin

text \<open>
  The handler that enforces the run policy of a virtual machine
  (\<^verbatim>\<open>pkg/controller/vm/internal/sync_power_state.go\<close>), with the power operations it calls
  (\<^verbatim>\<open>powerstate/operations.go\<close>) and the annotation helpers (\<^verbatim>\<open>common/object/object.go\<close>).  Runs and the API server are those of \<^verbatim>\<open>Effects\<close>.

  A patch makes the client refresh the object
  it was given from the answer of the server; the annotations and requests the later steps read are
  those of the object that was read first, since no step patches what a later one reads.
\<close>

section \<open>Calls\<close>

datatype api_call =
    PatchKVVMStatus "patch_op list"
  | PatchRunStrategy string
  | PatchGracePeriodZero
  | DeleteKVVMI "kvvmi option"
  | DeletePod pod
  | ListPods
  | SetAnnotation string string
  | UnsetAnnotation string

type_synonym power_api = "api_call api_server"

type_synonym 'a power_run = "(api_call, 'a) run"

section \<open>object.go and kvvm.go: annotations\<close>

abbreviation AnnVMStartRequested :: string where
  "AnnVMStartRequested \<equiv> ''virtualization.deckhouse.io/vm-start-requested''"
abbreviation AnnVMRestartRequested :: string where
  "AnnVMRestartRequested \<equiv> ''virtualization.deckhouse.io/vm-restart-requested''"

definition EnsureAnnotation :: "power_api \<Rightarrow> kvvm \<Rightarrow> string \<Rightarrow> string \<Rightarrow> unit power_run" where
  "EnsureAnnotation api obj annoKey annoValue =
     (if kvvm_Annotations obj annoKey = Some annoValue then ret ()
      else do_call ''annotate'' api (SetAnnotation annoKey annoValue))"

definition RemoveAnnotation :: "power_api \<Rightarrow> kvvm \<Rightarrow> string \<Rightarrow> unit power_run" where
  "RemoveAnnotation api obj annoKey =
     (if kvvm_Annotations obj annoKey = None then ret ()
      else do_call ''annotate'' api (UnsetAnnotation annoKey))"

definition AddStartAnnotation :: "power_api \<Rightarrow> kvvm \<Rightarrow> unit power_run" where
  "AddStartAnnotation api kvvm = EnsureAnnotation api kvvm AnnVMStartRequested ''true''"

definition AddRestartAnnotation :: "power_api \<Rightarrow> kvvm \<Rightarrow> unit power_run" where
  "AddRestartAnnotation api kvvm = EnsureAnnotation api kvvm AnnVMRestartRequested ''true''"

definition RemoveStartAnnotation :: "power_api \<Rightarrow> kvvm \<Rightarrow> unit power_run" where
  "RemoveStartAnnotation api kvvm = RemoveAnnotation api kvvm AnnVMStartRequested"

definition RemoveRestartAnnotation :: "power_api \<Rightarrow> kvvm \<Rightarrow> unit power_run" where
  "RemoveRestartAnnotation api kvvm = RemoveAnnotation api kvvm AnnVMRestartRequested"

section \<open>operations.go\<close>

definition StartVM :: "power_api \<Rightarrow> kvvm option \<Rightarrow> unit power_run" where
  "StartVM api kvvm =
     (case kvvm of
        None \<Rightarrow> err ''kvvm must not be empty''
      | Some vm \<Rightarrow>
          (case BuildPatch vm [\<lparr> scr_Action = StartRequest, scr_UID = None \<rparr>] of
             Inl ErrChangesAlreadyExist \<Rightarrow> ret ()
           | Inl ErrAlreadyUnderway \<Rightarrow> err ''already underway''
           | Inr jp \<Rightarrow> do_call ''patch status'' api (PatchKVVMStatus jp)))"

definition StopVM :: "power_api \<Rightarrow> kvvmi option \<Rightarrow> bool option \<Rightarrow> unit power_run" where
  "StopVM api kvvmi force =
     (case kvvmi of
        None \<Rightarrow> err ''kvvmi must not be empty''
      | Some vmi \<Rightarrow>
          bind_run
            (if force = Some True then do_call_ignore_missing ''patch grace period'' api PatchGracePeriodZero
             else ret ())
            (\<lambda>_. do_call ''delete'' api (DeleteKVVMI (Some vmi))))"

text \<open>
  \<^verbatim>\<open>FindPodByKVVMI\<close> lists the pods by label; the pods the server has are a parameter.
\<close>

definition DeletePodByKVVMI :: "power_api \<Rightarrow> pod list \<Rightarrow> kvvmi \<Rightarrow> unit power_run" where
  "DeletePodByKVVMI api pods kvvmi =
     bind_run (do_call ''list pods'' api ListPods) (\<lambda>_.
       if length pods = 0 then ret ()
       else case GetVMPod (Some kvvmi) pods of
              None \<Rightarrow> ret ()
            | Some pod \<Rightarrow>
                if pod_Deleting pod then ret ()
                else do_call_ignore_missing ''delete pod'' api (DeletePod pod))"

definition RestartVM :: "power_api \<Rightarrow> pod list \<Rightarrow> kvvm option \<Rightarrow> kvvmi option \<Rightarrow> bool \<Rightarrow> unit power_run" where
  "RestartVM api pods kvvm kvvmi force =
     (case (kvvm, kvvmi) of
        (None, _) \<Rightarrow> err ''kvvm must not be empty''
      | (Some vm, None) \<Rightarrow> err ''kvvmi must not be empty''
      | (Some vm, Some vmi) \<Rightarrow>
          (case BuildPatch vm (restartRequest vmi) of
             Inl ErrChangesAlreadyExist \<Rightarrow> ret ()
           | Inl ErrAlreadyUnderway \<Rightarrow> err ''already underway''
           | Inr jp \<Rightarrow>
               bind_run (do_call ''patch status'' api (PatchKVVMStatus jp)) (\<lambda>_.
                 if force then DeletePodByKVVMI api pods vmi else ret ())))"

definition SafeRestartVM :: "power_api \<Rightarrow> kvvm option \<Rightarrow> kvvmi option \<Rightarrow> unit power_run" where
  "SafeRestartVM api kvvm kvvmi =
     (case (kvvm, kvvmi) of
        (None, _) \<Rightarrow> err ''kvvm must not be empty''
      | (Some vm, None) \<Rightarrow> err ''kvvmi must not be empty''
      | (Some vm, Some vmi) \<Rightarrow>
          (case BuildPatchSafeRestart vm vmi of
             None \<Rightarrow> ret ()
           | Some jp \<Rightarrow> do_call ''patch status'' api (PatchKVVMStatus jp)))"

section \<open>sync\_power\_state.go\<close>

datatype vm_action = Nothing | Start | Stop | Restart

abbreviation ReasonVMStarted :: string where "ReasonVMStarted \<equiv> ''Started''"
abbreviation ReasonVMStopped :: string where "ReasonVMStopped \<equiv> ''Stopped''"
abbreviation ReasonVMRestarted :: string where "ReasonVMRestarted \<equiv> ''Restarted''"
abbreviation ReasonVMChangesApplied :: string where "ReasonVMChangesApplied \<equiv> ''ChangesApplied''"

text \<open>
  What the handler reads from the state of a reconciliation: the virtual machine, the internal
  machine, its instance and its pod (each read may fail), the shutdown information the pod handler
  left, and the run policy of the specification that was applied last.
\<close>

record 'q power_state =
  ps_VM :: "'q virtual_machine option"
  ps_KVVM :: "(string, kvvm option) result"
  ps_KVVMI :: "(string, kvvmi option) result"
  ps_Pod :: "(string, pod option) result"
  ps_ShutdownInfo :: shutdown_info
  ps_LastAppliedRunPolicy :: "(string, string option) result"

definition requested :: "kvvm \<Rightarrow> string \<Rightarrow> bool" where
  "requested kvvm ann \<longleftrightarrow> kvvm_Annotations kvvm ann = Some ''true''"

definition opt_completed :: "kvvmi option \<Rightarrow> bool" where
  "opt_completed kvvmi = (case kvvmi of None \<Rightarrow> False | Some vmi \<Rightarrow> kvvmiCompleted vmi)"

definition handleAlwaysOffPolicy :: "kvvmi option \<Rightarrow> vm_action power_run" where
  "handleAlwaysOffPolicy kvvmi =
     (if kvvmi \<noteq> None then bind_run (event ReasonVMStopped) (\<lambda>_. ret Stop) else ret Nothing)"

definition checkNeedStartVM :: "kvvm \<Rightarrow> bool \<Rightarrow> bool power_run" where
  "checkNeedStartVM kvvm isConfigurationApplied =
     (if isConfigurationApplied \<and> (requested kvvm AnnVMStartRequested \<or> requested kvvm AnnVMRestartRequested)
      then bind_run (event ReasonVMStarted) (\<lambda>_. ret True)
      else ret False)"

definition isVMRestarting :: "kvvm option \<Rightarrow> bool" where
  "isVMRestarting kvvm =
     (case kvvm of
        None \<Rightarrow> False
      | Some vm \<Rightarrow> map scr_Action (kvvm_StateChangeRequests vm) = [StopRequest, StartRequest])"

text \<open>
  The manual policy.  The last part dereferences the instance, which is there: it is only reached
  with an instance.
\<close>

definition manual_tail :: "kvvm \<Rightarrow> kvvmi option \<Rightarrow> shutdown_info \<Rightarrow> vm_action power_run" where
  "manual_tail kvvm kvvmi shutdownInfo =
     (case kvvmi of
        None \<Rightarrow> if requested kvvm AnnVMRestartRequested then panic else ret Nothing
      | Some vmi \<Rightarrow>
          if requested kvvm AnnVMRestartRequested \<and> kvvmi_Phase vmi = Running
          then bind_run (event ReasonVMRestarted) (\<lambda>_. ret Restart)
          else if kvvmiCompleted vmi \<and> si_PodCompleted shutdownInfo then
            if si_Reason shutdownInfo = GuestResetReason
            then bind_run (event ReasonVMRestarted) (\<lambda>_. ret Restart)
            else bind_run (event ReasonVMStopped) (\<lambda>_. ret Stop)
          else ret Nothing)"

definition handleManualPolicy ::
  "kvvm \<Rightarrow> kvvmi option \<Rightarrow> bool \<Rightarrow> shutdown_info \<Rightarrow> vm_action power_run" where
  "handleManualPolicy kvvm kvvmi isConfigurationApplied shutdownInfo =
     (if (case kvvmi of None \<Rightarrow> True | Some vmi \<Rightarrow> kvvmi_Deleting vmi \<or> kvvmiCompleted vmi)
      then bind_run (checkNeedStartVM kvvm isConfigurationApplied) (\<lambda>start.
             if start then ret Start
             else if \<not> opt_completed kvvmi then ret Nothing
             else manual_tail kvvm kvvmi shutdownInfo)
      else manual_tail kvvm kvvmi shutdownInfo)"

definition handleAlwaysOnPolicy ::
  "power_api \<Rightarrow> kvvm \<Rightarrow> kvvmi option \<Rightarrow> bool \<Rightarrow> shutdown_info \<Rightarrow> vm_action power_run" where
  "handleAlwaysOnPolicy api kvvm kvvmi isConfigurationApplied shutdownInfo =
     (case kvvmi of
        None \<Rightarrow>
          if isVMRestarting (Some kvvm) then ret Nothing
          else if isConfigurationApplied then bind_run (event ReasonVMStarted) (\<lambda>_. ret Start)
          else bind_run (AddStartAnnotation api kvvm) (\<lambda>_. ret Nothing)
      | Some vmi \<Rightarrow>
          if kvvmi_Deleting vmi then
            bind_run (checkNeedStartVM kvvm isConfigurationApplied) (\<lambda>start.
              if start then ret Start else ret Nothing)
          else if requested kvvm AnnVMRestartRequested \<and> kvvmi_Phase vmi = Running
          then bind_run (event ReasonVMRestarted) (\<lambda>_. ret Restart)
          else if kvvmi_Phase vmi = Succeeded \<or> kvvmi_Phase vmi = Failed
          then bind_run (event ReasonVMRestarted) (\<lambda>_. ret Restart)
          else ret Nothing)"

definition stopped_manually_absent ::
  "power_api \<Rightarrow> 'q power_state \<Rightarrow> kvvm \<Rightarrow> bool \<Rightarrow> vm_action power_run" where
  "stopped_manually_absent api s kvvm isConfigurationApplied =
     bind_run (checkNeedStartVM kvvm isConfigurationApplied) (\<lambda>start.
       if start then ret Start
       else case ps_LastAppliedRunPolicy s of
              Inl _ \<Rightarrow> err ''load last applied spec''
            | Inr lastPolicy \<Rightarrow>
                if lastPolicy = Some AlwaysOffPolicy
                then bind_run (AddStartAnnotation api kvvm) (\<lambda>_. ret Nothing)
                else ret Nothing)"

definition handleAlwaysOnUnlessStoppedManuallyPolicy ::
  "power_api \<Rightarrow> 'q power_state \<Rightarrow> kvvm \<Rightarrow> kvvmi option \<Rightarrow> bool \<Rightarrow> shutdown_info \<Rightarrow> vm_action power_run" where
  "handleAlwaysOnUnlessStoppedManuallyPolicy api s kvvm kvvmi isConfigurationApplied shutdownInfo =
     (case kvvmi of
        None \<Rightarrow> stopped_manually_absent api s kvvm isConfigurationApplied
      | Some vmi \<Rightarrow>
          if kvvmi_Deleting vmi then stopped_manually_absent api s kvvm isConfigurationApplied
          else if requested kvvm AnnVMRestartRequested \<and> kvvmi_Phase vmi = Running
          then bind_run (event ReasonVMRestarted) (\<lambda>_. ret Restart)
          else case ps_Pod s of
                 Inl _ \<Rightarrow> err ''get pod''
               | Inr vmPod \<Rightarrow>
                   if kvvmi_Phase vmi = Succeeded then
                     if si_PodCompleted shutdownInfo then
                       if si_Reason shutdownInfo = GuestResetReason
                       then bind_run (event ReasonVMRestarted) (\<lambda>_. ret Restart)
                       else if (case vmPod of None \<Rightarrow> True | Some p \<Rightarrow> pod_Deleting p)
                       then bind_run (event ReasonVMRestarted) (\<lambda>_. ret Restart)
                       else bind_run (event ReasonVMStopped) (\<lambda>_. ret Stop)
                     else if vmPod = None then err ''find VM pod''
                     else ret Nothing
                   else if kvvmi_Phase vmi = Failed
                   then bind_run (event ReasonVMRestarted) (\<lambda>_. ret Restart)
                   else ret Nothing)"

definition ensureRunStrategy :: "power_api \<Rightarrow> kvvm option \<Rightarrow> string \<Rightarrow> unit power_run" where
  "ensureRunStrategy api kvvm desiredRunStrategy =
     (if kvvm = None then ret ()
      else if GetRunStrategy kvvm = desiredRunStrategy then ret ()
      else do_call ''patch runStrategy'' api (PatchRunStrategy desiredRunStrategy))"

text \<open>
  A deletion is handed whatever pointer there is, also nil: what the client does with it is up to
  the parameter.
\<close>

definition deleteKVVMI :: "power_api \<Rightarrow> kvvmi option \<Rightarrow> unit power_run" where
  "deleteKVVMI api kvvmi = do_call_ignore_missing ''delete KVVMI'' api (DeleteKVVMI kvvmi)"

definition interruptRunningVM :: "power_api \<Rightarrow> kvvm \<Rightarrow> kvvmi option \<Rightarrow> unit power_run" where
  "interruptRunningVM api kvvm kvvmi =
     bind_run
       (if kvvmi \<noteq> None then do_call_ignore_missing ''stop VM'' api (DeleteKVVMI kvvmi) else ret ())
       (\<lambda>_. AddStartAnnotation api kvvm)"

definition start_vm :: "power_api \<Rightarrow> kvvm \<Rightarrow> bool \<Rightarrow> unit power_run" where
  "start_vm api kvvm isConfigurationApplied =
     (if \<not> isConfigurationApplied
      then bind_run (event ReasonVMStopped) (\<lambda>_. interruptRunningVM api kvvm None)
      else bind_run (StartVM api (Some kvvm)) (\<lambda>_.
             bind_run (RemoveStartAnnotation api kvvm) (\<lambda>_. RemoveRestartAnnotation api kvvm)))"

definition restart_vm :: "power_api \<Rightarrow> kvvm \<Rightarrow> kvvmi option \<Rightarrow> bool \<Rightarrow> unit power_run" where
  "restart_vm api kvvm kvvmi isConfigurationApplied =
     (if \<not> isConfigurationApplied
      then bind_run (event ReasonVMStopped) (\<lambda>_. interruptRunningVM api kvvm kvvmi)
      else bind_run (SafeRestartVM api (Some kvvm) kvvmi) (\<lambda>_.
             bind_run (RemoveStartAnnotation api kvvm) (\<lambda>_. RemoveRestartAnnotation api kvvm)))"

text \<open>
  The restart that applies changes: the approval mode is read through the pointer
  \<^verbatim>\<open>Spec.Disruptions\<close>, and only when the condition asks for a restart.  The restart is not forced, so
  it does not look at pods.
\<close>

definition restart_to_apply_changes :: "power_api \<Rightarrow> 'q virtual_machine \<Rightarrow> kvvm \<Rightarrow> kvvmi option \<Rightarrow> unit power_run" where
  "restart_to_apply_changes api vm kvvm kvvmi =
     (case GetCondition TypeAwaitingRestart (Conditions (vm_Status vm)) of
        (cbAwaitingRestart, exist) \<Rightarrow>
          if exist \<and> cond_Status cbAwaitingRestart = ConditionTrue \<and>
             cond_ObservedGeneration cbAwaitingRestart = vm_Generation vm
          then case Disruptions (vm_Spec vm) of
                 None \<Rightarrow> panic
               | Some d \<Rightarrow>
                   if RestartApprovalMode d = Automatic
                   then bind_run (event ReasonVMChangesApplied) (\<lambda>_.
                          bind_run (event ReasonVMRestarted) (\<lambda>_.
                            RestartVM api [] (Some kvvm) kvvmi False))
                   else ret ()
          else ret ())"

definition enforce_run_strategy :: "power_api \<Rightarrow> kvvm \<Rightarrow> kvvmi option \<Rightarrow> string \<Rightarrow> unit power_run" where
  "enforce_run_strategy api kvvm kvvmi runPolicy =
     (if runPolicy = AlwaysOnUnlessStoppedManually then
        if kvvmi \<noteq> None then ensureRunStrategy api (Some kvvm) RunStrategyManual
        else if kvvm_RunStrategy kvvm = Some RunStrategyAlways then event ReasonVMStarted
        else ret ()
      else ensureRunStrategy api (Some kvvm) RunStrategyManual)"

definition decide_action ::
  "power_api \<Rightarrow> 'q power_state \<Rightarrow> 'q virtual_machine \<Rightarrow> kvvm \<Rightarrow> kvvmi option \<Rightarrow> string \<Rightarrow> vm_action power_run" where
  "decide_action api s changed kvvm kvvmi runPolicy =
     (let isConfigurationApplied = virtualMachineDependenciesAreReady changed;
          shutdownInfo = ps_ShutdownInfo s;
          maintenance = fst (GetCondition TypeMaintenance (Conditions (vm_Status changed)))
      in if cond_Status maintenance \<noteq> ConditionTrue then
           if runPolicy = AlwaysOffPolicy then handleAlwaysOffPolicy kvvmi
           else if runPolicy = AlwaysOnPolicy
           then handleAlwaysOnPolicy api kvvm kvvmi isConfigurationApplied shutdownInfo
           else if runPolicy = AlwaysOnUnlessStoppedManually
           then handleAlwaysOnUnlessStoppedManuallyPolicy api s kvvm kvvmi isConfigurationApplied shutdownInfo
           else if runPolicy = ManualPolicy
           then handleManualPolicy kvvm kvvmi isConfigurationApplied shutdownInfo
           else ret Nothing
         else ret Stop)"

fun perform_action ::
  "power_api \<Rightarrow> 'q virtual_machine \<Rightarrow> kvvm \<Rightarrow> kvvmi option \<Rightarrow> vm_action \<Rightarrow> unit power_run" where
  "perform_action api changed kvvm kvvmi Nothing = restart_to_apply_changes api changed kvvm kvvmi"
| "perform_action api changed kvvm kvvmi Start =
     start_vm api kvvm (virtualMachineDependenciesAreReady changed)"
| "perform_action api changed kvvm kvvmi Stop = deleteKVVMI api kvvmi"
| "perform_action api changed kvvm kvvmi Restart =
     restart_vm api kvvm kvvmi (virtualMachineDependenciesAreReady changed)"

definition syncPowerState ::
  "power_api \<Rightarrow> 'q power_state \<Rightarrow> 'q virtual_machine \<Rightarrow> kvvm option \<Rightarrow> string \<Rightarrow> unit power_run" where
  "syncPowerState api s changed kvvm runPolicy =
     (case kvvm of
        None \<Rightarrow> ret ()
      | Some kv \<Rightarrow>
          (case ps_KVVMI s of
             Inl _ \<Rightarrow> err ''find the virtual machine instance''
           | Inr kvvmi \<Rightarrow>
               bind_run (enforce_run_strategy api kv kvvmi runPolicy) (\<lambda>_.
                 bind_run (decide_action api s changed kv kvvmi runPolicy)
                   (perform_action api changed kv kvvmi))))"

definition SyncPowerState_Handle :: "power_api \<Rightarrow> 'q power_state \<Rightarrow> unit power_run" where
  "SyncPowerState_Handle api s =
     (case ps_VM s of
        None \<Rightarrow> ret ()
      | Some changed \<Rightarrow>
          if vm_Deleting changed then ret ()
          else case ps_KVVM s of
                 Inl _ \<Rightarrow> err ''find the internal virtual machine''
               | Inr kvvm \<Rightarrow> syncPowerState api s changed kvvm (RunPolicy (vm_Spec changed)))"

lemma emits_annotations [emits_rules]:
  "(\<And>k v. P (Call (SetAnnotation k v))) \<Longrightarrow> emits P (AddStartAnnotation api kv)"
  "(\<And>k. P (Call (UnsetAnnotation k))) \<Longrightarrow> emits P (RemoveStartAnnotation api kv)"
  "(\<And>k. P (Call (UnsetAnnotation k))) \<Longrightarrow> emits P (RemoveRestartAnnotation api kv)"
  unfolding AddStartAnnotation_def RemoveStartAnnotation_def RemoveRestartAnnotation_def
    EnsureAnnotation_def RemoveAnnotation_def
  by (intro emits_rules; simp)+

text \<open>What each operation may send.\<close>

lemma emits_interrupt [emits_rules]:
  assumes "\<And>k v. P (Call (SetAnnotation k v))" and "\<And>vmi. kvvmi = Some vmi \<Longrightarrow> P (Call (DeleteKVVMI (Some vmi)))"
  shows "emits P (interruptRunningVM api kv kvvmi)"
  unfolding interruptRunningVM_def by (intro emits_rules) (use assms in auto)

lemma emits_StartVM [emits_rules]:
  "(\<And>jp. P (Call (PatchKVVMStatus jp))) \<Longrightarrow> emits P (StartVM api kvvm)"
  unfolding StartVM_def by (auto split: option.split sum.split patch_error.split intro!: emits_rules)

lemma emits_SafeRestartVM [emits_rules]:
  "(\<And>jp. P (Call (PatchKVVMStatus jp))) \<Longrightarrow> emits P (SafeRestartVM api kvvm kvvmi)"
  unfolding SafeRestartVM_def by (auto split: option.split intro!: emits_rules)

lemma emits_RestartVM [emits_rules]:
  assumes "\<And>jp. kvvmi \<noteq> None \<Longrightarrow> P (Call (PatchKVVMStatus jp))"
  shows "emits P (RestartVM api [] kvvm kvvmi False)"
  unfolding RestartVM_def by (auto split: option.split sum.split patch_error.split intro!: emits_rules simp: assms)

text \<open>An effect that neither powers the machine on or off nor fails to be an event or a bookkeeping call.\<close>

fun bookkeeping :: "api_call effect \<Rightarrow> bool" where
  "bookkeeping (Event r) = True"
| "bookkeeping (Call (PatchRunStrategy st)) = True"
| "bookkeeping (Call (SetAnnotation k v)) = True"
| "bookkeeping (Call (UnsetAnnotation k)) = True"
| "bookkeeping (Call c) = False"

lemma emits_checkNeedStartVM:
  "(\<And>e. bookkeeping e \<Longrightarrow> P e) \<Longrightarrow> emits P (checkNeedStartVM kv applied)"
  unfolding checkNeedStartVM_def by (intro emits_rules) simp_all

lemma emits_say [emits_rules]: "P (Event r) \<Longrightarrow> emits P (bind_run (event r) (\<lambda>_. ret a))"
  by (intro emits_rules)

lemma emits_manual_tail:
  "(\<And>e. bookkeeping e \<Longrightarrow> P e) \<Longrightarrow> emits P (manual_tail kv kvvmi info)"
  unfolding manual_tail_def by (cases kvvmi) (simp_all add: emits_rules)

lemma emits_handleManualPolicy:
  "(\<And>e. bookkeeping e \<Longrightarrow> P e) \<Longrightarrow> emits P (handleManualPolicy kv kvvmi applied info)"
  unfolding handleManualPolicy_def
  by (intro emits_if emits_bind_any emits_checkNeedStartVM emits_manual_tail emits_pure) simp_all

lemma emits_handleAlwaysOnPolicy:
  assumes "\<And>e. bookkeeping e \<Longrightarrow> P e"
  shows "emits P (handleAlwaysOnPolicy api kv kvvmi applied info)"
proof (cases kvvmi)
  case None
  then show ?thesis unfolding handleAlwaysOnPolicy_def option.case using assms by (simp add: emits_rules)
next
  case (Some vmi)
  show ?thesis unfolding handleAlwaysOnPolicy_def Some option.case
    by (intro emits_if emits_say emits_bind_any emits_checkNeedStartVM emits_pure assms) simp_all
qed

lemma emits_stopped_manually_absent:
  assumes "\<And>e. bookkeeping e \<Longrightarrow> P e"
  shows "emits P (stopped_manually_absent api s kv applied)"
  unfolding stopped_manually_absent_def
  by (intro emits_bind_any emits_checkNeedStartVM emits_if emits_pure assms; cases "ps_LastAppliedRunPolicy s")
    (simp_all add: assms emits_rules)

lemma emits_handleAlwaysOnUnlessStoppedManuallyPolicy:
  assumes "\<And>e. bookkeeping e \<Longrightarrow> P e"
  shows "emits P (handleAlwaysOnUnlessStoppedManuallyPolicy api s kv kvvmi applied info)"
proof (cases kvvmi)
  case None
  then show ?thesis
    unfolding handleAlwaysOnUnlessStoppedManuallyPolicy_def by (simp add: emits_stopped_manually_absent assms)
next
  case (Some vmi)
  show ?thesis unfolding handleAlwaysOnUnlessStoppedManuallyPolicy_def Some option.case
    by (cases "ps_Pod s") (simp_all add: assms emits_stopped_manually_absent emits_rules)
qed

lemma emits_decide:
  assumes "\<And>e. bookkeeping e \<Longrightarrow> P e"
  shows "emits P (decide_action api s v kv kvvmi policy)"
  unfolding decide_action_def handleAlwaysOffPolicy_def Let_def
  by (intro emits_if emits_say emits_pure emits_handleAlwaysOnPolicy emits_handleManualPolicy
      emits_handleAlwaysOnUnlessStoppedManuallyPolicy assms) simp_all

lemma emits_enforce:
  assumes P: "\<And>e. bookkeeping e \<Longrightarrow> P e"
  shows "emits P (enforce_run_strategy api kv kvvmi policy)"
  unfolding enforce_run_strategy_def ensureRunStrategy_def by (intro emits_rules) (simp_all add: P)

text \<open>
  The handler sends what the chosen action sends, apart from bookkeeping.
\<close>

lemma emits_Handle:
  assumes P: "\<And>e. bookkeeping e \<Longrightarrow> P e"
    and act: "\<And>v kv kvvmi a. ps_VM s = Some v \<Longrightarrow> ps_KVVM s = Inr (Some kv) \<Longrightarrow> ps_KVVMI s = Inr kvvmi \<Longrightarrow>
        may_return (decide_action api s v kv kvvmi (RunPolicy (vm_Spec v))) a \<Longrightarrow>
        emits P (perform_action api v kv kvvmi a)"
  shows "emits P (SyncPowerState_Handle api s)"
proof -
  have "emits P (syncPowerState api s v kvvm (RunPolicy (vm_Spec v)))"
    if v: "ps_VM s = Some v" and kvvm: "ps_KVVM s = Inr kvvm" for v kvvm
  proof (cases kvvm)
    case None
    then show ?thesis by (simp add: syncPowerState_def emits_rules)
  next
    case (Some kv)
    show ?thesis
    proof (cases "ps_KVVMI s")
      case (Inl e)
      then show ?thesis using Some by (simp add: syncPowerState_def emits_rules)
    next
      case (Inr kvvmi)
      show ?thesis unfolding syncPowerState_def Some option.case Inr sum.case
        by (intro emits_bind emits_enforce emits_decide P act) (use v kvvm Some Inr in simp_all)
    qed
  qed
  then show ?thesis
    unfolding SyncPowerState_Handle_def by (auto split: option.split sum.split simp: emits_rules)
qed

section \<open>Which action is chosen when\<close>

definition in_maintenance :: "'q virtual_machine \<Rightarrow> bool" where
  "in_maintenance v \<longleftrightarrow>
     cond_Status (fst (GetCondition TypeMaintenance (Conditions (vm_Status v)))) = ConditionTrue"

definition power_on_requested :: "kvvm \<Rightarrow> bool" where
  "power_on_requested kv \<longleftrightarrow> requested kv AnnVMStartRequested \<or> requested kv AnnVMRestartRequested"

definition stopped_by_guest :: "kvvmi option \<Rightarrow> shutdown_info \<Rightarrow> bool" where
  "stopped_by_guest kvvmi info \<longleftrightarrow>
     opt_completed kvvmi \<and> si_PodCompleted info \<and> si_Reason info \<noteq> GuestResetReason"

lemma may_return_if: "may_return (if b then m else n) y \<longleftrightarrow> (if b then may_return m y else may_return n y)"
  by simp

lemma may_return_checkNeedStartVM [simp]:
  "may_return (checkNeedStartVM kv applied) b \<longleftrightarrow> b = (applied \<and> power_on_requested kv)"
  by (auto simp: checkNeedStartVM_def power_on_requested_def)

lemma may_return_checkD:
  "may_return (bind_run (checkNeedStartVM kv applied) f) y \<Longrightarrow> may_return (f (applied \<and> power_on_requested kv)) y"
  by (erule may_return_bindD) simp

lemma may_return_lastD: "may_return (bind_run m (\<lambda>_. ret a)) y \<Longrightarrow> y = a"
  by (erule may_return_bindD) simp

lemma manual_tail_returns:
  assumes "may_return (manual_tail kv kvvmi info) a"
  shows "a \<noteq> Start \<and> (a = Stop \<longrightarrow> stopped_by_guest kvvmi info) \<and>
     (a = Restart \<longrightarrow> (\<exists>vmi. kvvmi = Some vmi \<and>
        (requested kv AnnVMRestartRequested \<and> kvvmi_Phase vmi = Running \<or>
         kvvmiCompleted vmi \<and> si_PodCompleted info \<and> si_Reason info = GuestResetReason)))"
  using assms unfolding manual_tail_def
  by (auto simp: stopped_by_guest_def opt_completed_def split: option.splits if_splits)

text \<open>
  The justification of each action, by policy.
\<close>

definition justified ::
  "'q virtual_machine \<Rightarrow> kvvm \<Rightarrow> kvvmi option \<Rightarrow> shutdown_info \<Rightarrow> string \<Rightarrow> vm_action \<Rightarrow> bool" where
  "justified v kv kvvmi info policy a =
     (case a of
        Nothing \<Rightarrow> policy = AlwaysOffPolicy \<longrightarrow> kvvmi = None
      | Start \<Rightarrow> virtualMachineDependenciesAreReady v \<and> policy \<noteq> AlwaysOffPolicy \<and>
          (power_on_requested kv \<or> policy = AlwaysOnPolicy \<and> kvvmi = None \<and> \<not> isVMRestarting (Some kv))
      | Stop \<Rightarrow> policy = AlwaysOffPolicy \<and> kvvmi \<noteq> None \<or>
          policy \<in> {ManualPolicy, AlwaysOnUnlessStoppedManually} \<and> stopped_by_guest kvvmi info
      | Restart \<Rightarrow> policy \<noteq> AlwaysOffPolicy \<and>
          (\<exists>vmi. kvvmi = Some vmi \<and>
             (requested kv AnnVMRestartRequested \<and> kvvmi_Phase vmi = Running \<or>
              kvvmiCompleted vmi \<and>
                (policy = ManualPolicy \<longrightarrow> si_PodCompleted info \<and> si_Reason info = GuestResetReason))))"

lemma handleManualPolicy_justified:
  assumes "may_return (handleManualPolicy kv kvvmi (virtualMachineDependenciesAreReady v) info) a"
  shows "justified v kv kvvmi info ManualPolicy a"
proof -
  consider (start) "virtualMachineDependenciesAreReady v" "power_on_requested kv" "a = Start"
    | (idle) "a = Nothing" | (tail) "may_return (manual_tail kv kvvmi info) a"
    using assms unfolding handleManualPolicy_def
    by (auto split: if_splits dest!: may_return_checkD)
  then show ?thesis
  proof cases
    case tail
    then show ?thesis using manual_tail_returns [OF tail] by (cases a) (auto simp: justified_def)
  qed (simp_all add: justified_def)
qed

lemma handleAlwaysOnPolicy_justified:
  assumes "may_return (handleAlwaysOnPolicy api kv kvvmi (virtualMachineDependenciesAreReady v) info) a"
  shows "justified v kv kvvmi info AlwaysOnPolicy a"
proof (cases kvvmi)
  case None
  then show ?thesis using assms unfolding handleAlwaysOnPolicy_def
    by (auto simp: justified_def split: if_splits dest!: may_return_lastD)
next
  case (Some vmi)
  then show ?thesis using assms unfolding handleAlwaysOnPolicy_def
    by (auto simp: justified_def kvvmiCompleted_def split: if_splits dest!: may_return_checkD)
qed

lemma stopped_manually_absent_justified:
  assumes "may_return (stopped_manually_absent api s kv (virtualMachineDependenciesAreReady v)) a"
  shows "justified v kv kvvmi info AlwaysOnUnlessStoppedManually a"
  using may_return_checkD [OF assms [unfolded stopped_manually_absent_def]]
  by (auto simp: justified_def split: if_splits sum.splits dest!: may_return_lastD)

lemma handleAlwaysOnUnlessStoppedManuallyPolicy_justified:
  assumes "may_return (handleAlwaysOnUnlessStoppedManuallyPolicy api s kv kvvmi
      (virtualMachineDependenciesAreReady v) info) a"
  shows "justified v kv kvvmi info AlwaysOnUnlessStoppedManually a"
proof (cases kvvmi)
  case None
  then show ?thesis using assms unfolding handleAlwaysOnUnlessStoppedManuallyPolicy_def
    by (simp add: stopped_manually_absent_justified)
next
  case (Some vmi)
  show ?thesis
  proof (cases "kvvmi_Deleting vmi")
    case True
    then show ?thesis using assms Some unfolding handleAlwaysOnUnlessStoppedManuallyPolicy_def
      by (simp add: stopped_manually_absent_justified)
  next
    case False
    then show ?thesis using assms Some unfolding handleAlwaysOnUnlessStoppedManuallyPolicy_def
      by (auto simp: justified_def stopped_by_guest_def opt_completed_def kvvmiCompleted_def
          split: if_splits sum.splits)
  qed
qed

lemma justified_off:
  "justified v kv None info AlwaysOffPolicy Nothing" "justified v kv (Some vmi) info AlwaysOffPolicy Stop"
  "policy \<noteq> AlwaysOffPolicy \<Longrightarrow> justified v kv kvvmi info policy Nothing"
  by (simp_all add: justified_def)

lemma decide_action_justified:
  assumes "may_return (decide_action api s v kv kvvmi policy) a"
  shows "if in_maintenance v then a = Stop else justified v kv kvvmi (ps_ShutdownInfo s) policy a"
  using assms unfolding decide_action_def in_maintenance_def Let_def handleAlwaysOffPolicy_def
  by (auto split: if_splits simp: handleManualPolicy_justified handleAlwaysOnPolicy_justified
      handleAlwaysOnUnlessStoppedManuallyPolicy_justified justified_off)

section \<open>Properties\<close>

text \<open>The automatic restart that applies changes is due.\<close>

definition automatic_restart_due :: "'q virtual_machine \<Rightarrow> bool" where
  "automatic_restart_due v =
     (case GetCondition TypeAwaitingRestart (Conditions (vm_Status v)) of
        (c, found) \<Rightarrow> found \<and> cond_Status c = ConditionTrue \<and> cond_ObservedGeneration c = vm_Generation v \<and>
          map_option RestartApprovalMode (Disruptions (vm_Spec v)) = Some Automatic)"

definition may_power_on :: "'q power_state \<Rightarrow> 'q virtual_machine \<Rightarrow> kvvm \<Rightarrow> kvvmi option \<Rightarrow> bool" where
  "may_power_on s v kv kvvmi \<longleftrightarrow>
     \<not> in_maintenance v \<and> RunPolicy (vm_Spec v) \<noteq> AlwaysOffPolicy \<and>
     (kvvmi \<noteq> None \<and> automatic_restart_due v \<or>
      virtualMachineDependenciesAreReady v \<and>
        (\<exists>a \<in> {Start, Restart}. justified v kv kvvmi (ps_ShutdownInfo s) (RunPolicy (vm_Spec v)) a))"

definition may_delete :: "'q power_state \<Rightarrow> 'q virtual_machine \<Rightarrow> kvvm \<Rightarrow> kvvmi option \<Rightarrow> bool" where
  "may_delete s v kv kvvmi \<longleftrightarrow>
     in_maintenance v \<or>
     justified v kv kvvmi (ps_ShutdownInfo s) (RunPolicy (vm_Spec v)) Stop \<or>
     \<not> virtualMachineDependenciesAreReady v \<and>
       justified v kv kvvmi (ps_ShutdownInfo s) (RunPolicy (vm_Spec v)) Restart"

lemma emits_restart_to_apply_changes:
  assumes "\<And>e. bookkeeping e \<Longrightarrow> P e"
    and "\<And>jp. automatic_restart_due v \<Longrightarrow> kvvmi \<noteq> None \<Longrightarrow> P (Call (PatchKVVMStatus jp))"
  shows "emits P (restart_to_apply_changes api v kv kvvmi)"
proof (cases "automatic_restart_due v")
  case True
  then have "emits P (RestartVM api [] (Some kv) kvvmi False)" using assms(2) by (intro emits_RestartVM) auto
  then show ?thesis unfolding restart_to_apply_changes_def
    by (auto split: prod.split option.split intro!: emits_bind_any emits_event emits_pure assms(1))
next
  case False
  then show ?thesis unfolding restart_to_apply_changes_def automatic_restart_due_def
    by (auto split: prod.splits option.splits intro!: emits_pure)
qed

lemma emits_perform:
  assumes book: "\<And>e. bookkeeping e \<Longrightarrow> P e"
    and on: "\<And>jp. a \<in> {Start, Restart} \<Longrightarrow> virtualMachineDependenciesAreReady v \<Longrightarrow> P (Call (PatchKVVMStatus jp))"
    and auto: "\<And>jp. a = Nothing \<Longrightarrow> automatic_restart_due v \<Longrightarrow> kvvmi \<noteq> None \<Longrightarrow> P (Call (PatchKVVMStatus jp))"
    and off: "a = Stop \<or> a = Restart \<and> \<not> virtualMachineDependenciesAreReady v \<Longrightarrow> P (Call (DeleteKVVMI kvvmi))"
  shows "emits P (perform_action api v kv kvvmi a)"
proof (cases a)
  case Nothing
  show ?thesis unfolding Nothing perform_action.simps
    by (intro emits_restart_to_apply_changes) (use Nothing book auto in blast)+
next
  case Start
  then show ?thesis using book on by (auto simp: start_vm_def intro!: emits_rules)
next
  case Stop
  then show ?thesis using off by (simp add: deleteKVVMI_def emits_rules)
next
  case Restart
  then show ?thesis using book on off by (auto simp: restart_vm_def intro!: emits_rules)
qed

text \<open>
  Claim C3: no power request without a reason.  Whatever the API server answers, the handler writes a
  start or restart request to the internal machine only if the machine is not being deleted, not in
  maintenance and not kept off, and either an approved automatic restart is due for a present
  instance, or the configuration has been applied and the run policy justifies a start or a restart.
\<close>

theorem power_requests_justified:
  assumes "Call (PatchKVVMStatus jp) \<in> set (new_effects (SyncPowerState_Handle api s) log)"
  shows "\<exists>v kv kvvmi. ps_VM s = Some v \<and> \<not> vm_Deleting v \<and> ps_KVVM s = Inr (Some kv) \<and> ps_KVVMI s = Inr kvvmi \<and>
     may_power_on s v kv kvvmi"
proof (rule ccontr)
  assume none: "\<nexists>v kv kvvmi. ps_VM s = Some v \<and> \<not> vm_Deleting v \<and> ps_KVVM s = Inr (Some kv) \<and>
    ps_KVVMI s = Inr kvvmi \<and> may_power_on s v kv kvvmi"
  let ?P = "\<lambda>e. e \<noteq> Call (PatchKVVMStatus jp)"
  have "emits ?P (SyncPowerState_Handle api s)"
  proof (cases "\<exists>v. ps_VM s = Some v \<and> vm_Deleting v")
    case True
    then show ?thesis by (auto simp: SyncPowerState_Handle_def emits_rules)
  next
    case False
    show ?thesis
    proof (rule emits_Handle)
      fix v kv kvvmi a
      assume here: "ps_VM s = Some v" "ps_KVVM s = Inr (Some kv)" "ps_KVVMI s = Inr kvvmi"
        and a: "may_return (decide_action api s v kv kvvmi (RunPolicy (vm_Spec v))) a"
      then have no: "\<not> may_power_on s v kv kvvmi" using none False by blast
      note a' = decide_action_justified [OF a]
      show "emits ?P (perform_action api v kv kvvmi a)"
        by (rule emits_perform)
          (use no a' in \<open>auto simp: may_power_on_def justified_def split: if_splits\<close>)
    qed auto
  qed
  from not_emitted [OF this] assms show False by simp
qed

text \<open>
  Claim C25: the instance is deleted only for a reason.  The handler deletes an instance only in
  maintenance, when the policy keeps the machine off, when the guest itself shut down under a policy
  that honours it, or when a justified restart meets a configuration that cannot be applied; and what
  it deletes is the current instance.
\<close>

theorem instance_deleted_with_reason:
  assumes "Call (DeleteKVVMI target) \<in> set (new_effects (SyncPowerState_Handle api s) log)"
  shows "\<exists>v kv. ps_VM s = Some v \<and> \<not> vm_Deleting v \<and> ps_KVVM s = Inr (Some kv) \<and> ps_KVVMI s = Inr target \<and>
     may_delete s v kv target"
proof (rule ccontr)
  assume none: "\<nexists>v kv. ps_VM s = Some v \<and> \<not> vm_Deleting v \<and> ps_KVVM s = Inr (Some kv) \<and>
    ps_KVVMI s = Inr target \<and> may_delete s v kv target"
  let ?P = "\<lambda>e. e \<noteq> Call (DeleteKVVMI target)"
  have "emits ?P (SyncPowerState_Handle api s)"
  proof (cases "\<exists>v. ps_VM s = Some v \<and> vm_Deleting v")
    case True
    then show ?thesis by (auto simp: SyncPowerState_Handle_def emits_rules)
  next
    case False
    show ?thesis
    proof (rule emits_Handle)
      fix v kv kvvmi a
      assume here: "ps_VM s = Some v" "ps_KVVM s = Inr (Some kv)" "ps_KVVMI s = Inr kvvmi"
        and a: "may_return (decide_action api s v kv kvvmi (RunPolicy (vm_Spec v))) a"
      then have no: "kvvmi = target \<Longrightarrow> \<not> may_delete s v kv kvvmi" using none False by blast
      note a' = decide_action_justified [OF a]
      show "emits ?P (perform_action api v kv kvvmi a)"
        by (rule emits_perform) (use no a' in \<open>auto simp: may_delete_def split: if_splits\<close>)
    qed auto
  qed
  from not_emitted [OF this] assms show False by simp
qed

definition server_ok :: power_api where "server_ok log c = OK"

definition example_idle_kvvm :: kvvm where
  "example_idle_kvvm = example_kvvm\<lparr> kvvm_StateChangeRequests := [], kvvm_StartFailure := False \<rparr>"

definition example_power_state :: "kvvmi option \<Rightarrow> int power_state" where
  "example_power_state kvvmi = \<lparr> ps_VM = Some example_vm, ps_KVVM = Inr (Some example_idle_kvvm), ps_KVVMI = Inr kvvmi,
     ps_Pod = Inr None, ps_ShutdownInfo = no_shutdown_info, ps_LastAppliedRunPolicy = Inr None \<rparr>"

lemmas power_defs =
  SyncPowerState_Handle_def syncPowerState_def enforce_run_strategy_def ensureRunStrategy_def
  decide_action_def bind_run_def call_def event_def do_call_def do_call_ignore_missing_def ret_def err_def panic_def

lemmas power_example_defs =
  server_ok_def example_idle_kvvm_def example_kvvm_def example_power_state_def example_vm_def example_spec_def
  example_status_def example_kvvmi_def no_shutdown_info_def

theorem power_requests_justified_witness:
  "may_power_on (example_power_state None) example_vm example_idle_kvvm None"
proof -
  have "Call (PatchKVVMStatus [AddRequests [\<lparr> scr_Action = StartRequest, scr_UID = None \<rparr>]]) \<in>
      set (new_effects (SyncPowerState_Handle server_ok (example_power_state None)) [])"
    by (simp add: new_effects_def power_defs handleAlwaysOnPolicy_def start_vm_def StartVM_def BuildPatch_def
        status_empty_def isVMRestarting_def GetRunStrategy_def GetCondition_def empty_condition_def
        virtualMachineDependenciesAreReady_def RemoveStartAnnotation_def RemoveRestartAnnotation_def
        RemoveAnnotation_def power_example_defs)
  from power_requests_justified [OF this] show ?thesis
    by (auto simp: example_power_state_def)
qed

theorem instance_deleted_with_reason_witness:
  "may_delete ((example_power_state (Some example_kvvmi))
     \<lparr> ps_VM := Some (example_vm\<lparr> vm_Spec := example_spec\<lparr> RunPolicy := AlwaysOffPolicy \<rparr> \<rparr>) \<rparr>)
     (example_vm\<lparr> vm_Spec := example_spec\<lparr> RunPolicy := AlwaysOffPolicy \<rparr> \<rparr>) example_idle_kvvm (Some example_kvvmi)"
    (is "may_delete ?s ?v _ _")
proof -
  have "Call (DeleteKVVMI (Some example_kvvmi)) \<in> set (new_effects (SyncPowerState_Handle server_ok ?s) [])"
    by (simp add: new_effects_def power_defs handleAlwaysOffPolicy_def deleteKVVMI_def
        GetRunStrategy_def GetCondition_def empty_condition_def power_example_defs)
  from instance_deleted_with_reason [OF this] show ?thesis by (auto simp: example_power_state_def)
qed

lemma completes_enforce:
  "(\<And>log c. api log c = OK) \<Longrightarrow> completes (enforce_run_strategy api kv kvvmi policy) ()"
  by (simp add: enforce_run_strategy_def ensureRunStrategy_def completes_do_call completes_ret completes_event)

lemma completes_cleanup:
  "(\<And>log c. api log c = OK) \<Longrightarrow>
     completes (bind_run (RemoveStartAnnotation api kv) (\<lambda>_. RemoveRestartAnnotation api kv)) ()"
  unfolding RemoveStartAnnotation_def RemoveRestartAnnotation_def RemoveAnnotation_def
  by (rule completes_bind [of _ "()"]) (simp_all add: completes_do_call completes_ret)

text \<open>The request that brings a machine up, with or without a completed instance.\<close>

definition bring_up :: "power_api \<Rightarrow> kvvm \<Rightarrow> kvvmi option \<Rightarrow> unit power_run" where
  "bring_up api kv kvvmi = (if kvvmi = None then StartVM api (Some kv) else SafeRestartVM api (Some kv) kvvmi)"

definition bring_up_requests :: "kvvmi option \<Rightarrow> state_change_request list" where
  "bring_up_requests kvvmi =
     (case kvvmi of None \<Rightarrow> [\<lparr> scr_Action = StartRequest, scr_UID = None \<rparr>] | Some vmi \<Rightarrow> restartRequest vmi)"

lemma bring_up_patch:
  assumes idle: "kvvm_StateChangeRequests kv = []" and ok: "\<And>log c. api log c = OK"
  shows "\<exists>jp. (\<forall>log. bring_up api kv kvvmi log = (Returned (), log @ [Call (PatchKVVMStatus jp)])) \<and>
     (\<exists>kv'. apply_patch jp kv = Some kv' \<and> kvvm_StateChangeRequests kv' = bring_up_requests kvvmi)"
proof (cases kvvmi)
  case None
  have "\<exists>jp. BuildPatch kv [\<lparr> scr_Action = StartRequest, scr_UID = None \<rparr>] = Inr jp"
    using idle by (simp add: BuildPatch_def Let_def)
  then obtain jp where jp: "BuildPatch kv [\<lparr> scr_Action = StartRequest, scr_UID = None \<rparr>] = Inr jp" ..
  show ?thesis
    by (intro exI [of _ jp]) (simp add: None bring_up_def bring_up_requests_def StartVM_def jp do_call_ok ok
        BuildPatch_applies [OF jp])
next
  case (Some vmi)
  have "\<exists>jp. BuildPatchSafeRestart kv vmi = Some jp" using idle by (simp add: BuildPatchSafeRestart_def)
  then obtain jp where jp: "BuildPatchSafeRestart kv vmi = Some jp" ..
  show ?thesis
    by (intro exI [of _ jp]) (simp add: Some bring_up_def bring_up_requests_def SafeRestartVM_def jp do_call_ok ok
        BuildPatchSafeRestart_applies [OF jp])
qed

text \<open>
  A handler that decides to start the machine, or to restart its completed instance, sends the
  request: \<open>k\<close> is the instance to restart.
\<close>

lemma decided_brings_up:
  assumes v: "ps_VM s = Some v" "\<not> vm_Deleting v" and ready: "virtualMachineDependenciesAreReady v"
    and kv: "ps_KVVM s = Inr (Some kv)" "kvvm_StateChangeRequests kv = []" and kvvmi: "ps_KVVMI s = Inr kvvmi"
    and decide: "completes (decide_action api s v kv kvvmi (RunPolicy (vm_Spec v))) (if k = None then Start else Restart)"
    and k: "k = None \<or> k = kvvmi" and ok: "\<And>log c. api log c = OK"
  shows "\<exists>new jp kv'. SyncPowerState_Handle api s log = (Returned (), log @ new) \<and>
     Call (PatchKVVMStatus jp) \<in> set new \<and> apply_patch jp kv = Some kv' \<and>
     kvvm_StateChangeRequests kv' = bring_up_requests k"
proof -
  define a where "a = (if k = None then Start else Restart)"
  let ?policy = "RunPolicy (vm_Spec v)" and ?cleanup = "bind_run (RemoveStartAnnotation api kv) (\<lambda>_. RemoveRestartAnnotation api kv)"
  obtain jp kv' where send: "\<And>log. bring_up api kv k log = (Returned (), log @ [Call (PatchKVVMStatus jp)])"
    and kv': "apply_patch jp kv = Some kv'" "kvvm_StateChangeRequests kv' = bring_up_requests k"
    using bring_up_patch [of kv api k, OF kv(2) ok] by (elim exE conjE) simp
  have perform: "perform_action api v kv kvvmi a = bind_run (bring_up api kv k) (\<lambda>_. ?cleanup)"
    using ready k by (auto simp: a_def bring_up_def start_vm_def restart_vm_def)
  let ?pre = "bind_run (enforce_run_strategy api kv kvvmi ?policy) (\<lambda>_. decide_action api s v kv kvvmi ?policy)"
  have pre: "completes ?pre a"
    by (rule completes_bind [of _ "()"], rule completes_enforce, rule ok) (use decide in \<open>simp add: a_def\<close>)
  have "SyncPowerState_Handle api s = bind_run ?pre (perform_action api v kv kvvmi)"
    using v kv kvvmi by (simp add: SyncPowerState_Handle_def syncPowerState_def bind_run_assoc)
  moreover have "completes ?cleanup ()" by (rule completes_cleanup) (rule ok)
  then have "\<exists>new. bind_run ?pre (\<lambda>_. bind_run (bring_up api kv k) (\<lambda>_. ?cleanup)) log = (Returned (), log @ new) \<and>
      Call (PatchKVVMStatus jp) \<in> set new"
    by (intro completes_after [OF pre, where f = "\<lambda>_. bring_up api kv k" and g = "\<lambda>_. ?cleanup" and b = "()"] send)
  moreover have "bind_run ?pre (perform_action api v kv kvvmi) log = bind_run ?pre (\<lambda>_. bind_run (bring_up api kv k) (\<lambda>_. ?cleanup)) log"
    using pre [unfolded completes_def, rule_format, of log] perform
    by (elim exE) (simp only: bind_run_def [of ?pre], simp)
  ultimately show ?thesis using kv' by metis
qed

text \<open>
  Claim C26: a machine that must be on is brought up.  Under the \<open>AlwaysOn\<close> policy, out of
  maintenance, with the configuration applied, no request pending and an API server that accepts
  the calls, the handler succeeds when the instance is missing or has completed, and sends a patch
  that leaves exactly a start request or, for a completed instance, its stop followed by a start.
\<close>

theorem AlwaysOn_brings_up:
  assumes v: "ps_VM s = Some v" "\<not> vm_Deleting v" "RunPolicy (vm_Spec v) = AlwaysOnPolicy"
    and ready: "\<not> in_maintenance v" "virtualMachineDependenciesAreReady v"
    and kv: "ps_KVVM s = Inr (Some kv)" "kvvm_StateChangeRequests kv = []"
    and kvvmi: "ps_KVVMI s = Inr kvvmi" "case kvvmi of None \<Rightarrow> True | Some vmi \<Rightarrow> kvvmiCompleted vmi \<and> \<not> kvvmi_Deleting vmi"
    and ok: "\<And>log c. api log c = OK"
  shows "\<exists>new jp kv'. SyncPowerState_Handle api s log = (Returned (), log @ new) \<and>
     Call (PatchKVVMStatus jp) \<in> set new \<and> apply_patch jp kv = Some kv' \<and>
     kvvm_StateChangeRequests kv' = bring_up_requests kvvmi"
proof (rule decided_brings_up [OF v(1,2) ready(2) kv kvvmi(1) _ _ ok])
  show "completes (decide_action api s v kv kvvmi (RunPolicy (vm_Spec v))) (if kvvmi = None then Start else Restart)"
    using v(3) ready kvvmi(2) kv(2) unfolding decide_action_def in_maintenance_def handleAlwaysOnPolicy_def
    by (cases kvvmi) (auto simp: Let_def kvvmiCompleted_def isVMRestarting_def completes_event completes_ret
        intro!: completes_bind [of _ "()"])
qed simp

theorem AlwaysOn_brings_up_witness:
  "\<exists>new jp kv'. SyncPowerState_Handle server_ok
       (example_power_state (Some (example_kvvmi\<lparr> kvvmi_Phase := Failed \<rparr>))) [] = (Returned (), [] @ new) \<and>
     Call (PatchKVVMStatus jp) \<in> set new \<and> apply_patch jp example_idle_kvvm = Some kv' \<and>
     kvvm_StateChangeRequests kv' = bring_up_requests (Some (example_kvvmi\<lparr> kvvmi_Phase := Failed \<rparr>))"
  by (rule AlwaysOn_brings_up [where v = example_vm])
    (simp_all add: power_example_defs in_maintenance_def GetCondition_def empty_condition_def
      virtualMachineDependenciesAreReady_def kvvmiCompleted_def)

end
