(* ===== verification/VMOPService.thy ===== *)
theory VMOPService
  imports SyncPowerState "HOL-Library.Product_Lexorder"
begin

text \<open>
  Operations on virtual machines (\<^verbatim>\<open>VirtualMachineOperation\<close>): their state
  (\<^verbatim>\<open>common/vmop/vmop.go\<close>), which operation supersedes which
  (\<^verbatim>\<open>controller/vmop/supersede/supersede.go\<close>), the service the controllers of operations share
  (\<^verbatim>\<open>controller/vmop/service/service.go\<close>) and the admission check of new operations
  (\<^verbatim>\<open>controller/vmop/vmop_webhook.go\<close>).

  What a pass of a controller reads from the API is a parameter, the record \<open>op_env\<close>: each read may
  find an object, find none or fail.  Calls that change something go through the server of
  \<^verbatim>\<open>Effects\<close>; the calls of power operations are calls \<open>Power c\<close> on the internal machine of the virtual
  machine the operation names.  The \<open>k\<close>-th place that sets a condition reads the clock as
  \<open>env_Clock (2 * k)\<close> and \<open>env_Clock (2 * k + 1)\<close>.  \<^verbatim>\<open>retry.RetryOnConflict\<close> of client-go runs its
  function until it ends without a conflict, at most \<open>env_Retries\<close> times.
\<close>

section \<open>The resource\<close>

record vmop =
  op_Name :: string
  op_Namespace :: string
  op_UID :: string
  op_Generation :: int
  op_Created :: int
  op_Deleting :: bool
  op_Labels :: "string \<Rightarrow> string option"
  op_Annotations :: "string \<Rightarrow> string option"
  op_Finalizers :: "string list"
  op_Type :: string
  op_VirtualMachine :: string
  op_Force :: "bool option"
  op_Migrate :: "(string \<times> string) list option option"
  op_Phase :: string
  op_Progress :: string
  op_Conditions :: "condition list"

abbreviation VMOPPhasePending :: string where "VMOPPhasePending \<equiv> ''Pending''"
abbreviation VMOPPhaseInProgress :: string where "VMOPPhaseInProgress \<equiv> ''InProgress''"
abbreviation VMOPPhaseCompleted :: string where "VMOPPhaseCompleted \<equiv> ''Completed''"
abbreviation VMOPPhaseFailed :: string where "VMOPPhaseFailed \<equiv> ''Failed''"
abbreviation VMOPPhaseTerminating :: string where "VMOPPhaseTerminating \<equiv> ''Terminating''"
abbreviation VMOPPhaseSuperseded :: string where "VMOPPhaseSuperseded \<equiv> ''Superseded''"

abbreviation VMOPTypeRestart :: string where "VMOPTypeRestart \<equiv> ''Restart''"
abbreviation VMOPTypeStart :: string where "VMOPTypeStart \<equiv> ''Start''"
abbreviation VMOPTypeStop :: string where "VMOPTypeStop \<equiv> ''Stop''"
abbreviation VMOPTypeMigrate :: string where "VMOPTypeMigrate \<equiv> ''Migrate''"
abbreviation VMOPTypeEvict :: string where "VMOPTypeEvict \<equiv> ''Evict''"

abbreviation TypeCompleted :: string where "TypeCompleted \<equiv> ''Completed''"
abbreviation TypeSignalSent :: string where "TypeSignalSent \<equiv> ''SignalSent''"

abbreviation ReasonErrVMOPFailed :: string where "ReasonErrVMOPFailed \<equiv> ''VirtualMachineOperationFailed''"
abbreviation ReasonVMOPStarted :: string where "ReasonVMOPStarted \<equiv> ''VirtualMachineOperationStarted''"
abbreviation ReasonVMOPInProgress :: string where "ReasonVMOPInProgress \<equiv> ''VirtualMachineOperationInProgress''"
abbreviation ReasonVMOPSucceeded :: string where "ReasonVMOPSucceeded \<equiv> ''VirtualMachineOperationSucceeded''"
abbreviation FinalizerVMOPCleanup :: string where "FinalizerVMOPCleanup \<equiv> ''virtualization.deckhouse.io/vmop-cleanup''"
abbreviation LabelVirtualMachineUID :: string where
  "LabelVirtualMachineUID \<equiv> ''virtualization.deckhouse.io/virtual-machine-uid''"

datatype 'a reading = Got 'a | Missing | Unreadable

datatype op_call = Power api_call | DeleteMigration string | PatchVMOPStatus vmop

type_synonym op_api = "op_call api_server"

type_synonym 'a op_run = "(op_call, 'a) run"

record 'q op_env =
  env_VM :: "'q virtual_machine reading"
  env_VMLater :: "'q virtual_machine reading"
  env_VMOPs :: "vmop list option"
  env_KVVM :: "kvvm reading"
  env_KVVMI :: "kvvmi reading"
  env_Pods :: "pod list"
  env_OldKVVM :: "vmop \<Rightarrow> kvvm reading"
  env_OldMigration :: "vmop \<Rightarrow> unit reading"
  env_OldVMOP :: "vmop \<Rightarrow> nat \<Rightarrow> vmop reading"
  env_Retries :: nat
  env_Clock :: "nat \<Rightarrow> int"

section \<open>vmop.go\<close>

text \<open>No caller passes a nil pointer to the functions of this section and the next.\<close>

definition IsInProgressOrPending :: "vmop \<Rightarrow> bool" where
  "IsInProgressOrPending vmop \<longleftrightarrow>
     op_Phase vmop = '''' \<or> op_Phase vmop = VMOPPhasePending \<or> op_Phase vmop = VMOPPhaseInProgress"

definition IsFinished :: "vmop \<Rightarrow> bool" where
  "IsFinished vmop \<longleftrightarrow>
     op_Phase vmop = VMOPPhaseFailed \<or> op_Phase vmop = VMOPPhaseCompleted \<or> op_Phase vmop = VMOPPhaseSuperseded"

definition IsTerminating :: "vmop \<Rightarrow> bool" where
  "IsTerminating vmop \<longleftrightarrow> op_Phase vmop = VMOPPhaseTerminating \<or> op_Deleting vmop"

definition IsMigration :: "vmop \<Rightarrow> bool" where
  "IsMigration vmop \<longleftrightarrow> op_Type vmop = VMOPTypeMigrate \<or> op_Type vmop = VMOPTypeEvict"

definition InProgressOrPendingExists :: "vmop list \<Rightarrow> bool" where
  "InProgressOrPendingExists vmops = list_ex IsInProgressOrPending vmops"

definition IsOperationInProgress :: "vmop \<Rightarrow> bool" where
  "IsOperationInProgress vmop \<longleftrightarrow>
     cond_Status (fst (GetCondition TypeSignalSent (op_Conditions vmop))) = ConditionTrue \<and> \<not> IsFinished vmop"

section \<open>supersede.go\<close>

definition force :: "vmop \<Rightarrow> bool" where "force vmop \<longleftrightarrow> op_Force vmop = Some True"

definition CanSupersede :: "vmop \<Rightarrow> vmop \<Rightarrow> bool" where
  "CanSupersede oldVMOP newVMOP =
     (if op_VirtualMachine oldVMOP \<noteq> op_VirtualMachine newVMOP then False
      else let oldForce = force oldVMOP; newForce = force newVMOP; newType = op_Type newVMOP in
        if op_Type oldVMOP = VMOPTypeStart then newType = VMOPTypeStop
        else if op_Type oldVMOP = VMOPTypeStop then
          (if oldForce then False
           else newType = VMOPTypeStop \<and> newForce \<or> newType = VMOPTypeRestart \<and> newForce)
        else if op_Type oldVMOP = VMOPTypeMigrate \<or> op_Type oldVMOP = VMOPTypeEvict then
          newType = VMOPTypeStop \<or> newType = VMOPTypeRestart
        else if op_Type oldVMOP = VMOPTypeRestart then
          (if oldForce then False
           else newType = VMOPTypeStop \<and> newForce \<or> newType = VMOPTypeRestart \<and> newForce)
        else False)"

section \<open>service.go\<close>

definition op_condition :: "vmop \<Rightarrow> string \<Rightarrow> string \<Rightarrow> string \<Rightarrow> string \<Rightarrow> condition" where
  "op_condition vmop type reason status message =
     builder_Condition (builder_Message message (builder_Status status (builder_Reason reason
       (builder_Generation (op_Generation vmop) (NewConditionBuilder type)))))"

definition set_op_condition :: "'q op_env \<Rightarrow> nat \<Rightarrow> condition \<Rightarrow> vmop \<Rightarrow> vmop" where
  "set_op_condition env k c vmop =
     vmop\<lparr> op_Conditions := SetCondition (env_Clock env (2 * k)) (env_Clock env (2 * k + 1)) c (op_Conditions vmop) \<rparr>"

definition isOlderVMOP :: "vmop \<Rightarrow> vmop \<Rightarrow> bool" where
  "isOlderVMOP a b =
     (if op_Created a \<noteq> op_Created b then op_Created a < op_Created b else op_Name a < op_Name b)"

text \<open>
  The operations that were created before and are not finished, oldest first.  The sort is stable, and
  \<open>isOlderVMOP\<close> compares the pairs of time and name.
\<close>

definition findOlderActiveVMOPs :: "'q op_env \<Rightarrow> vmop \<Rightarrow> vmop list option" where
  "findOlderActiveVMOPs env vmop =
     (case env_VMOPs env of
        None \<Rightarrow> None
      | Some items \<Rightarrow>
          Some (sort_key (\<lambda>v. (op_Created v, op_Name v))
            (filter (\<lambda>other.
               if op_VirtualMachine other \<noteq> op_VirtualMachine vmop then False
               else if IsFinished other then False
               else if op_UID other = op_UID vmop then False
               else isOlderVMOP other vmop)
             (filter (\<lambda>other. op_Namespace other = op_Namespace vmop) items))))"

definition ShouldExecute :: "'q op_env \<Rightarrow> vmop \<Rightarrow> bool option" where
  "ShouldExecute env vmop = map_option (\<lambda>blockers. length blockers = 0) (findOlderActiveVMOPs env vmop)"

definition setNotReadyToBeExecuted :: "'q op_env \<Rightarrow> vmop \<Rightarrow> vmop" where
  "setNotReadyToBeExecuted env vmop =
     set_op_condition env 0
       (op_condition vmop TypeCompleted ''NotReadyToBeExecuted'' ConditionFalse
          ''VMOP cannot be executed now. Previously created operation should finish first.'')
       (vmop\<lparr> op_Phase := VMOPPhaseFailed \<rparr>)"

definition cleanupSupersededOperation :: "op_api \<Rightarrow> 'q op_env \<Rightarrow> vmop \<Rightarrow> unit op_run" where
  "cleanupSupersededOperation api env oldVMOP =
     (if op_Type oldVMOP = VMOPTypeStart then
        (case env_OldKVVM env oldVMOP of
           Missing \<Rightarrow> ret ()
         | Unreadable \<Rightarrow> err ''get kvvm''
         | Got kvvm \<Rightarrow> lift_run Power api (\<lambda>a. RemoveStartAnnotation a kvvm))
      else if op_Type oldVMOP = VMOPTypeRestart then
        (case env_OldKVVM env oldVMOP of
           Missing \<Rightarrow> ret ()
         | Unreadable \<Rightarrow> err ''get kvvm''
         | Got kvvm \<Rightarrow>
             bind_run (lift_run Power api (\<lambda>a. RemoveRestartAnnotation a kvvm)) (\<lambda>_.
               lift_run Power api (\<lambda>a. RemoveStartAnnotation a kvvm)))
      else if op_Type oldVMOP = VMOPTypeMigrate \<or> op_Type oldVMOP = VMOPTypeEvict then
        (case env_OldMigration env oldVMOP of
           Missing \<Rightarrow> ret ()
         | Unreadable \<Rightarrow> err ''get migration''
         | Got _ \<Rightarrow> do_call_ignore_missing ''delete migration'' api (DeleteMigration (''vmop-'' @ op_Name oldVMOP)))
      else ret ())"

text \<open>The object that is written: \<open>current\<close> is read anew in every attempt.\<close>

definition superseded_by :: "'q op_env \<Rightarrow> vmop \<Rightarrow> vmop \<Rightarrow> vmop" where
  "superseded_by env current newVMOP =
     set_op_condition env 1
       (op_condition current TypeCompleted ''Superseded'' ConditionTrue
          (''Superseded by '' @ op_Name newVMOP @ '' with type '' @ op_Type newVMOP))
       (current\<lparr> op_Phase := VMOPPhaseSuperseded \<rparr>)"

fun mark_attempts :: "op_api \<Rightarrow> 'q op_env \<Rightarrow> vmop \<Rightarrow> vmop \<Rightarrow> nat \<Rightarrow> nat \<Rightarrow> unit op_run" where
  "mark_attempts api env oldVMOP newVMOP k 0 = err ''conflict''"
| "mark_attempts api env oldVMOP newVMOP k (Suc n) =
     (case env_OldVMOP env oldVMOP k of
        Missing \<Rightarrow> ret ()
      | Unreadable \<Rightarrow> err ''get vmop''
      | Got current \<Rightarrow>
          if IsFinished current then ret ()
          else bind_run (call api (PatchVMOPStatus (superseded_by env current newVMOP))) (\<lambda>r.
            if r = OK then ret ()
            else if r = ConflictErr then mark_attempts api env oldVMOP newVMOP (Suc k) n
            else err ''patch vmop''))"

definition markSuperseded :: "op_api \<Rightarrow> 'q op_env \<Rightarrow> vmop \<Rightarrow> vmop \<Rightarrow> unit op_run" where
  "markSuperseded api env oldVMOP newVMOP = mark_attempts api env oldVMOP newVMOP 0 (env_Retries env)"

fun supersede_loop :: "op_api \<Rightarrow> 'q op_env \<Rightarrow> vmop list \<Rightarrow> vmop \<Rightarrow> unit op_run" where
  "supersede_loop api env [] vmop = ret ()"
| "supersede_loop api env (oldVMOP # blockers) vmop =
     bind_run (cleanupSupersededOperation api env oldVMOP) (\<lambda>_.
       bind_run (markSuperseded api env oldVMOP vmop) (\<lambda>_. supersede_loop api env blockers vmop))"

text \<open>The changed operation with the answer, or with the error.\<close>

definition ShouldExecuteOrSupersedeOrSetFailedPhase ::
  "op_api \<Rightarrow> 'q op_env \<Rightarrow> vmop \<Rightarrow> (vmop \<times> (string + bool)) op_run" where
  "ShouldExecuteOrSupersedeOrSetFailedPhase api env vmop =
     (case findOlderActiveVMOPs env vmop of
        None \<Rightarrow> ret (vmop, Inl ''list vmops'')
      | Some blockers \<Rightarrow>
          if length blockers = 0 then ret (vmop, Inr True)
          else if list_ex (\<lambda>oldVMOP. \<not> CanSupersede oldVMOP vmop) blockers
          then ret (setNotReadyToBeExecuted env vmop, Inr False)
          else bind_run (try_run (supersede_loop api env blockers vmop)) (\<lambda>r.
            ret (vmop, case r of Inl e \<Rightarrow> Inl e | Inr _ \<Rightarrow> Inr True)))"

definition ShouldExecuteOrSetFailedPhase :: "op_api \<Rightarrow> 'q op_env \<Rightarrow> vmop \<Rightarrow> (vmop \<times> (string + bool)) op_run" where
  "ShouldExecuteOrSetFailedPhase api env vmop = ShouldExecuteOrSupersedeOrSetFailedPhase api env vmop"

definition Init :: "'q op_env \<Rightarrow> vmop \<Rightarrow> vmop op_run" where
  "Init env vmop =
     (if op_Phase vmop = '''' then
        bind_run (event ReasonVMOPStarted) (\<lambda>_.
          ret (set_op_condition env 2 (op_condition vmop TypeCompleted ''Unknown'' ConditionUnknown '''')
                 (vmop\<lparr> op_Phase := VMOPPhasePending \<rparr>)))
      else ret vmop)"

text \<open>The machine, none when there is none or when it cannot be read; the latter is the error.\<close>

definition FetchVirtualMachineOrSetFailedPhase ::
  "'q op_env \<Rightarrow> vmop \<Rightarrow> (vmop \<times> (string + 'q virtual_machine option)) op_run" where
  "FetchVirtualMachineOrSetFailedPhase env vmop =
     (case env_VM env of
        Unreadable \<Rightarrow> ret (vmop, Inl ''get VirtualMachine for VMOP'')
      | Missing \<Rightarrow>
          bind_run (event ReasonErrVMOPFailed) (\<lambda>_.
            ret (set_op_condition env 3
                   (op_condition vmop TypeCompleted ''VirtualMachineNotFound'' ConditionFalse ''VirtualMachine not found'')
                   (vmop\<lparr> op_Phase := VMOPPhaseFailed \<rparr>), Inr None))
      | Got vm \<Rightarrow>
          ret (vmop\<lparr> op_Labels := (op_Labels vmop)(LabelVirtualMachineUID \<mapsto> vm_UID vm) \<rparr>, Inr (Some vm)))"

text \<open>\<open>forPolicy\<close> and \<open>forPhase\<close> are the two methods of the checker that is passed.\<close>

definition IsApplicableOrSetFailedPhase ::
  "'q op_env \<Rightarrow> (string \<Rightarrow> bool) \<Rightarrow> (string \<Rightarrow> bool) \<Rightarrow> vmop \<Rightarrow> 'q virtual_machine \<Rightarrow> (vmop \<times> bool) op_run" where
  "IsApplicableOrSetFailedPhase env forPolicy forPhase vmop vm =
     (if \<not> forPolicy (RunPolicy (vm_Spec vm)) then
        bind_run (event ReasonErrVMOPFailed) (\<lambda>_.
          ret (set_op_condition env 4
                 (op_condition vmop TypeCompleted ''NotApplicableForVirtualMachineRunPolicy'' ConditionFalse
                    (''Operation type '' @ op_Type vmop @ '' is not applicable for VirtualMachine with runPolicy '' @
                     RunPolicy (vm_Spec vm)))
                 (vmop\<lparr> op_Phase := VMOPPhaseFailed \<rparr>), False))
      else if \<not> forPhase (Phase (vm_Status vm)) then
        bind_run (event ReasonErrVMOPFailed) (\<lambda>_.
          ret (set_op_condition env 5
                 (op_condition vmop TypeCompleted ''NotApplicableForVirtualMachinePhase'' ConditionFalse
                    (''Operation type '' @ op_Type vmop @ '' is not applicable for VirtualMachine in phase '' @
                     Phase (vm_Status vm)))
                 (vmop\<lparr> op_Phase := VMOPPhaseFailed \<rparr>), False))
      else ret (vmop, True))"

definition IsAfterSignalSentOrCreation :: "int \<Rightarrow> vmop \<Rightarrow> bool" where
  "IsAfterSignalSentOrCreation timestamp vmop =
     (let (signalSendCond, found) = GetCondition TypeSignalSent (op_Conditions vmop);
          signalSentTime =
            (if found \<and> cond_Status signalSendCond = ConditionTrue \<and>
                cond_LastTransitionTime signalSendCond > op_Created vmop
             then cond_LastTransitionTime signalSendCond else op_Created vmop)
      in timestamp > signalSentTime)"

section \<open>vmop\_webhook.go\<close>

datatype admission_error = ListFailed | ShouldFinishFirst string

definition activeVMOPValidator_ValidateCreate :: "vmop list option \<Rightarrow> vmop \<Rightarrow> admission_error option" where
  "activeVMOPValidator_ValidateCreate listed vmop =
     (case listed of
        None \<Rightarrow> Some ListFailed
      | Some items \<Rightarrow>
          map_option (\<lambda>other. ShouldFinishFirst (op_Name other))
            (List.find (\<lambda>other. op_VirtualMachine other = op_VirtualMachine vmop \<and> \<not> IsFinished other \<and>
                               \<not> CanSupersede other vmop)
              (filter (\<lambda>other. op_Namespace other = op_Namespace vmop) items)))"

section \<open>Conditions of an operation\<close>

definition op_status :: "string \<Rightarrow> vmop \<Rightarrow> string" where
  "op_status type vmop = cond_Status (fst (GetCondition type (op_Conditions vmop)))"

lemma set_op_condition_fields [simp]:
  "op_Phase (set_op_condition env k c v) = op_Phase v" "op_Deleting (set_op_condition env k c v) = op_Deleting v"
  "op_Type (set_op_condition env k c v) = op_Type v" "op_Force (set_op_condition env k c v) = op_Force v"
  "op_UID (set_op_condition env k c v) = op_UID v" "op_VirtualMachine (set_op_condition env k c v) = op_VirtualMachine v"
  "op_Created (set_op_condition env k c v) = op_Created v" "op_Name (set_op_condition env k c v) = op_Name v"
  "op_Namespace (set_op_condition env k c v) = op_Namespace v"
  "op_Progress (set_op_condition env k c v) = op_Progress v"
  by (simp_all add: set_op_condition_def)

lemma op_condition_fields [simp]:
  "cond_Type (op_condition v t r s m) = t"
  "s \<noteq> '''' \<Longrightarrow> cond_Status (op_condition v t r s m) = s"
  "r \<noteq> '''' \<Longrightarrow> cond_Reason (op_condition v t r s m) = r"
  "cond_LastTransitionTime (op_condition v t r s m) = 0"
  by (simp_all add: op_condition_def builder_Condition_def builder_Message_def builder_Status_def builder_Reason_def
      builder_Generation_def NewConditionBuilder_def)

lemma op_status_set [simp]:
  "op_status type (set_op_condition env k c v) = (if type = cond_Type c then cond_Status c else op_status type v)"
proof (cases "type = cond_Type c")
  case True
  then show ?thesis
    by (auto simp: op_status_def set_op_condition_def GetCondition_SetCondition update_condition_fields split: option.split)
next
  case False
  then show ?thesis by (simp add: op_status_def set_op_condition_def SetCondition_other)
qed

lemma op_status_update [simp]:
  "op_status type (v\<lparr> op_Phase := p \<rparr>) = op_status type v" "op_status type (v\<lparr> op_Labels := l \<rparr>) = op_status type v"
  by (simp_all add: op_status_def)

section \<open>Order of operations\<close>

lemma isOlderVMOP_iff: "isOlderVMOP a b \<longleftrightarrow> (op_Created a, op_Name a) < (op_Created b, op_Name b)"
  by (auto simp: isOlderVMOP_def less_prod_simp)

section \<open>Properties\<close>

text \<open>How far an operation is on the way to one that nothing supersedes.\<close>

definition supersede_rank :: "vmop \<Rightarrow> nat" where
  "supersede_rank v =
     (if op_Type v = VMOPTypeStop \<or> op_Type v = VMOPTypeRestart then (if force v then 2 else 1) else 0)"

lemma CanSupersede_rank: "CanSupersede old new \<Longrightarrow> supersede_rank old < supersede_rank new"
  by (auto simp: CanSupersede_def supersede_rank_def Let_def split: if_splits)

lemma chain_rank: "successively CanSupersede (v # vs) \<Longrightarrow> supersede_rank v + length vs \<le> 2"
proof (induction vs arbitrary: v)
  case (Cons w vs)
  have "supersede_rank w + length vs \<le> 2" using Cons.IH [of w] Cons.prems by simp
  moreover have "supersede_rank v < supersede_rank w" using Cons.prems by (auto intro: CanSupersede_rank)
  ultimately show ?case by simp
qed (simp add: supersede_rank_def)

text \<open>
  Claim C24: superseding ends.  When each operation of a sequence can be superseded by the next one, the
  sequence has at most three operations; in particular no two operations can supersede each other and
  none can supersede itself.
\<close>

theorem supersede_chain_bounded:
  assumes "successively CanSupersede vs"
  shows "length vs \<le> 3"
proof (cases vs)
  case (Cons v ws)
  then show ?thesis using chain_rank [of v ws] assms by simp
qed simp

definition example_op :: "string \<Rightarrow> string \<Rightarrow> bool option \<Rightarrow> vmop" where
  "example_op name type f =
     \<lparr> op_Name = name, op_Namespace = ''default'', op_UID = name, op_Generation = 1, op_Created = 0, op_Deleting = False,
       op_Labels = Map.empty, op_Annotations = Map.empty, op_Finalizers = [], op_Type = type, op_VirtualMachine = ''vm'', op_Force = f,
       op_Migrate = None, op_Phase = '''', op_Progress = '''', op_Conditions = [] \<rparr>"

theorem supersede_chain_bounded_witness:
  "length [example_op ''a'' ''Start'' None, example_op ''b'' ''Stop'' None, example_op ''c'' ''Restart'' (Some True)] \<le> 3"
  by (rule supersede_chain_bounded) (simp add: CanSupersede_def example_op_def force_def)

text \<open>The unfinished operations of the machine of \<open>v\<close>.\<close>

definition active_ops :: "vmop list \<Rightarrow> vmop \<Rightarrow> vmop set" where
  "active_ops items v =
     {w \<in> set items. op_Namespace w = op_Namespace v \<and> op_VirtualMachine w = op_VirtualMachine v \<and> \<not> IsFinished w}"

lemma findOlder_set:
  "findOlderActiveVMOPs env v = Some bs \<Longrightarrow>
     \<exists>items. env_VMOPs env = Some items \<and>
       set bs = {w \<in> active_ops items v. op_UID w \<noteq> op_UID v \<and> isOlderVMOP w v}"
  by (auto simp: findOlderActiveVMOPs_def active_ops_def split: option.splits if_splits)

lemma ShouldExecute_iff:
  assumes "env_VMOPs env = Some items"
  shows "ShouldExecute env v = Some True \<longleftrightarrow>
    (\<forall>w \<in> active_ops items v. op_UID w \<noteq> op_UID v \<longrightarrow> \<not> isOlderVMOP w v)"
proof -
  obtain bs where bs: "findOlderActiveVMOPs env v = Some bs" using assms by (simp add: findOlderActiveVMOPs_def)
  then have "set bs = {w \<in> active_ops items v. op_UID w \<noteq> op_UID v \<and> isOlderVMOP w v}"
    using findOlder_set [OF bs] assms by auto
  moreover have "ShouldExecute env v = Some True \<longleftrightarrow> set bs = {}" using bs by (simp add: ShouldExecute_def)
  ultimately show ?thesis by auto
qed

text \<open>
  Claim C23: operations on one machine take turns.  Whatever unfinished operations a machine has, there is
  exactly one of them that may execute without superseding another: the first in the order of
  creation, names breaking ties.
\<close>

theorem one_operation_at_a_time:
  assumes items: "env_VMOPs env = Some items" and uids: "inj_on op_UID (set items)"
    and names: "inj_on (\<lambda>w. (op_Namespace w, op_Name w)) (set items)"
    and v: "v \<in> active_ops items v"
  shows "\<exists>!w. w \<in> active_ops items v \<and> ShouldExecute env w = Some True"
proof -
  let ?A = "active_ops items v" and ?key = "\<lambda>w. (op_Created w, op_Name w)"
  have sub: "?A \<subseteq> set items" and ns: "\<And>w. w \<in> ?A \<Longrightarrow> op_Namespace w = op_Namespace v"
    and same: "\<And>w. w \<in> ?A \<Longrightarrow> active_ops items w = ?A" by (auto simp: active_ops_def)
  have key: "inj_on ?key ?A" using names sub ns by (auto simp: inj_on_def subset_eq)
  have uid: "inj_on op_UID ?A" using uids sub by (rule inj_on_subset)
  have fin: "finite ?A" using sub finite_subset by blast
  have exec: "ShouldExecute env w = Some True \<longleftrightarrow> (\<forall>u \<in> ?A. ?key w \<le> ?key u)" if "w \<in> ?A" for w
  proof -
    have "ShouldExecute env w = Some True \<longleftrightarrow> (\<forall>u \<in> ?A. u \<noteq> w \<longrightarrow> \<not> ?key u < ?key w)"
      using that same [OF that] inj_on_eq_iff [OF uid] unfolding ShouldExecute_iff [OF items] isOlderVMOP_iff by auto
    then show ?thesis unfolding not_less by (metis order_refl)
  qed
  have "?A \<noteq> {}" using v by blast
  then have "Min (?key ` ?A) \<in> ?key ` ?A" using fin by (intro Min_in) auto
  then obtain m where "m \<in> ?A" "?key m = Min (?key ` ?A)" by auto
  then have m: "m \<in> ?A" "\<forall>u \<in> ?A. ?key m \<le> ?key u" using fin by auto
  show ?thesis
  proof (rule ex1I [of _ m])
    fix w
    assume "w \<in> ?A \<and> ShouldExecute env w = Some True"
    then have w: "w \<in> ?A" and "\<forall>u \<in> ?A. ?key w \<le> ?key u" using exec by auto
    then have "?key w = ?key m" using m by (intro antisym) auto
    then show "w = m" using key w m(1) by (auto dest: inj_onD)
  qed (use m exec in auto)
qed

definition example_op_env :: "vmop list \<Rightarrow> int op_env" where
  "example_op_env items =
     \<lparr> env_VM = Got example_vm, env_VMLater = Got example_vm, env_VMOPs = Some items, env_KVVM = Missing, env_KVVMI = Missing,
       env_Pods = [], env_OldKVVM = (\<lambda>_. Missing), env_OldMigration = (\<lambda>_. Missing),
       env_OldVMOP = (\<lambda>old k. Got old), env_Retries = 5, env_Clock = (\<lambda>k. int k) \<rparr>"

theorem one_operation_at_a_time_witness:
  "\<exists>!w. w \<in> active_ops [example_op ''a'' ''Start'' None, example_op ''b'' ''Stop'' None] (example_op ''b'' ''Stop'' None) \<and>
     ShouldExecute (example_op_env [example_op ''a'' ''Start'' None, example_op ''b'' ''Stop'' None]) w = Some True"
  by (rule one_operation_at_a_time) (auto simp: example_op_env_def example_op_def active_ops_def IsFinished_def)

text \<open>
  The operation \<open>old\<close> is out of the way: it was found gone or finished, or the server accepted the
  status that marks it as superseded.
\<close>

definition out_of_the_way :: "op_api \<Rightarrow> 'q op_env \<Rightarrow> vmop \<Rightarrow> op_call effect list \<Rightarrow> vmop \<Rightarrow> bool" where
  "out_of_the_way api env v log old \<longleftrightarrow>
     (\<exists>k. env_OldVMOP env old k = Missing \<or>
        (\<exists>current. env_OldVMOP env old k = Got current \<and>
           (IsFinished current \<or>
            (\<exists>pre post. log = pre @ Call (PatchVMOPStatus (superseded_by env current v)) # post \<and>
               api pre (PatchVMOPStatus (superseded_by env current v)) = OK))))"

lemma out_of_the_way_append: "out_of_the_way api env v log old \<Longrightarrow> out_of_the_way api env v (log @ new) old"
  unfolding out_of_the_way_def by (metis append.assoc append_Cons)

lemma mark_attempts_done:
  "mark_attempts api env old v k n log = (Returned u, log') \<Longrightarrow> out_of_the_way api env v log' old"
proof (induction n arbitrary: k log)
  case 0
  then show ?case by (simp add: err_def)
next
  case (Suc n)
  show ?case
  proof (cases "env_OldVMOP env old k")
    case (Got current)
    let ?c = "PatchVMOPStatus (superseded_by env current v)"
    show ?thesis
    proof (cases "IsFinished current")
      case True
      with Got show ?thesis by (auto simp: out_of_the_way_def)
    next
      case False
      then have run: "(if api log ?c = OK then ret () else if api log ?c = ConflictErr
          then mark_attempts api env old v (Suc k) n else err ''patch vmop'') (log @ [Call ?c]) = (Returned u, log')"
        using Suc.prems Got by (simp add: bind_run_def call_def)
      consider "api log ?c = OK" | "api log ?c = ConflictErr" | "api log ?c \<noteq> OK" "api log ?c \<noteq> ConflictErr" by blast
      then show ?thesis
      proof cases
        case 1
        then have "log' = log @ Call ?c # []" using run by (simp add: ret_def)
        with Got 1 show ?thesis unfolding out_of_the_way_def by blast
      next
        case 2
        with run show ?thesis by (auto intro: Suc.IH)
      qed (use run in \<open>simp add: err_def\<close>)
    qed
  qed (use Suc.prems in \<open>auto simp: out_of_the_way_def err_def\<close>)
qed

lemma emits_mark: "(\<And>c. P (Call (PatchVMOPStatus c))) \<Longrightarrow> emits P (mark_attempts api env old v k n)"
  by (induction n arbitrary: k) (auto split: reading.split intro!: emits_rules)

lemma emits_unset:
  "P (Call (UnsetAnnotation AnnVMStartRequested)) \<Longrightarrow> emits P (RemoveStartAnnotation api kvvm)"
  "P (Call (UnsetAnnotation AnnVMRestartRequested)) \<Longrightarrow> emits P (RemoveRestartAnnotation api kvvm)"
  by (auto simp: RemoveStartAnnotation_def RemoveRestartAnnotation_def RemoveAnnotation_def intro!: emits_rules)

text \<open>What superseding other operations may send.\<close>

fun supersede_effect :: "op_call effect \<Rightarrow> bool" where
  "supersede_effect (Call (Power (UnsetAnnotation _))) = True"
| "supersede_effect (Call (Power _)) = False"
| "supersede_effect _ = True"

lemma emits_cleanup: "emits supersede_effect (cleanupSupersededOperation api env old)"
proof -
  have "emits supersede_effect (lift_run Power api (\<lambda>a. RemoveStartAnnotation a kvvm))"
    "emits supersede_effect (lift_run Power api (\<lambda>a. RemoveRestartAnnotation a kvvm))" for kvvm
    by (rule emits_lift, rule emits_unset, simp)+
  then show ?thesis
    unfolding cleanupSupersededOperation_def by (auto split: reading.split intro!: emits_rules)
qed

lemma emits_supersede_loop: "emits supersede_effect (supersede_loop api env bs v)"
  by (induction bs) (auto simp: markSuperseded_def intro!: emits_rules emits_cleanup emits_mark)

lemma supersede_loop_done:
  "supersede_loop api env bs v log = (Returned u, log') \<Longrightarrow> old \<in> set bs \<Longrightarrow> out_of_the_way api env v log' old"
proof (induction bs arbitrary: log)
  case (Cons b bs)
  obtain x1 l1 where c: "cleanupSupersededOperation api env b log = (Returned x1, l1)"
    and rest: "bind_run (markSuperseded api env b v) (\<lambda>_. supersede_loop api env bs v) l1 = (Returned u, log')"
    using Cons.prems(1) by (auto elim: bind_run_Returned)
  obtain x2 l2 where m: "markSuperseded api env b v l1 = (Returned x2, l2)"
    and l: "supersede_loop api env bs v l2 = (Returned u, log')"
    using rest by (auto elim: bind_run_Returned)
  show ?case
  proof (cases "old = b")
    case True
    have "out_of_the_way api env v l2 b" using m unfolding markSuperseded_def by (rule mark_attempts_done)
    moreover obtain new where "log' = l2 @ new" using emits_log [OF emits_True [OF emits_supersede_loop] l] by blast
    ultimately show ?thesis using True by (simp add: out_of_the_way_append)
  next
    case False
    then show ?thesis using Cons.IH [OF l] Cons.prems(2) by simp
  qed
qed simp

text \<open>
  An operation may execute only when every older unfinished operation on its machine can be
  superseded by it and is out of the way: gone, finished, or marked as superseded in a status the
  server accepted.  While one of them cannot be superseded, the operation fails instead and nothing is
  sent.
\<close>

lemma executes_only_after_superseding:
  assumes list: "env_VMOPs env = Some items"
    and run: "ShouldExecuteOrSetFailedPhase api env v log = (Returned (v', should), log')"
  shows "(should = Inr True \<longrightarrow>
      (\<forall>old \<in> active_ops items v. op_UID old \<noteq> op_UID v \<and> isOlderVMOP old v \<longrightarrow>
         CanSupersede old v \<and> out_of_the_way api env v log' old)) \<and>
    ((\<exists>old \<in> active_ops items v. op_UID old \<noteq> op_UID v \<and> isOlderVMOP old v \<and> \<not> CanSupersede old v) \<longrightarrow>
       should = Inr False \<and> op_Phase v' = VMOPPhaseFailed \<and> log' = log)"
proof -
  obtain bs where bs: "findOlderActiveVMOPs env v = Some bs" using list by (simp add: findOlderActiveVMOPs_def)
  then have set: "set bs = {w \<in> active_ops items v. op_UID w \<noteq> op_UID v \<and> isOlderVMOP w v}"
    using findOlder_set [OF bs] list by auto
  note run' = run [unfolded ShouldExecuteOrSetFailedPhase_def ShouldExecuteOrSupersedeOrSetFailedPhase_def bs option.case]
  show ?thesis
  proof (cases "list_ex (\<lambda>old. \<not> CanSupersede old v) bs")
    case True
    then have "v' = setNotReadyToBeExecuted env v \<and> should = Inr False \<and> log' = log"
      using run' by (auto simp: ret_def split: if_splits)
    then show ?thesis by (simp add: setNotReadyToBeExecuted_def)
  next
    case False
    then have can: "\<forall>old \<in> set bs. CanSupersede old v" by (simp add: list_ex_iff)
    have "out_of_the_way api env v log' old" if "should = Inr True" "old \<in> set bs" for old
    proof -
      have "supersede_loop api env bs v log = (Returned (), log')"
        using run' that length_pos_if_in_set [OF that(2)] False by (cases "supersede_loop api env bs v log")
          (auto simp: bind_run_def ret_def try_run_def split: outcome.splits)
      then show ?thesis using that(2) by (rule supersede_loop_done)
    qed
    then show ?thesis using set can by blast
  qed
qed

end
