(* ===== verification/VMOPPowerState.thy ===== *)
theory VMOPPowerState
  imports VMOPService
begin

text \<open>
  The controller of power operations (\<^verbatim>\<open>controller/vmop/powerstate\<close>): the operations \<^verbatim>\<open>Start\<close>,
  \<^verbatim>\<open>Stop\<close> and \<^verbatim>\<open>Restart\<close> (\<^verbatim>\<open>internal/service\<close>), the handler that drives an operation through its phases
  (\<^verbatim>\<open>internal/handler/lifecycle.go\<close>) and the handler of its finalizer
  (\<^verbatim>\<open>internal/handler/deletion.go\<close>).  The helpers of controller-runtime that add and remove a finalizer
  are parameters.
\<close>

section \<open>operation.go, start.go, stop.go, restart.go\<close>

datatype operation = StartOperation | StopOperation | RestartOperation

definition NewOperationService :: "vmop \<Rightarrow> operation option" where
  "NewOperationService vmop =
     (if op_Type vmop = VMOPTypeStart then Some StartOperation
      else if op_Type vmop = VMOPTypeStop then Some StopOperation
      else if op_Type vmop = VMOPTypeRestart then Some RestartOperation
      else None)"

definition isForceRequested :: "vmop \<Rightarrow> bool" where
  "isForceRequested vmop = (case op_Force vmop of None \<Rightarrow> False | Some b \<Rightarrow> b)"

text \<open>Whether the machine, read anew, has reached a phase; a machine that is gone has not.\<close>

definition vm_in_phase :: "'q op_env \<Rightarrow> string \<Rightarrow> string + bool" where
  "vm_in_phase env phase =
     (case env_VMLater env of
        Unreadable \<Rightarrow> Inl ''get vm''
      | Missing \<Rightarrow> Inr False
      | Got vm \<Rightarrow> Inr (Phase (vm_Status vm) = phase))"

text \<open>Starting.  No power operation gives a failure message, the second result of \<^verbatim>\<open>IsComplete\<close>.\<close>

definition StartOperation_Execute :: "op_api \<Rightarrow> 'q op_env \<Rightarrow> vmop \<Rightarrow> unit op_run" where
  "StartOperation_Execute api env vmop =
     (case env_KVVM env of
        Got kvvm \<Rightarrow> lift_run Power api (\<lambda>a. AddStartAnnotation a kvvm)
      | _ \<Rightarrow> err ''get kvvm'')"

definition StartOperation_IsApplicableForVMPhase :: "vmop \<Rightarrow> string \<Rightarrow> bool" where
  "StartOperation_IsApplicableForVMPhase vmop phase \<longleftrightarrow> phase = MachineStopped \<or> phase = MachineStopping"

definition StartOperation_IsApplicableForRunPolicy :: "string \<Rightarrow> bool" where
  "StartOperation_IsApplicableForRunPolicy runPolicy \<longleftrightarrow>
     runPolicy = ManualPolicy \<or> runPolicy = AlwaysOnUnlessStoppedManually"

definition StartOperation_IsComplete :: "'q op_env \<Rightarrow> vmop \<Rightarrow> string + bool \<times> string" where
  "StartOperation_IsComplete env vmop = map_sum id (\<lambda>b. (b, '''')) (vm_in_phase env MachineRunning)"

text \<open>Stopping: a machine without an instance is stopped already.\<close>

definition StopOperation_Execute :: "op_api \<Rightarrow> 'q op_env \<Rightarrow> vmop \<Rightarrow> unit op_run" where
  "StopOperation_Execute api env vmop =
     (case env_KVVMI env of
        Missing \<Rightarrow> ret ()
      | Unreadable \<Rightarrow> err ''get kvvmi''
      | Got kvvmi \<Rightarrow> lift_run Power api (\<lambda>a. StopVM a (Some kvvmi) (op_Force vmop)))"

definition StopOperation_IsApplicableForVMPhase :: "vmop \<Rightarrow> string \<Rightarrow> bool" where
  "StopOperation_IsApplicableForVMPhase vmop phase \<longleftrightarrow>
     phase = MachineRunning \<or> phase = MachineDegraded \<or> phase = MachineStarting \<or> phase = MachinePause \<or>
     phase = MachinePending \<or> phase = MachineStopping \<and> isForceRequested vmop"

definition StopOperation_IsApplicableForRunPolicy :: "string \<Rightarrow> bool" where
  "StopOperation_IsApplicableForRunPolicy runPolicy \<longleftrightarrow>
     runPolicy = ManualPolicy \<or> runPolicy = AlwaysOnUnlessStoppedManually"

definition StopOperation_IsComplete :: "'q op_env \<Rightarrow> vmop \<Rightarrow> string + bool \<times> string" where
  "StopOperation_IsComplete env vmop = map_sum id (\<lambda>b. (b, '''')) (vm_in_phase env MachineStopped)"

text \<open>Restarting: forced through the status of the internal machine, otherwise through an annotation.\<close>

definition RestartOperation_Execute :: "op_api \<Rightarrow> 'q op_env \<Rightarrow> vmop \<Rightarrow> unit op_run" where
  "RestartOperation_Execute api env vmop =
     (case env_KVVM env of
        Got kvvm \<Rightarrow>
          (if op_Force vmop = Some True then
             (case env_KVVMI env of
                Missing \<Rightarrow> lift_run Power api (\<lambda>a. AddStartAnnotation a kvvm)
              | Unreadable \<Rightarrow> err ''get kvvmi''
              | Got kvvmi \<Rightarrow> lift_run Power api (\<lambda>a. RestartVM a (env_Pods env) (Some kvvm) (Some kvvmi) True))
           else lift_run Power api (\<lambda>a. AddRestartAnnotation a kvvm))
      | _ \<Rightarrow> err ''get kvvm'')"

definition RestartOperation_IsApplicableForVMPhase :: "vmop \<Rightarrow> string \<Rightarrow> bool" where
  "RestartOperation_IsApplicableForVMPhase vmop phase \<longleftrightarrow>
     phase = MachineRunning \<or> phase = MachineDegraded \<or> phase = MachineStarting \<or> phase = MachinePause \<or>
     phase = MachineStopping \<and> isForceRequested vmop"

definition RestartOperation_IsApplicableForRunPolicy :: "string \<Rightarrow> bool" where
  "RestartOperation_IsApplicableForRunPolicy runPolicy \<longleftrightarrow>
     runPolicy = ManualPolicy \<or> runPolicy = AlwaysOnUnlessStoppedManually \<or> runPolicy = AlwaysOnPolicy"

definition RestartOperation_IsComplete :: "'q op_env \<Rightarrow> vmop \<Rightarrow> string + bool \<times> string" where
  "RestartOperation_IsComplete env vmop =
     (case env_KVVMI env of
        Missing \<Rightarrow> Inr (False, '''')
      | Unreadable \<Rightarrow> Inl ''get kvvmi''
      | Got kvvmi \<Rightarrow>
          (case env_VMLater env of
             Got vm \<Rightarrow> Inr (Phase (vm_Status vm) = MachineRunning \<and>
                            IsAfterSignalSentOrCreation (kvvmi_Created kvvmi) vmop, '''')
           | _ \<Rightarrow> Inl ''get vm''))"

text \<open>The interface \<^verbatim>\<open>Operation\<close>.\<close>

fun Execute :: "op_api \<Rightarrow> 'q op_env \<Rightarrow> operation \<Rightarrow> vmop \<Rightarrow> unit op_run" where
  "Execute api env StartOperation vmop = StartOperation_Execute api env vmop"
| "Execute api env StopOperation vmop = StopOperation_Execute api env vmop"
| "Execute api env RestartOperation vmop = RestartOperation_Execute api env vmop"

fun IsApplicableForVMPhase :: "operation \<Rightarrow> vmop \<Rightarrow> string \<Rightarrow> bool" where
  "IsApplicableForVMPhase StartOperation = StartOperation_IsApplicableForVMPhase"
| "IsApplicableForVMPhase StopOperation = StopOperation_IsApplicableForVMPhase"
| "IsApplicableForVMPhase RestartOperation = RestartOperation_IsApplicableForVMPhase"

fun IsApplicableForRunPolicy :: "operation \<Rightarrow> string \<Rightarrow> bool" where
  "IsApplicableForRunPolicy StartOperation = StartOperation_IsApplicableForRunPolicy"
| "IsApplicableForRunPolicy StopOperation = StopOperation_IsApplicableForRunPolicy"
| "IsApplicableForRunPolicy RestartOperation = RestartOperation_IsApplicableForRunPolicy"

fun GetInProgressReason :: "operation \<Rightarrow> string" where
  "GetInProgressReason StartOperation = ''StartInProgress''"
| "GetInProgressReason StopOperation = ''StopInProgress''"
| "GetInProgressReason RestartOperation = ''RestartInProgress''"

fun IsComplete :: "'q op_env \<Rightarrow> operation \<Rightarrow> vmop \<Rightarrow> string + bool \<times> string" where
  "IsComplete env StartOperation = StartOperation_IsComplete env"
| "IsComplete env StopOperation = StopOperation_IsComplete env"
| "IsComplete env RestartOperation = RestartOperation_IsComplete env"

lemmas operation_defs =
  StartOperation_Execute_def StopOperation_Execute_def RestartOperation_Execute_def
  StartOperation_IsApplicableForVMPhase_def StopOperation_IsApplicableForVMPhase_def
  RestartOperation_IsApplicableForVMPhase_def StartOperation_IsApplicableForRunPolicy_def
  StopOperation_IsApplicableForRunPolicy_def RestartOperation_IsApplicableForRunPolicy_def

section \<open>lifecycle.go\<close>


definition isOperationInProgress :: "vmop \<Rightarrow> bool" where
  "isOperationInProgress vmop \<longleftrightarrow>
     cond_Status (fst (GetCondition TypeSignalSent (op_Conditions vmop))) = ConditionTrue \<and>
     cond_Status (fst (GetCondition TypeCompleted (op_Conditions vmop))) \<noteq> ConditionTrue"

definition recordEvent :: "vmop \<Rightarrow> unit op_run" where
  "recordEvent vmop =
     (if op_Type vmop = VMOPTypeStart then event ReasonVMStarted
      else if op_Type vmop = VMOPTypeStop then event ReasonVMStopped
      else if op_Type vmop = VMOPTypeRestart then event ReasonVMRestarted
      else ret ())"

definition signal_failed :: "'q op_env \<Rightarrow> string \<Rightarrow> vmop \<Rightarrow> vmop" where
  "signal_failed env e vmop =
     set_op_condition env 7 (op_condition vmop TypeSignalSent ''SignalSentError'' ConditionFalse '''')
       (set_op_condition env 6
          (op_condition vmop TypeCompleted ''OperationFailed'' ConditionFalse
             (''Sending signal '' @ [CHR 0x22] @ op_Type vmop @ [CHR 0x22] @ '' to VM: '' @ e))
          (vmop\<lparr> op_Phase := VMOPPhaseFailed \<rparr>))"

definition signal_sent :: "'q op_env \<Rightarrow> operation \<Rightarrow> vmop \<Rightarrow> vmop" where
  "signal_sent env svcOp vmop =
     set_op_condition env 9 (op_condition vmop TypeSignalSent ''SignalSentSuccess'' ConditionTrue '''')
       (set_op_condition env 8
          (op_condition vmop TypeCompleted (GetInProgressReason svcOp) ConditionFalse
             ''Waiting for the operation to complete.'')
          (vmop\<lparr> op_Phase := VMOPPhaseInProgress \<rparr>))"

text \<open>After the branch of a failed signal the code goes on with the branch of a sent one.\<close>

definition execute :: "op_api \<Rightarrow> 'q op_env \<Rightarrow> vmop \<Rightarrow> operation \<Rightarrow> vmop op_run" where
  "execute api env vmop svcOp =
     bind_run (recordEvent vmop) (\<lambda>_.
     bind_run (try_run (Execute api env svcOp vmop)) (\<lambda>r.
     bind_run (case r of
                 Inl e \<Rightarrow> bind_run (event ReasonErrVMOPFailed) (\<lambda>_. ret (signal_failed env e vmop))
               | Inr _ \<Rightarrow> ret vmop) (\<lambda>vmop'.
     bind_run (event ReasonVMOPInProgress) (\<lambda>_. ret (signal_sent env svcOp vmop')))))"

definition syncOperationComplete :: "'q op_env \<Rightarrow> vmop \<Rightarrow> operation \<Rightarrow> (vmop \<times> string option) op_run" where
  "syncOperationComplete env changed svcOp =
     (case IsComplete env svcOp changed of
        Inl e \<Rightarrow> ret (changed, Some (''check if operation is complete: '' @ e))
      | Inr (isComplete, failureMessage) \<Rightarrow>
          if isComplete then
            (if failureMessage \<noteq> '''' then
               bind_run (event ReasonErrVMOPFailed) (\<lambda>_.
                 ret (set_op_condition env 10
                        (op_condition changed TypeCompleted ''OperationFailed'' ConditionFalse failureMessage)
                        (changed\<lparr> op_Phase := VMOPPhaseFailed \<rparr>), None))
             else
               bind_run (event ReasonVMOPSucceeded) (\<lambda>_.
                 ret (set_op_condition env 11
                        (op_condition changed TypeCompleted ''OperationCompleted'' ConditionTrue '''')
                        (changed\<lparr> op_Phase := VMOPPhaseCompleted \<rparr>), None)))
          else
            ret (set_op_condition env 12
                   (op_condition changed TypeCompleted (GetInProgressReason svcOp) ConditionFalse
                      ''Wait until operation completed'') changed, None))"

text \<open>The steps 4 and 5 of the handler, for an operation that is not in progress.\<close>

definition start_operation ::
  "op_api \<Rightarrow> 'q op_env \<Rightarrow> 'q virtual_machine \<Rightarrow> operation \<Rightarrow> vmop \<Rightarrow> (vmop \<times> string option) op_run" where
  "start_operation api env vm svcOp vmop =
     bind_run (ShouldExecuteOrSetFailedPhase api env vmop) (\<lambda>(vmop', should).
       case should of
         Inl e \<Rightarrow> ret (vmop', Some e)
       | Inr b \<Rightarrow>
           if \<not> b then ret (vmop', None)
           else bind_run (IsApplicableOrSetFailedPhase env (IsApplicableForRunPolicy svcOp)
                            (IsApplicableForVMPhase svcOp vmop') vmop' vm) (\<lambda>(vmop'', isApplicable).
             if \<not> isApplicable then ret (vmop'', None)
             else bind_run (execute api env vmop'' svcOp) (\<lambda>vmop3. ret (vmop3, None))))"

definition LifecycleHandler_Handle :: "op_api \<Rightarrow> 'q op_env \<Rightarrow> vmop \<Rightarrow> (vmop \<times> string option) op_run" where
  "LifecycleHandler_Handle api env vmop =
     (if IsTerminating vmop then ret (vmop\<lparr> op_Phase := VMOPPhaseTerminating \<rparr>, None)
      else if IsFinished vmop then ret (vmop, None)
      else
        bind_run (Init env vmop) (\<lambda>vmop1.
        let vmop2 = (if op_Phase vmop1 = ''''
                     then set_op_condition env 13
                            (op_condition vmop1 TypeSignalSent ''Unknown'' ConditionUnknown '''') vmop1
                     else vmop1)
        in bind_run (FetchVirtualMachineOrSetFailedPhase env vmop2) (\<lambda>(vmop3, fetched).
           case fetched of
             Inl e \<Rightarrow> ret (vmop3, Some e)
           | Inr None \<Rightarrow> ret (vmop3, None)
           | Inr (Some vm) \<Rightarrow>
               (case NewOperationService vmop3 of
                  None \<Rightarrow> ret (vmop3, Some ''unknown virtual machine operation type'')
                | Some svcOp \<Rightarrow>
                    if isOperationInProgress vmop3 then syncOperationComplete env vmop3 svcOp
                    else start_operation api env vm svcOp vmop3))))"

section \<open>deletion.go and predicates.go\<close>


definition DeletionHandler_Handle :: "finalizer_ops \<Rightarrow> vmop \<Rightarrow> vmop" where
  "DeletionHandler_Handle fo vmop =
     (if \<not> op_Deleting vmop \<and> op_Phase vmop = VMOPPhaseInProgress
      then vmop\<lparr> op_Finalizers := fin_Add fo FinalizerVMOPCleanup (op_Finalizers vmop) \<rparr>
      else vmop\<lparr> op_Finalizers := fin_Remove fo FinalizerVMOPCleanup (op_Finalizers vmop) \<rparr>)"

definition Match :: "vmop \<Rightarrow> bool" where
  "Match vmop \<longleftrightarrow> op_Type vmop = VMOPTypeStop \<or> op_Type vmop = VMOPTypeStart \<or> op_Type vmop = VMOPTypeRestart"

section \<open>Handling never panics\<close>

lemma no_panic_power [no_panic_rules]:
  "no_panic (EnsureAnnotation api kv k x)" "no_panic (RemoveAnnotation api kv k)"
  "no_panic (StopVM api vmi f)" "no_panic (DeletePodByKVVMI api pods i)"
  unfolding EnsureAnnotation_def RemoveAnnotation_def StopVM_def DeletePodByKVVMI_def
  by (auto split: option.split intro!: no_panic_rules)

lemma no_panic_RestartVM [no_panic_rules]: "no_panic (RestartVM api pods kv vmi f)"
  unfolding RestartVM_def by (auto split: option.split sum.split patch_error.split intro!: no_panic_rules)

lemma no_panic_Execute [no_panic_rules]: "no_panic (Execute api env svcOp v)"
  by (cases svcOp) (auto simp: operation_defs AddStartAnnotation_def AddRestartAnnotation_def split: reading.split intro!: no_panic_rules)

lemma no_panic_mark [no_panic_rules]: "no_panic (mark_attempts api env old v k n)"
  by (induction n arbitrary: k) (auto split: reading.split intro!: no_panic_rules)

lemma no_panic_cleanup [no_panic_rules]: "no_panic (cleanupSupersededOperation api env old)"
  unfolding cleanupSupersededOperation_def RemoveStartAnnotation_def RemoveRestartAnnotation_def
  by (auto split: reading.split intro!: no_panic_rules)

lemma no_panic_supersede [no_panic_rules]: "no_panic (supersede_loop api env bs v)"
  by (induction bs) (auto simp: markSuperseded_def intro!: no_panic_rules)

section \<open>Signals\<close>

text \<open>A signal is a call on the machine other than taking back an annotation.\<close>

definition signal :: "op_call effect \<Rightarrow> bool" where "signal e \<longleftrightarrow> \<not> supersede_effect e"

lemma emits_should: "emits supersede_effect (ShouldExecuteOrSetFailedPhase api env v)"
  unfolding ShouldExecuteOrSetFailedPhase_def ShouldExecuteOrSupersedeOrSetFailedPhase_def
  by (auto split: option.split intro!: emits_rules emits_supersede_loop)

lemma emits_quiet:
  "emits supersede_effect (Init env v)"
  "emits supersede_effect (FetchVirtualMachineOrSetFailedPhase env v)"
  "emits supersede_effect (IsApplicableOrSetFailedPhase env pol ph v vm)"
  "emits supersede_effect (syncOperationComplete env v svcOp)"
  unfolding Init_def FetchVirtualMachineOrSetFailedPhase_def IsApplicableOrSetFailedPhase_def syncOperationComplete_def
  by (auto split: reading.split sum.split intro!: emits_rules)

text \<open>What an operation keeps in the conditions while it is in progress, and the phases that end it.\<close>

definition settled :: "vmop \<Rightarrow> bool" where
  "settled v \<longleftrightarrow> IsTerminating v \<or> IsFinished v \<or> isOperationInProgress v"

lemma in_progress_iff:
  "isOperationInProgress v \<longleftrightarrow> op_status TypeSignalSent v = ConditionTrue \<and> op_status TypeCompleted v \<noteq> ConditionTrue"
  by (simp add: isOperationInProgress_def op_status_def)

lemma settled_simps [simp]:
  "settled (set_op_condition env k c (v\<lparr> op_Phase := VMOPPhaseFailed \<rparr>))"
  "settled (set_op_condition env k c (v\<lparr> op_Phase := VMOPPhaseCompleted \<rparr>))"
  "settled (v\<lparr> op_Phase := VMOPPhaseTerminating \<rparr>)"
  by (simp_all add: settled_def IsFinished_def IsTerminating_def)

lemma shouldD:
  assumes "ShouldExecuteOrSetFailedPhase api env v log = (Returned (v', Inr True), log')"
  shows "v' = v"
  using assms unfolding ShouldExecuteOrSetFailedPhase_def ShouldExecuteOrSupersedeOrSetFailedPhase_def
  by (auto simp: ret_def split: option.splits if_splits elim!: bind_run_Returned)

lemma applicableD:
  assumes "IsApplicableOrSetFailedPhase env pol ph v vm log = (Returned (v', True), log')"
  shows "v' = v \<and> log' = log \<and> pol (RunPolicy (vm_Spec vm)) \<and> ph (Phase (vm_Status vm))"
  using assms unfolding IsApplicableOrSetFailedPhase_def
  by (auto simp: ret_def split: if_splits elim!: bind_run_Returned)

lemma signal_sent_status [simp]:
  "op_Phase (signal_sent env svcOp v) = VMOPPhaseInProgress"
  "op_status TypeSignalSent (signal_sent env svcOp v) = ConditionTrue"
  "op_status TypeCompleted (signal_sent env svcOp v) = ConditionFalse"
  by (simp_all add: signal_sent_def)

lemma executeD:
  assumes "execute api env v svcOp log = (Returned v', log')"
  shows "\<exists>w. v' = signal_sent env svcOp w"
  using assms unfolding execute_def by (auto simp: ret_def elim!: bind_run_Returned)

text \<open>A pass that starts an operation either sends no signal or ends with the operation in progress.\<close>

lemma start_operationD:
  assumes run: "start_operation api env vm svcOp v log = (Returned (v', e), log')"
  shows "(\<exists>new. log' = log @ new \<and> list_all supersede_effect new) \<or>
    (\<exists>w log1. v' = signal_sent env svcOp w \<and> e = None \<and>
       ShouldExecuteOrSetFailedPhase api env v log = (Returned (v, Inr True), log1) \<and>
       IsApplicableForRunPolicy svcOp (RunPolicy (vm_Spec vm)) \<and>
       IsApplicableForVMPhase svcOp v (Phase (vm_Status vm)) \<and> execute api env v svcOp log1 = (Returned v', log'))"
proof -
  obtain v1 should log1 where should: "ShouldExecuteOrSetFailedPhase api env v log = (Returned (v1, should), log1)"
    and rest: "(case should of Inl e \<Rightarrow> ret (v1, Some e) | Inr b \<Rightarrow>
        if \<not> b then ret (v1, None)
        else bind_run (IsApplicableOrSetFailedPhase env (IsApplicableForRunPolicy svcOp)
            (IsApplicableForVMPhase svcOp v1) v1 vm) (\<lambda>(vmop'', isApplicable).
          if \<not> isApplicable then ret (vmop'', None)
          else bind_run (execute api env vmop'' svcOp) (\<lambda>vmop3. ret (vmop3, None)))) log1 = (Returned (v', e), log')"
    using run unfolding start_operation_def by (auto elim!: bind_run_Returned)
  have quiet: "\<exists>new. log1 = log @ new \<and> list_all supersede_effect new"
    using emits_should [of api env v] should by (metis emits_def snd_conv)
  show ?thesis
  proof (cases "should = Inr True")
    case False
    then have "log' = log1" using rest by (auto simp: ret_def split: sum.splits if_splits)
    with quiet show ?thesis by simp
  next
    case True
    then have v1: "v1 = v" using should by (auto dest: shouldD)
    obtain v2 ok log2 where app: "IsApplicableOrSetFailedPhase env (IsApplicableForRunPolicy svcOp)
        (IsApplicableForVMPhase svcOp v) v vm log1 = (Returned (v2, ok), log2)"
      and rest2: "(if \<not> ok then ret (v2, None) else bind_run (execute api env v2 svcOp) (\<lambda>vmop3. ret (vmop3, None))) log2 =
        (Returned (v', e), log')"
      using rest True v1 by (auto elim!: bind_run_Returned)
    show ?thesis
    proof (cases ok)
      case False
      obtain new where "log2 = log1 @ new" "list_all supersede_effect new"
        using emits_quiet(3) app by (metis emits_def snd_conv)
      moreover have "log' = log2" using rest2 False by (simp add: ret_def)
      ultimately show ?thesis using quiet by auto
    next
      case ok: True
      have "v2 = v" "log2 = log1" and appl: "IsApplicableForRunPolicy svcOp (RunPolicy (vm_Spec vm))"
        "IsApplicableForVMPhase svcOp v (Phase (vm_Status vm))"
        using applicableD [OF app [unfolded ok [THEN eqTrueI]]] by auto
      then have "execute api env v svcOp log1 = (Returned v', log')" "e = None"
        using rest2 ok by (auto simp: ret_def elim!: bind_run_Returned)
      with appl should True v1 show ?thesis by (auto dest: executeD)
    qed
  qed
qed

text \<open>What the first two steps make of an operation: initialised, and looked up with its machine.\<close>

definition init_op :: "'q op_env \<Rightarrow> vmop \<Rightarrow> vmop" where
  "init_op env v =
     (if op_Phase v = ''''
      then set_op_condition env 2 (op_condition v TypeCompleted ''Unknown'' ConditionUnknown '''')
             (v\<lparr> op_Phase := VMOPPhasePending \<rparr>)
      else v)"

definition found_op :: "'q op_env \<Rightarrow> 'q virtual_machine \<Rightarrow> vmop \<Rightarrow> vmop" where
  "found_op env vm v =
     (init_op env v)\<lparr> op_Labels := (op_Labels (init_op env v))(LabelVirtualMachineUID \<mapsto> vm_UID vm) \<rparr>"

lemma found_op_fields [simp]:
  "op_Type (found_op env vm v) = op_Type v" "op_Force (found_op env vm v) = op_Force v"
  "op_Name (found_op env vm v) = op_Name v" "op_UID (found_op env vm v) = op_UID v"
  "op_Namespace (found_op env vm v) = op_Namespace v" "op_VirtualMachine (found_op env vm v) = op_VirtualMachine v"
  "op_Created (found_op env vm v) = op_Created v"
  by (simp_all add: found_op_def init_op_def)

lemma found_op_in_progress: "isOperationInProgress v \<Longrightarrow> isOperationInProgress (found_op env vm v)"
  by (simp add: in_progress_iff found_op_def init_op_def)

text \<open>The handler after these steps; without a machine it ends there.\<close>

lemma Handle_cases:
  assumes run: "LifecycleHandler_Handle api env v log = (Returned (v', e), log')"
    and act: "\<not> IsTerminating v" "\<not> IsFinished v"
  obtains (no_machine) "list_all supersede_effect (drop (length log) log')" "env_VM env = Unreadable" "v' = init_op env v"
  | (missing) "list_all supersede_effect (drop (length log) log')" "settled v'"
  | (unknown) vm where "list_all supersede_effect (drop (length log) log')" "v' = found_op env vm v"
  | (progress) vm svcOp pre where "env_VM env = Got vm" "NewOperationService v = Some svcOp"
      "isOperationInProgress (found_op env vm v)" "list_all supersede_effect pre"
      "syncOperationComplete env (found_op env vm v) svcOp (log @ pre) = (Returned (v', e), log')"
  | (start) vm svcOp pre where "env_VM env = Got vm" "NewOperationService v = Some svcOp"
      "\<not> isOperationInProgress (found_op env vm v)" "list_all supersede_effect pre"
      "start_operation api env vm svcOp (found_op env vm v) (log @ pre) = (Returned (v', e), log')"
proof -
  let ?pre = "if op_Phase v = '''' then [Event ReasonVMOPStarted] else []"
  have pre: "list_all supersede_effect ?pre" by simp
  have init: "Init env v log = (Returned (init_op env v), log @ ?pre)"
    by (simp add: Init_def init_op_def bind_run_def event_def ret_def)
  have "op_Phase (init_op env v) \<noteq> ''''" by (simp add: init_op_def)
  then have step: "(Returned (v', e), log') = bind_run (FetchVirtualMachineOrSetFailedPhase env (init_op env v)) (\<lambda>(vmop3, fetched).
      case fetched of Inl e \<Rightarrow> ret (vmop3, Some e) | Inr None \<Rightarrow> ret (vmop3, None)
      | Inr (Some vm) \<Rightarrow> (case NewOperationService vmop3 of None \<Rightarrow> ret (vmop3, Some ''unknown virtual machine operation type'')
         | Some svcOp \<Rightarrow> if isOperationInProgress vmop3 then syncOperationComplete env vmop3 svcOp
             else start_operation api env vm svcOp vmop3)) (log @ ?pre)"
    using run act init unfolding LifecycleHandler_Handle_def by (simp add: bind_run_def Let_def)
  show thesis
  proof (cases "env_VM env")
    case (Got vm)
    have "FetchVirtualMachineOrSetFailedPhase env (init_op env v) (log @ ?pre) = (Returned (found_op env vm v, Inr (Some vm)), log @ ?pre)"
      using Got by (simp add: FetchVirtualMachineOrSetFailedPhase_def found_op_def ret_def)
    note step' = step [unfolded bind_run_def this prod.case outcome.case sum.case option.case]
    have svc: "NewOperationService (found_op env vm v) = NewOperationService v" by (simp add: NewOperationService_def)
    show thesis
    proof (cases "NewOperationService v")
      case None
      with step' svc show thesis by (intro unknown [of vm]) (auto simp: ret_def)
    next
      case (Some svcOp)
      show thesis
      proof (cases "isOperationInProgress (found_op env vm v)")
        case True
        with step' svc Some show thesis by (intro progress [OF Got Some True pre]) simp
      next
        case False
        with step' svc Some show thesis by (intro start [OF Got Some False pre]) simp
      qed
    qed
  next
    case Missing
    with step show thesis
      by (intro missing) (simp_all add: FetchVirtualMachineOrSetFailedPhase_def bind_run_def event_def ret_def)
  next
    case Unreadable
    with step show thesis
      by (intro no_machine) (simp_all add: FetchVirtualMachineOrSetFailedPhase_def bind_run_def ret_def)
  qed
qed

section \<open>At most one signal\<close>

lemma returns_Handle: "\<exists>v' e log'. LifecycleHandler_Handle api env v log = (Returned (v', e), log')"
proof -
  have should: "returns (ShouldExecuteOrSetFailedPhase api env w)" for w
    unfolding ShouldExecuteOrSetFailedPhase_def ShouldExecuteOrSupersedeOrSetFailedPhase_def
    by (auto split: option.split intro!: returns_rules no_panic_rules)
  have exec: "returns (execute api env w svcOp)" for w svcOp
    unfolding execute_def recordEvent_def by (auto split: sum.split intro!: returns_rules no_panic_rules)
  have app: "returns (IsApplicableOrSetFailedPhase env pol ph w vm)" for pol ph w vm
    unfolding IsApplicableOrSetFailedPhase_def by (auto intro!: returns_rules)
  have start: "returns (start_operation api env vm svcOp w)" for vm svcOp w
    unfolding start_operation_def by (auto split: sum.split intro!: returns_rules should app exec)
  have sync: "returns (syncOperationComplete env w svcOp)" for w svcOp
    unfolding syncOperationComplete_def by (auto split: sum.split intro!: returns_rules)
  have fetch: "returns (FetchVirtualMachineOrSetFailedPhase env w)" for w
    unfolding FetchVirtualMachineOrSetFailedPhase_def by (auto split: reading.split intro!: returns_rules)
  have "returns (Init env v)" unfolding Init_def by (auto intro!: returns_rules)
  then have "returns (LifecycleHandler_Handle api env v)"
    unfolding LifecycleHandler_Handle_def Let_def
    by (auto split: sum.split option.split intro!: returns_rules fetch sync start)
  then show ?thesis by (auto simp: returns_def)
qed

lemma sync_settled:
  assumes "syncOperationComplete env v svcOp log = (Returned (v', e), log')" and "isOperationInProgress v"
  shows "settled v' \<and> (\<exists>new. log' = log @ new \<and> list_all supersede_effect new)"
proof -
  have "settled v'"
    using assms unfolding syncOperationComplete_def
    by (auto simp: ret_def settled_def in_progress_iff IsFinished_def split: sum.splits if_splits elim!: bind_run_Returned)
  moreover have "\<exists>new. log' = log @ new \<and> list_all supersede_effect new"
    using emits_quiet(4) assms(1) by (metis emits_def snd_conv)
  ultimately show ?thesis by blast
qed

lemma settled_pass:
  assumes run: "LifecycleHandler_Handle api env v log = (Returned (v', e), log')" and "settled v"
  shows "settled v' \<and> list_all supersede_effect (drop (length log) log')"
proof (cases "IsTerminating v \<or> IsFinished v")
  case True
  with run show ?thesis by (auto simp: LifecycleHandler_Handle_def ret_def settled_def IsTerminating_def split: if_splits)
next
  case False
  then have act: "\<not> IsTerminating v" "\<not> IsFinished v" and ip: "isOperationInProgress v" using assms(2) by (auto simp: settled_def)
  from run act show ?thesis
  proof (cases rule: Handle_cases)
    case no_machine
    moreover have "isOperationInProgress (init_op env v)" using ip by (simp add: in_progress_iff init_op_def)
    ultimately show ?thesis by (simp add: settled_def)
  next
    case (unknown vm)
    then show ?thesis using ip by (simp add: settled_def found_op_in_progress)
  next
    case (progress vm svcOp pre)
    then show ?thesis using sync_settled by fastforce
  next
    case (start vm svcOp pre)
    then show ?thesis using ip by (simp add: found_op_in_progress)
  qed simp
qed

lemma signal_settles:
  assumes run: "LifecycleHandler_Handle api env v log = (Returned (v', e), log')"
    and "\<not> list_all supersede_effect (drop (length log) log')"
  shows "settled v'"
proof (cases "settled v")
  case True
  with settled_pass [OF run] show ?thesis by blast
next
  case False
  then have act: "\<not> IsTerminating v" "\<not> IsFinished v" by (auto simp: settled_def)
  from run act show ?thesis
  proof (cases rule: Handle_cases)
    case (progress vm svcOp pre)
    then show ?thesis using sync_settled by blast
  next
    case (start vm svcOp pre)
    then have "\<not> (\<exists>new. log' = (log @ pre) @ new \<and> list_all supersede_effect new)"
      using assms(2) by (auto simp: list_all_append)
    then have "\<exists>w. v' = signal_sent env svcOp w" using start_operationD [OF start(5)] by blast
    then show ?thesis by (auto simp: settled_def in_progress_iff)
  qed (use assms(2) in simp_all)
qed

text \<open>
  The life of an operation: passes of the handler, each with its own server and reads, between which
  a user may delete the operation and another operation may supersede it.  The result lists what
  the passes sent.
\<close>

datatype 'q op_input = Pass op_api "'q op_env" | UserDelete | SupersededBy "'q op_env" vmop

fun is_pass :: "'q op_input \<Rightarrow> bool" where
  "is_pass (Pass _ _) = True"
| "is_pass _ = False"

fun op_life :: "'q op_input list \<Rightarrow> vmop \<Rightarrow> op_call effect list list" where
  "op_life [] v = []"
| "op_life (Pass api env # ins) v =
     (case LifecycleHandler_Handle api env v [] of
        (Returned (v', _), sent) \<Rightarrow> sent # op_life ins v'
      | (_, sent) \<Rightarrow> [sent])"
| "op_life (UserDelete # ins) v = op_life ins (v\<lparr> op_Deleting := True \<rparr>)"
| "op_life (SupersededBy env new # ins) v = op_life ins (if IsFinished v then v else superseded_by env v new)"

lemma settled_changes:
  "settled v \<Longrightarrow> settled (v\<lparr> op_Deleting := True \<rparr>)" "settled (superseded_by env v new)"
  by (simp_all add: settled_def IsTerminating_def superseded_by_def IsFinished_def)

lemma settled_life: "settled v \<Longrightarrow> filter (list_ex signal) (op_life ins v) = []"
proof (induction ins v rule: op_life.induct)
  case (2 api env ins v)
  obtain v' e sent where run: "LifecycleHandler_Handle api env v [] = (Returned (v', e), sent)"
    using returns_Handle by blast
  then have "settled v'" "\<not> list_ex signal sent" using settled_pass [OF run 2(2)] by (auto simp: list_ex_iff list_all_iff signal_def)
  then show ?case using run 2(1) [OF run [symmetric]] by simp
next
  case (4 env new ins v)
  then show ?case by (simp add: settled_changes(2))
qed (simp_all add: settled_changes)


section \<open>Signals are justified\<close>

lemma found_op_same:
  "superseded_by env c (found_op env' vm v) = superseded_by env c v" "active_ops items (found_op env' vm v) = active_ops items v"
  "CanSupersede old (found_op env' vm v) = CanSupersede old v" "isOlderVMOP old (found_op env' vm v) = isOlderVMOP old v"
  "IsApplicableForVMPhase svcOp (found_op env' vm v) = IsApplicableForVMPhase svcOp v"
  by (auto simp: superseded_by_def active_ops_def CanSupersede_def force_def isOlderVMOP_def isForceRequested_def fun_eq_iff
      intro!: ext) (cases svcOp; simp add: operation_defs isForceRequested_def)+

lemma found_op_out_of_the_way:
  "out_of_the_way api env (found_op env' vm v) log old = out_of_the_way api env v log old"
  by (simp add: out_of_the_way_def found_op_same)

lemma emits_execute: "emits (\<lambda>_. True) (execute api env v svcOp)"
proof -
  have lift: "emits (\<lambda>_. True) (lift_run Power api m)" if "\<And>a. emits (\<lambda>_. True) (m a)" for m :: "power_api \<Rightarrow> unit power_run"
    using that by (rule emits_lift)
  have power: "emits (\<lambda>_. True) (EnsureAnnotation a kv k x)" "emits (\<lambda>_. True) (StopVM a vmi f)"
    "emits (\<lambda>_. True) (RestartVM a pods okv vmi b)" for a kv k x vmi f pods okv b
    unfolding EnsureAnnotation_def StopVM_def RestartVM_def DeletePodByKVVMI_def
    by (auto split: option.split sum.split patch_error.split intro!: emits_rules)
  have "emits (\<lambda>_. True) (Execute api env svcOp v)"
    by (cases svcOp) (auto simp: operation_defs AddStartAnnotation_def AddRestartAnnotation_def split: reading.split
        intro!: emits_rules lift power)
  then show ?thesis unfolding execute_def recordEvent_def by (auto split: sum.split intro!: emits_rules)
qed

text \<open>
  Claim C15: a signal is sent only when it is allowed: the operation is neither being deleted nor
  finished, its machine exists with a run policy and in a phase the operation applies to, and every
  older unfinished operation on the machine can be superseded by it and is out of the way.  After
  it the operation is in progress.
\<close>

theorem signal_only_when_allowed:
  assumes run: "LifecycleHandler_Handle api env v log = (Returned (v', e), log @ new)" and sent: "list_ex signal new"
  shows "\<not> IsTerminating v \<and> \<not> IsFinished v \<and>
    (\<exists>vm svcOp items. env_VM env = Got vm \<and> NewOperationService v = Some svcOp \<and>
       IsApplicableForRunPolicy svcOp (RunPolicy (vm_Spec vm)) \<and>
       IsApplicableForVMPhase svcOp v (Phase (vm_Status vm)) \<and> env_VMOPs env = Some items \<and>
       (\<forall>old \<in> active_ops items v. op_UID old \<noteq> op_UID v \<and> isOlderVMOP old v \<longrightarrow>
          CanSupersede old v \<and> out_of_the_way api env v (log @ new) old)) \<and>
    op_Phase v' = VMOPPhaseInProgress \<and> isOperationInProgress v'"
proof -
  have loud: "\<not> list_all supersede_effect new" using sent by (auto simp: list_ex_iff list_all_iff signal_def)
  have "\<not> settled v" using settled_pass [OF run] loud by auto
  then have act: "\<not> IsTerminating v" "\<not> IsFinished v" by (auto simp: settled_def)
  from run act show ?thesis
  proof (cases rule: Handle_cases)
    case (progress vm svcOp pre)
    then show ?thesis using sync_settled loud by fastforce
  next
    case (start vm svcOp pre)
    let ?v = "found_op env vm v"
    have "\<not> (\<exists>n. log @ new = (log @ pre) @ n \<and> list_all supersede_effect n)"
      using loud start(4) by (auto simp: list_all_append)
    then obtain w log1 where v': "v' = signal_sent env svcOp w"
      and should: "ShouldExecuteOrSetFailedPhase api env ?v (log @ pre) = (Returned (?v, Inr True), log1)"
      and appl: "IsApplicableForRunPolicy svcOp (RunPolicy (vm_Spec vm))" "IsApplicableForVMPhase svcOp ?v (Phase (vm_Status vm))"
      and exec: "execute api env ?v svcOp log1 = (Returned v', log @ new)"
      using start_operationD [OF start(5)] by blast
    obtain items where items: "env_VMOPs env = Some items"
      using should unfolding ShouldExecuteOrSetFailedPhase_def ShouldExecuteOrSupersedeOrSetFailedPhase_def
      by (auto simp: findOlderActiveVMOPs_def ret_def split: option.splits)
    obtain n where "log @ new = log1 @ n" using emits_log [OF emits_execute exec] by blast
    moreover have "\<forall>old \<in> active_ops items v. op_UID old \<noteq> op_UID v \<and> isOlderVMOP old v \<longrightarrow>
        CanSupersede old v \<and> out_of_the_way api env v log1 old"
      using executes_only_after_superseding [OF items should] by (simp add: found_op_same found_op_out_of_the_way)
    ultimately have "\<forall>old \<in> active_ops items v. op_UID old \<noteq> op_UID v \<and> isOlderVMOP old v \<longrightarrow>
        CanSupersede old v \<and> out_of_the_way api env v (log @ new) old"
      by (simp add: out_of_the_way_append)
    then show ?thesis using act start(1,2) appl items v' by (auto simp: found_op_same in_progress_iff)
  qed (use loud in simp_all)
qed

definition example_stopped_vm :: "int virtual_machine" where
  "example_stopped_vm =
     example_vm\<lparr> vm_Spec := (vm_Spec example_vm)\<lparr> RunPolicy := ManualPolicy \<rparr>,
                 vm_Status := (vm_Status example_vm)\<lparr> Phase := MachineStopped \<rparr> \<rparr>"

definition example_start_env :: "int op_env" where
  "example_start_env =
     (example_op_env [example_op ''a'' ''Start'' None])\<lparr> env_VM := Got example_stopped_vm, env_KVVM := Got example_idle_kvvm \<rparr>"

lemma example_start_run:
  "\<exists>v' e. LifecycleHandler_Handle (\<lambda>_ _. OK) example_start_env (example_op ''a'' ''Start'' None) [] =
     (Returned (v', e), [] @ [Event ReasonVMOPStarted, Event ReasonVMStarted,
        Call (Power (SetAnnotation AnnVMStartRequested ''true'')), Event ReasonVMOPInProgress])"
proof -
  let ?op = "example_op ''a'' ''Start'' None"
  have op: "op_Phase ?op = ''''" "op_Type ?op = ''Start''" "\<not> IsTerminating ?op" "\<not> IsFinished ?op"
    "op_Conditions ?op = []"
    by (simp_all add: example_op_def IsTerminating_def IsFinished_def)
  have env: "env_VM example_start_env = Got example_stopped_vm" "env_KVVM example_start_env = Got example_idle_kvvm"
    by (simp_all add: example_start_env_def)
  have vm: "RunPolicy (vm_Spec example_stopped_vm) = ManualPolicy" "Phase (vm_Status example_stopped_vm) = MachineStopped"
    by (simp_all add: example_stopped_vm_def)
  have list: "env_VMOPs example_start_env = Some [?op]"
    by (simp add: example_start_env_def example_op_env_def)
  have kvvm: "kvvm_Annotations example_idle_kvvm AnnVMStartRequested = None"
    by (simp add: example_idle_kvvm_def example_kvvm_def)
  let ?f = "found_op example_start_env example_stopped_vm ?op"
  have older: "findOlderActiveVMOPs example_start_env ?f = Some []"
    using list by (simp add: findOlderActiveVMOPs_def)
  have progress: "\<not> isOperationInProgress ?f"
    by (simp add: in_progress_iff found_op_def init_op_def op) (simp add: op_status_def op GetCondition_def empty_condition_def)
  have "Init example_start_env ?op [] = (Returned (init_op example_start_env ?op), [Event ReasonVMOPStarted])"
    by (simp add: Init_def init_op_def op bind_run_def event_def ret_def)
  moreover have "op_Phase (init_op example_start_env ?op) = VMOPPhasePending" by (simp add: init_op_def op)
  moreover have "FetchVirtualMachineOrSetFailedPhase example_start_env (init_op example_start_env ?op) log =
      (Returned (?f, Inr (Some example_stopped_vm)), log)" for log
    by (simp add: FetchVirtualMachineOrSetFailedPhase_def env found_op_def ret_def)
  moreover have "NewOperationService ?f = Some StartOperation" by (simp add: NewOperationService_def op)
  ultimately show ?thesis using op progress
    by (simp add: LifecycleHandler_Handle_def bind_run_def start_operation_def ShouldExecuteOrSetFailedPhase_def
        ShouldExecuteOrSupersedeOrSetFailedPhase_def older ret_def IsApplicableOrSetFailedPhase_def vm execute_def
        recordEvent_def event_def try_run_def env lift_run_def AddStartAnnotation_def EnsureAnnotation_def kvvm
        do_call_def call_def operation_defs)
qed

theorem signal_only_when_allowed_witness:
  "\<not> IsFinished (example_op ''a'' ''Start'' None) \<and> (\<exists>vm. env_VM example_start_env = Got vm \<and>
     IsApplicableForVMPhase StartOperation (example_op ''a'' ''Start'' None) (Phase (vm_Status vm)))"
proof -
  obtain v' e where run: "LifecycleHandler_Handle (\<lambda>_ _. OK) example_start_env (example_op ''a'' ''Start'' None) [] =
     (Returned (v', e), [] @ [Event ReasonVMOPStarted, Event ReasonVMStarted,
        Call (Power (SetAnnotation AnnVMStartRequested ''true'')), Event ReasonVMOPInProgress])"
    using example_start_run by blast
  have "NewOperationService (example_op ''a'' ''Start'' None) = Some StartOperation"
    by (simp add: NewOperationService_def example_op_def)
  then show ?thesis using signal_only_when_allowed [OF run] by (auto simp: signal_def)
qed

section \<open>A failed signal\<close>

text \<open>
  Whatever sending the signal ended with, also when it failed, the operation is left in
  progress with its signal reported as sent: the failed branch is overwritten by the successful one.
\<close>

lemma failed_signal_reported_as_sent:
  "\<exists>v' log'. execute api env v svcOp log = (Returned v', log') \<and> op_Phase v' = VMOPPhaseInProgress \<and>
     op_status TypeSignalSent v' = ConditionTrue"
proof -
  have "returns (execute api env v svcOp)"
    unfolding execute_def recordEvent_def by (auto split: sum.split intro!: returns_rules no_panic_rules)
  then obtain v' log' where run: "execute api env v svcOp log = (Returned v', log')" unfolding returns_def by blast
  then show ?thesis using executeD [OF run] by auto
qed

section \<open>A start operation and the run policy\<close>

text \<open>The internal machine after the annotations that were sent.\<close>

fun annotated :: "op_call effect list \<Rightarrow> kvvm \<Rightarrow> kvvm" where
  "annotated [] kv = kv"
| "annotated (Call (Power (SetAnnotation k x)) # es) kv =
     annotated es (kv\<lparr> kvvm_Annotations := (kvvm_Annotations kv)(k \<mapsto> x) \<rparr>)"
| "annotated (Call (Power (UnsetAnnotation k)) # es) kv =
     annotated es (kv\<lparr> kvvm_Annotations := (kvvm_Annotations kv)(k := None) \<rparr>)"
| "annotated (_ # es) kv = annotated es kv"

lemma Execute_start_annotates:
  assumes "Execute api env StartOperation v log = (Returned (), log @ new)" and "env_KVVM env = Got kv"
  shows "requested (annotated new kv) AnnVMStartRequested \<and>
    kvvm_StateChangeRequests (annotated new kv) = kvvm_StateChangeRequests kv"
  using assms
  by (auto simp: operation_defs lift_run_def AddStartAnnotation_def EnsureAnnotation_def requested_def ret_def do_call_def bind_run_def
      call_def err_def split: if_splits)

text \<open>
  Claim C16: a start operation takes effect.  When the operation was executed without an error, the
  run-policy handler that next sees the machine, not running, under a policy that leaves starting to
  the user, with its configuration applied and no request pending, succeeds and sends a patch that
  leaves exactly a start request.
\<close>

theorem start_operation_takes_effect:
  assumes exec: "Execute api env StartOperation v log = (Returned (), log @ new)" and kvvm: "env_KVVM env = Got kvvm"
    and vm: "ps_VM s = Some vm" "\<not> vm_Deleting vm" "IsApplicableForRunPolicy StartOperation (RunPolicy (vm_Spec vm))"
    and ready: "\<not> in_maintenance vm" "virtualMachineDependenciesAreReady vm"
    and kv: "ps_KVVM s = Inr (Some (annotated new kvvm))" "kvvm_StateChangeRequests kvvm = []" "ps_KVVMI s = Inr None"
    and ok: "\<And>log c. server log c = OK"
  shows "\<exists>sent jp kv'. SyncPowerState_Handle server s log' = (Returned (), log' @ sent) \<and>
     Call (PatchKVVMStatus jp) \<in> set sent \<and> apply_patch jp (annotated new kvvm) = Some kv' \<and>
     kvvm_StateChangeRequests kv' = [\<lparr> scr_Action = StartRequest, scr_UID = None \<rparr>]"
proof -
  let ?kv = "annotated new kvvm"
  have ann: "requested ?kv AnnVMStartRequested" "kvvm_StateChangeRequests ?kv = []"
    using Execute_start_annotates [OF exec kvvm] kv(2) by auto
  have need: "completes (checkNeedStartVM ?kv True) True"
    unfolding checkNeedStartVM_def using ann(1) by (auto intro!: completes_bind [of _ "()"] completes_event completes_ret)
  have "completes (bind_run (checkNeedStartVM ?kv True) (\<lambda>start. if start then ret Start else m)) Start" for m
    by (rule completes_bind [OF need]) (simp add: completes_ret)
  then have decide: "completes (decide_action server s vm ?kv None (RunPolicy (vm_Spec vm))) Start"
    using vm(3) ready unfolding decide_action_def in_maintenance_def
    by (auto simp: operation_defs Let_def handleManualPolicy_def handleAlwaysOnUnlessStoppedManuallyPolicy_def stopped_manually_absent_def)
  show ?thesis
    using decided_brings_up [OF vm(1,2) ready(2) kv(1) ann(2) kv(3), where k = None and api = server, OF _ _ ok] decide
    by (simp add: bring_up_requests_def)
qed

theorem start_operation_takes_effect_witness:
  "\<exists>sent jp kv'. SyncPowerState_Handle server_ok
       ((example_power_state None)\<lparr> ps_VM := Some example_stopped_vm,
          ps_KVVM := Inr (Some (annotated [Call (Power (SetAnnotation AnnVMStartRequested ''true''))] example_idle_kvvm)) \<rparr>) [] =
       (Returned (), [] @ sent) \<and>
     Call (PatchKVVMStatus jp) \<in> set sent \<and>
     apply_patch jp (annotated [Call (Power (SetAnnotation AnnVMStartRequested ''true''))] example_idle_kvvm) = Some kv' \<and>
     kvvm_StateChangeRequests kv' = [\<lparr> scr_Action = StartRequest, scr_UID = None \<rparr>]"
proof (rule start_operation_takes_effect [where vm = example_stopped_vm])
  show "Execute (\<lambda>_ _. OK) example_start_env StartOperation (example_op ''a'' ''Start'' None) [] =
      (Returned (), [] @ [Call (Power (SetAnnotation AnnVMStartRequested ''true''))])"
    by (simp add: operation_defs example_start_env_def example_idle_kvvm_def example_kvvm_def lift_run_def AddStartAnnotation_def
        EnsureAnnotation_def do_call_def bind_run_def call_def ret_def)
qed (simp_all add: operation_defs example_start_env_def example_stopped_vm_def power_example_defs in_maintenance_def GetCondition_def
    empty_condition_def virtualMachineDependenciesAreReady_def)

end
