(* ===== verification/LiveMigration.thy ===== *)
theory LiveMigration
  imports VMOPService
begin

text \<open>
  Live migration: the policy of a migration (\<^verbatim>\<open>pkg/livemigration/policy.go\<close>,
  \<^verbatim>\<open>pkg/config/load_live_migration_settings.go\<close>), the limiters of concurrent migrations
  (\<^verbatim>\<open>pkg/livemigration/migration_slot_limiter.go\<close>, \<^verbatim>\<open>inbound_limiter.go\<close>, \<^verbatim>\<open>sync_limiter.go\<close>), the
  configuration of a migration (\<^verbatim>\<open>migration_configuration.go\<close>) and the handler that lets a migration
  begin (\<^verbatim>\<open>pkg/controller/livemigration\<close>).

  The registry of a limiter is guarded by a mutex, so its operations are atomic.  A nil map of
  annotations and an empty one are not distinguished.  \<open>mg_Final\<close> is the answer of \<^verbatim>\<open>IsFinal\<close> of
  KubeVirt.  The reads of the API and the override of the policy are parameters.
\<close>

section \<open>load\_live\_migration\_settings.go and policy.go\<close>

abbreviation ManualMigrationPolicy :: string where "ManualMigrationPolicy \<equiv> ''Manual''"
abbreviation NeverMigrationPolicy :: string where "NeverMigrationPolicy \<equiv> ''Never''"
abbreviation AlwaysSafeMigrationPolicy :: string where "AlwaysSafeMigrationPolicy \<equiv> ''AlwaysSafe''"
abbreviation PreferSafeMigrationPolicy :: string where "PreferSafeMigrationPolicy \<equiv> ''PreferSafe''"
abbreviation AlwaysForcedMigrationPolicy :: string where "AlwaysForcedMigrationPolicy \<equiv> ''AlwaysForced''"
abbreviation PreferForcedMigrationPolicy :: string where "PreferForcedMigrationPolicy \<equiv> ''PreferForced''"

definition DefaultLiveMigrationPolicy :: string where "DefaultLiveMigrationPolicy = PreferSafeMigrationPolicy"

text \<open>The limit of a limiter, from the values of two environment variables: the switch and the number.\<close>

definition load_limit :: "string \<Rightarrow> string \<Rightarrow> bool \<times> int" where
  "load_limit switch raw =
     (if switch = ''disabled'' then (False, 1)
      else (True,
        if raw \<noteq> '''' then
          (case atoi raw of Some parsed \<Rightarrow> if parsed \<ge> 1 then parsed else 1 | None \<Rightarrow> 1)
        else 1))"

definition LoadInboundMigrationLimitFromEnv :: "(string \<Rightarrow> string) \<Rightarrow> bool \<times> int" where
  "LoadInboundMigrationLimitFromEnv getenv =
     load_limit (getenv ''INBOUND_MIGRATION_LIMIT'') (getenv ''PARALLEL_INBOUND_MIGRATIONS_PER_NODE'')"

definition LoadSyncMigrationLimitFromEnv :: "(string \<Rightarrow> string) \<Rightarrow> bool \<times> int" where
  "LoadSyncMigrationLimitFromEnv getenv =
     load_limit (getenv ''SYNC_MIGRATION_LIMIT'') (getenv ''PARALLEL_SYNC_MIGRATIONS_PER_NODE'')"

definition isValidLiveMigrationPolicy :: "string \<Rightarrow> bool" where
  "isValidLiveMigrationPolicy policy \<longleftrightarrow>
     policy \<in> {ManualMigrationPolicy, NeverMigrationPolicy, AlwaysSafeMigrationPolicy, PreferSafeMigrationPolicy,
               AlwaysForcedMigrationPolicy, PreferForcedMigrationPolicy}"

text \<open>The override is a variable of the program: its new value, and whether it was accepted.\<close>

definition SetSystemMigrationPolicyOverride :: "string \<Rightarrow> string \<times> bool" where
  "SetSystemMigrationPolicyOverride rawPolicy =
     (if \<not> isValidLiveMigrationPolicy rawPolicy then ('''', False) else (rawPolicy, True))"

definition GetSystemMigrationPolicyOverride :: "string \<Rightarrow> string \<times> bool" where
  "GetSystemMigrationPolicyOverride override = (if override = '''' then ('''', False) else (override, True))"

definition AutoConvergeForPolicy :: "string \<Rightarrow> bool option" where
  "AutoConvergeForPolicy policy =
     (if policy = AlwaysSafeMigrationPolicy \<or> policy = PreferSafeMigrationPolicy then Some False
      else if policy = AlwaysForcedMigrationPolicy \<or> policy = PreferForcedMigrationPolicy then Some True
      else None)"

text \<open>\<open>vmPolicy\<close> is the policy of the machine, \<open>vmop\<close> the operation in progress, if any.\<close>

definition CalculateEffectivePolicy :: "string \<Rightarrow> string \<Rightarrow> vmop option \<Rightarrow> string \<times> bool \<times> string option" where
  "CalculateEffectivePolicy override vmPolicy vmop =
     (let (overridePolicy, hasSystemOverride) = GetSystemMigrationPolicyOverride override;
          effectivePolicy =
            (if hasSystemOverride then overridePolicy
             else if vmPolicy \<noteq> '''' then vmPolicy else DefaultLiveMigrationPolicy);
          auto = AutoConvergeForPolicy effectivePolicy;
          result = (\<lambda>a. (effectivePolicy, (case a of None \<Rightarrow> False | Some b \<Rightarrow> b), None))
      in case vmop of
           None \<Rightarrow> result auto
         | Some op \<Rightarrow>
             if hasSystemOverride then result auto
             else if effectivePolicy = PreferSafeMigrationPolicy \<or> effectivePolicy = PreferForcedMigrationPolicy
             then result (if op_Force op \<noteq> None then op_Force op else auto)
             else if effectivePolicy = AlwaysSafeMigrationPolicy then
               (if op_Force op = Some True then (effectivePolicy, the auto, Some ''force=true is not applicable'')
                else result auto)
             else if effectivePolicy = AlwaysForcedMigrationPolicy then
               (if op_Force op = Some False then (effectivePolicy, the auto, Some ''force=false is not applicable'')
                else result auto)
             else result auto)"

section \<open>migration\_configuration.go\<close>

text \<open>The settings of KubeVirt, each of them optional; the parsed constant \<^verbatim>\<open>0Mi\<close> is a parameter.\<close>

record 'q kubevirt_config =
  kc_ParallelMigrationsPerCluster :: "int option"
  kc_ParallelOutboundMigrationsPerNode :: "int option"
  kc_BandwidthPerMigration :: "'q option"
  kc_DisableTLS :: "bool option"

record 'q migration_configuration =
  mc_ParallelMigrationsPerCluster :: int
  mc_ParallelOutboundMigrationsPerNode :: int
  mc_NodeDrainTaintKey :: string
  mc_BandwidthPerMigration :: 'q
  mc_ProgressTimeout :: int
  mc_CompletionTimeoutPerGiB :: int
  mc_UnsafeMigrationOverride :: bool
  mc_AllowAutoConverge :: bool
  mc_AllowPostCopy :: bool
  mc_AllowWorkloadDisruption :: bool
  mc_DisableTLS :: bool

definition or_default :: "'a option \<Rightarrow> 'a \<Rightarrow> 'a" where
  "or_default x d = (case x of None \<Rightarrow> d | Some y \<Rightarrow> y)"

definition NewMigrationConfiguration :: "'q \<Rightarrow> bool \<Rightarrow> 'q kubevirt_config option \<Rightarrow> 'q migration_configuration" where
  "NewMigrationConfiguration zeroMi allowAutoConverge kvconfig =
     \<lparr> mc_ParallelMigrationsPerCluster = or_default (Option.bind kvconfig kc_ParallelMigrationsPerCluster) 5,
       mc_ParallelOutboundMigrationsPerNode = or_default (Option.bind kvconfig kc_ParallelOutboundMigrationsPerNode) 2,
       mc_NodeDrainTaintKey = ''kubevirt.io/drain'',
       mc_BandwidthPerMigration = or_default (Option.bind kvconfig kc_BandwidthPerMigration) zeroMi,
       mc_ProgressTimeout = 150, mc_CompletionTimeoutPerGiB = 800, mc_UnsafeMigrationOverride = False,
       mc_AllowAutoConverge = allowAutoConverge, mc_AllowPostCopy = False, mc_AllowWorkloadDisruption = False,
       mc_DisableTLS = or_default (Option.bind kvconfig kc_DisableTLS) False \<rparr>"

section \<open>migration\_slot\_limiter.go\<close>

record 'q migration_state =
  ms_MigrationUID :: string
  ms_Completed :: bool
  ms_Failed :: bool
  ms_SourceNode :: string
  ms_TargetNode :: string
  ms_TargetPod :: string
  ms_Configuration :: "'q migration_configuration option"

record 'q vm_instance =
  in_Namespace :: string
  in_Name :: string
  in_Annotations :: "string \<Rightarrow> string option"
  in_NodeName :: string
  in_MigrationState :: "'q migration_state option"

record instance_migration =
  mg_Namespace :: string
  mg_VMIName :: string
  mg_Final :: bool

abbreviation slotWaiting :: string where "slotWaiting \<equiv> ''waiting''"
abbreviation slotAcquired :: string where "slotAcquired \<equiv> ''acquired''"

record slot_annotations =
  sa_slot :: string
  sa_node :: string

record slot_limiter =
  sl_enabled :: bool
  sl_limit :: int
  sl_ann :: slot_annotations
  sl_slots :: "string \<Rightarrow> string set option"

definition newMigrationSlotLimiter :: "bool \<Rightarrow> int \<Rightarrow> slot_annotations \<Rightarrow> slot_limiter" where
  "newMigrationSlotLimiter enabled limit ann =
     \<lparr> sl_enabled = enabled, sl_limit = (if limit < 1 then 1 else limit), sl_ann = ann, sl_slots = Map.empty \<rparr>"

definition slot_owner :: "'q vm_instance \<Rightarrow> string" where
  "slot_owner kvvmi =
     (case in_MigrationState kvvmi of
        None \<Rightarrow> ''''
      | Some st \<Rightarrow> in_Namespace kvvmi @ ''/'' @ in_Name kvvmi @ ''/'' @ ms_MigrationUID st)"

definition slot_prefix :: "string \<Rightarrow> string \<Rightarrow> string" where
  "slot_prefix namespace name = namespace @ ''/'' @ name @ ''/''"

text \<open>A missing entry is created before the owners are counted.\<close>

definition TryAcquire :: "slot_limiter \<Rightarrow> 'q vm_instance \<Rightarrow> string \<Rightarrow> slot_limiter \<times> bool" where
  "TryAcquire l kvvmi node =
     (if node = '''' then (l, False)
      else let owner = slot_owner kvvmi
           in if owner = '''' then (l, False)
              else let owners = (case sl_slots l node of None \<Rightarrow> {} | Some s \<Rightarrow> s);
                       l' = l\<lparr> sl_slots := (sl_slots l)(node \<mapsto> owners) \<rparr>
                   in if owner \<in> owners then (l', True)
                      else if int (card owners) \<ge> sl_limit l then (l', False)
                      else (l\<lparr> sl_slots := (sl_slots l)(node \<mapsto> insert owner owners) \<rparr>, True))"

definition Release :: "slot_limiter \<Rightarrow> 'q vm_instance \<Rightarrow> string \<Rightarrow> slot_limiter" where
  "Release l kvvmi node =
     (if node = '''' then l
      else case sl_slots l node of
             None \<Rightarrow> l
           | Some owners \<Rightarrow>
               (let owner = slot_owner kvvmi;
                    owners' = (if owner \<noteq> '''' then owners - {owner}
                               else {o' \<in> owners. \<not> has_prefix o' (slot_prefix (in_Namespace kvvmi) (in_Name kvvmi))})
                in l\<lparr> sl_slots := (sl_slots l)(node := if owners' = {} then None else Some owners') \<rparr>))"

definition ReleaseByKVVMI :: "slot_limiter \<Rightarrow> string \<Rightarrow> string \<Rightarrow> slot_limiter" where
  "ReleaseByKVVMI l namespace name =
     l\<lparr> sl_slots := (\<lambda>node.
          case sl_slots l node of
            None \<Rightarrow> None
          | Some owners \<Rightarrow>
              (let owners' = {o' \<in> owners. \<not> has_prefix o' (slot_prefix namespace name)}
               in if owners' = {} then None else Some owners')) \<rparr>"

definition restore_one :: "instance_migration list \<Rightarrow> slot_limiter \<Rightarrow> 'q vm_instance \<Rightarrow> slot_limiter" where
  "restore_one migrations l kvvmi =
     (if map_get (in_Annotations kvvmi) (sa_slot (sl_ann l)) \<noteq> slotAcquired then l
      else if \<not> list_ex (\<lambda>m. \<not> mg_Final m \<and>
                  mg_Namespace m @ ''/'' @ mg_VMIName m = in_Namespace kvvmi @ ''/'' @ in_Name kvvmi) migrations then l
      else let node = map_get (in_Annotations kvvmi) (sa_node (sl_ann l)); owner = slot_owner kvvmi
           in if node = '''' \<or> owner = '''' then l
              else let owners = (case sl_slots l node of None \<Rightarrow> {} | Some s \<Rightarrow> s)
                   in l\<lparr> sl_slots := (sl_slots l)(node \<mapsto> insert owner owners) \<rparr>)"

text \<open>The two lists are read from the API; a failed read is an error.\<close>

definition Restore :: "slot_limiter \<Rightarrow> 'q vm_instance list option \<Rightarrow> instance_migration list option \<Rightarrow> slot_limiter option" where
  "Restore l vmis migrations =
     (if \<not> sl_enabled l then Some l
      else case vmis of
             None \<Rightarrow> None
           | Some is \<Rightarrow> (case migrations of None \<Rightarrow> None | Some ms \<Rightarrow> Some (fold (\<lambda>i l. restore_one ms l i) is l)))"

section \<open>inbound\_limiter.go and sync\_limiter.go\<close>

abbreviation InboundMigrationSlotAnnotation :: string where
  "InboundMigrationSlotAnnotation \<equiv> ''virtualization.deckhouse.io/inbound-migration-slot''"
abbreviation InboundMigrationTargetNodeAnnotation :: string where
  "InboundMigrationTargetNodeAnnotation \<equiv> ''virtualization.deckhouse.io/inbound-migration-target-node''"
abbreviation SyncMigrationSlotAnnotation :: string where
  "SyncMigrationSlotAnnotation \<equiv> ''virtualization.deckhouse.io/sync-migration-slot''"
abbreviation SyncMigrationSourceNodeAnnotation :: string where
  "SyncMigrationSourceNodeAnnotation \<equiv> ''virtualization.deckhouse.io/sync-migration-source-node''"

definition NewInboundMigrationLimiter :: "bool \<Rightarrow> int \<Rightarrow> slot_limiter" where
  "NewInboundMigrationLimiter enabled limit = newMigrationSlotLimiter enabled limit
     \<lparr> sa_slot = InboundMigrationSlotAnnotation, sa_node = InboundMigrationTargetNodeAnnotation \<rparr>"

definition NewSyncMigrationLimiter :: "bool \<Rightarrow> int \<Rightarrow> slot_limiter" where
  "NewSyncMigrationLimiter enabled limit = newMigrationSlotLimiter enabled limit
     \<lparr> sa_slot = SyncMigrationSlotAnnotation, sa_node = SyncMigrationSourceNodeAnnotation \<rparr>"

definition HasMigrationSlot :: "'q vm_instance \<Rightarrow> bool" where
  "HasMigrationSlot kvvmi \<longleftrightarrow>
     in_Annotations kvvmi InboundMigrationSlotAnnotation \<noteq> None \<or> in_Annotations kvvmi SyncMigrationSlotAnnotation \<noteq> None"

definition setInboundMigrationSlot :: "string \<Rightarrow> string \<Rightarrow> 'q vm_instance \<Rightarrow> 'q vm_instance" where
  "setInboundMigrationSlot state targetNode kvvmi =
     kvvmi\<lparr> in_Annotations := (in_Annotations kvvmi)(InboundMigrationSlotAnnotation \<mapsto> state,
              InboundMigrationTargetNodeAnnotation \<mapsto> targetNode) \<rparr>"

definition ClearInboundMigrationSlot :: "'q vm_instance \<Rightarrow> 'q vm_instance" where
  "ClearInboundMigrationSlot kvvmi =
     kvvmi\<lparr> in_Annotations := (in_Annotations kvvmi)(InboundMigrationSlotAnnotation := None,
              InboundMigrationTargetNodeAnnotation := None) \<rparr>"

definition IsInboundMigrationSlotWaiting :: "'q vm_instance \<Rightarrow> bool" where
  "IsInboundMigrationSlotWaiting kvvmi \<longleftrightarrow> map_get (in_Annotations kvvmi) InboundMigrationSlotAnnotation = slotWaiting"

definition InboundMigrationWaitingTargetNode :: "'q vm_instance \<Rightarrow> string" where
  "InboundMigrationWaitingTargetNode kvvmi = map_get (in_Annotations kvvmi) InboundMigrationTargetNodeAnnotation"

definition setSyncMigrationSlot :: "string \<Rightarrow> string \<Rightarrow> 'q vm_instance \<Rightarrow> 'q vm_instance" where
  "setSyncMigrationSlot state sourceNode kvvmi =
     kvvmi\<lparr> in_Annotations := (in_Annotations kvvmi)(SyncMigrationSlotAnnotation \<mapsto> state,
              SyncMigrationSourceNodeAnnotation \<mapsto> sourceNode) \<rparr>"

definition ClearSyncMigrationSlot :: "'q vm_instance \<Rightarrow> 'q vm_instance" where
  "ClearSyncMigrationSlot kvvmi =
     kvvmi\<lparr> in_Annotations := (in_Annotations kvvmi)(SyncMigrationSlotAnnotation := None,
              SyncMigrationSourceNodeAnnotation := None) \<rparr>"

definition IsSyncMigrationSlotWaiting :: "'q vm_instance \<Rightarrow> bool" where
  "IsSyncMigrationSlotWaiting kvvmi \<longleftrightarrow> map_get (in_Annotations kvvmi) SyncMigrationSlotAnnotation = slotWaiting"

definition SyncMigrationWaitingSourceNode :: "'q vm_instance \<Rightarrow> string" where
  "SyncMigrationWaitingSourceNode kvvmi = map_get (in_Annotations kvvmi) SyncMigrationSourceNodeAnnotation"

section \<open>dynamic\_settings\_handler.go\<close>

text \<open>
  What a pass reads: the migrations of the namespace, the node of the target pod, the policy of the
  machine, the settings of KubeVirt and the operations of the namespace.
\<close>

record 'q lm_env =
  lm_Migrations :: "instance_migration list option"
  lm_TargetPodNode :: "string reading"
  lm_VMPolicy :: "string option"
  lm_KubeVirt :: "'q kubevirt_config option option"
  lm_VMOPs :: "vmop list option"
  lm_Override :: string
  lm_ZeroMi :: 'q

record 'q lm_result =
  lr_Instance :: "'q vm_instance"
  lr_Inbound :: slot_limiter
  lr_Sync :: slot_limiter
  lr_Requeue :: bool
  lr_Error :: "string option"

definition hasActiveMigration :: "'q lm_env \<Rightarrow> 'q vm_instance \<Rightarrow> bool option" where
  "hasActiveMigration env kvvmi =
     map_option (list_ex (\<lambda>m. mg_Namespace m = in_Namespace kvvmi \<and> mg_VMIName m = in_Name kvvmi \<and> \<not> mg_Final m))
       (lm_Migrations env)"

definition shouldReleaseSlots :: "'q lm_env \<Rightarrow> 'q vm_instance \<Rightarrow> bool option" where
  "shouldReleaseSlots env kvvmi =
     (if (case in_MigrationState kvvmi of None \<Rightarrow> False | Some st \<Rightarrow> ms_Completed st \<or> ms_Failed st) then Some True
      else if \<not> HasMigrationSlot kvvmi then Some False
      else map_option Not (hasActiveMigration env kvvmi))"

definition shouldUpdateMigrationConfiguration :: "'q vm_instance \<Rightarrow> bool" where
  "shouldUpdateMigrationConfiguration kvvmi =
     (case in_MigrationState kvvmi of
        None \<Rightarrow> False
      | Some st \<Rightarrow> \<not> ms_Completed st \<and> \<not> ms_Failed st \<and> ms_Configuration st = None)"

definition resolveTargetNode :: "'q lm_env \<Rightarrow> 'q vm_instance \<Rightarrow> string option" where
  "resolveTargetNode env kvvmi =
     (case in_MigrationState kvvmi of
        None \<Rightarrow> Some ''''
      | Some st \<Rightarrow>
          if ms_TargetNode st \<noteq> '''' then Some (ms_TargetNode st)
          else if ms_TargetPod st = '''' then Some ''''
          else case lm_TargetPodNode env of Got node \<Rightarrow> Some node | Missing \<Rightarrow> Some '''' | Unreadable \<Rightarrow> None)"

definition resolveSourceNode :: "'q vm_instance \<Rightarrow> string" where
  "resolveSourceNode kvvmi =
     (case in_MigrationState kvvmi of
        None \<Rightarrow> in_NodeName kvvmi
      | Some st \<Rightarrow> if ms_SourceNode st \<noteq> '''' then ms_SourceNode st else in_NodeName kvvmi)"

definition getVMOPInProgressForVM :: "'q lm_env \<Rightarrow> 'q vm_instance \<Rightarrow> vmop option option" where
  "getVMOPInProgressForVM env kvvmi =
     map_option (List.find (\<lambda>vmop. op_Namespace vmop = in_Namespace kvvmi \<and> op_VirtualMachine vmop = in_Name kvvmi \<and>
                               op_Phase vmop = VMOPPhaseInProgress)) (lm_VMOPs env)"

text \<open>The last part of the handler: the slots are there, the configuration is set.\<close>

definition set_configuration :: "'q lm_env \<Rightarrow> 'q vm_instance \<Rightarrow> 'q vm_instance \<times> string option" where
  "set_configuration env kvvmi =
     (case lm_VMPolicy env of
        None \<Rightarrow> (kvvmi, Some ''get vm'')
      | Some policy \<Rightarrow>
          (case lm_KubeVirt env of
             None \<Rightarrow> (kvvmi, Some ''get kubevirt config'')
           | Some kvconfig \<Rightarrow>
               (case getVMOPInProgressForVM env kvvmi of
                  None \<Rightarrow> (kvvmi, Some ''list vmops'')
                | Some vmopInProgress \<Rightarrow>
                    (case CalculateEffectivePolicy (lm_Override env) policy vmopInProgress of
                       (effectivePolicy, autoConverge, Some e) \<Rightarrow> (kvvmi, Some e)
                     | (effectivePolicy, autoConverge, None) \<Rightarrow>
                         (kvvmi\<lparr> in_MigrationState := map_option
                            (\<lambda>st. st\<lparr> ms_Configuration := Some (NewMigrationConfiguration (lm_ZeroMi env) autoConverge kvconfig) \<rparr>)
                            (in_MigrationState kvvmi) \<rparr>, None)))))"

definition acquire_slots ::
  "'q lm_env \<Rightarrow> slot_limiter \<Rightarrow> slot_limiter \<Rightarrow> string \<Rightarrow> string \<Rightarrow> 'q vm_instance \<Rightarrow> 'q lm_result" where
  "acquire_slots env inb syn targetNode sourceNode kvvmi =
     (let (inb1, gotInbound) = (if sl_enabled inb then TryAcquire inb kvvmi targetNode else (inb, True))
      in if \<not> gotInbound then
           (let k1 = setInboundMigrationSlot slotWaiting targetNode kvvmi;
                k2 = (if IsSyncMigrationSlotWaiting k1 then ClearSyncMigrationSlot k1 else k1)
            in \<lparr> lr_Instance = k2, lr_Inbound = inb1, lr_Sync = syn, lr_Requeue = True, lr_Error = None \<rparr>)
         else
           (let (syn1, gotSync) = (if sl_enabled syn then TryAcquire syn kvvmi sourceNode else (syn, True))
            in if \<not> gotSync then
                 (let inb2 = (if sl_enabled inb then Release inb1 kvvmi targetNode else inb1);
                      k1 = (if IsInboundMigrationSlotWaiting kvvmi then ClearInboundMigrationSlot kvvmi else kvvmi);
                      k2 = setSyncMigrationSlot slotWaiting sourceNode k1
                  in \<lparr> lr_Instance = k2, lr_Inbound = inb2, lr_Sync = syn1, lr_Requeue = True, lr_Error = None \<rparr>)
               else
                 (let k1 = (if sl_enabled inb then setInboundMigrationSlot slotAcquired targetNode kvvmi else kvvmi);
                      k2 = (if sl_enabled syn then setSyncMigrationSlot slotAcquired sourceNode k1 else k1);
                      (k3, e) = set_configuration env k2
                  in \<lparr> lr_Instance = k3, lr_Inbound = inb1, lr_Sync = syn1, lr_Requeue = False, lr_Error = e \<rparr>)))"

definition DynamicSettingsHandler_Handle ::
  "'q lm_env \<Rightarrow> slot_limiter \<Rightarrow> slot_limiter \<Rightarrow> 'q vm_instance \<Rightarrow> 'q lm_result" where
  "DynamicSettingsHandler_Handle env inb syn kvvmi =
     (let stop = (\<lambda>requeue e. \<lparr> lr_Instance = kvvmi, lr_Inbound = inb, lr_Sync = syn, lr_Requeue = requeue, lr_Error = e \<rparr>)
      in case shouldReleaseSlots env kvvmi of
           None \<Rightarrow> stop False (Some ''list migrations'')
         | Some True \<Rightarrow>
             (let inb' = Release inb kvvmi (InboundMigrationWaitingTargetNode kvvmi);
                  k1 = ClearInboundMigrationSlot kvvmi;
                  syn' = Release syn k1 (SyncMigrationWaitingSourceNode k1)
              in \<lparr> lr_Instance = ClearSyncMigrationSlot k1, lr_Inbound = inb', lr_Sync = syn',
                   lr_Requeue = False, lr_Error = None \<rparr>)
         | Some False \<Rightarrow>
             if \<not> shouldUpdateMigrationConfiguration kvvmi then stop False None
             else case (if sl_enabled inb then resolveTargetNode env kvvmi else Some '''') of
                    None \<Rightarrow> stop False (Some ''get target pod'')
                  | Some targetNode \<Rightarrow>
                      if sl_enabled inb \<and> targetNode = '''' then stop True None
                      else let sourceNode = (if sl_enabled syn then resolveSourceNode kvvmi else '''')
                           in if sl_enabled syn \<and> sourceNode = '''' then stop True None
                              else acquire_slots env inb syn targetNode sourceNode kvvmi)"

text \<open>The reconciler finds no instance: it releases what the instance may have held.\<close>

definition absent_instance :: "slot_limiter \<Rightarrow> slot_limiter \<Rightarrow> string \<Rightarrow> string \<Rightarrow> slot_limiter \<times> slot_limiter" where
  "absent_instance inb syn namespace name = (ReleaseByKVVMI inb namespace name, ReleaseByKVVMI syn namespace name)"

section \<open>The policy\<close>

text \<open>The table of policies, for any four different names: safe and forced, without a choice and with one.\<close>

lemma policy_table:
  assumes "distinct [a, b, c, d]"
    and "(if p = a then (p, False, if f = Some True then Some x else None)
      else if p = b then (p, True, if f = Some False then Some y else None)
      else if p = c then (p, f = Some True, None)
      else if p = d then (p, f \<noteq> Some False, None) else (p, False, None)) = (policy, auto, e)"
  shows "policy = p \<and> (e \<noteq> None \<longleftrightarrow> p = a \<and> f = Some True \<or> p = b \<and> f = Some False) \<and>
    (e = None \<longrightarrow> auto = (case (if p = c \<or> p = d then f else None) of Some f \<Rightarrow> f | None \<Rightarrow> p = b \<or> p = d))"
  using assms by (cases f) (auto split: if_splits)

text \<open>
  The policy of a migration is the override of the system, else the policy of the machine, else
  the default; an operation is refused exactly when no override is set and its force contradicts a policy
  that allows no choice; and the guest may be throttled exactly when the operation asks for it under a
  policy that leaves the choice, or the policy itself is a forced one.
\<close>

lemma CalculateEffectivePolicy_exact:
  "CalculateEffectivePolicy override vmPolicy vmop = (policy, auto, e) \<Longrightarrow>
   policy = (if override \<noteq> '''' then override else if vmPolicy \<noteq> '''' then vmPolicy else PreferSafeMigrationPolicy) \<and>
   (e \<noteq> None \<longleftrightarrow> override = '''' \<and> (\<exists>op. vmop = Some op \<and>
      (policy = AlwaysSafeMigrationPolicy \<and> op_Force op = Some True \<or>
       policy = AlwaysForcedMigrationPolicy \<and> op_Force op = Some False))) \<and>
   (e = None \<longrightarrow> auto =
      (case (if override = '''' \<and> (policy = PreferSafeMigrationPolicy \<or> policy = PreferForcedMigrationPolicy)
             then Option.bind vmop op_Force else None) of
         Some f \<Rightarrow> f
       | None \<Rightarrow> policy = AlwaysForcedMigrationPolicy \<or> policy = PreferForcedMigrationPolicy))"
proof -
  assume res: "CalculateEffectivePolicy override vmPolicy vmop = (policy, auto, e)"
  define p where "p = (if override \<noteq> '''' then override else if vmPolicy \<noteq> '''' then vmPolicy else PreferSafeMigrationPolicy)"
  define f where "f = (if override = '''' then Option.bind vmop op_Force else None)"
  have calc: "CalculateEffectivePolicy override vmPolicy vmop =
      (if p = AlwaysSafeMigrationPolicy then (p, False, if f = Some True then Some ''force=true is not applicable'' else None)
       else if p = AlwaysForcedMigrationPolicy then (p, True, if f = Some False then Some ''force=false is not applicable'' else None)
       else if p = PreferSafeMigrationPolicy then (p, f = Some True, None)
       else if p = PreferForcedMigrationPolicy then (p, f \<noteq> Some False, None) else (p, False, None))"
  proof (cases "override = ''''")
    case True
    then have "GetSystemMigrationPolicyOverride override = ('''', False)" by (simp add: GetSystemMigrationPolicyOverride_def)
    moreover have "(if vmPolicy \<noteq> '''' then vmPolicy else DefaultLiveMigrationPolicy) = p"
      using True by (simp add: p_def DefaultLiveMigrationPolicy_def)
    moreover have "f = Option.bind vmop op_Force" using True by (simp add: f_def)
    ultimately show ?thesis
      unfolding CalculateEffectivePolicy_def AutoConvergeForPolicy_def Let_def
      by (cases vmop; cases f) auto
  next
    case False
    then have "GetSystemMigrationPolicyOverride override = (p, True)" "f = None"
      by (simp_all add: GetSystemMigrationPolicyOverride_def p_def f_def)
    then show ?thesis
      unfolding CalculateEffectivePolicy_def AutoConvergeForPolicy_def Let_def by (cases vmop) auto
  qed
  have force: "override = '''' \<and> (\<exists>op. vmop = Some op \<and> (P \<and> op_Force op = Some True \<or> Q \<and> op_Force op = Some False)) \<longleftrightarrow>
      P \<and> f = Some True \<or> Q \<and> f = Some False" for P Q
    by (cases vmop) (auto simp: f_def)
  have bind: "(if override = '''' \<and> b then Option.bind vmop op_Force else None) = (if b then f else None)" for b
    by (simp add: f_def)
  have "distinct [AlwaysSafeMigrationPolicy, AlwaysForcedMigrationPolicy, PreferSafeMigrationPolicy, PreferForcedMigrationPolicy]"
    by simp
  from policy_table [OF this res [unfolded calc]] show ?thesis unfolding force bind p_def [symmetric] by blast
qed

section \<open>Slots are limited\<close>

text \<open>
  A registry of slots whose steps only take slots away or add one holder to a node that is below the
  limit.
\<close>

locale slot_registry =
  fixes holders :: "'r \<Rightarrow> string \<Rightarrow> string set" and limit :: "'r \<Rightarrow> int" and step :: "'r \<Rightarrow> 'r \<Rightarrow> bool"
  assumes limit_step: "step r r' \<Longrightarrow> limit r' = limit r"
    and holders_step: "step r r' \<Longrightarrow> holders r' node \<subseteq> holders r node \<or>
      (\<exists>x. holders r' node = insert x (holders r node) \<and> int (card (holders r node)) < limit r)"
begin

definition within :: "'r \<Rightarrow> bool" where
  "within r \<longleftrightarrow> (\<forall>node. finite (holders r node) \<and> int (card (holders r node)) \<le> limit r)"

lemma within_step:
  assumes "within r" and "step r r'"
  shows "within r'"
  unfolding within_def
proof
  fix node
  have fin: "finite (holders r node)" and bound: "int (card (holders r node)) \<le> limit r" using assms(1) by (auto simp: within_def)
  from holders_step [OF assms(2), of node]
  show "finite (holders r' node) \<and> int (card (holders r' node)) \<le> limit r'"
  proof
    assume "holders r' node \<subseteq> holders r node"
    then have "card (holders r' node) \<le> card (holders r node)" "finite (holders r' node)"
      using fin by (auto intro: card_mono finite_subset)
    then show ?thesis using bound limit_step [OF assms(2)] by simp
  next
    assume "\<exists>x. holders r' node = insert x (holders r node) \<and> int (card (holders r node)) < limit r"
    then show ?thesis using fin limit_step [OF assms(2)] by (auto simp: card_insert_if)
  qed
qed

lemma within_steps: "step\<^sup>*\<^sup>* r r' \<Longrightarrow> within r \<Longrightarrow> within r' \<and> limit r' = limit r"
  by (induction rule: rtranclp_induct) (auto simp: limit_step intro: within_step)

end

definition holders :: "slot_limiter \<Rightarrow> string \<Rightarrow> string set" where
  "holders l node = (case sl_slots l node of None \<Rightarrow> {} | Some s \<Rightarrow> s)"

text \<open>The operations of a limiter, apart from rebuilding it.\<close>

inductive limiter_step :: "'q itself \<Rightarrow> slot_limiter \<Rightarrow> slot_limiter \<Rightarrow> bool" for T :: "'q itself" where
  acquire: "limiter_step T l (fst (TryAcquire l (kvvmi :: 'q vm_instance) node))"
| release: "limiter_step T l (Release l (kvvmi :: 'q vm_instance) node)"
| release_instance: "limiter_step T l (ReleaseByKVVMI l namespace name)"

lemma holders_TryAcquire:
  "holders (fst (TryAcquire l kvvmi node)) n =
     (if n = node \<and> snd (TryAcquire l kvvmi node) then insert (slot_owner kvvmi) (holders l n) else holders l n)"
  by (auto simp: TryAcquire_def holders_def Let_def split: option.split)

lemma TryAcquire_iff:
  "snd (TryAcquire l kvvmi node) \<longleftrightarrow> node \<noteq> '''' \<and> slot_owner kvvmi \<noteq> '''' \<and>
     (slot_owner kvvmi \<in> holders l node \<or> int (card (holders l node)) < sl_limit l)"
  by (auto simp: TryAcquire_def holders_def Let_def split: option.split)

lemma limiter_fields [simp]:
  "sl_limit (fst (TryAcquire l kvvmi node)) = sl_limit l" "sl_limit (Release l kvvmi node) = sl_limit l"
  "sl_limit (ReleaseByKVVMI l ns name) = sl_limit l"
  "sl_enabled (fst (TryAcquire l kvvmi node)) = sl_enabled l" "sl_enabled (Release l kvvmi node) = sl_enabled l"
  "sl_enabled (ReleaseByKVVMI l ns name) = sl_enabled l"
  "sl_ann (fst (TryAcquire l kvvmi node)) = sl_ann l" "sl_ann (Release l kvvmi node) = sl_ann l"
  "sl_ann (ReleaseByKVVMI l ns name) = sl_ann l"
  by (auto simp: TryAcquire_def Release_def ReleaseByKVVMI_def Let_def split: option.split)

lemma holders_Release:
  "slot_owner kvvmi \<noteq> '''' \<Longrightarrow>
     holders (Release l kvvmi node) n = (if n = node \<and> node \<noteq> '''' then holders l n - {slot_owner kvvmi} else holders l n)"
  "holders (Release l kvvmi node) n \<subseteq> holders l n"
  by (auto simp: Release_def holders_def Let_def split: option.splits if_splits)

lemma holders_ReleaseByKVVMI:
  "holders (ReleaseByKVVMI l ns name) n = {x \<in> holders l n. \<not> has_prefix x (slot_prefix ns name)}"
  by (auto simp: ReleaseByKVVMI_def holders_def Let_def split: option.split)

interpretation slots: slot_registry holders sl_limit "limiter_step T" for T
proof unfold_locales
  fix l l' node
  assume step: "limiter_step T l l'"
  then show "sl_limit l' = sl_limit l" by cases simp_all
  from step show "holders l' node \<subseteq> holders l node \<or>
      (\<exists>x. holders l' node = insert x (holders l node) \<and> int (card (holders l node)) < sl_limit l)"
  proof cases
    case (acquire kvvmi n)
    show ?thesis
    proof (cases "slot_owner kvvmi \<in> holders l node")
      case True
      then show ?thesis using acquire by (auto simp: holders_TryAcquire insert_absorb)
    next
      case False
      then show ?thesis using acquire TryAcquire_iff [of l kvvmi n] by (auto simp: holders_TryAcquire)
    qed
  next
    case (release kvvmi n)
    then show ?thesis by (simp add: holders_Release(2))
  next
    case (release_instance ns name)
    then show ?thesis by (auto simp: holders_ReleaseByKVVMI)
  qed
qed

lemma pass_limiter_steps:
  fixes kvvmi :: "'q vm_instance" and T :: "'q itself"
  shows
  "(limiter_step T)\<^sup>*\<^sup>* inb (lr_Inbound (DynamicSettingsHandler_Handle env inb syn kvvmi))"
  "(limiter_step T)\<^sup>*\<^sup>* syn (lr_Sync (DynamicSettingsHandler_Handle env inb syn kvvmi))"
proof -
  have two: "(limiter_step T)\<^sup>*\<^sup>* l (Release (fst (TryAcquire l k n)) k n')" for l n n' and k :: "'q vm_instance"
    by (meson limiter_step.acquire limiter_step.release converse_rtranclp_into_rtranclp r_into_rtranclp)
  have one: "(limiter_step T)\<^sup>*\<^sup>* l (fst (TryAcquire l k n))" "(limiter_step T)\<^sup>*\<^sup>* l (Release l k n)" for l n and k :: "'q vm_instance"
    by (auto intro: limiter_step.intros)
  have acq: "(limiter_step T)\<^sup>*\<^sup>* inb (lr_Inbound (acquire_slots env inb syn t s kvvmi))"
    "(limiter_step T)\<^sup>*\<^sup>* syn (lr_Sync (acquire_slots env inb syn t s kvvmi))" for t s
  proof -
    obtain inb1 g1 where 1: "TryAcquire inb kvvmi t = (inb1, g1)" by fastforce
    obtain syn1 g2 where 2: "TryAcquire syn kvvmi s = (syn1, g2)" by fastforce
    have "(limiter_step T)\<^sup>*\<^sup>* inb inb1" "(limiter_step T)\<^sup>*\<^sup>* syn syn1" "(limiter_step T)\<^sup>*\<^sup>* inb (Release inb1 kvvmi t)"
      using one(1) [of inb kvvmi t] one(1) [of syn kvvmi s] two [of inb kvvmi t t] 1 2 by simp_all
    then show "(limiter_step T)\<^sup>*\<^sup>* inb (lr_Inbound (acquire_slots env inb syn t s kvvmi))"
      "(limiter_step T)\<^sup>*\<^sup>* syn (lr_Sync (acquire_slots env inb syn t s kvvmi))"
      by (simp_all add: acquire_slots_def Let_def 1 2 split: prod.split)
  qed
  then show "(limiter_step T)\<^sup>*\<^sup>* inb (lr_Inbound (DynamicSettingsHandler_Handle env inb syn kvvmi))"
    "(limiter_step T)\<^sup>*\<^sup>* syn (lr_Sync (DynamicSettingsHandler_Handle env inb syn kvvmi))"
    unfolding DynamicSettingsHandler_Handle_def Let_def by (simp_all add: acq one split: option.split bool.split)
qed

lemma limiter_steps_ann: "(limiter_step T)\<^sup>*\<^sup>* l l' \<Longrightarrow> sl_ann l' = sl_ann l"
  by (induction rule: rtranclp_induct) (auto elim: limiter_step.cases)

text \<open>Passes of the handler over instances, and the reconciler finding an instance gone.\<close>

inductive lm_reachable :: "bool \<Rightarrow> int \<Rightarrow> bool \<Rightarrow> int \<Rightarrow> 'q itself \<Rightarrow> slot_limiter \<Rightarrow> slot_limiter \<Rightarrow> bool"
  for e1 n1 e2 n2 and T :: "'q itself" where
  start: "lm_reachable e1 n1 e2 n2 T (NewInboundMigrationLimiter e1 n1) (NewSyncMigrationLimiter e2 n2)"
| pass: "lm_reachable e1 n1 e2 n2 T inb syn \<Longrightarrow>
    r = DynamicSettingsHandler_Handle (env :: 'q lm_env) inb syn kvvmi \<Longrightarrow>
    lm_reachable e1 n1 e2 n2 T (lr_Inbound r) (lr_Sync r)"
| gone: "lm_reachable e1 n1 e2 n2 T inb syn \<Longrightarrow> absent_instance inb syn namespace name = (inb', syn') \<Longrightarrow>
    lm_reachable e1 n1 e2 n2 T inb' syn'"

lemma reachable_within:
  "lm_reachable e1 n1 e2 n2 T inb syn \<Longrightarrow>
     slots.within inb \<and> slots.within syn \<and> sl_limit inb = max 1 n1 \<and> sl_limit syn = max 1 n2"
proof (induction rule: lm_reachable.induct)
  case start
  show ?case
    unfolding slots.within_def by (simp add: NewInboundMigrationLimiter_def NewSyncMigrationLimiter_def newMigrationSlotLimiter_def holders_def)
next
  case (pass inb syn r env kvvmi)
  then show ?case
    using slots.within_steps [OF pass_limiter_steps(1)] slots.within_steps [OF pass_limiter_steps(2)] by metis
next
  case (gone inb syn namespace name inb' syn')
  then have "limiter_step T inb inb'" "limiter_step T syn syn'"
    by (auto simp: absent_instance_def intro: limiter_step.release_instance)
  then show ?case using gone slots.within_step slots.limit_step by metis
qed

text \<open>
  Claim C12: nodes are never overloaded.  Whatever instances the handler passes over, in whatever order and
  with whatever it reads, on every node at most as many migrations hold an inbound slot, and at most as
  many hold a sync slot, as the limits allow.
\<close>

theorem migration_limits_respected:
  assumes "lm_reachable e1 n1 e2 n2 T inb syn"
  shows "finite (holders inb node) \<and> int (card (holders inb node)) \<le> max 1 n1 \<and>
    finite (holders syn node) \<and> int (card (holders syn node)) \<le> max 1 n2"
  using reachable_within [OF assms] unfolding slots.within_def by metis

section \<open>Both slots or none\<close>

text \<open>The node an instance has recorded for a slot it acquired.\<close>

definition acquired_on :: "slot_limiter \<Rightarrow> 'q vm_instance \<Rightarrow> string option" where
  "acquired_on l kvvmi =
     (if map_get (in_Annotations kvvmi) (sa_slot (sl_ann l)) = slotAcquired
      then Some (map_get (in_Annotations kvvmi) (sa_node (sl_ann l))) else None)"

text \<open>The registry and the annotations of an instance agree.\<close>

definition recorded :: "slot_limiter \<Rightarrow> 'q vm_instance \<Rightarrow> bool" where
  "recorded l kvvmi \<longleftrightarrow> acquired_on l kvvmi \<noteq> Some '''' \<and>
     (\<forall>node. slot_owner kvvmi \<in> holders l node \<longleftrightarrow> acquired_on l kvvmi = Some node)"

definition consistent :: "slot_limiter \<Rightarrow> slot_limiter \<Rightarrow> 'q vm_instance \<Rightarrow> bool" where
  "consistent inb syn kvvmi \<longleftrightarrow> recorded inb kvvmi \<and> recorded syn kvvmi \<and>
     (sl_enabled inb \<and> sl_enabled syn \<longrightarrow> (acquired_on inb kvvmi = None \<longleftrightarrow> acquired_on syn kvvmi = None))"

text \<open>The limiters the controller creates, and a migration whose nodes do not change while it holds slots.\<close>

definition controller_limiters :: "slot_limiter \<Rightarrow> slot_limiter \<Rightarrow> bool" where
  "controller_limiters inb syn \<longleftrightarrow>
     sl_ann inb = \<lparr> sa_slot = InboundMigrationSlotAnnotation, sa_node = InboundMigrationTargetNodeAnnotation \<rparr> \<and>
     sl_ann syn = \<lparr> sa_slot = SyncMigrationSlotAnnotation, sa_node = SyncMigrationSourceNodeAnnotation \<rparr>"

definition nodes_stable :: "'q lm_env \<Rightarrow> slot_limiter \<Rightarrow> slot_limiter \<Rightarrow> 'q vm_instance \<Rightarrow> bool" where
  "nodes_stable env inb syn kvvmi \<longleftrightarrow>
     (\<forall>node. acquired_on inb kvvmi = Some node \<longrightarrow> resolveTargetNode env kvvmi = Some node) \<and>
     (\<forall>node. acquired_on syn kvvmi = Some node \<longrightarrow> resolveSourceNode kvvmi = node)"

lemmas slot_annotation_defs = setInboundMigrationSlot_def ClearInboundMigrationSlot_def setSyncMigrationSlot_def
  ClearSyncMigrationSlot_def

lemma slot_owner_annotations [simp]:
  "slot_owner (setInboundMigrationSlot s n k) = slot_owner k" "slot_owner (ClearInboundMigrationSlot k) = slot_owner k"
  "slot_owner (setSyncMigrationSlot s n k) = slot_owner k" "slot_owner (ClearSyncMigrationSlot k) = slot_owner k"
  by (simp_all add: slot_owner_def slot_annotation_defs split: option.split)

lemma set_configuration_frame:
  "slot_owner (fst (set_configuration env k)) = slot_owner k" "in_Annotations (fst (set_configuration env k)) = in_Annotations k"
  "acquired_on l (fst (set_configuration env k)) = acquired_on l k"
  by (auto simp: set_configuration_def slot_owner_def acquired_on_def split: option.splits prod.splits)

lemma acquired_on_frame [simp]:
  "acquired_on (fst (TryAcquire l k' n)) k = acquired_on l k" "acquired_on (Release l k' n) k = acquired_on l k"
  by (simp_all add: acquired_on_def)

lemma acquired_on_annotations:
  assumes "controller_limiters inb syn"
  shows "acquired_on inb (setInboundMigrationSlot s n k) = (if s = slotAcquired then Some n else None)"
    "acquired_on syn (setSyncMigrationSlot s n k) = (if s = slotAcquired then Some n else None)"
    "acquired_on inb (setSyncMigrationSlot s n k) = acquired_on inb k"
    "acquired_on syn (setInboundMigrationSlot s n k) = acquired_on syn k"
    "acquired_on inb (ClearInboundMigrationSlot k) = None" "acquired_on syn (ClearSyncMigrationSlot k) = None"
    "acquired_on inb (ClearSyncMigrationSlot k) = acquired_on inb k"
    "acquired_on syn (ClearInboundMigrationSlot k) = acquired_on syn k"
    "IsInboundMigrationSlotWaiting k \<Longrightarrow> acquired_on inb k = None" "IsSyncMigrationSlotWaiting k \<Longrightarrow> acquired_on syn k = None"
  using assms by (simp_all add: acquired_on_def controller_limiters_def slot_annotation_defs map_get_def
      IsInboundMigrationSlotWaiting_def IsSyncMigrationSlotWaiting_def)

text \<open>
  What acquiring both slots leaves: the instance waits and holds none of the two, or goes on and holds
  every slot that is limited.
\<close>

lemma acquire_slots_consistent:
  fixes env :: "'q lm_env" and kvvmi :: "'q vm_instance"
  assumes lim: "controller_limiters inb syn" and con: "consistent inb syn kvvmi"
    and owner: "slot_owner kvvmi \<noteq> ''''"
    and target: "sl_enabled inb \<Longrightarrow> t \<noteq> ''''" "\<And>node. acquired_on inb kvvmi = Some node \<Longrightarrow> sl_enabled inb \<Longrightarrow> node = t"
    and source: "sl_enabled syn \<Longrightarrow> s \<noteq> ''''" "\<And>node. acquired_on syn kvvmi = Some node \<Longrightarrow> sl_enabled syn \<Longrightarrow> node = s"
  defines "r \<equiv> acquire_slots env inb syn t s kvvmi"
  shows "consistent (lr_Inbound r) (lr_Sync r) (lr_Instance r)" (is ?A)
    and "lr_Requeue r \<Longrightarrow> sl_enabled inb \<Longrightarrow> sl_enabled syn \<Longrightarrow>
       acquired_on inb (lr_Instance r) = None \<and> acquired_on syn (lr_Instance r) = None" (is "_ \<Longrightarrow> _ \<Longrightarrow> _ \<Longrightarrow> ?B")
    and "\<not> lr_Requeue r \<Longrightarrow> (sl_enabled inb \<longrightarrow> slot_owner kvvmi \<in> holders (lr_Inbound r) t) \<and>
       (sl_enabled syn \<longrightarrow> slot_owner kvvmi \<in> holders (lr_Sync r) s)" (is "_ \<Longrightarrow> ?C")
    and "slot_owner (lr_Instance r) = slot_owner kvvmi"
proof -
  note ann = acquired_on_annotations [OF lim]
  have rec: "\<And>node. slot_owner kvvmi \<in> holders inb node \<longleftrightarrow> acquired_on inb kvvmi = Some node"
    "\<And>node. slot_owner kvvmi \<in> holders syn node \<longleftrightarrow> acquired_on syn kvvmi = Some node"
    and named: "acquired_on inb kvvmi \<noteq> Some ''''" "acquired_on syn kvvmi \<noteq> Some ''''"
    and pair: "sl_enabled inb \<Longrightarrow> sl_enabled syn \<Longrightarrow> acquired_on inb kvvmi = None \<longleftrightarrow> acquired_on syn kvvmi = None"
    using con by (auto simp: consistent_def recorded_def)
  obtain inb1 g1 where 1: "(if sl_enabled inb then TryAcquire inb kvvmi t else (inb, True)) = (inb1, g1)" by fastforce
  obtain syn1 g2 where 2: "(if sl_enabled syn then TryAcquire syn kvvmi s else (syn, True)) = (syn1, g2)" by fastforce
  have g1: "\<not> g1 \<Longrightarrow> sl_enabled inb \<and> acquired_on inb kvvmi = None"
    using 1 target rec(1) [of t] owner TryAcquire_iff [of inb kvvmi t] by (cases "acquired_on inb kvvmi") (auto split: if_splits)
  have g2: "\<not> g2 \<Longrightarrow> sl_enabled syn \<and> acquired_on syn kvvmi = None"
    using 2 source rec(2) [of s] owner TryAcquire_iff [of syn kvvmi s] by (cases "acquired_on syn kvvmi") (auto split: if_splits)
  have h1: "holders inb1 node = (if sl_enabled inb \<and> g1 \<and> node = t then insert (slot_owner kvvmi) (holders inb node) else holders inb node)" for node
    using 1 holders_TryAcquire [of inb kvvmi t node] by (auto split: if_splits)
  have h2: "holders syn1 node = (if sl_enabled syn \<and> g2 \<and> node = s then insert (slot_owner kvvmi) (holders syn node) else holders syn node)" for node
    using 2 holders_TryAcquire [of syn kvvmi s node] by (auto split: if_splits)
  have e: "inb1 = (if sl_enabled inb then fst (TryAcquire inb kvvmi t) else inb)"
    "syn1 = (if sl_enabled syn then fst (TryAcquire syn kvvmi s) else syn)"
    using 1 2 by (auto split: if_splits)
  have f1: "acquired_on inb1 k = acquired_on inb k" "sl_enabled inb1 = sl_enabled inb"
    and f2: "acquired_on syn1 k = acquired_on syn k" "sl_enabled syn1 = sl_enabled syn" for k :: "'q vm_instance"
    by (simp_all add: e)
  consider (inbound) "\<not> g1" | (sync) "g1" "\<not> g2" | (both) "g1" "g2" by blast
  then have "?A \<and> (lr_Requeue r \<longrightarrow> sl_enabled inb \<longrightarrow> sl_enabled syn \<longrightarrow> ?B) \<and> (\<not> lr_Requeue r \<longrightarrow> ?C) \<and>
      slot_owner (lr_Instance r) = slot_owner kvvmi"
  proof cases
    case inbound
    then have r: "lr_Inbound r = inb1" "lr_Sync r = syn" "lr_Requeue r"
      and k: "lr_Instance r = (let k1 = setInboundMigrationSlot slotWaiting t kvvmi
         in if IsSyncMigrationSlotWaiting k1 then ClearSyncMigrationSlot k1 else k1)"
      by (simp_all add: r_def acquire_slots_def 1 Let_def)
    have "acquired_on inb (lr_Instance r) = None" "acquired_on syn (lr_Instance r) = acquired_on syn kvvmi"
      "slot_owner (lr_Instance r) = slot_owner kvvmi"
      using ann(10) [of "setInboundMigrationSlot slotWaiting t kvvmi"] unfolding k by (simp_all add: Let_def ann)
    then show ?thesis using r g1 inbound rec pair named by (simp add: consistent_def recorded_def h1 f1 f2)
  next
    case sync
    then have r: "lr_Inbound r = (if sl_enabled inb then Release inb1 kvvmi t else inb1)" "lr_Sync r = syn1" "lr_Requeue r"
      and k: "lr_Instance r = setSyncMigrationSlot slotWaiting s
         (if IsInboundMigrationSlotWaiting kvvmi then ClearInboundMigrationSlot kvvmi else kvvmi)"
      by (simp_all add: r_def acquire_slots_def 1 2 Let_def)
    have acq: "acquired_on syn (lr_Instance r) = None" "acquired_on inb (lr_Instance r) = acquired_on inb kvvmi"
      "slot_owner (lr_Instance r) = slot_owner kvvmi"
      using ann(9) [of kvvmi] unfolding k by (simp_all add: ann)
    have "slot_owner kvvmi \<in> holders (lr_Inbound r) node \<longleftrightarrow> acquired_on inb kvvmi = Some node" for node
      using r(1) sync g2 pair target(1) rec(1) owner by (auto simp: holders_Release h1)
    then show ?thesis using r acq g2 sync rec pair named by (simp add: consistent_def recorded_def h2 f1 f2)
  next
    case both
    let ?k1 = "if sl_enabled inb then setInboundMigrationSlot slotAcquired t kvvmi else kvvmi"
    let ?k2 = "if sl_enabled syn then setSyncMigrationSlot slotAcquired s ?k1 else ?k1"
    from both have r: "lr_Inbound r = inb1" "lr_Sync r = syn1" "\<not> lr_Requeue r"
      and k: "lr_Instance r = fst (set_configuration env ?k2)"
      by (simp_all add: r_def acquire_slots_def 1 2 Let_def split: prod.split)
    have acq: "acquired_on inb (lr_Instance r) = (if sl_enabled inb then Some t else acquired_on inb kvvmi)"
      "acquired_on syn (lr_Instance r) = (if sl_enabled syn then Some s else acquired_on syn kvvmi)"
      "slot_owner (lr_Instance r) = slot_owner kvvmi"
      unfolding k set_configuration_frame by (simp_all add: ann)
    then show ?thesis using r both rec target source named by (auto simp: consistent_def recorded_def h1 h2 f1 f2)
  qed
  then show ?A "lr_Requeue r \<Longrightarrow> sl_enabled inb \<Longrightarrow> sl_enabled syn \<Longrightarrow> ?B" "\<not> lr_Requeue r \<Longrightarrow> ?C"
    "slot_owner (lr_Instance r) = slot_owner kvvmi" by blast+
qed

lemma release_consistent:
  assumes lim: "controller_limiters inb syn" and con: "consistent inb syn kvvmi" and owner: "slot_owner kvvmi \<noteq> ''''"
  shows "consistent (Release inb kvvmi (InboundMigrationWaitingTargetNode kvvmi))
      (Release syn (ClearInboundMigrationSlot kvvmi) (SyncMigrationWaitingSourceNode (ClearInboundMigrationSlot kvvmi)))
      (ClearSyncMigrationSlot (ClearInboundMigrationSlot kvvmi))"
proof -
  note ann = acquired_on_annotations [OF lim]
  have node: "acquired_on inb kvvmi = Some n \<Longrightarrow> n = InboundMigrationWaitingTargetNode kvvmi"
    "acquired_on syn kvvmi = Some n \<Longrightarrow> n = SyncMigrationWaitingSourceNode (ClearInboundMigrationSlot kvvmi)" for n
    using lim by (auto simp: acquired_on_def controller_limiters_def InboundMigrationWaitingTargetNode_def
        SyncMigrationWaitingSourceNode_def ClearInboundMigrationSlot_def map_get_def split: if_splits)
  show ?thesis
    using con owner node by (auto simp: consistent_def recorded_def ann holders_Release)
qed

lemma slot_owner_state: "in_MigrationState kvvmi \<noteq> None \<Longrightarrow> slot_owner kvvmi \<noteq> ''''"
  by (auto simp: slot_owner_def)

lemma acquire_slots_state:
  assumes "lr_Requeue (acquire_slots env inb syn t s kvvmi)"
  shows "in_MigrationState (lr_Instance (acquire_slots env inb syn t s kvvmi)) = in_MigrationState kvvmi"
  using assms by (auto simp: acquire_slots_def Let_def slot_annotation_defs split: prod.splits if_splits)

lemma Handle_outcome:
  fixes env :: "'q lm_env" and kvvmi :: "'q vm_instance"
  assumes r: "r = DynamicSettingsHandler_Handle env inb syn kvvmi"
  obtains (keep) "lr_Instance r = kvvmi" "lr_Inbound r = inb" "lr_Sync r = syn" "\<not> lr_Requeue r"
  | (wait) "lr_Instance r = kvvmi" "lr_Inbound r = inb" "lr_Sync r = syn"
      "sl_enabled inb \<and> resolveTargetNode env kvvmi = Some '''' \<or> sl_enabled syn \<and> resolveSourceNode kvvmi = ''''"
  | (release) "lr_Inbound r = Release inb kvvmi (InboundMigrationWaitingTargetNode kvvmi)"
      "lr_Sync r = Release syn (ClearInboundMigrationSlot kvvmi) (SyncMigrationWaitingSourceNode (ClearInboundMigrationSlot kvvmi))"
      "lr_Instance r = ClearSyncMigrationSlot (ClearInboundMigrationSlot kvvmi)" "\<not> lr_Requeue r"
  | (acquire) t s where "r = acquire_slots env inb syn t s kvvmi"
      "sl_enabled inb \<Longrightarrow> resolveTargetNode env kvvmi = Some t \<and> t \<noteq> ''''"
      "sl_enabled syn \<Longrightarrow> resolveSourceNode kvvmi = s \<and> s \<noteq> ''''"
proof (cases "shouldReleaseSlots env kvvmi")
  case None
  with keep r show thesis by (simp add: DynamicSettingsHandler_Handle_def Let_def)
next
  case (Some b)
  show thesis
  proof (cases b)
    case True
    with Some release r show thesis by (simp add: DynamicSettingsHandler_Handle_def Let_def)
  next
    case stay: False
    show thesis
    proof (cases "shouldUpdateMigrationConfiguration kvvmi")
      case False
      with Some stay keep r show thesis by (simp add: DynamicSettingsHandler_Handle_def Let_def)
    next
      case True
      note r' = r [unfolded DynamicSettingsHandler_Handle_def Let_def, unfolded Some, simplified stay option.case bool.case, simplified True]
      show thesis
      proof (cases "if sl_enabled inb then resolveTargetNode env kvvmi else Some ''''")
        case None
        with keep r' show thesis by simp
      next
        case (Some t)
        let ?s = "if sl_enabled syn then resolveSourceNode kvvmi else ''''"
        consider "sl_enabled inb \<and> t = ''''" | "\<not> (sl_enabled inb \<and> t = '''')" "sl_enabled syn \<and> ?s = ''''"
          | "\<not> (sl_enabled inb \<and> t = '''')" "\<not> (sl_enabled syn \<and> ?s = '''')" by blast
        then show thesis
        proof cases
          case 1
          with wait r' Some show thesis by simp
        next
          case 2
          then have "sl_enabled syn" "resolveSourceNode kvvmi = ''''" by auto
          with 2(1) wait r' Some show thesis by simp
        next
          case 3
          with acquire [of t ?s] r' Some show thesis by (simp split: if_splits)
        qed
      qed
    qed
  qed
qed

text \<open>
  Claim C13: a migration holds both slots or none.  For a migration whose nodes do not change while it
  holds slots, every pass of the handler keeps its annotations and the registries in agreement;
  a pass that lets the migration begin leaves it with every slot that is limited, and a pass after
  which it waits leaves it, when both kinds are limited, with none.
\<close>

theorem slots_both_or_none:
  assumes lim: "controller_limiters inb syn" and con: "consistent inb syn kvvmi"
    and stable: "nodes_stable env inb syn kvvmi" and st: "in_MigrationState kvvmi \<noteq> None"
    and r: "r = DynamicSettingsHandler_Handle env inb syn kvvmi"
  shows "consistent (lr_Inbound r) (lr_Sync r) (lr_Instance r) \<and>
    (in_MigrationState (lr_Instance r) \<noteq> in_MigrationState kvvmi \<longrightarrow>
       (sl_enabled inb \<longrightarrow> acquired_on inb (lr_Instance r) \<noteq> None) \<and>
       (sl_enabled syn \<longrightarrow> acquired_on syn (lr_Instance r) \<noteq> None)) \<and>
    (lr_Requeue r \<and> sl_enabled inb \<and> sl_enabled syn \<longrightarrow>
       acquired_on inb (lr_Instance r) = None \<and> acquired_on syn (lr_Instance r) = None)"
proof -
  have owner: "slot_owner kvvmi \<noteq> ''''" using st by (rule slot_owner_state)
  have pair: "sl_enabled inb \<Longrightarrow> sl_enabled syn \<Longrightarrow> acquired_on inb kvvmi = None \<longleftrightarrow> acquired_on syn kvvmi = None"
    and named: "acquired_on inb kvvmi \<noteq> Some ''''" "acquired_on syn kvvmi \<noteq> Some ''''"
    using con by (auto simp: consistent_def recorded_def)
  from r show ?thesis
  proof (cases rule: Handle_outcome)
    case keep
    then show ?thesis using con by simp
  next
    case wait
    then show ?thesis using con stable named pair by (auto simp: nodes_stable_def)
  next
    case release
    then show ?thesis using release_consistent [OF lim con owner] by (simp add: slot_annotation_defs)
  next
    case (acquire t s)
    have t: "sl_enabled inb \<Longrightarrow> t \<noteq> ''''" "\<And>node. acquired_on inb kvvmi = Some node \<Longrightarrow> sl_enabled inb \<Longrightarrow> node = t"
      and s: "sl_enabled syn \<Longrightarrow> s \<noteq> ''''" "\<And>node. acquired_on syn kvvmi = Some node \<Longrightarrow> sl_enabled syn \<Longrightarrow> node = s"
      using acquire(2,3) stable by (auto simp: nodes_stable_def)
    note acq = acquire_slots_consistent [OF lim con owner t s, of env, folded acquire(1)]
    have "(sl_enabled inb \<longrightarrow> acquired_on inb (lr_Instance r) \<noteq> None) \<and> (sl_enabled syn \<longrightarrow> acquired_on syn (lr_Instance r) \<noteq> None)"
      if "\<not> lr_Requeue r"
    proof -
      have "sl_ann (lr_Inbound r) = sl_ann inb" "sl_ann (lr_Sync r) = sl_ann syn"
        using pass_limiter_steps(1) [of "TYPE('a)" inb env syn kvvmi] pass_limiter_steps(2) [of "TYPE('a)" syn env inb kvvmi] unfolding r by (auto dest: limiter_steps_ann)
      then have "acquired_on (lr_Inbound r) (lr_Instance r) = acquired_on inb (lr_Instance r)"
        "acquired_on (lr_Sync r) (lr_Instance r) = acquired_on syn (lr_Instance r)" by (simp_all add: acquired_on_def)
      then show ?thesis using acq(1,3,4) that by (auto simp: consistent_def recorded_def)
    qed
    then show ?thesis using acq(1,2) acquire_slots_state [of env inb syn t s kvvmi, folded acquire(1)] by blast
  qed
qed

definition example_migration_state :: "int migration_state" where
  "example_migration_state = \<lparr> ms_MigrationUID = ''m1'', ms_Completed = False, ms_Failed = False, ms_SourceNode = ''a'',
     ms_TargetNode = ''b'', ms_TargetPod = '''', ms_Configuration = None \<rparr>"

definition example_instance :: "int vm_instance" where
  "example_instance = \<lparr> in_Namespace = ''default'', in_Name = ''vm'', in_Annotations = Map.empty, in_NodeName = ''a'',
     in_MigrationState = Some example_migration_state \<rparr>"

definition example_lm_env :: "int lm_env" where
  "example_lm_env = \<lparr> lm_Migrations = Some [\<lparr> mg_Namespace = ''default'', mg_VMIName = ''vm'', mg_Final = False \<rparr>],
     lm_TargetPodNode = Missing, lm_VMPolicy = Some ''PreferForced'', lm_KubeVirt = Some None, lm_VMOPs = Some [],
     lm_Override = '''', lm_ZeroMi = 0 \<rparr>"

lemma example_limiters:
  "controller_limiters (NewInboundMigrationLimiter True 1) (NewSyncMigrationLimiter True 1)"
  "consistent (NewInboundMigrationLimiter True 1) (NewSyncMigrationLimiter True 1) example_instance"
  "nodes_stable example_lm_env (NewInboundMigrationLimiter True 1) (NewSyncMigrationLimiter True 1) example_instance"
  by (simp_all add: controller_limiters_def consistent_def recorded_def nodes_stable_def acquired_on_def holders_def
      NewInboundMigrationLimiter_def NewSyncMigrationLimiter_def newMigrationSlotLimiter_def example_instance_def map_get_def)

theorem slots_both_or_none_witness:
  "let r = DynamicSettingsHandler_Handle example_lm_env (NewInboundMigrationLimiter True 1) (NewSyncMigrationLimiter True 1)
             example_instance
   in consistent (lr_Inbound r) (lr_Sync r) (lr_Instance r)"
  using slots_both_or_none [OF example_limiters _ refl] by (simp add: Let_def example_instance_def)

theorem migration_limits_respected_witness:
  "int (card (holders (lr_Inbound (DynamicSettingsHandler_Handle example_lm_env (NewInboundMigrationLimiter True 0)
      (NewSyncMigrationLimiter True 1) example_instance)) ''b'')) \<le> max 1 0"
  by (rule migration_limits_respected [THEN conjunct2, THEN conjunct1, OF lm_reachable.pass, OF lm_reachable.start refl])

section \<open>Migrations begin\<close>

lemma set_configuration_ok:
  assumes "lm_VMPolicy env = Some policy" "lm_KubeVirt env = Some kvconfig" "getVMOPInProgressForVM env k = Some vmop"
    and "CalculateEffectivePolicy (lm_Override env) policy vmop = (p, auto, None)"
  shows "set_configuration env k = (k\<lparr> in_MigrationState := map_option
      (\<lambda>st. st\<lparr> ms_Configuration := Some (NewMigrationConfiguration (lm_ZeroMi env) auto kvconfig) \<rparr>) (in_MigrationState k) \<rparr>, None)"
  using assms by (simp add: set_configuration_def)



section \<open>Restarts\<close>

text \<open>The migrations that a restarted controller counts for a node.\<close>

definition backed :: "instance_migration list \<Rightarrow> 'q vm_instance \<Rightarrow> bool" where
  "backed ms kvvmi \<longleftrightarrow> list_ex (\<lambda>m. \<not> mg_Final m \<and>
     mg_Namespace m @ ''/'' @ mg_VMIName m = in_Namespace kvvmi @ ''/'' @ in_Name kvvmi) ms"

lemma holders_restore_one:
  "holders (restore_one ms l kvvmi) node = holders l node \<union>
     {x. x = slot_owner kvvmi \<and> acquired_on l kvvmi = Some node \<and> backed ms kvvmi \<and> node \<noteq> '''' \<and> x \<noteq> ''''}"
  by (auto simp: restore_one_def holders_def acquired_on_def backed_def Let_def split: option.splits if_splits)

lemma restore_one_ann [simp]: "sl_ann (restore_one ms l kvvmi) = sl_ann l"
  by (simp add: restore_one_def Let_def)

lemma acquired_on_restore_one [simp]: "acquired_on (restore_one ms l i) j = acquired_on l j"
  by (simp add: acquired_on_def)

lemma holders_restore:
  "holders (fold (\<lambda>i l. restore_one ms l i) is l) node = holders l node \<union>
     {x. \<exists>i \<in> set is. x = slot_owner i \<and> acquired_on l i = Some node \<and> backed ms i \<and> node \<noteq> '''' \<and> x \<noteq> ''''}"
proof (induction "is" arbitrary: l)
  case (Cons i "is")
  show ?case by (auto simp: Cons holders_restore_one)
qed simp



text \<open>
  A slot whose annotation was not stored stays taken when the migration ends: the handler releases only
  what the annotations name.
\<close>

lemma unrecorded_slot_leaks:
  assumes "in_MigrationState kvvmi = Some st" "ms_Completed st" "in_Annotations kvvmi = Map.empty"
    and "slot_owner kvvmi \<in> holders inb node"
  shows "slot_owner kvvmi \<in> holders (lr_Inbound (DynamicSettingsHandler_Handle env inb syn kvvmi)) node"
  using assms by (simp add: DynamicSettingsHandler_Handle_def shouldReleaseSlots_def InboundMigrationWaitingTargetNode_def
      map_get_def Release_def Let_def)

end
