(* ===== verification/Expectations.thy ===== *)
theory Expectations
  imports GoPrelude
begin

text \<open>
  The tracker of pending creations and deletions of a pool
  (\<^verbatim>\<open>pkg/controller/vmpool/internal/expectations/expectations.go\<close>).  The tracker is the map of items
  and the time to live; the clock is an argument of the operations that read it.  Every operation
  holds the mutex, so operations are atomic and interleave as steps.  Counters are far from the limits
  of a machine integer: they count objects of one pool.
\<close>

section \<open>expectations.go\<close>

record item =
  it_creations :: int
  it_deletions :: "string set"
  it_timestamp :: int

record expectations =
  ex_items :: "string \<Rightarrow> item option"
  ex_ttl :: int

definition DefaultTTL :: int where "DefaultTTL = 5 * 60 * 10 ^ 9"

definition NewWithTTL :: "int \<Rightarrow> expectations" where
  "NewWithTTL ttl = \<lparr> ex_items = Map.empty, ex_ttl = ttl \<rparr>"

definition NewExpectations :: expectations where "NewExpectations = NewWithTTL DefaultTTL"

definition zero_item :: item where
  "zero_item = \<lparr> it_creations = 0, it_deletions = {}, it_timestamp = 0 \<rparr>"

definition getOrCreate :: "expectations \<Rightarrow> string \<Rightarrow> item" where
  "getOrCreate e key = (case ex_items e key of None \<Rightarrow> zero_item | Some it \<Rightarrow> it)"

definition ExpectCreations :: "int \<Rightarrow> string \<Rightarrow> int \<Rightarrow> expectations \<Rightarrow> expectations" where
  "ExpectCreations now key n e =
     (if n \<le> 0 then e
      else let it = getOrCreate e key
           in e\<lparr> ex_items := (ex_items e)(key \<mapsto> it\<lparr> it_creations := it_creations it + n, it_timestamp := now \<rparr>) \<rparr>)"

definition ExpectDeletions :: "int \<Rightarrow> string \<Rightarrow> string list \<Rightarrow> expectations \<Rightarrow> expectations" where
  "ExpectDeletions now key uids e =
     (if length uids = 0 then e
      else let it = getOrCreate e key
           in e\<lparr> ex_items := (ex_items e)(key \<mapsto> it\<lparr> it_deletions := it_deletions it \<union> set uids, it_timestamp := now \<rparr>) \<rparr>)"

definition CreationObserved :: "string \<Rightarrow> expectations \<Rightarrow> expectations" where
  "CreationObserved key e =
     (case ex_items e key of
        None \<Rightarrow> e
      | Some it \<Rightarrow>
          if it_creations it > 0
          then e\<lparr> ex_items := (ex_items e)(key \<mapsto> it\<lparr> it_creations := it_creations it - 1 \<rparr>) \<rparr>
          else e)"

definition DeletionObserved :: "string \<Rightarrow> string \<Rightarrow> expectations \<Rightarrow> expectations" where
  "DeletionObserved key uid e =
     (case ex_items e key of
        None \<Rightarrow> e
      | Some it \<Rightarrow> e\<lparr> ex_items := (ex_items e)(key \<mapsto> it\<lparr> it_deletions := it_deletions it - {uid} \<rparr>) \<rparr>)"

definition Satisfied :: "int \<Rightarrow> string \<Rightarrow> expectations \<Rightarrow> bool" where
  "Satisfied now key e =
     (case ex_items e key of
        None \<Rightarrow> True
      | Some it \<Rightarrow>
          if it_creations it \<le> 0 \<and> it_deletions it = {} then True
          else now - it_timestamp it \<ge> ex_ttl e)"

definition Forget :: "string \<Rightarrow> expectations \<Rightarrow> expectations" where
  "Forget key e = e\<lparr> ex_items := (ex_items e)(key := None) \<rparr>"

section \<open>What is pending\<close>

text \<open>The abstract view: a number of creations and a set of deletions per key.\<close>

definition pending_creations :: "expectations \<Rightarrow> string \<Rightarrow> int" where
  "pending_creations e key = (case ex_items e key of None \<Rightarrow> 0 | Some it \<Rightarrow> it_creations it)"

definition pending_deletions :: "expectations \<Rightarrow> string \<Rightarrow> string set" where
  "pending_deletions e key = (case ex_items e key of None \<Rightarrow> {} | Some it \<Rightarrow> it_deletions it)"

lemmas expectation_defs =
  ExpectCreations_def ExpectDeletions_def CreationObserved_def DeletionObserved_def Forget_def
  getOrCreate_def zero_item_def pending_creations_def pending_deletions_def

lemma pending_creations_ops [simp]:
  "pending_creations (ExpectCreations now k n e) k' = (if k' = k \<and> n > 0 then pending_creations e k + n else pending_creations e k')"
  "pending_creations (ExpectDeletions now k us e) k' = pending_creations e k'"
  "pending_creations (CreationObserved k e) k' =
     (if k' = k \<and> pending_creations e k > 0 then pending_creations e k - 1 else pending_creations e k')"
  "pending_creations (DeletionObserved k u e) k' = pending_creations e k'"
  "pending_creations (Forget k e) k' = (if k' = k then 0 else pending_creations e k')"
  by (auto simp: expectation_defs Let_def split: option.split)

lemma pending_deletions_ops [simp]:
  "pending_deletions (ExpectCreations now k n e) k' = pending_deletions e k'"
  "pending_deletions (ExpectDeletions now k us e) k' = (if k' = k then pending_deletions e k \<union> set us else pending_deletions e k')"
  "pending_deletions (CreationObserved k e) k' = pending_deletions e k'"
  "pending_deletions (DeletionObserved k u e) k' = (if k' = k then pending_deletions e k - {u} else pending_deletions e k')"
  "pending_deletions (Forget k e) k' = (if k' = k then {} else pending_deletions e k')"
  by (auto simp: expectation_defs Let_def split: option.split)

definition expired :: "int \<Rightarrow> string \<Rightarrow> expectations \<Rightarrow> bool" where
  "expired now key e = (case ex_items e key of None \<Rightarrow> False | Some it \<Rightarrow> now - it_timestamp it \<ge> ex_ttl e)"

lemma Satisfied_iff:
  "Satisfied now key e \<longleftrightarrow>
     pending_creations e key \<le> 0 \<and> pending_deletions e key = {} \<or> expired now key e"
  by (auto simp: Satisfied_def expired_def pending_creations_def pending_deletions_def split: option.split)

section \<open>The contract of a tracker\<close>

text \<open>
  What the controller of a pool relies on: the pending creations of a key grow by what is expected,
  shrink by one with an observation but not below zero, and are settled when the key is satisfied.
\<close>

locale creation_tracker =
  fixes pending :: "'t \<Rightarrow> int"
    and expect :: "int \<Rightarrow> 't \<Rightarrow> 't"
    and observe :: "'t \<Rightarrow> 't"
    and satisfied :: "'t \<Rightarrow> bool"
  assumes pending_expect: "0 \<le> n \<Longrightarrow> pending (expect n t) = pending t + n"
    and pending_observe: "pending (observe t) = (if pending t > 0 then pending t - 1 else pending t)"
    and satisfied_settled: "satisfied t \<Longrightarrow> pending t \<le> 0"
begin

lemma pending_observe_many:
  "int k \<le> pending t \<Longrightarrow> pending ((observe ^^ k) t) = pending t - int k"
  by (induction k) (auto simp: pending_observe)

lemma pending_after_failures:
  assumes "k \<le> n" and "0 \<le> pending t"
  shows "pending ((observe ^^ k) (expect (int n) t)) = pending t + int n - int k"
  using assms by (subst pending_observe_many) (auto simp: pending_expect)

lemma observe_nonneg: "0 \<le> pending t \<Longrightarrow> 0 \<le> pending (observe t)"
  by (simp add: pending_observe)

end

text \<open>The tracker of a key while its expectation has not expired.\<close>

interpretation key_tracker: creation_tracker
  "\<lambda>e. pending_creations e key" "\<lambda>n. ExpectCreations now key n" "CreationObserved key"
  "\<lambda>e. Satisfied now key e \<and> \<not> expired now key e" for now key
  by unfold_locales (auto simp: Satisfied_iff)

lemma pending_creations_observed:
  "pending_creations ((CreationObserved key ^^ k) e) key =
     (if pending_creations e key \<le> 0 then pending_creations e key else max 0 (pending_creations e key - int k))"
  by (induction k) auto

lemma pending_deletions_observed:
  "pending_deletions ((CreationObserved key ^^ k) e) key = pending_deletions e key"
  "pending_creations (fold (DeletionObserved key) us e) key = pending_creations e key"
  "pending_deletions (fold (DeletionObserved key) us e) key = pending_deletions e key - set us"
  subgoal by (induction k) simp_all
  subgoal by (induction us arbitrary: e) simp_all
  subgoal by (induction us arbitrary: e) auto
  done

lemma expired_ops [simp]:
  "expired t key (CreationObserved key e) = expired t key e"
  "expired t key (DeletionObserved key u e) = expired t key e"
  "expired t key (ExpectCreations now key n e) = (if n \<le> 0 then expired t key e else t - now \<ge> ex_ttl e)"
  "expired t key (ExpectDeletions now key us e) = (if us = [] then expired t key e else t - now \<ge> ex_ttl e)"
  "ex_ttl (ExpectCreations now key n e) = ex_ttl e"
  by (auto simp: expired_def expectation_defs Let_def split: option.split)

lemma expired_observed:
  "expired t key ((CreationObserved key ^^ k) e) = expired t key e"
  "expired t key (fold (DeletionObserved key) us e) = expired t key e"
  subgoal by (induction k) simp_all
  subgoal by (induction us arbitrary: e) simp_all
  done

text \<open>
  The tracker opens exactly when everything expected has been observed.  After creations and
  deletions have been expected on a settled key, and before their time to live has passed, the key is
  satisfied exactly when at least as many creations as expected and every expected deletion have been
  observed: repeated and foreign deletions do not count, and surplus creations do no harm.
\<close>

lemma Satisfied_exact:
  assumes "pending_creations e key = 0" and "pending_deletions e key = {}" and "later - now < ex_ttl e"
  shows "Satisfied later key
       ((CreationObserved key ^^ k) (fold (DeletionObserved key) observed
         (ExpectDeletions now key expected (ExpectCreations now key (int n) e)))) \<longleftrightarrow>
     n \<le> k \<and> set expected \<subseteq> set observed"
  using assms
  by (auto simp: Satisfied_iff pending_creations_observed pending_deletions_observed expired_observed)

text \<open>The safety valve: once the time to live has passed the key is satisfied whatever is missing.\<close>

lemma Satisfied_eventually:
  assumes "0 < n"
  shows "Satisfied (now + max 0 (ex_ttl e)) key (ExpectCreations now key n e)"
  using assms by (auto simp: Satisfied_iff)

end
