(* ===== verification/VMPool.thy ===== *)
theory VMPool
  imports ApiTypes Effects Expectations "HOL-Library.Multiset"
begin

text \<open>
  The controller of pools of virtual machines (\<^verbatim>\<open>pkg/controller/vmpool\<close>): the handler that keeps the
  number of replicas (\<^verbatim>\<open>internal/handler/sync.go\<close>), the handler that rolls out template changes
  (\<^verbatim>\<open>internal/handler/template.go\<close>), labels and selectors (\<^verbatim>\<open>internal/poollabels\<close>) and the watcher of
  the members (\<^verbatim>\<open>internal/watcher/vm.go\<close>).

  Parameters: the API server (see \<^verbatim>\<open>Effects\<close>) with the list it answers, the readings of the clock,
  the hash of a template (JSON encoding and a checksum) and the helpers of
  \<^verbatim>\<open>k8s.io/apimachinery/pkg/api/meta\<close> on lists of conditions.
\<close>

section \<open>Objects\<close>

text \<open>\<open>mb_Controller\<close> is the owner reference \<^verbatim>\<open>metav1.GetControllerOf\<close> finds.\<close>

record owner_ref =
  or_APIVersion :: string
  or_Kind :: string
  or_Name :: string
  or_UID :: string

record 'q member =
  mb_Name :: string
  mb_GenerateName :: string
  mb_Namespace :: string
  mb_UID :: string
  mb_Labels :: "string \<Rightarrow> string option"
  mb_Annotations :: "string \<Rightarrow> string option"
  mb_Controller :: "owner_ref option"
  mb_Created :: int
  mb_Deleting :: bool
  mb_Phase :: string
  mb_Conditions :: "condition list"
  mb_Spec :: "'q vm_spec"

record 'q vm_template =
  tm_Labels :: "string \<Rightarrow> string option"
  tm_Annotations :: "string \<Rightarrow> string option"
  tm_Spec :: "'q vm_spec"

record pool_status =
  pst_ObservedGeneration :: int
  pst_Replicas :: int
  pst_ReadyReplicas :: int
  pst_UpdatedReplicas :: int
  pst_RestartPendingReplicas :: int
  pst_DesiredTemplateHash :: string
  pst_Selector :: string
  pst_Conditions :: "condition list"

record 'q vm_pool =
  pl_Name :: string
  pl_Namespace :: string
  pl_UID :: string
  pl_Generation :: int
  pl_Deleting :: bool
  pl_Replicas :: "int option"
  pl_ScaleDownPolicy :: string
  pl_Template :: "'q vm_template"
  pl_Status :: pool_status

record meta_ops =
  meta_Set :: "condition \<Rightarrow> condition list \<Rightarrow> condition list"
  meta_Remove :: "string \<Rightarrow> condition list \<Rightarrow> condition list"
  meta_Find :: "string \<Rightarrow> condition list \<Rightarrow> condition option"

type_synonym 'q template_hash = "'q vm_template \<Rightarrow> string"

datatype 'q pool_call = ListVMs | CreateVM "'q member" | DeleteVM "'q member" | UpdateVM "'q member"

abbreviation ScaleDownPolicyNewestFirst :: string where "ScaleDownPolicyNewestFirst \<equiv> ''NewestFirst''"
abbreviation ScaleDownPolicyOldestFirst :: string where "ScaleDownPolicyOldestFirst \<equiv> ''OldestFirst''"
abbreviation ScaleDownPolicyExplicit :: string where "ScaleDownPolicyExplicit \<equiv> ''Explicit''"
abbreviation VirtualMachinePoolKind :: string where "VirtualMachinePoolKind \<equiv> ''VirtualMachinePool''"
abbreviation SchemeGroupVersion :: string where "SchemeGroupVersion \<equiv> ''virtualization.deckhouse.io/v1alpha2''"

section \<open>poollabels.go\<close>

abbreviation PoolUID :: string where "PoolUID \<equiv> ''vmpool.virtualization.deckhouse.io/pool-uid''"
abbreviation Pool :: string where "Pool \<equiv> ''vmpool.virtualization.deckhouse.io/pool''"
abbreviation TemplateHash :: string where "TemplateHash \<equiv> ''vmpool.virtualization.deckhouse.io/template-hash''"
abbreviation PatchedTemplateHash :: string where
  "PatchedTemplateHash \<equiv> ''vmpool.virtualization.deckhouse.io/patched-template-hash''"

definition DeleteDiskName :: "string \<Rightarrow> string \<Rightarrow> string" where
  "DeleteDiskName memberName diskTemplateName = memberName @ ''-'' @ diskTemplateName"

definition MemberLabels :: "'q vm_pool \<Rightarrow> (string \<times> string) list" where
  "MemberLabels pool = [(PoolUID, pl_UID pool), (Pool, pl_Name pool)]"

definition MemberSelector :: "'q vm_pool \<Rightarrow> 'q member \<Rightarrow> bool" where
  "MemberSelector pool m \<longleftrightarrow> mb_Labels m PoolUID = Some (pl_UID pool)"

text \<open>The one label of the selector, in the form \<^verbatim>\<open>FormatLabelSelector\<close> prints it.\<close>

definition StatusSelector :: "'q vm_pool \<Rightarrow> string" where
  "StatusSelector pool = PoolUID @ ''='' @ pl_UID pool"

definition controlled_by :: "'q vm_pool \<Rightarrow> 'q member \<Rightarrow> bool" where
  "controlled_by pool m = (case mb_Controller m of None \<Rightarrow> False | Some ref \<Rightarrow> or_UID ref = pl_UID pool)"

text \<open>\<open>items\<close> is what the server holds; it answers with the objects the selector and namespace pick.\<close>

definition ListMembers ::
  "'q pool_call api_server \<Rightarrow> 'q member list \<Rightarrow> 'q vm_pool \<Rightarrow> ('q pool_call, 'q member list) run" where
  "ListMembers api items pool =
     bind_run (do_call ''list pool members'' api ListVMs) (\<lambda>_.
       ret (filter (controlled_by pool)
              (filter (\<lambda>m. mb_Namespace m = pl_Namespace pool \<and> MemberSelector pool m) items)))"

section \<open>template.go\<close>

definition awaitingRestart :: "meta_ops \<Rightarrow> 'q member \<Rightarrow> bool" where
  "awaitingRestart mo vm =
     (case meta_Find mo ''AwaitingRestartToApplyConfiguration'' (mb_Conditions vm) of
        None \<Rightarrow> False
      | Some c \<Rightarrow> cond_Status c = ConditionTrue)"

definition applyTemplateSpec :: "'q member \<Rightarrow> 'q vm_spec \<Rightarrow> 'q member" where
  "applyTemplateSpec vm tmplSpec =
     (let refs = BlockDeviceRefs (mb_Spec vm) in vm\<lparr> mb_Spec := tmplSpec\<lparr> BlockDeviceRefs := refs \<rparr> \<rparr>)"

text \<open>The update one member needs, if any.\<close>

definition template_update :: "meta_ops \<Rightarrow> string \<Rightarrow> 'q vm_spec \<Rightarrow> 'q member \<Rightarrow> 'q member option" where
  "template_update mo desiredHash tmplSpec vm =
     (if mb_Deleting vm then None
      else if map_get (mb_Annotations vm) PatchedTemplateHash \<noteq> desiredHash
      then Some ((applyTemplateSpec vm tmplSpec)
                   \<lparr> mb_Annotations := (mb_Annotations vm)(PatchedTemplateHash \<mapsto> desiredHash) \<rparr>)
      else if awaitingRestart mo vm then None
      else if map_get (mb_Labels vm) TemplateHash \<noteq> desiredHash
      then Some (vm\<lparr> mb_Labels := (mb_Labels vm)(TemplateHash \<mapsto> desiredHash) \<rparr>)
      else None)"

fun template_loop ::
  "'q pool_call api_server \<Rightarrow> meta_ops \<Rightarrow> string \<Rightarrow> 'q vm_spec \<Rightarrow> 'q member list \<Rightarrow> ('q pool_call, string list) run" where
  "template_loop api mo desiredHash tmplSpec [] = ret []"
| "template_loop api mo desiredHash tmplSpec (vm # vms) =
     (case template_update mo desiredHash tmplSpec vm of
        None \<Rightarrow> template_loop api mo desiredHash tmplSpec vms
      | Some vm' \<Rightarrow>
          bind_run (call api (UpdateVM vm')) (\<lambda>r.
            bind_run (template_loop api mo desiredHash tmplSpec vms) (\<lambda>errs.
              ret (if r = OK then errs else (''update replica '' @ mb_Name vm) # errs))))"

definition TemplateHandler_Handle ::
  "'q pool_call api_server \<Rightarrow> meta_ops \<Rightarrow> 'q template_hash \<Rightarrow> 'q member list \<Rightarrow> 'q vm_pool \<Rightarrow>
     ('q pool_call, string list) run" where
  "TemplateHandler_Handle api mo hash items pool =
     (if pl_Deleting pool then ret []
      else bind_run (ListMembers api items pool) (\<lambda>members.
        template_loop api mo (hash (pl_Template pool)) (tm_Spec (pl_Template pool)) members))"

section \<open>sync.go\<close>

abbreviation reasonSuccessfulCreate :: string where "reasonSuccessfulCreate \<equiv> ''SuccessfulCreate''"
abbreviation reasonFailedCreate :: string where "reasonFailedCreate \<equiv> ''FailedCreate''"
abbreviation reasonSuccessfulDelete :: string where "reasonSuccessfulDelete \<equiv> ''SuccessfulDelete''"
abbreviation reasonFailedDelete :: string where "reasonFailedDelete \<equiv> ''FailedDelete''"

definition poolKey :: "'q vm_pool \<Rightarrow> string" where
  "poolKey pool = pl_Namespace pool @ ''/'' @ pl_Name pool"

text \<open>The server sets what a new object leaves out: its name, identifier, time and status.\<close>

definition newMember :: "'q template_hash \<Rightarrow> 'q vm_pool \<Rightarrow> 'q member" where
  "newMember hash pool =
     (let tmpl = pl_Template pool;
          labels = (fold (\<lambda>(k, v) m. m(k \<mapsto> v)) (MemberLabels pool) (tm_Labels tmpl))(TemplateHash \<mapsto> hash tmpl)
      in \<lparr> mb_Name = '''', mb_GenerateName = pl_Name pool @ ''-'', mb_Namespace = pl_Namespace pool, mb_UID = '''',
           mb_Labels = labels, mb_Annotations = tm_Annotations tmpl,
           mb_Controller = Some \<lparr> or_APIVersion = SchemeGroupVersion, or_Kind = VirtualMachinePoolKind,
                                  or_Name = pl_Name pool, or_UID = pl_UID pool \<rparr>,
           mb_Created = 0, mb_Deleting = False, mb_Phase = '''', mb_Conditions = [], mb_Spec = tm_Spec tmpl \<rparr>)"

text \<open>The loop of \<^verbatim>\<open>scaleUp\<close>: the errors and the tracker, which forgets creations that failed.\<close>

fun create_loop ::
  "'q pool_call api_server \<Rightarrow> 'q template_hash \<Rightarrow> 'q vm_pool \<Rightarrow> string \<Rightarrow> nat \<Rightarrow> expectations \<Rightarrow>
     ('q pool_call, string list \<times> expectations) run" where
  "create_loop api hash pool key 0 ex = ret ([], ex)"
| "create_loop api hash pool key (Suc n) ex =
     bind_run (call api (CreateVM (newMember hash pool))) (\<lambda>r.
       if r \<noteq> OK then
         bind_run (event reasonFailedCreate) (\<lambda>_.
           bind_run (create_loop api hash pool key n (CreationObserved key ex)) (\<lambda>(errs, ex').
             ret (''create replica'' # errs, ex')))
       else
         bind_run (event reasonSuccessfulCreate) (\<lambda>_. create_loop api hash pool key n ex))"

definition scaleUp ::
  "'q pool_call api_server \<Rightarrow> 'q template_hash \<Rightarrow> int \<Rightarrow> 'q vm_pool \<Rightarrow> string \<Rightarrow> int \<Rightarrow> expectations \<Rightarrow>
     ('q pool_call, string list \<times> expectations) run" where
  "scaleUp api hash now pool key n ex = create_loop api hash pool key (nat n) (ExpectCreations now key n ex)"

definition pickVictims :: "string \<Rightarrow> 'q member list \<Rightarrow> int \<Rightarrow> 'q member list" where
  "pickVictims policy candidates n =
     (if n \<le> 0 \<or> policy = ScaleDownPolicyExplicit then []
      else let ordered = (if policy = ScaleDownPolicyOldestFirst then sort_key mb_Created candidates
                          else sort_key (\<lambda>m. - mb_Created m) candidates)
           in take (nat n) ordered)"

fun delete_loop ::
  "'q pool_call api_server \<Rightarrow> string \<Rightarrow> 'q member list \<Rightarrow> expectations \<Rightarrow> ('q pool_call, string list \<times> expectations) run" where
  "delete_loop api key [] ex = ret ([], ex)"
| "delete_loop api key (v # victims) ex =
     bind_run (call api (DeleteVM v)) (\<lambda>r.
       if r \<noteq> OK then
         (let ex' = DeletionObserved key (mb_UID v) ex
          in if r \<noteq> NotFoundErr
             then bind_run (event reasonFailedDelete) (\<lambda>_.
                    bind_run (delete_loop api key victims ex') (\<lambda>(errs, ex'').
                      ret ((''delete replica '' @ mb_Name v) # errs, ex'')))
             else delete_loop api key victims ex')
       else bind_run (event reasonSuccessfulDelete) (\<lambda>_. delete_loop api key victims ex))"

definition scaleDown ::
  "'q pool_call api_server \<Rightarrow> int \<Rightarrow> 'q vm_pool \<Rightarrow> string \<Rightarrow> 'q member list \<Rightarrow> int \<Rightarrow> expectations \<Rightarrow>
     ('q pool_call, string list \<times> expectations) run" where
  "scaleDown api now pool key members surplus ex =
     (let terminating = int (length (filter mb_Deleting members));
          candidates = filter (\<lambda>m. \<not> mb_Deleting m) members;
          toDelete = surplus - terminating
      in if toDelete \<le> 0 then ret ([], ex)
         else let victims = pickVictims (pl_ScaleDownPolicy pool) candidates toDelete
              in if length victims = 0 then ret ([], ex)
                 else delete_loop api key victims (ExpectDeletions now key (map mb_UID victims) ex))"

text \<open>The number of members with a property, as the counters of \<^verbatim>\<open>updateStatus\<close> have it.\<close>

definition count_members :: "('q member \<Rightarrow> bool) \<Rightarrow> 'q member list \<Rightarrow> int" where
  "count_members P members = int (length (filter (\<lambda>m. \<not> mb_Deleting m \<and> P m) members))"

definition pool_condition :: "'q vm_pool \<Rightarrow> string \<Rightarrow> string \<Rightarrow> string \<Rightarrow> condition" where
  "pool_condition pool type status reason =
     \<lparr> cond_Type = type, cond_Status = status, cond_Reason = reason, cond_Message = '''',
       cond_ObservedGeneration = pl_Generation pool, cond_LastTransitionTime = 0 \<rparr>"

definition desired_replicas :: "'q vm_pool \<Rightarrow> int" where
  "desired_replicas pool = (case pl_Replicas pool of None \<Rightarrow> 0 | Some r \<Rightarrow> r)"

definition updateStatus :: "meta_ops \<Rightarrow> 'q template_hash \<Rightarrow> 'q vm_pool \<Rightarrow> 'q member list \<Rightarrow> 'q vm_pool" where
  "updateStatus mo hash pool members =
     (let desiredHash = hash (pl_Template pool);
          liveNonTerminating = count_members (\<lambda>_. True) members;
          ready = count_members (\<lambda>m. mb_Phase m = MachineRunning) members;
          updated = count_members (\<lambda>m. map_get (mb_Labels m) TemplateHash = desiredHash) members;
          restartPending = count_members (\<lambda>m. map_get (mb_Annotations m) PatchedTemplateHash = desiredHash \<and> awaitingRestart mo m) members;
          desired = desired_replicas pool;
          available = (if ready \<ge> desired then pool_condition pool ''Available'' ConditionTrue ''AllReplicasReady''
                       else pool_condition pool ''Available'' ConditionFalse ''InsufficientReadyReplicas'');
          progressing = (if int (length members) \<noteq> desired
                         then meta_Set mo (pool_condition pool ''Progressing'' ConditionTrue ''ReplicasProgressing'')
                         else meta_Remove mo ''Progressing'');
          synced = (if updated < liveNonTerminating
                    then pool_condition pool ''Synced'' ConditionFalse
                           (if restartPending > 0 then ''RestartPendingApproval'' else ''RolloutInProgress'')
                    else pool_condition pool ''Synced'' ConditionTrue ''PoolSynced'')
      in pool\<lparr> pl_Status := \<lparr>
           pst_ObservedGeneration = pl_Generation pool, pst_Replicas = int (length members), pst_ReadyReplicas = ready,
           pst_UpdatedReplicas = updated, pst_RestartPendingReplicas = restartPending,
           pst_DesiredTemplateHash = desiredHash, pst_Selector = StatusSelector pool,
           pst_Conditions = meta_Set mo synced (progressing (meta_Set mo available (pst_Conditions (pl_Status pool)))) \<rparr> \<rparr>)"

record 'q sync_result =
  sync_Requeue :: bool
  sync_Errors :: "string list"
  sync_Pool :: "'q vm_pool"
  sync_Exp :: expectations

definition scale ::
  "'q pool_call api_server \<Rightarrow> 'q template_hash \<Rightarrow> int \<Rightarrow> 'q vm_pool \<Rightarrow> string \<Rightarrow> 'q member list \<Rightarrow> expectations \<Rightarrow>
     ('q pool_call, string list \<times> expectations) run" where
  "scale api hash now pool key members ex =
     (let desired = desired_replicas pool; live = int (length members)
      in if live < desired then scaleUp api hash now pool key (desired - live) ex
         else if live > desired then scaleDown api now pool key members (live - desired) ex
         else ret ([], ex))"

text \<open>The status is updated when the handler returns, whatever it did.\<close>

definition SyncHandler_Handle ::
  "'q pool_call api_server \<Rightarrow> meta_ops \<Rightarrow> 'q template_hash \<Rightarrow> int \<Rightarrow> int \<Rightarrow> 'q member list \<Rightarrow> 'q vm_pool \<Rightarrow> expectations \<Rightarrow>
     ('q pool_call, 'q sync_result) run" where
  "SyncHandler_Handle api mo hash now1 now2 items pool ex =
     (let key = poolKey pool
      in if pl_Deleting pool
         then ret \<lparr> sync_Requeue = False, sync_Errors = [], sync_Pool = pool, sync_Exp = Forget key ex \<rparr>
         else bind_run (ListMembers api items pool) (\<lambda>members.
           let pool' = updateStatus mo hash pool members
           in if \<not> Satisfied now1 key ex
              then ret \<lparr> sync_Requeue = True, sync_Errors = [], sync_Pool = pool', sync_Exp = ex \<rparr>
              else bind_run (scale api hash now2 pool key members ex) (\<lambda>(errs, ex').
                     ret \<lparr> sync_Requeue = False, sync_Errors = errs, sync_Pool = pool', sync_Exp = ex' \<rparr>)))"

section \<open>watcher/vm.go\<close>

definition ownerKey :: "'q member \<Rightarrow> string option" where
  "ownerKey vm =
     (case mb_Controller vm of
        None \<Rightarrow> None
      | Some ref \<Rightarrow>
          if or_Kind ref \<noteq> VirtualMachinePoolKind \<or> or_APIVersion ref \<noteq> SchemeGroupVersion then None
          else Some (mb_Namespace vm @ ''/'' @ or_Name ref))"

text \<open>The tracker after an event; the pool is queued whenever it has an owner.\<close>

definition memberEventHandler_Create :: "'q member \<Rightarrow> expectations \<Rightarrow> expectations" where
  "memberEventHandler_Create vm ex =
     (case ownerKey vm of None \<Rightarrow> ex | Some key \<Rightarrow> CreationObserved key ex)"

definition memberEventHandler_Delete :: "'q member \<Rightarrow> expectations \<Rightarrow> expectations" where
  "memberEventHandler_Delete vm ex =
     (case ownerKey vm of None \<Rightarrow> ex | Some key \<Rightarrow> DeletionObserved key (mb_UID vm) ex)"

section \<open>Properties\<close>

text \<open>How many creations among some effects succeeded; \<open>log\<close> is the log before them.\<close>

fun successes :: "'q pool_call api_server \<Rightarrow> 'q pool_call effect list \<Rightarrow> 'q pool_call effect list \<Rightarrow> nat" where
  "successes api log [] = 0"
| "successes api log (e # es) =
     (case e of Call (CreateVM m) \<Rightarrow> (if api log (CreateVM m) = OK then 1 else 0) | _ \<Rightarrow> 0) + successes api (log @ [e]) es"

lemma successes_append: "successes api log (xs @ ys) = successes api log xs + successes api (log @ xs) ys"
  by (induction xs arbitrary: log) simp_all

text \<open>Scaling up tries as often as asked, and the tracker forgets exactly the failures.\<close>

lemma create_loop_run:
  "\<exists>errs new. create_loop api hash pool key n ex log =
       (Returned (errs, (CreationObserved key ^^ (n - successes api log new)) ex), log @ new) \<and>
     successes api log new \<le> n"
proof (induction n arbitrary: ex log)
  case 0
  then show ?case by (intro exI [of _ "[]"]) (simp add: ret_def)
next
  case (Suc n)
  let ?c = "CreateVM (newMember hash pool)"
  let ?ok = "api log ?c = OK"
  let ?first = "[Call ?c, Event (if ?ok then reasonSuccessfulCreate else reasonFailedCreate)]"
  let ?ex = "if ?ok then ex else CreationObserved key ex"
  obtain errs new where run: "create_loop api hash pool key n ?ex (log @ ?first) =
      (Returned (errs, (CreationObserved key ^^ (n - successes api (log @ ?first) new)) ?ex), (log @ ?first) @ new)"
    and le: "successes api (log @ ?first) new \<le> n" using Suc.IH by blast
  have s: "successes api log (?first @ new) = (if ?ok then 1 else 0) + successes api (log @ ?first) new"
    by (simp add: successes_append)
  have "create_loop api hash pool key (Suc n) ex log =
      (Returned (if ?ok then errs else ''create replica'' # errs,
         (CreationObserved key ^^ (n - successes api (log @ ?first) new)) ?ex), log @ ?first @ new)"
    using run by (auto simp: bind_run_def call_def event_def ret_def split: if_splits)
  moreover have "(CreationObserved key ^^ (n - k)) ?ex = (CreationObserved key ^^ (Suc n - ((if ?ok then 1 else 0) + k))) ex"
    if "k \<le> n" for k
    using that by (cases ?ok) (simp_all add: Suc_diff_le funpow_swap1)
  then have "(CreationObserved key ^^ (n - successes api (log @ ?first) new)) ?ex =
      (CreationObserved key ^^ (Suc n - successes api log (?first @ new))) ex"
    using le unfolding s by blast
  moreover have "successes api log (?first @ new) \<le> Suc n" using le unfolding s by (cases ?ok) simp_all
  ultimately show ?case
    by (intro exI [of _ "if ?ok then errs else ''create replica'' # errs"] exI [of _ "?first @ new"]) (simp only: append_assoc)
qed

lemma delete_loop_run:
  "\<exists>errs new ex'. delete_loop api key victims ex log = (Returned (errs, ex'), log @ new) \<and>
     successes api log new = 0 \<and> pending_creations ex' k = pending_creations ex k"
proof (induction victims arbitrary: ex log)
  case Nil
  then show ?case by (intro exI [of _ "[]"] exI [of _ ex]) (simp add: ret_def)
next
  case (Cons v victims)
  let ?r = "api log (DeleteVM v)"
  let ?first = "Call (DeleteVM v) # (if ?r = OK then [Event reasonSuccessfulDelete]
      else if ?r = NotFoundErr then [] else [Event reasonFailedDelete])"
  let ?ex = "if ?r = OK then ex else DeletionObserved key (mb_UID v) ex"
  obtain errs new ex' where "delete_loop api key victims ?ex (log @ ?first) = (Returned (errs, ex'), (log @ ?first) @ new)"
    "successes api (log @ ?first) new = 0" "pending_creations ex' k = pending_creations ?ex k"
    using Cons.IH by blast
  then show ?case
    by (intro exI [of _ "if ?r = OK \<or> ?r = NotFoundErr then errs else (''delete replica '' @ mb_Name v) # errs"]
        exI [of _ "?first @ new"] exI [of _ ex'], cases ?r)
      (simp_all add: bind_run_def call_def event_def ret_def successes_append Let_def)
qed

text \<open>The members the handler sees.\<close>

definition members_of :: "'q vm_pool \<Rightarrow> 'q member list \<Rightarrow> 'q member list" where
  "members_of pool items =
     filter (controlled_by pool) (filter (\<lambda>m. mb_Namespace m = pl_Namespace pool \<and> MemberSelector pool m) items)"

lemma ListMembers_run:
  "ListMembers api items pool log =
     (if api log ListVMs = OK then (Returned (members_of pool items), log @ [Call ListVMs])
      else (Failure ''list pool members'', log @ [Call ListVMs]))"
  by (simp add: ListMembers_def members_of_def bind_run_def do_call_def call_def ret_def err_def)

text \<open>
  What a pass of the handler does to the tracker: as many creations are awaited as succeeded, and
  they are at most as many as are missing from what the handler saw.
\<close>

lemma scale_run:
  assumes "0 \<le> pending_creations ex key"
  shows "\<exists>errs new ex'. scale api hash now pool key members ex log = (Returned (errs, ex'), log @ new) \<and>
     pending_creations ex' key = pending_creations ex key + int (successes api log new) \<and>
     int (successes api log new) \<le> max 0 (desired_replicas pool - int (length members))"
proof -
  let ?n = "nat (desired_replicas pool - int (length members))"
  consider (up) "int (length members) < desired_replicas pool" | (down) "int (length members) > desired_replicas pool"
    | (same) "int (length members) = desired_replicas pool" by linarith
  then show ?thesis
  proof cases
    case up
    obtain errs new where run: "create_loop api hash pool key ?n (ExpectCreations now key (int ?n) ex) log =
        (Returned (errs, (CreationObserved key ^^ (?n - successes api log new)) (ExpectCreations now key (int ?n) ex)), log @ new)"
      and le: "successes api log new \<le> ?n" using create_loop_run by blast
    have "pending_creations ((CreationObserved key ^^ (?n - successes api log new)) (ExpectCreations now key (int ?n) ex)) key =
        pending_creations ex key + int (successes api log new)"
      using key_tracker.pending_after_failures [of "?n - successes api log new" ?n ex key now] assms le by auto
    moreover have "int ?n = desired_replicas pool - int (length members)" using up by simp
    ultimately show ?thesis using run up le unfolding scale_def scaleUp_def Let_def by auto
  next
    case down
    obtain errs new ex' where "delete_loop api key (pickVictims (pl_ScaleDownPolicy pool) (filter (\<lambda>m. \<not> mb_Deleting m) members)
          (int (length members) - desired_replicas pool - int (length (filter mb_Deleting members))))
        (ExpectDeletions now key (map mb_UID (pickVictims (pl_ScaleDownPolicy pool) (filter (\<lambda>m. \<not> mb_Deleting m) members)
          (int (length members) - desired_replicas pool - int (length (filter mb_Deleting members))))) ex) log =
        (Returned (errs, ex'), log @ new)" "successes api log new = 0" "pending_creations ex' key = pending_creations ex key"
      using delete_loop_run by (metis pending_creations_ops(2))
    then show ?thesis using down unfolding scale_def scaleDown_def Let_def
      by (auto simp: ret_def intro: exI [of _ "[]"])
  qed (auto simp: scale_def ret_def intro: exI [of _ "[]"])
qed

lemma SyncHandler_Handle_run:
  assumes live: "\<not> pl_Deleting pool" and ex: "0 \<le> pending_creations ex (poolKey pool)"
    and run: "SyncHandler_Handle api mo hash now1 now2 items pool ex [] = (Returned r, log)"
  shows "pending_creations (sync_Exp r) (poolKey pool) = pending_creations ex (poolKey pool) + int (successes api [] log)"
    and "successes api [] log = 0 \<or>
       Satisfied now1 (poolKey pool) ex \<and>
       int (successes api [] log) \<le> desired_replicas pool - int (length (members_of pool items))"
proof -
  let ?key = "poolKey pool" and ?ms = "members_of pool items" and ?log = "[Call ListVMs]"
  have ok: "api [] ListVMs = OK"
    using run live by (auto simp: SyncHandler_Handle_def Let_def bind_run_def ListMembers_run split: if_splits)
  have "pending_creations (sync_Exp r) ?key = pending_creations ex ?key + int (successes api [] log) \<and>
     (successes api [] log = 0 \<or> Satisfied now1 ?key ex \<and>
       int (successes api [] log) \<le> desired_replicas pool - int (length ?ms))"
  proof (cases "Satisfied now1 ?key ex")
    case False
    then show ?thesis using run live ok
      by (auto simp: SyncHandler_Handle_def Let_def bind_run_def ListMembers_run ret_def)
  next
    case True
    obtain errs new ex' where s: "scale api hash now2 pool ?key ?ms ex ?log = (Returned (errs, ex'), ?log @ new)"
      "pending_creations ex' ?key = pending_creations ex ?key + int (successes api ?log new)"
      "int (successes api ?log new) \<le> max 0 (desired_replicas pool - int (length ?ms))"
      using scale_run [OF ex, of api hash now2 pool ?ms ?log] by blast
    have "sync_Exp r = ex'" "log = ?log @ new"
      using run live ok True s(1) by (auto simp: SyncHandler_Handle_def Let_def bind_run_def ListMembers_run ret_def)
    then show ?thesis using s(2,3) True by (auto simp: successes_append [of api "[]" ?log, simplified])
  qed
  then show "pending_creations (sync_Exp r) ?key = pending_creations ex ?key + int (successes api [] log)"
    and "successes api [] log = 0 \<or> Satisfied now1 ?key ex \<and>
       int (successes api [] log) \<le> desired_replicas pool - int (length ?ms)" by blast+
qed

text \<open>The members some effects try to delete, in order.\<close>

fun deletions :: "'q pool_call effect list \<Rightarrow> 'q member list" where
  "deletions [] = []"
| "deletions (e # es) = (case e of Call (DeleteVM v) \<Rightarrow> [v] | _ \<Rightarrow> []) @ deletions es"

lemma deletions_append [simp]: "deletions (xs @ ys) = deletions xs @ deletions ys"
  by (induction xs) simp_all

lemma delete_loop_deletions:
  "\<exists>x new. delete_loop api key victims ex log = (Returned x, log @ new) \<and> deletions new = victims"
proof (induction victims arbitrary: ex log)
  case Nil
  then show ?case by (simp add: ret_def)
next
  case (Cons v victims)
  let ?r = "api log (DeleteVM v)"
  let ?first = "Call (DeleteVM v) # (if ?r = OK then [Event reasonSuccessfulDelete]
      else if ?r = NotFoundErr then [] else [Event reasonFailedDelete])"
  let ?ex = "if ?r = OK then ex else DeletionObserved key (mb_UID v) ex"
  obtain errs ex' new where "delete_loop api key victims ?ex (log @ ?first) = (Returned (errs, ex'), (log @ ?first) @ new)"
    "deletions new = victims" using Cons.IH by (metis surj_pair)
  then show ?case
    by (intro exI [of _ "(if ?r = OK \<or> ?r = NotFoundErr then errs else (''delete replica '' @ mb_Name v) # errs, ex')"]
        exI [of _ "?first @ new"], cases ?r)
      (simp_all add: bind_run_def call_def event_def ret_def Let_def)
qed

lemma emits_create_loop:
  "emits (\<lambda>e. deletions [e] = []) (create_loop api hash pool key n ex)"
  by (induction n arbitrary: ex) (auto intro!: emits_rules simp: case_prod_beta)

lemma list_all_deletions: "list_all (\<lambda>e. deletions [e] = []) es \<Longrightarrow> deletions es = []"
  by (induction es) simp_all

lemma emits_deletions: "emits (\<lambda>e. deletions [e] = []) m \<Longrightarrow> deletions (new_effects m log) = []"
  by (rule list_all_deletions) (rule emits_new_effects)

text \<open>What may be deleted in a pass: nothing, or the victims among the members that are not leaving.\<close>

definition alive :: "'q vm_pool \<Rightarrow> 'q member list \<Rightarrow> 'q member list" where
  "alive pool items = filter (\<lambda>m. \<not> mb_Deleting m) (members_of pool items)"

lemma scale_deletions:
  "\<exists>x new. scale api hash now pool key members ex log = (Returned x, log @ new) \<and>
     deletions new \<in> {[], pickVictims (pl_ScaleDownPolicy pool) (filter (\<lambda>m. \<not> mb_Deleting m) members)
       (int (length (filter (\<lambda>m. \<not> mb_Deleting m) members)) - desired_replicas pool)}"
proof -
  let ?cands = "filter (\<lambda>m. \<not> mb_Deleting m) members"
  let ?n = "int (length members) - desired_replicas pool - int (length (filter mb_Deleting members))"
  have split: "?n = int (length ?cands) - desired_replicas pool"
    using sum_length_filter_compl [of mb_Deleting members] by simp
  show ?thesis
  proof (cases "int (length members) < desired_replicas pool")
    case True
    obtain x new where run: "scaleUp api hash now pool key (desired_replicas pool - int (length members)) ex log = (Returned x, log @ new)"
      using create_loop_run unfolding scaleUp_def by blast
    have "deletions (new_effects (scaleUp api hash now pool key (desired_replicas pool - int (length members)) ex) log) = []"
      unfolding scaleUp_def by (rule emits_deletions) (rule emits_create_loop)
    then have "deletions new = []" by (simp add: new_effects_def run)
    then show ?thesis using run True by (intro exI [of _ x] exI [of _ new]) (simp add: scale_def)
  next
    case False
    let ?vs = "pickVictims (pl_ScaleDownPolicy pool) ?cands ?n"
    obtain x new where "delete_loop api key ?vs (ExpectDeletions now key (map mb_UID ?vs) ex) log = (Returned x, log @ new)"
      "deletions new = ?vs" using delete_loop_deletions by blast
    moreover have "\<exists>x. ret ([], ex) log = (Returned x, log @ [])" by (simp add: ret_def)
    ultimately show ?thesis using False unfolding scale_def scaleDown_def Let_def split
      by (auto simp: ret_def intro: exI [of _ "[]"])
  qed
qed

lemma Handle_deletions:
  "deletions (new_effects (SyncHandler_Handle api mo hash now1 now2 items pool ex) log) \<in>
     {[], pickVictims (pl_ScaleDownPolicy pool) (alive pool items) (int (length (alive pool items)) - desired_replicas pool)}"
proof -
  let ?m = "SyncHandler_Handle api mo hash now1 now2 items pool ex"
  let ?log = "log @ [Call ListVMs]"
  obtain x new where s: "scale api hash now2 pool (poolKey pool) (members_of pool items) ex ?log = (Returned x, ?log @ new)"
    "deletions new \<in> {[], pickVictims (pl_ScaleDownPolicy pool) (alive pool items)
       (int (length (alive pool items)) - desired_replicas pool)}"
    using scale_deletions unfolding alive_def by blast
  have "new_effects ?m log \<in> {[], [Call ListVMs], Call ListVMs # new}"
    using s(1) by (auto simp: new_effects_def SyncHandler_Handle_def Let_def bind_run_def ListMembers_run ret_def
        split: prod.split)
  then show ?thesis using s(2) by auto
qed

lemma sorted_take_drop:
  assumes "sorted (map f xs)" and "x \<in> set (take n xs)" and "y \<in> set (drop n xs)"
  shows "f x \<le> f y"
proof -
  have "sorted (map f (take n xs @ drop n xs))" using assms(1) by simp
  then show ?thesis using assms(2,3) unfolding map_append sorted_append by simp
qed

text \<open>The order in which a policy removes members: the least first.\<close>

definition removal_rank :: "string \<Rightarrow> 'q member \<Rightarrow> int" where
  "removal_rank policy m = (if policy = ScaleDownPolicyOldestFirst then mb_Created m else - mb_Created m)"

lemma pickVictims_split:
  assumes "0 < n" and "policy \<noteq> ScaleDownPolicyExplicit"
  obtains rest where "mset candidates = mset (pickVictims policy candidates n) + mset rest"
    and "length (pickVictims policy candidates n) = min (nat n) (length candidates)"
    and "\<And>v m. v \<in> set (pickVictims policy candidates n) \<Longrightarrow> m \<in> set rest \<Longrightarrow> removal_rank policy v \<le> removal_rank policy m"
proof
  let ?s = "sort_key (removal_rank policy) candidates"
  have rank: "removal_rank policy = (if policy = ScaleDownPolicyOldestFirst then mb_Created else (\<lambda>m. - mb_Created m))"
    by (auto simp: removal_rank_def)
  have pick: "pickVictims policy candidates n = take (nat n) ?s"
    unfolding rank using assms by (simp add: pickVictims_def)
  show "mset candidates = mset (pickVictims policy candidates n) + mset (drop (nat n) ?s)"
    unfolding pick by (metis append_take_drop_id mset_append mset_sort)
  show "length (pickVictims policy candidates n) = min (nat n) (length candidates)" by (simp add: pick)
  show "removal_rank policy v \<le> removal_rank policy m"
    if "v \<in> set (pickVictims policy candidates n)" "m \<in> set (drop (nat n) ?s)" for v m
    using that unfolding pick by (intro sorted_take_drop [of _ ?s "v" "nat n" "m"]) auto
qed

text \<open>
  Claim C27: scaling down is safe.  Whatever the API server answers, a pass of the handler tries to
  delete only members that are not leaving already, none of them twice, never so many that fewer than
  the desired number remain, and none at all under the explicit policy; and it removes them in the order
  of the policy: no member that stays should have gone before one that is removed.
\<close>

theorem scale_down_safe:
  "let ds = deletions (new_effects (SyncHandler_Handle api mo hash now1 now2 items pool ex) log);
       policy = pl_ScaleDownPolicy pool
   in \<exists>rest. mset (alive pool items) = mset ds + mset rest \<and>
        int (length ds) \<le> max 0 (int (length (alive pool items)) - desired_replicas pool) \<and>
        (policy = ScaleDownPolicyExplicit \<longrightarrow> ds = []) \<and>
        (\<forall>v \<in> set ds. \<forall>m \<in> set rest. removal_rank policy v \<le> removal_rank policy m)"
proof -
  let ?ds = "deletions (new_effects (SyncHandler_Handle api mo hash now1 now2 items pool ex) log)"
  let ?n = "int (length (alive pool items)) - desired_replicas pool"
  let ?vs = "pickVictims (pl_ScaleDownPolicy pool) (alive pool items) ?n"
  show ?thesis
  proof (cases "?ds = []")
    case False
    then have ds: "?ds = ?vs" and n: "0 < ?n" and pol: "pl_ScaleDownPolicy pool \<noteq> ScaleDownPolicyExplicit"
      using Handle_deletions [of api mo hash now1 now2 items pool ex log] by (auto simp: pickVictims_def split: if_splits)
    obtain rest where "mset (alive pool items) = mset ?vs + mset rest" "length ?vs = min (nat ?n) (length (alive pool items))"
      "\<And>v m. v \<in> set ?vs \<Longrightarrow> m \<in> set rest \<Longrightarrow> removal_rank (pl_ScaleDownPolicy pool) v \<le> removal_rank (pl_ScaleDownPolicy pool) m"
      using pickVictims_split [OF n pol] by blast
    then show ?thesis using n pol unfolding ds Let_def by (intro exI [of _ rest]) auto
  qed (auto simp: Let_def)
qed

definition example_pool :: "int vm_pool" where
  "example_pool = \<lparr> pl_Name = ''web'', pl_Namespace = ''default'', pl_UID = ''pool-uid'', pl_Generation = 1,
     pl_Deleting = False, pl_Replicas = Some 1, pl_ScaleDownPolicy = ScaleDownPolicyNewestFirst,
     pl_Template = \<lparr> tm_Labels = Map.empty, tm_Annotations = Map.empty, tm_Spec = example_spec \<rparr>,
     pl_Status = \<lparr> pst_ObservedGeneration = 0, pst_Replicas = 0, pst_ReadyReplicas = 0, pst_UpdatedReplicas = 0,
       pst_RestartPendingReplicas = 0, pst_DesiredTemplateHash = '''', pst_Selector = '''', pst_Conditions = [] \<rparr> \<rparr>"

definition example_meta :: meta_ops where
  "example_meta = \<lparr> meta_Set = (\<lambda>c cs. c # filter (\<lambda>d. cond_Type d \<noteq> cond_Type c) cs),
     meta_Remove = (\<lambda>t. filter (\<lambda>d. cond_Type d \<noteq> t)), meta_Find = (\<lambda>t. List.find (\<lambda>c. cond_Type c = t)) \<rparr>"

definition example_member :: "int member" where
  "example_member = (newMember (\<lambda>_. ''h'') example_pool)\<lparr> mb_Name := ''web-x'', mb_UID := ''u1'' \<rparr>"

theorem scale_down_safe_witness:
  "\<exists>rest. mset (alive example_pool [example_member, example_member\<lparr> mb_UID := ''u2'', mb_Created := 7 \<rparr>]) =
      mset (deletions (new_effects (SyncHandler_Handle (\<lambda>_ _. OK) example_meta (\<lambda>_. ''h'') 4 5
        [example_member, example_member\<lparr> mb_UID := ''u2'', mb_Created := 7 \<rparr>] example_pool NewExpectations) [])) + mset rest"
  using scale_down_safe [of "\<lambda>_ _. OK" example_meta "\<lambda>_. ''h''" 4 5
      "[example_member, example_member\<lparr> mb_UID := ''u2'', mb_Created := 7 \<rparr>]" example_pool NewExpectations "[]"]
  unfolding Let_def by blast

text \<open>
  The rollout of a template.  Two updates bring a member that does not wait for a restart to the
  desired revision, after which it is left alone; its block devices are its own throughout.
\<close>

lemma template_rollout_converges:
  assumes "\<not> mb_Deleting vm" and "\<not> awaitingRestart mo vm" and "desiredHash \<noteq> ''''"
    and "map_get (mb_Annotations vm) PatchedTemplateHash \<noteq> desiredHash"
  obtains vm1 where "template_update mo desiredHash spec vm = Some vm1"
    and "mb_Spec vm1 = spec\<lparr> BlockDeviceRefs := BlockDeviceRefs (mb_Spec vm) \<rparr>"
    and "case template_update mo desiredHash spec vm1 of
           None \<Rightarrow> map_get (mb_Labels vm1) TemplateHash = desiredHash
         | Some vm2 \<Rightarrow> map_get (mb_Labels vm2) TemplateHash = desiredHash \<and> mb_Spec vm2 = mb_Spec vm1 \<and>
             template_update mo desiredHash spec vm2 = None"
  using assms by (auto simp: template_update_def applyTemplateSpec_def awaitingRestart_def map_get_def Let_def)

end
