(* ===== verification/VMPoolSystem.thy ===== *)
theory VMPoolSystem
  imports VMPool
begin

text \<open>
  The pool controller at work: passes of the handler interleave with the delivery of watch events, the
  notification of the watcher, and members that disappear.  The handler reads a cache that lags behind
  the server.  A created member first travels through the feed of the watch (\<open>w_feed\<close>); when it is
  taken into the cache it still waits to be reported to the watcher (\<open>w_notify\<close>), which updates the
  tracker of expectations.

  The limit \<open>D\<close> bounds the replicas ever asked for.  Members are created only by the controller, and
  an expectation does not outlive its time to live before it is met.
\<close>

section \<open>The world\<close>

datatype 'q watch_event = Added "'q member" | Deleted "'q member"

record 'q world =
  w_pool :: "'q vm_pool"
  w_real :: "'q member list"
  w_cache :: "'q member list"
  w_feed :: "'q watch_event list"
  w_notify :: "'q watch_event list"
  w_exp :: expectations
  w_used :: "string set"

definition uids :: "'q member list \<Rightarrow> string set" where
  "uids ms = mb_UID ` set ms"

fun added :: "'q watch_event list \<Rightarrow> 'q member list" where
  "added [] = []"
| "added (Added m # es) = m # added es"
| "added (Deleted m # es) = added es"

fun deleted :: "'q watch_event list \<Rightarrow> 'q member list" where
  "deleted [] = []"
| "deleted (Added m # es) = deleted es"
| "deleted (Deleted m # es) = m # deleted es"

fun cache_event :: "'q watch_event \<Rightarrow> 'q member list \<Rightarrow> 'q member list" where
  "cache_event (Added m) cache = m # filter (\<lambda>c. mb_UID c \<noteq> mb_UID m) cache"
| "cache_event (Deleted m) cache = filter (\<lambda>c. mb_UID c \<noteq> mb_UID m) cache"

fun notify_event :: "'q watch_event \<Rightarrow> expectations \<Rightarrow> expectations" where
  "notify_event (Added m) ex = memberEventHandler_Create m ex"
| "notify_event (Deleted m) ex = memberEventHandler_Delete m ex"

text \<open>An object of the pool: what the server stores when the controller creates a member.\<close>

definition belongs :: "'q vm_pool \<Rightarrow> 'q member \<Rightarrow> bool" where
  "belongs pool m \<longleftrightarrow>
     mb_Namespace m = pl_Namespace pool \<and> MemberSelector pool m \<and>
     mb_Controller m = Some \<lparr> or_APIVersion = SchemeGroupVersion, or_Kind = VirtualMachinePoolKind,
                              or_Name = pl_Name pool, or_UID = pl_UID pool \<rparr>"

inductive pool_step :: "int \<Rightarrow> 'q world \<Rightarrow> 'q world \<Rightarrow> bool" for D where
  reconcile:
    "SyncHandler_Handle api mo hash now1 now2 (w_cache w) (w_pool w) (w_exp w) [] = (Returned r, log) \<Longrightarrow>
     \<not> expired now1 (poolKey (w_pool w)) (w_exp w) \<Longrightarrow>
     length ms = successes api [] log \<Longrightarrow> distinct (map mb_UID ms) \<Longrightarrow> uids ms \<inter> w_used w = {} \<Longrightarrow>
     list_all (belongs (w_pool w)) ms \<Longrightarrow>
     pool_step D w (w\<lparr> w_real := w_real w @ ms, w_feed := w_feed w @ map Added ms,
                       w_exp := sync_Exp r, w_used := w_used w \<union> uids ms \<rparr>)"
| deliver:
    "w_feed w = e # es \<Longrightarrow>
     pool_step D w (w\<lparr> w_cache := cache_event e (w_cache w), w_feed := es, w_notify := w_notify w @ [e] \<rparr>)"
| notify:
    "w_notify w = e # es \<Longrightarrow>
     pool_step D w (w\<lparr> w_notify := es, w_exp := notify_event e (w_exp w) \<rparr>)"
| vanish:
    "m \<in> set (w_real w) \<Longrightarrow>
     pool_step D w (w\<lparr> w_real := filter (\<lambda>c. mb_UID c \<noteq> mb_UID m) (w_real w), w_feed := w_feed w @ [Deleted m] \<rparr>)"
| rescale:
    "n \<le> D \<Longrightarrow> pool_step D w (w\<lparr> w_pool := (w_pool w)\<lparr> pl_Replicas := Some n \<rparr> \<rparr>)"

inductive_cases pool_stepE: "pool_step D w w'"

definition initial :: "int \<Rightarrow> 'q world \<Rightarrow> bool" where
  "initial D w \<longleftrightarrow>
     \<not> pl_Deleting (w_pool w) \<and> desired_replicas (w_pool w) \<le> D \<and>
     w_cache w = w_real w \<and> w_feed w = [] \<and> w_notify w = [] \<and>
     list_all (belongs (w_pool w)) (w_real w) \<and> distinct (map mb_UID (w_real w)) \<and>
     uids (w_real w) \<subseteq> w_used w \<and> int (length (w_real w)) \<le> D \<and>
     pending_creations (w_exp w) (poolKey (w_pool w)) = 0"

inductive reachable :: "int \<Rightarrow> 'q world \<Rightarrow> bool" for D where
  start: "initial D w \<Longrightarrow> reachable D w"
| step: "reachable D w \<Longrightarrow> pool_step D w w' \<Longrightarrow> reachable D w'"

section \<open>The invariant\<close>

definition world_inv :: "int \<Rightarrow> 'q world \<Rightarrow> bool" where
  "world_inv D w \<longleftrightarrow>
     \<not> pl_Deleting (w_pool w) \<and> desired_replicas (w_pool w) \<le> D \<and>
     list_all (belongs (w_pool w)) (w_cache w) \<and> list_all (belongs (w_pool w)) (w_real w) \<and>
     list_all (belongs (w_pool w)) (added (w_feed w)) \<and> list_all (belongs (w_pool w)) (added (w_notify w)) \<and>
     list_all (belongs (w_pool w)) (deleted (w_feed w)) \<and> list_all (belongs (w_pool w)) (deleted (w_notify w)) \<and>
     distinct (map mb_UID (w_real w)) \<and>
     uids (w_real w) \<subseteq> uids (w_cache w) \<union> uids (added (w_feed w)) \<and>
     uids (w_real w) \<inter> uids (deleted (w_feed w)) = {} \<and>
     uids (w_real w) \<union> uids (deleted (w_feed w)) \<subseteq> w_used w \<and>
     pending_creations (w_exp w) (poolKey (w_pool w)) =
       int (length (added (w_feed w))) + int (length (added (w_notify w))) \<and>
     int (length (w_real w)) \<le> D"

lemma added_append [simp]: "added (es @ fs) = added es @ added fs"
  by (induction es rule: added.induct) simp_all

lemma deleted_append [simp]: "deleted (es @ fs) = deleted es @ deleted fs"
  by (induction es rule: deleted.induct) simp_all

lemma added_map_Added [simp]: "added (map Added ms) = ms" "deleted (map Added ms) = []"
  by (induction ms) simp_all

lemma uids_simps [simp]:
  "uids [] = {}" "uids (ms @ ns) = uids ms \<union> uids ns" "uids (m # ms) = insert (mb_UID m) (uids ms)"
  "uids (filter (\<lambda>c. mb_UID c \<noteq> u) ms) = uids ms - {u}"
  by (auto simp: uids_def)

lemma belongs_ownerKey: "belongs pool m \<Longrightarrow> ownerKey m = Some (poolKey pool)"
  by (simp add: belongs_def ownerKey_def poolKey_def)

lemma members_of_belonging: "list_all (belongs pool) ms \<Longrightarrow> members_of pool ms = ms"
  by (induction ms) (simp_all add: members_of_def belongs_def controlled_by_def)

lemma belongs_rescaled [simp]:
  "belongs (pool\<lparr> pl_Replicas := n \<rparr>) = belongs pool" "poolKey (pool\<lparr> pl_Replicas := n \<rparr>) = poolKey pool"
  by (simp_all add: belongs_def MemberSelector_def poolKey_def fun_eq_iff)

lemma belongs_filter: "list_all (belongs pool) ms \<Longrightarrow> list_all (belongs pool) (filter P ms)"
  by (simp add: list_all_iff)

lemma length_le_of_uids:
  assumes "distinct (map mb_UID ms)" and "uids ms \<subseteq> uids ns"
  shows "length ms \<le> length ns"
proof -
  have "length ms = card (set (map mb_UID ms))" using assms(1) by (metis distinct_card length_map)
  also have "\<dots> \<le> card (set (map mb_UID ns))" using assms(2) by (intro card_mono) (auto simp: uids_def)
  also have "\<dots> \<le> length ns" by (metis card_length length_map)
  finally show ?thesis .
qed

lemma reconcile_inv:
  assumes inv: "world_inv D w"
    and run: "SyncHandler_Handle api mo hash now1 now2 (w_cache w) (w_pool w) (w_exp w) [] = (Returned r, log)"
    and soon: "\<not> expired now1 (poolKey (w_pool w)) (w_exp w)"
    and ms: "length ms = successes api [] log" "distinct (map mb_UID ms)" "uids ms \<inter> w_used w = {}"
      "list_all (belongs (w_pool w)) ms"
  shows "world_inv D (w\<lparr> w_real := w_real w @ ms, w_feed := w_feed w @ map Added ms,
     w_exp := sync_Exp r, w_used := w_used w \<union> uids ms \<rparr>)"
proof -
  let ?key = "poolKey (w_pool w)"
  have live: "\<not> pl_Deleting (w_pool w)" and nonneg: "0 \<le> pending_creations (w_exp w) ?key"
    and cache: "members_of (w_pool w) (w_cache w) = w_cache w"
    using inv by (auto simp: world_inv_def members_of_belonging)
  note handle = SyncHandler_Handle_run [OF live nonneg run, unfolded cache]
  have bound: "int (length (w_real w @ ms)) \<le> D"
  proof (cases "successes api [] log = 0")
    case True
    then show ?thesis using inv ms by (simp add: world_inv_def)
  next
    case False
    then have "pending_creations (w_exp w) ?key \<le> 0"
      and room: "int (length ms) \<le> desired_replicas (w_pool w) - int (length (w_cache w))"
      using handle(2) soon ms(1) by (auto simp: Satisfied_iff)
    then have "length (added (w_feed w)) = 0" using inv unfolding world_inv_def by linarith
    then have "length (w_real w) \<le> length (w_cache w)"
      using inv by (intro length_le_of_uids) (auto simp: world_inv_def)
    then show ?thesis using room inv by (simp add: world_inv_def)
  qed
  have disj: "uids (w_real w) \<inter> uids ms = {}" "uids ms \<inter> uids (deleted (w_feed w)) = {}"
    using inv ms(3) unfolding world_inv_def by blast+
  then have "distinct (map mb_UID (w_real w @ ms))"
    using inv ms(2) by (simp add: world_inv_def uids_def)
  with disj show ?thesis using inv ms handle(1) bound by (auto simp: world_inv_def)
qed

lemma pool_step_inv:
  assumes "pool_step D w w'" and "world_inv D w"
  shows "world_inv D w'"
  using assms
proof cases
  case (deliver e es)
  then show ?thesis using assms(2)
    by (cases e) (auto simp: world_inv_def belongs_filter)
next
  case (notify e es)
  then show ?thesis using assms(2)
    by (cases e) (auto simp: world_inv_def memberEventHandler_Create_def memberEventHandler_Delete_def belongs_ownerKey)
next
  case (vanish m)
  then have "belongs (w_pool w) m" "mb_UID m \<in> w_used w"
    using assms(2) by (auto simp: world_inv_def list_all_iff uids_def)
  moreover have "distinct (map mb_UID (filter P (w_real w)))" for P
    using assms(2) by (auto simp: world_inv_def intro: distinct_map_filter)
  moreover have "int (length (filter P (w_real w))) \<le> D" for P
    using assms(2) length_filter_le [of P "w_real w"] unfolding world_inv_def by linarith
  ultimately show ?thesis using vanish assms(2) by (auto simp: world_inv_def belongs_filter)
next
  case (rescale n)
  then show ?thesis using assms(2) by (simp add: world_inv_def desired_replicas_def)
qed (use assms(2) in \<open>blast intro: reconcile_inv\<close>)

lemma reachable_inv: "reachable D w \<Longrightarrow> world_inv D w"
proof (induction rule: reachable.induct)
  case (start w)
  then show ?case by (auto simp: initial_def world_inv_def)
qed (rule pool_step_inv)

section \<open>Properties\<close>


definition example_world :: "int world" where
  "example_world = \<lparr> w_pool = example_pool, w_real = [], w_cache = [], w_feed = [], w_notify = [],
     w_exp = NewExpectations, w_used = {} \<rparr>"

definition example_world' :: "int world" where
  "example_world' = example_world\<lparr> w_real := [example_member], w_feed := [Added example_member],
     w_exp := ExpectCreations 5 (poolKey example_pool) 1 NewExpectations, w_used := {''u1''} \<rparr>"

lemma example_reachable: "reachable 1 example_world'"
proof (rule reachable.step)
  show "reachable 1 example_world"
    by (rule reachable.start) (simp add: initial_def example_world_def example_pool_def desired_replicas_def
        NewExpectations_def NewWithTTL_def pending_creations_def)
  let ?api = "\<lambda>_ _. OK" and ?log = "[Call ListVMs, Call (CreateVM (newMember (\<lambda>_. ''h'') example_pool)), Event reasonSuccessfulCreate]"
  define r where "r = \<lparr> sync_Requeue = False, sync_Errors = [],
      sync_Pool = updateStatus example_meta (\<lambda>_. ''h'') example_pool [],
      sync_Exp = ExpectCreations 5 (poolKey example_pool) 1 NewExpectations \<rparr>"
  have pool: "\<not> pl_Deleting example_pool" "desired_replicas example_pool = 1"
    by (simp_all add: example_pool_def desired_replicas_def)
  have fresh: "Satisfied 4 (poolKey example_pool) NewExpectations"
    by (simp add: Satisfied_def NewExpectations_def NewWithTTL_def)
  have r: "SyncHandler_Handle ?api example_meta (\<lambda>_. ''h'') 4 5 [] example_pool NewExpectations [] = (Returned r, ?log)"
    using pool fresh by (simp add: SyncHandler_Handle_def Let_def bind_run_def ListMembers_run members_of_def scale_def
        scaleUp_def call_def event_def ret_def r_def)
  have "pool_step 1 example_world (example_world\<lparr> w_real := w_real example_world @ [example_member],
      w_feed := w_feed example_world @ map Added [example_member], w_exp := sync_Exp r,
      w_used := w_used example_world \<union> uids [example_member] \<rparr>)"
    by (rule pool_step.reconcile [of ?api example_meta "\<lambda>_. ''h''" 4 5 _ r ?log], simp add: example_world_def r)
      (simp_all add: example_world_def expired_def NewExpectations_def NewWithTTL_def belongs_def MemberSelector_def
        example_member_def newMember_def Let_def MemberLabels_def)
  then show "pool_step 1 example_world example_world'"
    by (simp add: example_world'_def example_world_def example_member_def r_def)
qed


end
