(* ===== verification/Reconciler.thy ===== *)
theory Reconciler
  imports Conditions Effects
begin

text \<open>
  The frame every controller runs in (\<^verbatim>\<open>controller/reconciler\<close>): a reconciliation runs a chain of
  handlers on a copy of a resource, merges the times after which they want to run again, and stores
  the copy (\<^verbatim>\<open>reconciler.go\<close>); a resource is stored as an update of its status and a JSON patch of its
  metadata (\<^verbatim>\<open>resource.go\<close>, \<^verbatim>\<open>common/patch/patch.go\<close>).

  A Go map of strings is an association list with distinct keys, \<open>None\<close> when it is nil.  What the API
  server does with a patch is the semantics of JSON patches: \<open>apply_meta_patch\<close>, used in statements only.
\<close>

section \<open>patch.go\<close>

datatype 'v JSONPatchOperation =
  PatchAddOp string 'v | PatchReplaceOp string 'v | PatchRemoveOp string | PatchTestOp string 'v

definition op_name :: "'v JSONPatchOperation \<Rightarrow> string" where
  "op_name o1 = (case o1 of PatchAddOp _ _ \<Rightarrow> ''add'' | PatchReplaceOp _ _ \<Rightarrow> ''replace''
     | PatchRemoveOp _ \<Rightarrow> ''remove'' | PatchTestOp _ _ \<Rightarrow> ''test'')"

definition op_path :: "'v JSONPatchOperation \<Rightarrow> string" where
  "op_path o1 = (case o1 of PatchAddOp p _ \<Rightarrow> p | PatchReplaceOp p _ \<Rightarrow> p | PatchRemoveOp p \<Rightarrow> p | PatchTestOp p _ \<Rightarrow> p)"

definition Delete :: "string \<Rightarrow> string \<Rightarrow> 'v JSONPatchOperation list \<Rightarrow> 'v JSONPatchOperation list" where
  "Delete op path operations = filter (\<lambda>o1. \<not> (op_name o1 = op \<and> op_path o1 = path)) operations"

definition EscapeJSONPointer :: "string \<Rightarrow> string" where
  "EscapeJSONPointer path =
     (let path = replace_char (CHR ''~'') ''~0'' path in replace_char (CHR ''/'') ''~1'' path)"

text \<open>How a reader of a JSON pointer decodes a token (RFC 6901): pairs are read from the left.\<close>

fun unescape_pointer :: "string \<Rightarrow> string" where
  "unescape_pointer (c # d # s) =
     (if c = CHR ''~'' \<and> d = CHR ''0'' then CHR ''~'' # unescape_pointer s
      else if c = CHR ''~'' \<and> d = CHR ''1'' then CHR ''/'' # unescape_pointer s
      else c # unescape_pointer (d # s))"
| "unescape_pointer [c] = [c]"
| "unescape_pointer [] = []"

section \<open>resource.go: results\<close>

record reconcile_result =
  Requeue :: bool
  RequeueAfter :: int

abbreviation no_requeue :: reconcile_result where
  "no_requeue \<equiv> \<lparr> Requeue = False, RequeueAfter = 0 \<rparr>"

abbreviation requeue_after :: "int \<Rightarrow> reconcile_result" where
  "requeue_after d \<equiv> \<lparr> Requeue = False, RequeueAfter = d \<rparr>"

fun merge_from :: "reconcile_result \<Rightarrow> reconcile_result list \<Rightarrow> reconcile_result" where
  "merge_from result [] = result"
| "merge_from result (r # rs) =
     (if r = no_requeue then merge_from result rs
      else if Requeue r \<and> RequeueAfter r = 0 then r
      else if result = no_requeue \<and> RequeueAfter r > 0 then merge_from r rs
      else if RequeueAfter r > 0 \<and> RequeueAfter r < RequeueAfter result
      then merge_from (result\<lparr> RequeueAfter := RequeueAfter r \<rparr>) rs
      else merge_from result rs)"

definition MergeResults :: "reconcile_result list \<Rightarrow> reconcile_result" where
  "MergeResults results = merge_from no_requeue results"

section \<open>resource.go: the stored resource\<close>

type_synonym str_map = "(string \<times> string) list option"

record obj_meta =
  md_Finalizers :: "string list"
  md_Labels :: str_map
  md_Annotations :: str_map
  md_Deleting :: bool

record 's robj =
  obj_Kind :: string
  obj_Meta :: obj_meta
  obj_Status :: 's

record 's resource =
  res_Current :: "'s robj option"
  res_Changed :: "'s robj option"

record 's status_ops =
  so_Conditions :: "'s \<Rightarrow> condition list"
  so_SetConditions :: "condition list \<Rightarrow> 's \<Rightarrow> 's"

abbreviation map_entries :: "str_map \<Rightarrow> (string \<times> string) list" where
  "map_entries m \<equiv> (case m of None \<Rightarrow> [] | Some es \<Rightarrow> es)"

text \<open>\<^verbatim>\<open>maps.Equal\<close>: as many keys, and every key of the one with its value in the other.\<close>

definition maps_equal :: "str_map \<Rightarrow> str_map \<Rightarrow> bool" where
  "maps_equal a b \<longleftrightarrow> length (map_entries a) = length (map_entries b) \<and>
     list_all (\<lambda>(k, v). map_of (map_entries b) k = Some v) (map_entries a)"

definition Resource_Fetch :: "'s robj option \<Rightarrow> 's resource" where
  "Resource_Fetch currentObj = \<lparr> res_Current = currentObj, res_Changed = currentObj \<rparr>"

definition Resource_IsEmpty :: "'s resource \<Rightarrow> bool" where
  "Resource_IsEmpty r \<longleftrightarrow> res_Current r = None"

abbreviation TypeEvictionRequired :: string where "TypeEvictionRequired \<equiv> ''EvictionRequired''"

definition rewriteCondition :: "condition \<Rightarrow> condition" where
  "rewriteCondition c0 =
     (let c1 = (if cond_Reason c0 = '''' then c0\<lparr> cond_Reason := ''Unknown'' \<rparr> else c0);
          c2 = (if cond_Status c1 = '''' then c1\<lparr> cond_Status := ConditionUnknown \<rparr> else c1);
          c3 = (if cond_Type c2 = ''NeedsEvict'' then c2\<lparr> cond_Type := TypeEvictionRequired \<rparr> else c2);
          c4 = (if cond_Type c3 = TypeEvictionRequired \<and> cond_Reason c3 = ''NeedsEvict''
                then c3\<lparr> cond_Reason := ''EvictionRequired'' \<rparr> else c3);
          c5 = (if cond_Type c4 = TypeNetworkReady \<and> cond_Reason c4 = ''SDNModuleDisable''
                then c4\<lparr> cond_Reason := ''SDNModuleDisabled'' \<rparr> else c4)
      in if cond_Type c5 = TypeBlockDevicesReady \<and>
            cond_Reason c5 = ''WaitingForTheProvisioningToPersistentVolumeClaim''
         then c5\<lparr> cond_Reason := ''WaitingForWaitForFirstConsumerBlockDevicesToBeReady'' \<rparr> else c5)"

definition rewriteConditions :: "condition list \<Rightarrow> condition list" where
  "rewriteConditions conds = map rewriteCondition conds"

definition rewritten_kinds :: "string list" where
  "rewritten_kinds = [''VirtualMachine'', ''VirtualDisk'', ''VirtualImage'', ''ClusterVirtualImage'',
     ''VirtualMachineBlockDeviceAttachment'', ''VirtualMachineIPAddress'', ''VirtualMachineIPAddressLease'',
     ''VirtualMachineOperation'', ''VirtualDiskSnapshot'', ''VirtualMachineClass'', ''VirtualMachineSnapshot'']"

definition rewriteObject :: "'s status_ops \<Rightarrow> 's robj \<Rightarrow> 's robj" where
  "rewriteObject so obj =
     (if List.member rewritten_kinds (obj_Kind obj)
      then obj\<lparr> obj_Status := so_SetConditions so (rewriteConditions (so_Conditions so (obj_Status obj))) (obj_Status obj) \<rparr>
      else obj)"

datatype meta_value = StrList "string list" | StrMap str_map

abbreviation finalizers_path :: string where "finalizers_path \<equiv> ''/metadata/finalizers''"
abbreviation annotations_path :: string where "annotations_path \<equiv> ''/metadata/annotations''"
abbreviation labels_path :: string where "labels_path \<equiv> ''/metadata/labels''"

definition JSONPatchOpsForFinalizers :: "obj_meta \<Rightarrow> obj_meta \<Rightarrow> meta_value JSONPatchOperation list" where
  "JSONPatchOpsForFinalizers current changed =
     [(if md_Finalizers current = [] then PatchAddOp else PatchReplaceOp)
        finalizers_path (StrList (md_Finalizers changed))]"

definition jsonPatchOpsForMetadataMap :: "string \<Rightarrow> str_map \<Rightarrow> str_map \<Rightarrow> meta_value JSONPatchOperation list" where
  "jsonPatchOpsForMetadataMap path current changed =
     (case current of
        None \<Rightarrow> [PatchAddOp path (StrMap changed)]
      | Some es \<Rightarrow>
          [PatchTestOp path (StrMap current),
           (if es = [] then PatchAddOp else PatchReplaceOp) path (StrMap changed)])"

definition JSONPatchOpsForAnnotations :: "obj_meta \<Rightarrow> obj_meta \<Rightarrow> meta_value JSONPatchOperation list" where
  "JSONPatchOpsForAnnotations current changed =
     jsonPatchOpsForMetadataMap annotations_path (md_Annotations current) (md_Annotations changed)"

definition JSONPatchOpsForLabels :: "obj_meta \<Rightarrow> obj_meta \<Rightarrow> meta_value JSONPatchOperation list" where
  "JSONPatchOpsForLabels current changed =
     jsonPatchOpsForMetadataMap labels_path (md_Labels current) (md_Labels changed)"

definition metadata_patch :: "obj_meta \<Rightarrow> obj_meta \<Rightarrow> meta_value JSONPatchOperation list" where
  "metadata_patch current changed =
     (if md_Finalizers current \<noteq> md_Finalizers changed then JSONPatchOpsForFinalizers current changed else []) @
     (if \<not> maps_equal (md_Annotations current) (md_Annotations changed)
      then JSONPatchOpsForAnnotations current changed else []) @
     (if \<not> maps_equal (md_Labels current) (md_Labels changed) then JSONPatchOpsForLabels current changed else [])"

text \<open>
  The status update answers with the stored object (\<open>answer\<close>), which replaces the changed one but for
  the three saved metadata fields.  Errors are the outcomes of the calls.
\<close>

datatype 's res_call = StatusUpdate "'s robj" | MetadataPatch "meta_value JSONPatchOperation list"

definition keep_metadata :: "'s robj \<Rightarrow> 's robj \<Rightarrow> 's robj" where
  "keep_metadata changed answer =
     answer\<lparr> obj_Meta := (obj_Meta answer)\<lparr> md_Finalizers := md_Finalizers (obj_Meta changed),
       md_Labels := md_Labels (obj_Meta changed), md_Annotations := md_Annotations (obj_Meta changed) \<rparr> \<rparr>"

definition patch_metadata :: "'s res_call api_server \<Rightarrow> obj_meta \<Rightarrow> obj_meta \<Rightarrow> ('s res_call, api_outcome) run" where
  "patch_metadata api current changed =
     (let patch = metadata_patch current changed
      in if patch = [] then ret OK
         else bind_run (call api (MetadataPatch patch)) (\<lambda>r.
                if r \<noteq> OK \<and> md_Deleting changed \<and> md_Finalizers changed = [] \<and> r = NotFoundErr then ret OK
                else ret r))"

definition Resource_Update :: "'s status_ops \<Rightarrow> 's res_call api_server \<Rightarrow> ('s robj \<Rightarrow> 's robj) \<Rightarrow> 's resource \<Rightarrow>
    ('s res_call, api_outcome) run" where
  "Resource_Update so api answer r =
     (case (res_Current r, res_Changed r) of
        (Some current, Some changed0) \<Rightarrow>
          (let changed = rewriteObject so changed0
           in if obj_Status current \<noteq> obj_Status changed
              then bind_run (call api (StatusUpdate changed)) (\<lambda>e.
                     if e \<noteq> OK \<and> e \<noteq> NotFoundErr then ret e
                     else patch_metadata api (obj_Meta current)
                            (obj_Meta (keep_metadata changed (if e = OK then answer changed else changed))))
              else patch_metadata api (obj_Meta current) (obj_Meta changed))
      | _ \<Rightarrow> ret OK)"

section \<open>reconciler.go\<close>

datatype rec_error = StopHandlerChain | APIError api_outcome | OtherError string

text \<open>
  \<open>execute h s\<close> runs a handler on the resource \<open>s\<close>; handlers change the resource also when they fail.
  Times are in nanoseconds.
\<close>

type_synonym ('c, 's) executor = "'s \<Rightarrow> ('c, 's \<times> reconcile_result \<times> rec_error option) run"

definition handler_outcome ::
    "reconcile_result \<times> rec_error list \<Rightarrow> reconcile_result \<Rightarrow> rec_error option \<Rightarrow> reconcile_result \<times> rec_error list" where
  "handler_outcome acc res e =
     (case acc of (result, errs) \<Rightarrow>
        case e of
          None \<Rightarrow> (MergeResults [result, res], errs)
        | Some StopHandlerChain \<Rightarrow> (MergeResults [result, res], errs)
        | Some (APIError ConflictErr) \<Rightarrow> (MergeResults [result\<lparr> RequeueAfter := 100000 \<rparr>, res], errs)
        | Some other \<Rightarrow> (MergeResults [result, res], errs @ [other]))"

fun handlers_loop :: "('h \<Rightarrow> ('c, 's) executor) \<Rightarrow> 'h list \<Rightarrow> 's \<Rightarrow> reconcile_result \<times> rec_error list \<Rightarrow>
    ('c, 's \<times> reconcile_result \<times> rec_error list) run" where
  "handlers_loop execute [] s acc = ret (s, acc)"
| "handlers_loop execute (h # hs) s acc =
     bind_run (execute h s) (\<lambda>(s, res, e).
       let acc = handler_outcome acc res e
       in if e = Some StopHandlerChain then ret (s, acc) else handlers_loop execute hs s acc)"

definition update_outcome :: "reconcile_result \<times> rec_error list \<Rightarrow> rec_error option \<Rightarrow> reconcile_result \<times> rec_error list" where
  "update_outcome acc e =
     (case acc of (result, errs) \<Rightarrow>
        case e of
          None \<Rightarrow> (result, errs)
        | Some (APIError ConflictErr) \<Rightarrow> (result\<lparr> RequeueAfter := 100000 \<rparr>, errs)
        | Some (APIError NoNewFinalizersErr) \<Rightarrow> (result\<lparr> RequeueAfter := 1000000000 \<rparr>, errs)
        | Some other \<Rightarrow> (result, errs @ [other]))"

fun finalize_loop :: "('s \<Rightarrow> ('c, rec_error option) run) list \<Rightarrow> 's \<Rightarrow> ('c, rec_error option) run" where
  "finalize_loop [] s = ret None"
| "finalize_loop (f # fs) s = bind_run (f s) (\<lambda>e. if e \<noteq> None then ret e else finalize_loop fs s)"

definition BaseReconciler_Reconcile :: "('h \<Rightarrow> ('c, 's) executor) option \<Rightarrow> ('s \<Rightarrow> ('c, rec_error option) run) option \<Rightarrow>
    ('h \<Rightarrow> ('s \<Rightarrow> ('c, rec_error option) run) option) \<Rightarrow> 'h list \<Rightarrow> 's \<Rightarrow>
    ('c, reconcile_result \<times> rec_error list) run" where
  "BaseReconciler_Reconcile execute update finalizer handlers s =
     (case (update, execute) of
        (None, _) \<Rightarrow> ret (no_requeue, [OtherError ''update func is omitted''])
      | (Some upd, None) \<Rightarrow> ret (no_requeue, [OtherError ''execute func is omitted''])
      | (Some upd, Some exe) \<Rightarrow>
          bind_run (handlers_loop exe handlers s (no_requeue, [])) (\<lambda>(s, acc).
            bind_run (upd s) (\<lambda>e.
              case update_outcome acc e of (result, errs) \<Rightarrow>
                if errs \<noteq> [] then ret (no_requeue, errs)
                else bind_run (finalize_loop (List.map_filter finalizer handlers) s) (\<lambda>e.
                       case e of None \<Rightarrow> ret (result, []) | Some e \<Rightarrow> ret (no_requeue, [e])))))"

section \<open>Pointers\<close>

lemma unescape_other: "c \<noteq> CHR ''~'' \<Longrightarrow> unescape_pointer (c # s) = c # unescape_pointer s"
  by (cases s) simp_all

text \<open>
  Claim C35: an escaped pointer token decodes to the original string and contains no separator, so that
  a key with slashes and tildes addresses exactly itself.
\<close>

theorem EscapeJSONPointer_roundtrip:
  "unescape_pointer (EscapeJSONPointer s) = s \<and> CHR ''/'' \<notin> set (EscapeJSONPointer s)"
proof (induction s)
  case Nil
  then show ?case by (simp add: EscapeJSONPointer_def)
next
  case (Cons c s)
  consider "c = CHR ''~''" | "c = CHR ''/''" | "c \<noteq> CHR ''~''" "c \<noteq> CHR ''/''" by blast
  then show ?case
  proof cases
    case 3
    then show ?thesis using Cons by (simp add: EscapeJSONPointer_def unescape_other)
  qed (use Cons in \<open>simp_all add: EscapeJSONPointer_def\<close>)
qed

section \<open>Results\<close>

text \<open>
  What a result asks for: the delay after which to run again, \<open>None\<close> when it does not ask.  The
  specification of merging is the earliest of the delays.
\<close>

definition deadline :: "reconcile_result \<Rightarrow> int option" where
  "deadline r = (if Requeue r \<and> RequeueAfter r = 0 then Some 0
                 else if RequeueAfter r > 0 then Some (RequeueAfter r) else None)"

fun earlier :: "int option \<Rightarrow> int option \<Rightarrow> int option" where
  "earlier None b = b"
| "earlier a None = a"
| "earlier (Some a) (Some b) = Some (min a b)"

definition earliest :: "int option list \<Rightarrow> int option" where
  "earliest ds = foldr earlier ds None"

lemma earlier_assoc: "earlier (earlier a b) c = earlier a (earlier b c)"
  by (cases a; cases b; cases c) (auto simp: min.assoc)

lemma earlier_None [simp]: "earlier a None = a"
  by (cases a) simp_all

lemma earlier_zero: "(\<And>d. b = Some d \<Longrightarrow> 0 \<le> d) \<Longrightarrow> earlier (Some 0) b = Some 0"
  by (cases b) (auto simp: min_def)

lemma earliest_simps [simp]: "earliest [] = None" "earliest (d # ds) = earlier d (earliest ds)"
  by (simp_all add: earliest_def)

lemma deadline_nonneg: "deadline r = Some d \<Longrightarrow> 0 \<le> d"
  by (auto simp: deadline_def split: if_splits)

lemma earlier_nonneg: "earlier a b = Some d \<Longrightarrow> (\<And>x. a = Some x \<Longrightarrow> 0 \<le> x) \<Longrightarrow> (\<And>x. b = Some x \<Longrightarrow> 0 \<le> x) \<Longrightarrow> 0 \<le> d"
  by (cases a; cases b) (auto simp: min_def split: if_splits)

lemma earliest_nonneg: "earliest (map deadline rs) = Some d \<Longrightarrow> 0 \<le> d"
proof (induction rs arbitrary: d)
  case (Cons r rs)
  then show ?case using earlier_nonneg [of "deadline r" "earliest (map deadline rs)" d] deadline_nonneg by simp
qed simp

lemma deadline_no_requeue [simp]: "deadline no_requeue = None"
  by (simp add: deadline_def)

text \<open>An accumulated result asks to run again after a positive delay, or is zero.\<close>

definition pending :: "reconcile_result \<Rightarrow> bool" where
  "pending r \<longleftrightarrow> r = no_requeue \<or> 0 < RequeueAfter r"

lemma merge_from_deadline:
  "pending result \<Longrightarrow> deadline (merge_from result rs) = earlier (deadline result) (earliest (map deadline rs))"
proof (induction rs arbitrary: result)
  case (Cons r rs)
  consider "r = no_requeue" | "Requeue r" "RequeueAfter r = 0" | "r \<noteq> no_requeue" "RequeueAfter r < 0"
    | "0 < RequeueAfter r" "result = no_requeue" | "0 < RequeueAfter r" "0 < RequeueAfter result"
    using Cons.prems by (cases r) (force simp: pending_def)
  then show ?case
  proof cases
    case 2
    have "earlier (deadline result) (earlier (Some 0) (earliest (map deadline rs))) = Some 0"
      using deadline_nonneg [of result] earliest_nonneg [of rs]
      by (subst earlier_zero) (auto, cases "deadline result", auto)
    moreover have "merge_from result (r # rs) = r" "deadline r = Some 0" using 2 by (auto simp: deadline_def)
    ultimately show ?thesis by simp
  next
    case 3
    then have "deadline r = None" by (simp add: deadline_def)
    with 3 Cons show ?thesis by auto
  next
    case 4
    then have "r \<noteq> no_requeue" "pending r" by (auto simp: pending_def)
    with 4 Cons.IH [of r] show ?thesis by (auto simp: deadline_def)
  next
    case 5
    let ?m = "if RequeueAfter r < RequeueAfter result then result\<lparr> RequeueAfter := RequeueAfter r \<rparr> else result"
    have m: "pending ?m" "deadline ?m = earlier (deadline result) (deadline r)"
      using 5 by (auto simp: pending_def deadline_def)
    have "r \<noteq> no_requeue" "result \<noteq> no_requeue" using 5 by auto
    then have "merge_from result (r # rs) = merge_from ?m rs" using 5 by simp
    then show ?thesis using Cons.IH [OF m(1)] m(2) by (simp add: earlier_assoc)
  qed (use Cons in auto)
qed simp

text \<open>
  The result of a chain of handlers asks to run again exactly when one of the handlers does,
  after the earliest of the delays they ask for.
\<close>

lemma MergeResults_deadline: "deadline (MergeResults rs) = earliest (map deadline rs)"
  unfolding MergeResults_def by (simp add: merge_from_deadline pending_def)

lemma deadline_merge2: "deadline (MergeResults [a, b]) = earlier (deadline a) (deadline b)"
  using MergeResults_deadline [of "[a, b]"] by simp

section \<open>Chains of handlers\<close>

text \<open>
  The handlers that ran, as a relation: one after the other, each on the resource the one before left,
  until all have run or one stops the chain.
\<close>

inductive chain :: "('h \<Rightarrow> ('c, 's) executor) \<Rightarrow> 'h list \<Rightarrow> 's \<Rightarrow> 'c effect list \<Rightarrow>
    (reconcile_result \<times> rec_error option) list \<Rightarrow> 's \<Rightarrow> 'c effect list \<Rightarrow> bool" for execute where
  chain_done: "chain execute [] s log [] s log"
| chain_stopped: "execute h s log = (Returned (s', r, Some StopHandlerChain), log') \<Longrightarrow>
    chain execute (h # hs) s log [(r, Some StopHandlerChain)] s' log'"
| chain_next: "execute h s log = (Returned (s', r, e), log') \<Longrightarrow> e \<noteq> Some StopHandlerChain \<Longrightarrow>
    chain execute hs s' log' outs s'' log'' \<Longrightarrow> chain execute (h # hs) s log ((r, e) # outs) s'' log''"

definition collect :: "reconcile_result \<times> rec_error list \<Rightarrow> (reconcile_result \<times> rec_error option) list \<Rightarrow>
    reconcile_result \<times> rec_error list" where
  "collect acc outs = foldl (\<lambda>acc (r, e). handler_outcome acc r e) acc outs"

lemma handlers_loop_chain:
  "chain execute hs s log outs s' log' \<Longrightarrow>
     handlers_loop execute hs s acc log = (Returned (s', collect acc outs), log')"
  by (induction arbitrary: acc rule: chain.induct) (simp_all add: ret_def bind_run_def collect_def)

lemma chain_of_handlers_loop:
  "handlers_loop execute hs s acc log = (Returned (s', acc'), log') \<Longrightarrow>
     \<exists>outs. chain execute hs s log outs s' log' \<and> acc' = collect acc outs"
proof (induction hs arbitrary: s acc log)
  case Nil
  then show ?case by (auto simp: ret_def collect_def intro: chain_done)
next
  case (Cons h hs)
  then obtain s1 r e log1 where h: "execute h s log = (Returned (s1, r, e), log1)"
    and rest: "(let acc = handler_outcome acc r e
       in if e = Some StopHandlerChain then ret (s1, acc) else handlers_loop execute hs s1 acc) log1 = (Returned (s', acc'), log')"
    by (auto elim!: bind_run_Returned)
  show ?case
  proof (cases "e = Some StopHandlerChain")
    case True
    then show ?thesis using h rest
      by (intro exI [of _ "[(r, e)]"]) (auto simp: ret_def collect_def intro: chain_stopped)
  next
    case False
    then obtain outs where "chain execute hs s1 log1 outs s' log'" "acc' = collect (handler_outcome acc r e) outs"
      using rest Cons.IH [of s1 "handler_outcome acc r e" log1] by (auto simp: Let_def)
    then show ?thesis using h False
      by (intro exI [of _ "(r, e) # outs"]) (auto simp: collect_def intro: chain_next)
  qed
qed

definition conflict :: "rec_error option \<Rightarrow> bool" where "conflict e \<longleftrightarrow> e = Some (APIError ConflictErr)"

definition plain_error :: "rec_error option \<Rightarrow> rec_error list" where
  "plain_error e =
     (case e of None \<Rightarrow> [] | Some e \<Rightarrow> if e = StopHandlerChain \<or> e = APIError ConflictErr then [] else [e])"

lemma handler_outcome_errors: "snd (handler_outcome acc r e) = snd acc @ plain_error e"
  by (auto simp: handler_outcome_def plain_error_def split: prod.split option.split rec_error.split api_outcome.split)

lemma collect_errors: "snd (collect acc outs) = snd acc @ concat (map (plain_error \<circ> snd) outs)"
  by (induction outs arbitrary: acc) (auto simp: collect_def handler_outcome_errors)

lemma handler_outcome_quiet:
  "\<not> conflict e \<Longrightarrow> deadline (fst (handler_outcome acc r e)) = earlier (deadline (fst acc)) (deadline r)"
  by (auto simp: handler_outcome_def conflict_def deadline_merge2
      split: prod.split option.split rec_error.split api_outcome.split)

lemma collect_quiet:
  "list_all (\<lambda>(r, e). \<not> conflict e) outs \<Longrightarrow>
     deadline (fst (collect acc outs)) = earlier (deadline (fst acc)) (earliest (map (deadline \<circ> fst) outs))"
  by (induction outs arbitrary: acc) (auto simp: collect_def handler_outcome_quiet earlier_assoc)

text \<open>Soon: within the hundred microseconds after which a conflict is retried.\<close>

definition soon :: "int option \<Rightarrow> bool" where
  "soon d \<longleftrightarrow> (case d of None \<Rightarrow> False | Some d \<Rightarrow> d \<le> 100000)"

lemma soon_earlier: "soon a \<or> soon b \<Longrightarrow> soon (earlier a b)"
  by (cases a; cases b) (auto simp: soon_def)

lemma soon_retry: "soon (deadline (r\<lparr> RequeueAfter := 100000 \<rparr>))"
  by (simp add: deadline_def soon_def)

lemma handler_outcome_soon:
  assumes "conflict e \<or> soon (deadline (fst acc))"
  shows "soon (deadline (fst (handler_outcome acc r e)))"
proof (cases "conflict e")
  case True
  then show ?thesis
    by (auto simp: conflict_def handler_outcome_def deadline_merge2 soon_retry intro!: soon_earlier split: prod.split)
qed (use assms in \<open>simp add: handler_outcome_quiet soon_earlier\<close>)

lemma collect_soon:
  "soon (deadline (fst acc)) \<or> list_ex (\<lambda>(r, e). conflict e) outs \<Longrightarrow> soon (deadline (fst (collect acc outs)))"
proof (induction outs arbitrary: acc)
  case (Cons x outs)
  obtain r e where "x = (r, e)" by fastforce
  with Cons.prems have "soon (deadline (fst (handler_outcome acc r e))) \<or> list_ex (\<lambda>(r, e). conflict e) outs"
    using handler_outcome_soon [of e acc r] by auto
  from Cons.IH [OF this] \<open>x = (r, e)\<close> show ?case by (simp add: collect_def)
qed (simp add: collect_def)

lemma update_outcome_errors:
  "snd (update_outcome acc e) =
     snd acc @ (case e of None \<Rightarrow> [] | Some e \<Rightarrow> if e = APIError ConflictErr \<or> e = APIError NoNewFinalizersErr then [] else [e])"
  by (auto simp: update_outcome_def split: prod.split option.split rec_error.split api_outcome.split)

lemma finalize_none: "finalize_loop [] s = ret None" by simp

text \<open>
  Claim C32: a reconciliation whose handlers have run stores the resource they left, whatever they
  reported; it fails exactly with the errors of the handlers and of the update in their order, conflicts
  and refused finalizers excepted; when it does not fail, it runs again after the earliest delay a
  handler asked for, and soon when a handler or the update met a conflict.
\<close>

theorem Reconcile_outcome:
  assumes chain: "chain execute hs s log outs s' log1"
    and update: "update s' log1 = (Returned e, log2)"
    and final: "\<And>h. h \<in> set hs \<Longrightarrow> finalizer h = None"
  shows "\<exists>result errs. BaseReconciler_Reconcile (Some execute) (Some update) finalizer hs s log = (Returned (result, errs), log2) \<and>
    errs = concat (map (plain_error \<circ> snd) outs) @
      (case e of None \<Rightarrow> [] | Some e \<Rightarrow> if e = APIError ConflictErr \<or> e = APIError NoNewFinalizersErr then [] else [e]) \<and>
    (errs \<noteq> [] \<longrightarrow> result = no_requeue) \<and>
    (errs = [] \<and> e = None \<and> list_all (\<lambda>(r, e). \<not> conflict e) outs \<longrightarrow>
       deadline result = earliest (map (deadline \<circ> fst) outs)) \<and>
    (errs = [] \<and> (conflict e \<or> e = None \<and> list_ex (\<lambda>(r, e). conflict e) outs) \<longrightarrow> soon (deadline result))"
proof -
  let ?acc = "collect (no_requeue, []) outs"
  obtain result errs where acc: "update_outcome ?acc e = (result, errs)" by fastforce
  have errs: "errs = concat (map (plain_error \<circ> snd) outs) @
      (case e of None \<Rightarrow> [] | Some e \<Rightarrow> if e = APIError ConflictErr \<or> e = APIError NoNewFinalizersErr then [] else [e])"
    using update_outcome_errors [of ?acc e] acc by (simp add: collect_errors)
  have none: "List.map_filter finalizer hs = []" using final by (induction hs) (simp_all add: map_filter_simps)
  have run: "BaseReconciler_Reconcile (Some execute) (Some update) finalizer hs s log =
      (Returned (if errs \<noteq> [] then (no_requeue, errs) else (result, [])), log2)"
    unfolding BaseReconciler_Reconcile_def
    by (simp add: bind_run_def handlers_loop_chain [OF chain] update acc none ret_def)
  have quiet: "deadline result = earliest (map (deadline \<circ> fst) outs)"
    if "e = None" "list_all (\<lambda>(r, e). \<not> conflict e) outs"
    using collect_quiet [OF that(2), of "(no_requeue, [])"] acc that(1)
    by (auto simp: update_outcome_def split: prod.splits)
  have soon: "soon (deadline result)" if "conflict e \<or> e = None \<and> list_ex (\<lambda>(r, e). conflict e) outs"
    using collect_soon [of "(no_requeue, [])" outs] acc that soon_retry
    by (auto simp: update_outcome_def conflict_def split: prod.splits)
  show ?thesis
  proof (cases "errs = []")
    case True
    then show ?thesis using run quiet soon errs by (intro exI [of _ result] exI [of _ errs] conjI impI) auto
  next
    case False
    then show ?thesis using run errs by (intro exI [of _ no_requeue] exI [of _ errs] conjI impI) auto
  qed
qed

definition example_execute :: "nat \<Rightarrow> (unit, nat) executor" where
  "example_execute h s = ret (s + h, requeue_after (int h), if h = 7 then Some (APIError ConflictErr) else None)"

theorem Reconcile_outcome_witness:
  "\<exists>result. BaseReconciler_Reconcile (Some example_execute) (Some (\<lambda>s. ret None)) (\<lambda>h. None) [5, 7] 0 [] =
     (Returned (result, []), []) \<and> soon (deadline result)"
proof -
  have "chain example_execute [5, 7] 0 [] [(requeue_after 5, None), (requeue_after 7, Some (APIError ConflictErr))] 12 []"
    by (auto intro!: chain.intros simp: example_execute_def ret_def)
  from Reconcile_outcome [OF this, of "\<lambda>s. ret None" None "[]" "\<lambda>h. None"] show ?thesis
    by (auto simp: ret_def plain_error_def conflict_def)
qed


text \<open>Rules for chains in which no handler stops the chain: one assertion between any two handlers.\<close>

lemma chain_triple_Nil: "(\<And>s. pre s \<Longrightarrow> post s) \<Longrightarrow> triple pre P (\<lambda>s. handlers_loop exe [] s acc) (\<lambda>(s, acc). post s)"
  by (auto simp: triple_def emits_pure)

lemma chain_triple_Cons:
  assumes "triple pre P (exe h) (\<lambda>(s, r, e). e \<noteq> Some StopHandlerChain \<and> mid s)"
    and "\<And>acc. triple mid P (\<lambda>s. handlers_loop exe hs s acc) (\<lambda>(s, acc). post s)"
  shows "triple pre P (\<lambda>s. handlers_loop exe (h # hs) s acc) (\<lambda>(s, acc). post s)"
proof -
  have "triple pre P (\<lambda>s. bind_run (exe h s) (\<lambda>(s, res, e).
      let acc = handler_outcome acc res e
      in if e = Some StopHandlerChain then ret (s, acc) else handlers_loop exe hs s acc)) (\<lambda>(s, acc). post s)"
  proof (rule triple_bind [OF assms(1)], goal_cases)
    case (1 x)
    then show ?case
      using assms(2) [of "handler_outcome acc (fst (snd x)) (snd (snd x))"]
      by (cases x) (auto simp: triple_def Let_def)
  qed
  then show ?thesis by simp
qed

lemma reconcile_emits:
  assumes "triple pre P (\<lambda>s. handlers_loop exe hs s (no_requeue, [])) (\<lambda>(s, acc). mid s)"
    and "\<And>s. mid s \<Longrightarrow> emits P (upd s)" and "pre s"
  shows "emits P (BaseReconciler_Reconcile (Some exe) (Some upd) (\<lambda>h. None) hs s)"
proof -
  have none: "List.map_filter (\<lambda>h. None) hs = []" by (induction hs) (simp_all add: map_filter_simps)
  have loop: "emits P (handlers_loop exe hs s (no_requeue, []))"
    and mid: "\<And>s' acc. may_return (handlers_loop exe hs s (no_requeue, [])) (s', acc) \<Longrightarrow> mid s'"
    using assms(1,3) by (auto simp: triple_def)
  show ?thesis
    unfolding BaseReconciler_Reconcile_def none prod.case option.case
    by (rule emits_bind [OF loop]) (auto intro!: emits_rules assms(2) dest: mid split: prod.split option.split)
qed

section \<open>Metadata patches\<close>

text \<open>The semantics of JSON patches (RFC 6902) on the metadata of a stored object.\<close>

definition path_exists :: "string \<Rightarrow> obj_meta \<Rightarrow> bool" where
  "path_exists p m \<longleftrightarrow>
     p = finalizers_path \<and> md_Finalizers m \<noteq> [] \<or> p = annotations_path \<and> md_Annotations m \<noteq> None \<or>
     p = labels_path \<and> md_Labels m \<noteq> None"

fun write_path :: "string \<Rightarrow> meta_value \<Rightarrow> obj_meta \<Rightarrow> obj_meta option" where
  "write_path p (StrList xs) m = (if p = finalizers_path then Some (m\<lparr> md_Finalizers := xs \<rparr>) else None)"
| "write_path p (StrMap es) m =
     (if p = annotations_path then Some (m\<lparr> md_Annotations := es \<rparr>)
      else if p = labels_path then Some (m\<lparr> md_Labels := es \<rparr>) else None)"

fun holds_value :: "string \<Rightarrow> meta_value \<Rightarrow> obj_meta \<Rightarrow> bool" where
  "holds_value p (StrList xs) m = (p = finalizers_path \<and> md_Finalizers m = xs)"
| "holds_value p (StrMap es) m =
     (p = annotations_path \<and> maps_equal (md_Annotations m) es \<or> p = labels_path \<and> maps_equal (md_Labels m) es)"

fun apply_meta_op :: "meta_value JSONPatchOperation \<Rightarrow> obj_meta \<Rightarrow> obj_meta option" where
  "apply_meta_op (PatchAddOp p v) m = write_path p v m"
| "apply_meta_op (PatchReplaceOp p v) m = (if path_exists p m then write_path p v m else None)"
| "apply_meta_op (PatchRemoveOp p) m =
     (if path_exists p m then write_path p (if p = finalizers_path then StrList [] else StrMap None) m else None)"
| "apply_meta_op (PatchTestOp p v) m = (if path_exists p m \<and> holds_value p v m then Some m else None)"

fun apply_meta_patch :: "meta_value JSONPatchOperation list \<Rightarrow> obj_meta \<Rightarrow> obj_meta option" where
  "apply_meta_patch [] m = Some m"
| "apply_meta_patch (o1 # ops) m = Option.bind (apply_meta_op o1 m) (apply_meta_patch ops)"

definition wf_map :: "str_map \<Rightarrow> bool" where "wf_map m \<longleftrightarrow> distinct (map fst (map_entries m))"

definition wf_meta :: "obj_meta \<Rightarrow> bool" where
  "wf_meta m \<longleftrightarrow> wf_map (md_Labels m) \<and> wf_map (md_Annotations m)"

lemma maps_equal_refl: "wf_map m \<Longrightarrow> maps_equal m m"
  by (auto simp: maps_equal_def wf_map_def list_all_iff)

lemma apply_meta_patch_append:
  "apply_meta_patch (p @ q) m = Option.bind (apply_meta_patch p m) (apply_meta_patch q)"
  by (induction p arbitrary: m) (auto split: bind_split)

lemmas meta_ops = JSONPatchOpsForFinalizers_def JSONPatchOpsForAnnotations_def JSONPatchOpsForLabels_def
  jsonPatchOpsForMetadataMap_def path_exists_def

lemma finalizers_ops_effect:
  "md_Finalizers st \<noteq> [] \<or> md_Finalizers cur = [] \<Longrightarrow>
     apply_meta_patch (JSONPatchOpsForFinalizers cur chg) st = Some (st\<lparr> md_Finalizers := md_Finalizers chg \<rparr>)"
  by (auto simp: meta_ops)

lemma annotations_ops_effect:
  "apply_meta_patch (JSONPatchOpsForAnnotations cur chg) st =
     (if md_Annotations cur = None \<or> md_Annotations st \<noteq> None \<and> maps_equal (md_Annotations st) (md_Annotations cur)
      then Some (st\<lparr> md_Annotations := md_Annotations chg \<rparr>) else None)"
  by (auto simp: meta_ops split: option.split)

lemma labels_ops_effect:
  "apply_meta_patch (JSONPatchOpsForLabels cur chg) st =
     (if md_Labels cur = None \<or> md_Labels st \<noteq> None \<and> maps_equal (md_Labels st) (md_Labels cur)
      then Some (st\<lparr> md_Labels := md_Labels chg \<rparr>) else None)"
  by (auto simp: meta_ops split: option.split)


definition example_meta :: "string \<Rightarrow> obj_meta" where
  "example_meta v = \<lparr> md_Finalizers = [''f''], md_Labels = Some [(''k'', v)], md_Annotations = None, md_Deleting = False \<rparr>"


text \<open>
  The finalizers are not tested: a finalizer that someone else added after the object was read is
  dropped by the patch.
\<close>

lemma finalizer_patch_overwrites:
  assumes "md_Finalizers st \<noteq> []" and "md_Finalizers cur \<noteq> md_Finalizers chg"
    and "maps_equal (md_Labels cur) (md_Labels chg)" and "maps_equal (md_Annotations cur) (md_Annotations chg)"
  shows "apply_meta_patch (metadata_patch cur chg) st = Some (st\<lparr> md_Finalizers := md_Finalizers chg \<rparr>)"
  using assms by (simp add: metadata_patch_def apply_meta_patch_append finalizers_ops_effect)

end
