(* ===== verification/IPAddresses.thy ===== *)
theory IPAddresses
  imports GoPrelude "HOL-Library.Word"
begin

unbundle bit_operations_syntax

text \<open>
  IP addresses of virtual machines: names of leases (\<^verbatim>\<open>common/ip/ip.go\<close>) and the service that allocates
  addresses (\<^verbatim>\<open>controller/vmip/internal/service/ip_address_service.go\<close>).

  Addresses and prefixes are those of Go's \<^verbatim>\<open>net/netip\<close>: IPv4 addresses are words of 32 bits, IPv6
  addresses words of 128 bits with a zone, and the zero address is none.  IPv4 texts are read and written
  as the library does; the reader and writer of IPv6 texts are parameters (\<open>ip6_text\<close>).  The functions
  on subnets of \<^verbatim>\<open>k8s.io/utils/net\<close> are parameters too (\<open>net_ops\<close>); \<open>subnet_laws\<close> states their
  documentation for IPv4 subnets.
\<close>

section \<open>net/netip\<close>

datatype netip_addr = NoAddr | Addr4 "32 word" | Addr6 "128 word" string

record netip_prefix =
  pfx_Addr :: netip_addr
  pfx_Bits :: nat

record ip6_text =
  parse6 :: "string \<Rightarrow> (128 word \<times> string) option"
  print6 :: "128 word \<Rightarrow> string \<Rightarrow> string"

fun parse4_fields :: "nat \<Rightarrow> nat \<Rightarrow> nat list \<Rightarrow> string \<Rightarrow> nat list option" where
  "parse4_fields val digLen fs [] = (if length fs < 3 then None else Some (fs @ [val]))"
| "parse4_fields val digLen fs (c # s) =
     (case char_digit c of
        Some d \<Rightarrow>
          if digLen = 1 \<and> val = 0 then None
          else if val * 10 + d > 255 then None
          else parse4_fields (val * 10 + d) (digLen + 1) fs s
      | None \<Rightarrow>
          if c \<noteq> CHR ''.'' then None
          else if digLen = 0 \<or> s = [] then None
          else if length fs = 3 then None
          else parse4_fields 0 0 (fs @ [val]) s)"

definition of_fields :: "nat list \<Rightarrow> 32 word" where
  "of_fields fs = word_of_nat (foldl (\<lambda>a f. a * 256 + f) 0 fs)"

definition parse4 :: "string \<Rightarrow> 32 word option" where
  "parse4 s = map_option of_fields (parse4_fields 0 0 [] s)"

definition fields_of :: "32 word \<Rightarrow> nat list" where
  "fields_of x = (let n = unat x in [n div 16777216, n div 65536 mod 256, n div 256 mod 256, n mod 256])"

fun dotted :: "nat list \<Rightarrow> string" where
  "dotted [] = []"
| "dotted [f] = show_nat f"
| "dotted (f # fs) = show_nat f @ ''.'' @ dotted fs"

definition print4 :: "32 word \<Rightarrow> string" where
  "print4 x = dotted (fields_of x)"

definition ParseAddr :: "ip6_text \<Rightarrow> string \<Rightarrow> netip_addr option" where
  "ParseAddr t s =
     (case List.find (\<lambda>c. c = CHR ''.'' \<or> c = CHR '':'' \<or> c = CHR ''%'') s of
        None \<Rightarrow> None
      | Some c \<Rightarrow>
          if c = CHR ''.'' then map_option Addr4 (parse4 s)
          else if c = CHR '':'' then map_option (\<lambda>(x, z). Addr6 x z) (parse6 t s)
          else None)"

definition addr_String :: "ip6_text \<Rightarrow> netip_addr \<Rightarrow> string" where
  "addr_String t a = (case a of NoAddr \<Rightarrow> ''invalid IP'' | Addr4 x \<Rightarrow> print4 x | Addr6 x z \<Rightarrow> print6 t x z)"

definition last_slash :: "string \<Rightarrow> nat option" where
  "last_slash s = (case filter (\<lambda>i. s ! i = CHR ''/'') (rev [0..<length s]) of [] \<Rightarrow> None | i # _ \<Rightarrow> Some i)"

definition ParsePrefix :: "ip6_text \<Rightarrow> string \<Rightarrow> netip_prefix option" where
  "ParsePrefix t s =
     (case last_slash s of
        None \<Rightarrow> None
      | Some i \<Rightarrow>
          (case ParseAddr t (take i s) of
             None \<Rightarrow> None
           | Some NoAddr \<Rightarrow> None
           | Some a \<Rightarrow>
               (let bitsStr = drop (i + 1) s;
                    maxBits = (case a of Addr6 _ _ \<Rightarrow> 128 | _ \<Rightarrow> 32) :: int
                in if (case a of Addr6 _ z \<Rightarrow> z \<noteq> '''' | _ \<Rightarrow> False) then None
                   else if length bitsStr > 1 \<and> ((of_char (hd bitsStr) :: nat) < 49 \<or> (of_char (hd bitsStr) :: nat) > 57) then None
                   else case atoi bitsStr of
                          None \<Rightarrow> None
                        | Some b \<Rightarrow>
                            if b < 0 \<or> b > maxBits then None
                            else Some \<lparr> pfx_Addr = a, pfx_Bits = nat b \<rparr>)))"

definition prefix_Contains :: "netip_prefix \<Rightarrow> netip_addr \<Rightarrow> bool" where
  "prefix_Contains p a =
     (case (pfx_Addr p, a) of
        (Addr4 base, Addr4 x) \<Rightarrow> drop_bit (32 - pfx_Bits p) (x XOR base) = 0
      | (Addr6 base _, Addr6 x z) \<Rightarrow> z = '''' \<and> drop_bit (128 - pfx_Bits p) (x XOR base) = 0
      | _ \<Rightarrow> False)"

definition addr_Next :: "netip_addr \<Rightarrow> netip_addr" where
  "addr_Next a =
     (case a of
        NoAddr \<Rightarrow> NoAddr
      | Addr4 x \<Rightarrow> if x + 1 = 0 then NoAddr else Addr4 (x + 1)
      | Addr6 x z \<Rightarrow> if x + 1 = 0 then NoAddr else Addr6 (x + 1) z)"

definition prefix_Masked :: "netip_prefix \<Rightarrow> netip_addr" where
  "prefix_Masked p =
     (case pfx_Addr p of
        NoAddr \<Rightarrow> NoAddr
      | Addr4 x \<Rightarrow> Addr4 (push_bit (32 - pfx_Bits p) (drop_bit (32 - pfx_Bits p) x))
      | Addr6 x z \<Rightarrow> Addr6 (push_bit (128 - pfx_Bits p) (drop_bit (128 - pfx_Bits p) x)) z)"

text \<open>
  An address of \<^verbatim>\<open>net.IP\<close> in its form of sixteen bytes, in which IPv4 addresses are mapped ones; its
  equality does not distinguish the two forms.
\<close>

definition v4_mapped :: "32 word \<Rightarrow> 128 word" where
  "v4_mapped x = 0xffff00000000 + word_of_nat (unat x)"

definition AsSlice :: "netip_addr \<Rightarrow> 128 word option" where
  "AsSlice a = (case a of NoAddr \<Rightarrow> None | Addr4 x \<Rightarrow> Some (v4_mapped x) | Addr6 x _ \<Rightarrow> Some x)"

section \<open>ip.go\<close>

abbreviation ipPrefix :: string where "ipPrefix \<equiv> ''ip-''"

text \<open>\<^verbatim>\<open>net.ParseIP\<close> reads what \<^verbatim>\<open>netip.ParseAddr\<close> does, without zones; \<^verbatim>\<open>To4\<close> finds mapped addresses too.\<close>

definition To4 :: "netip_addr \<Rightarrow> 32 word option" where
  "To4 a =
     (case a of
        NoAddr \<Rightarrow> None
      | Addr4 x \<Rightarrow> Some x
      | Addr6 x _ \<Rightarrow> if drop_bit 32 x = 0xffff then Some (word_of_nat (unat x mod 4294967296)) else None)"

definition ParseIP :: "ip6_text \<Rightarrow> string \<Rightarrow> netip_addr option" where
  "ParseIP t s =
     (case ParseAddr t s of
        Some (Addr6 x z) \<Rightarrow> if z \<noteq> '''' then None else Some (Addr6 x z)
      | r \<Rightarrow> r)"

definition IPToLeaseName :: "ip6_text \<Rightarrow> string \<Rightarrow> string" where
  "IPToLeaseName t ip =
     (case Option.bind (ParseIP t ip) To4 of
        Some x \<Rightarrow> ipPrefix @ replace_char (CHR ''.'') ''-'' (print4 x)
      | None \<Rightarrow> '''')"

definition LeaseNameToIP :: "string \<Rightarrow> string" where
  "LeaseNameToIP leaseName =
     (if has_prefix leaseName ipPrefix \<and> length leaseName > length ipPrefix
      then replace_char (CHR ''-'') ''.'' (drop (length ipPrefix) leaseName) else '''')"

section \<open>ip\_address\_service.go: ranges and allocation\<close>

record ip_net =
  net_IP :: netip_addr
  net_Ones :: nat

record net_ops =
  RangeSize :: "ip_net \<Rightarrow> int"
  GetIndexedIP :: "ip_net \<Rightarrow> int \<Rightarrow> 128 word option"

datatype ip_error = InvalidFormat | ErrIPAddressOutOfRange | SubnetError | NoRemainingIPs

definition toIPNet :: "netip_prefix \<Rightarrow> ip_net" where
  "toIPNet prefix = \<lparr> net_IP = prefix_Masked prefix, net_Ones = pfx_Bits prefix \<rparr>"

definition isFirstLastIP :: "net_ops \<Rightarrow> netip_addr \<Rightarrow> netip_prefix \<Rightarrow> ip_error + bool" where
  "isFirstLastIP no ip cidr =
     (let ipNet = toIPNet cidr; size = RangeSize no ipNet
      in case GetIndexedIP no ipNet 0 of
           None \<Rightarrow> Inl SubnetError
         | Some firstIP \<Rightarrow>
             if AsSlice ip = Some firstIP then Inr True
             else case GetIndexedIP no ipNet (size - 1) of
                    None \<Rightarrow> Inl SubnetError
                  | Some lastIP \<Rightarrow> Inr (AsSlice ip = Some lastIP))"

definition NewIPAddressService :: "ip6_text \<Rightarrow> string list \<Rightarrow> netip_prefix list option" where
  "NewIPAddressService t virtualMachineCIDRs =
     (let parsed = map (ParsePrefix t) virtualMachineCIDRs
      in if list_all (\<lambda>p. p \<noteq> None) parsed then Some (map the parsed) else None)"

fun inside_some :: "net_ops \<Rightarrow> netip_addr \<Rightarrow> netip_prefix list \<Rightarrow> ip_error option" where
  "inside_some no addr [] = Some ErrIPAddressOutOfRange"
| "inside_some no addr (cidr # cidrs) =
     (case isFirstLastIP no addr cidr of
        Inl e \<Rightarrow> Some e
      | Inr isFirstLast \<Rightarrow>
          if \<not> isFirstLast \<and> prefix_Contains cidr addr then None else inside_some no addr cidrs)"

definition IsInsideOfRange :: "ip6_text \<Rightarrow> net_ops \<Rightarrow> netip_prefix list \<Rightarrow> string \<Rightarrow> ip_error option" where
  "IsInsideOfRange t no parsedCIDRs address =
     (case ParseAddr t address of
        None \<Rightarrow> Some InvalidFormat
      | Some NoAddr \<Rightarrow> Some InvalidFormat
      | Some addr \<Rightarrow> inside_some no addr parsedCIDRs)"

text \<open>The loop over the addresses of a range.  \<open>Inr None\<close>: it ended without an address.\<close>

fun addr_left :: "netip_addr \<Rightarrow> nat" where
  "addr_left NoAddr = 0"
| "addr_left (Addr4 x) = 2 ^ 32 - unat x"
| "addr_left (Addr6 x z) = 2 ^ 128 - unat x"

lemma unat_next: "(x :: 'a :: len word) + 1 \<noteq> 0 \<Longrightarrow> unat (x + 1) = Suc (unat x)"
  by (metis Suc_eq_plus1 add.commute unatSuc)

lemma unat_last: "(x :: 32 word) + 1 = 0 \<Longrightarrow> unat x = 2 ^ 32 - 1"
  by (simp add: eq_neg_iff_add_eq_0 [symmetric] unsigned_minus_1_eq_mask mask_eq_exp_minus_1)

lemma addr_left_next: "a \<noteq> NoAddr \<Longrightarrow> addr_left (addr_Next a) < addr_left a"
proof (cases a)
  case (Addr4 x)
  then show ?thesis using unsigned_less [of x] by (auto simp: addr_Next_def unat_next)
next
  case (Addr6 x z)
  then show ?thesis using unsigned_less [of x] by (auto simp: addr_Next_def unat_next)
qed simp

lemma contained_addr: "prefix_Contains p a \<Longrightarrow> a \<noteq> NoAddr"
  by (auto simp: prefix_Contains_def split: netip_addr.splits)

function alloc_from :: "ip6_text \<Rightarrow> net_ops \<Rightarrow> netip_prefix \<Rightarrow> string list \<Rightarrow> netip_addr \<Rightarrow> ip_error + string option" where
  "alloc_from t no cidr allocatedIPs addr =
     (if \<not> prefix_Contains cidr addr then Inr None
      else case (if RangeSize no (toIPNet cidr) \<noteq> 1 then isFirstLastIP no addr cidr else Inr False) of
             Inl e \<Rightarrow> Inl e
           | Inr isFirstLast \<Rightarrow>
               if isFirstLast then alloc_from t no cidr allocatedIPs (addr_Next addr)
               else if addr_String t addr \<notin> set allocatedIPs then Inr (Some (addr_String t addr))
               else alloc_from t no cidr allocatedIPs (addr_Next addr))"
  by pat_completeness auto

termination
  by (relation "measure (\<lambda>(t, no, cidr, al, addr). addr_left addr)")
    (simp_all add: addr_left_next contained_addr)

declare alloc_from.simps [simp del]

fun AllocateNewIP :: "ip6_text \<Rightarrow> net_ops \<Rightarrow> netip_prefix list \<Rightarrow> string list \<Rightarrow> ip_error + string" where
  "AllocateNewIP t no [] allocatedIPs = Inl NoRemainingIPs"
| "AllocateNewIP t no (cidr # cidrs) allocatedIPs =
     (case alloc_from t no cidr allocatedIPs (pfx_Addr cidr) of
        Inl e \<Rightarrow> Inl e
      | Inr (Some s) \<Rightarrow> Inr s
      | Inr None \<Rightarrow> AllocateNewIP t no cidrs allocatedIPs)"

section \<open>Texts of IPv4 addresses\<close>

lemma char_digit_Some: "char_digit c = Some d \<Longrightarrow> c = digit_char d \<and> d < 10"
  by (auto simp: char_digit_def digit_char_def Let_def split: if_splits)

lemma char_digit_dot [simp]: "char_digit (CHR ''.'') = None"
  by (simp add: char_digit_def)

lemma show_nat_snoc: "0 < n \<Longrightarrow> d < 10 \<Longrightarrow> show_nat (n * 10 + d) = show_nat n @ [digit_char d]"
  by (subst show_nat.simps) simp

lemma parse4_fields_octet:
  assumes "n \<le> 255"
  shows "parse4_fields 0 0 fs (show_nat n @ rest) = parse4_fields n (length (show_nat n)) fs rest"
proof -
  consider "n < 10" | a b where "n = a * 10 + b" "0 < a" "a < 10" "b < 10"
    | a b c where "n = (a * 10 + b) * 10 + c" "0 < a" "a < 10" "b < 10" "c < 10"
  proof -
    have "n = n div 10 * 10 + n mod 10" "n div 10 = n div 10 div 10 * 10 + n div 10 mod 10" by simp_all
    then show thesis
      using that(1) that(2) [of "n div 10" "n mod 10"]
        that(3) [of "n div 10 div 10" "n div 10 mod 10" "n mod 10"] assms
      by (cases "n < 10"; cases "n < 100") auto
  qed
  then show ?thesis
  proof cases
    case 1
    then show ?thesis by (simp add: show_nat_small char_digit_digit_char)
  next
    case 2
    then show ?thesis using assms by (simp add: show_nat_small show_nat_snoc char_digit_digit_char)
  next
    case 3
    have "show_nat n = [digit_char a, digit_char b, digit_char c]"
      unfolding 3(1) using 3(2-5) show_nat_snoc [of "a * 10 + b" c] show_nat_snoc [of a b] show_nat_small [of a] by auto
    then show ?thesis using 3 assms by (simp add: char_digit_digit_char)
  qed
qed

lemma parse4_fields_dotted:
  assumes "\<forall>f \<in> set [a, b, c, d]. f \<le> 255"
  shows "parse4_fields 0 0 [] (dotted [a, b, c, d]) = Some [a, b, c, d]"
  using assms parse4_fields_octet [of d "[a, b, c]" "[]"]
  by (simp add: parse4_fields_octet)

lemma fields_of_bounds: "\<forall>f \<in> set (fields_of x). f \<le> 255"
  using unsigned_less [of x, where ?'a = nat] by (auto simp: fields_of_def Let_def)

lemma of_fields_of: "of_fields (fields_of x) = x"
proof -
  let ?n = "unat x"
  have "((?n div 16777216 * 256 + ?n div 65536 mod 256) * 256 + ?n div 256 mod 256) * 256 + ?n mod 256 = ?n"
    using div_mult_mod_eq [of ?n 256] div_mult_mod_eq [of "?n div 256" 256] div_mult_mod_eq [of "?n div 256 div 256" 256]
    by (simp add: div_mult2_eq [symmetric])
  then show ?thesis by (simp only: of_fields_def fields_of_def Let_def foldl.simps mult_zero_left add_0_left) simp
qed

lemma parse4_print4: "parse4 (print4 x) = Some x"
proof -
  obtain a b c d where "fields_of x = [a, b, c, d]" by (simp add: fields_of_def Let_def)
  then show ?thesis
    using fields_of_bounds [of x] of_fields_of [of x]
    by (simp only: parse4_def print4_def parse4_fields_dotted) simp
qed

text \<open>Reading keeps the text: what has been read is the dotted form of the fields.\<close>

lemma dotted_snoc: "fs \<noteq> [] \<Longrightarrow> dotted (fs @ [f]) = dotted fs @ ''.'' @ show_nat f"
  by (induction fs rule: dotted.induct) simp_all

lemma dotted_open: "dotted (fs @ [f]) = concat (map (\<lambda>f. show_nat f @ ''.'') fs) @ show_nat f"
proof (induction fs)
  case (Cons g fs)
  then show ?case by (cases fs) simp_all
qed simp

lemma parse4_fields_text:
  "parse4_fields val digLen fs s = Some out \<Longrightarrow>
     (digLen = 0 \<longrightarrow> val = 0 \<and> (s \<noteq> [] \<or> length fs < 3)) \<Longrightarrow> (digLen \<noteq> 0 \<and> val = 0 \<longrightarrow> digLen = 1) \<Longrightarrow>
     val \<le> 255 \<Longrightarrow> (\<forall>f \<in> set fs. f \<le> 255) \<Longrightarrow> length fs \<le> 3 \<Longrightarrow>
     dotted out = concat (map (\<lambda>f. show_nat f @ ''.'') fs) @ (if digLen = 0 then [] else show_nat val) @ s \<and>
     length out = 4 \<and> (\<forall>f \<in> set out. f \<le> 255)"
proof (induction val digLen fs s rule: parse4_fields.induct)
  case (1 val digLen fs)
  then show ?case by (auto simp: dotted_open split: if_splits)
next
  case (2 val digLen fs c s)
  show ?case
  proof (cases "char_digit c")
    case (Some d)
    then have c: "c = digit_char d" "d < 10" using char_digit_Some by auto
    have ok: "\<not> (digLen = 1 \<and> val = 0)" "val * 10 + d \<le> 255"
      and rest: "parse4_fields (val * 10 + d) (digLen + 1) fs s = Some out"
      using 2(3) Some by (auto split: if_splits)
    have "(if digLen = 0 then [] else show_nat val) @ [c] = show_nat (val * 10 + d)"
    proof (cases "digLen = 0")
      case True
      then show ?thesis using 2(4) c by (simp add: show_nat_small)
    next
      case False
      then have "0 < val" using 2(5) ok(1) by (cases val) auto
      then show ?thesis using False c by (simp add: show_nat_snoc)
    qed
    moreover have "dotted out = concat (map (\<lambda>f. show_nat f @ ''.'') fs) @ show_nat (val * 10 + d) @ s \<and>
        length out = 4 \<and> (\<forall>f \<in> set out. f \<le> 255)"
    proof -
      have "digLen + 1 = 1" if "val * 10 + d = 0"
        using that 2(5) ok(1) by (cases "digLen = 0") simp_all
      then show ?thesis using 2(2) [OF Some ok(1) _ rest _ _ ok(2) 2(7,8)] ok(2) by simp
    qed
    ultimately show ?thesis by (metis append_assoc append_Cons append_Nil)
  next
    case None
    then have *: "c = CHR ''.''" "digLen \<noteq> 0" "s \<noteq> []" "length fs \<noteq> 3"
      and rest: "parse4_fields 0 0 (fs @ [val]) s = Some out"
      using 2(3) by (auto split: if_splits)
    have "dotted out = concat (map (\<lambda>f. show_nat f @ ''.'') (fs @ [val])) @ s \<and>
        length out = 4 \<and> (\<forall>f \<in> set out. f \<le> 255)"
      using 2(1) [OF None] * rest 2(6-8) by auto
    then show ?thesis using * by simp
  qed
qed

lemma fields_of_of_fields:
  assumes "length fs = 4" and "\<forall>f \<in> set fs. f \<le> 255"
  shows "fields_of (of_fields fs) = fs"
proof -
  obtain a b c d where fs: "fs = [a, b, c, d]"
    using assms(1) by (auto simp: length_Suc_conv numeral_eq_Suc)
  let ?n = "((a * 256 + b) * 256 + c) * 256 + d"
  have "?n < 2 ^ 32" using assms(2) fs by simp
  then have "unat (of_fields fs) = ?n"
    unfolding of_fields_def fs foldl.simps mult_zero_left add_0_left unat_of_nat by simp
  moreover have "?n div 16777216 = a" "?n div 65536 mod 256 = b" "?n div 256 mod 256 = c" "?n mod 256 = d"
  proof -
    have le: "a < 256" "b < 256" "c < 256" "d < 256" using assms(2) unfolding fs by auto
    have q: "(u * 256 + v) div 256 = u \<and> (u * 256 + v) mod 256 = v" if "v < 256" for u v :: nat
      using that by simp
    have "?n div 65536 = ?n div 256 div 256" "?n div 16777216 = ?n div 256 div 256 div 256"
      by (simp_all add: div_mult2_eq [symmetric])
    then show "?n div 16777216 = a" "?n div 65536 mod 256 = b" "?n div 256 mod 256 = c" "?n mod 256 = d"
      by (simp_all only: q le)
  qed
  ultimately show ?thesis unfolding fields_of_def fs by (simp only: Let_def)
qed

lemma print4_parse4: "parse4 s = Some x \<Longrightarrow> print4 x = s"
proof -
  assume "parse4 s = Some x"
  then obtain out where out: "parse4_fields 0 0 [] s = Some out" and x: "x = of_fields out"
    by (auto simp: parse4_def)
  have "dotted out = s \<and> length out = 4 \<and> (\<forall>f \<in> set out. f \<le> 255)"
    using parse4_fields_text [OF out] by simp
  then show "print4 x = s" by (simp add: print4_def x fields_of_of_fields)
qed

lemma digit_char_not_special: "d < 10 \<Longrightarrow> digit_char d \<notin> {CHR ''-'', CHR ''.'', CHR '':'', CHR ''%''}"
proof
  assume d: "d < 10" and mem: "digit_char d \<in> {CHR ''-'', CHR ''.'', CHR '':'', CHR ''%''}"
  have "char_digit (digit_char d) = Some d" using d by (rule char_digit_digit_char)
  then show False using mem by (auto simp: char_digit_def)
qed

lemma show_nat_special: "c \<in> {CHR ''-'', CHR ''.'', CHR '':'', CHR ''%''} \<Longrightarrow> c \<notin> set (show_nat n)"
proof
  assume c: "c \<in> {CHR ''-'', CHR ''.'', CHR '':'', CHR ''%''}" and "c \<in> set (show_nat n)"
  then obtain d where d: "c = digit_char d" "d < 10" using show_nat_chars [of n] by (meson imageE lessThan_iff subsetD)
  show False using digit_char_not_special [OF d(2)] c unfolding d(1) by (rule notE)
qed

lemma print4_form: "\<exists>a b c d. print4 x = show_nat a @ ''.'' @ show_nat b @ ''.'' @ show_nat c @ ''.'' @ show_nat d"
  unfolding print4_def fields_of_def Let_def dotted.simps by blast

lemma print4_special: "c \<in> {CHR ''-'', CHR '':'', CHR ''%''} \<Longrightarrow> c \<notin> set (print4 x)"
proof -
  assume c: "c \<in> {CHR ''-'', CHR '':'', CHR ''%''}"
  then have "c \<notin> set (show_nat n)" for n using show_nat_special [of c n] by blast
  moreover have "c \<noteq> CHR ''.''" using c by auto
  moreover obtain n1 n2 n3 n4 where "print4 x = show_nat n1 @ ''.'' @ show_nat n2 @ ''.'' @ show_nat n3 @ ''.'' @ show_nat n4"
    using print4_form by blast
  ultimately show ?thesis by simp
qed

lemma find_append_none: "(\<And>x. x \<in> set xs \<Longrightarrow> \<not> P x) \<Longrightarrow> List.find P (xs @ ys) = List.find P ys"
  by (induction xs) auto

lemma ParseAddr_print4: "ParseAddr t (print4 x) = Some (Addr4 x)"
proof -
  obtain a rest where form: "print4 x = show_nat a @ CHR ''.'' # rest" using print4_form [of x] by auto
  have "List.find (\<lambda>c. c = CHR ''.'' \<or> c = CHR '':'' \<or> c = CHR ''%'') (print4 x) = Some (CHR ''.'')"
    unfolding form by (subst find_append_none) (use show_nat_special in auto)
  then show ?thesis by (simp add: ParseAddr_def parse4_print4)
qed

lemma ParseAddr_Addr4: "ParseAddr t s = Some (Addr4 x) \<longleftrightarrow> s = print4 x"
proof
  assume "ParseAddr t s = Some (Addr4 x)"
  then have "parse4 s = Some x" by (auto simp: ParseAddr_def split: option.splits if_splits)
  then show "s = print4 x" by (simp add: print4_parse4)
qed (simp add: ParseAddr_print4)

lemma print4_inj: "print4 x = print4 y \<longleftrightarrow> x = y"
  using parse4_print4 by (metis option.inject)

lemma replace_back: "d \<notin> set s \<Longrightarrow> replace_char d [c] (replace_char c [d] s) = s"
  by (induction s) auto

lemma IPToLeaseName_print4: "IPToLeaseName t (print4 x) = ipPrefix @ replace_char (CHR ''.'') ''-'' (print4 x)"
  by (simp add: IPToLeaseName_def ParseIP_def ParseAddr_print4 To4_def)

lemma LeaseNameToIP_lease: "LeaseNameToIP (IPToLeaseName t (print4 x)) = print4 x"
proof -
  have "print4 x \<noteq> []" using print4_form [of x] by auto
  then have "replace_char (CHR ''.'') ''-'' (print4 x) \<noteq> []" by (cases "print4 x") auto
  moreover have "has_prefix (ipPrefix @ s) ipPrefix" for s by (simp add: has_prefix_def)
  ultimately show ?thesis
    unfolding IPToLeaseName_print4 LeaseNameToIP_def by (simp add: replace_back print4_special)
qed

text \<open>
  Claim C34: the name of the lease of an IPv4 address determines the address: reading the name of its
  lease gives back the text of the address, so two texts share a lease exactly when they are the same
  address; a text of a mapped IPv6 address has the lease of the IPv4 address it maps.
\<close>

theorem lease_name_roundtrip:
  assumes "ParseAddr t s = Some (Addr4 x)"
  shows "LeaseNameToIP (IPToLeaseName t s) = s \<and>
    (\<forall>s' y. ParseAddr t s' = Some (Addr4 y) \<longrightarrow> (IPToLeaseName t s' = IPToLeaseName t s \<longleftrightarrow> s' = s)) \<and>
    (\<forall>s' y. ParseAddr t s' = Some (Addr6 y '''') \<and> To4 (Addr6 y '''') = Some x \<longrightarrow>
       IPToLeaseName t s' = IPToLeaseName t s)"
proof -
  have s: "s = print4 x" using assms by (simp add: ParseAddr_Addr4)
  have mapped: "IPToLeaseName t s' = IPToLeaseName t s"
    if "ParseAddr t s' = Some (Addr6 y '''')" "To4 (Addr6 y '''') = Some x" for s' y
    unfolding s IPToLeaseName_print4 using that by (simp add: IPToLeaseName_def ParseIP_def)
  show ?thesis
    unfolding s by (auto simp: ParseAddr_Addr4 LeaseNameToIP_lease) (metis LeaseNameToIP_lease, metis mapped s)
qed

definition no_ip6 :: ip6_text where
  "no_ip6 = \<lparr> parse6 = \<lambda>s. if s = ''::ffff:10.0.0.5'' then Some (v4_mapped 0x0a000005, '''') else None, print6 = \<lambda>x z. '''' \<rparr>"

lemma parse4_example: "parse4 ''10.0.0.5'' = Some 0x0a000005"
  by (simp add: parse4_def of_fields_def char_digit_def)

theorem lease_name_roundtrip_witness:
  "LeaseNameToIP (IPToLeaseName no_ip6 ''10.0.0.5'') = ''10.0.0.5''"
proof -
  have "ParseAddr no_ip6 ''10.0.0.5'' = Some (Addr4 0x0a000005)"
    using parse4_example by (simp add: ParseAddr_def)
  from lease_name_roundtrip [OF this] show ?thesis by blast
qed

section \<open>Ranges\<close>

text \<open>
  What the code relies on of \<^verbatim>\<open>k8s.io/utils/net\<close>, for IPv4 subnets with at least two bits of prefix: the
  size of a subnet is the number of its addresses, and the address with an index below it is the base
  address plus the index.
\<close>

definition aligned :: "32 word \<Rightarrow> nat \<Rightarrow> bool" where
  "aligned b n \<longleftrightarrow> unat b mod 2 ^ (32 - n) = 0"

definition subnet_laws :: "net_ops \<Rightarrow> bool" where
  "subnet_laws no \<longleftrightarrow>
     (\<forall>b n. 2 \<le> n \<and> n \<le> 32 \<and> aligned b n \<longrightarrow>
        RangeSize no \<lparr> net_IP = Addr4 b, net_Ones = n \<rparr> = 2 ^ (32 - n) \<and>
        (\<forall>i < 2 ^ (32 - n). GetIndexedIP no \<lparr> net_IP = Addr4 b, net_Ones = n \<rparr> (int i) =
           Some (v4_mapped (word_of_nat (unat b + i)))))"

definition exact_net_ops :: net_ops where
  "exact_net_ops =
     \<lparr> RangeSize = (\<lambda>n. case net_IP n of Addr4 b \<Rightarrow> if net_Ones n < 2 then 0 else 2 ^ (32 - net_Ones n) | _ \<Rightarrow> 0),
       GetIndexedIP = (\<lambda>n i. case net_IP n of
          Addr4 b \<Rightarrow> if 0 \<le> i \<and> i < 2 ^ (32 - net_Ones n) then Some (v4_mapped (word_of_nat (unat b + nat i))) else None
        | _ \<Rightarrow> None) \<rparr>"

lemma exact_net_ops_laws: "subnet_laws exact_net_ops"
proof -
  have "int i < 2 ^ k \<longleftrightarrow> i < 2 ^ k" for i k :: nat
    by (metis of_nat_less_iff of_nat_numeral of_nat_power)
  then show ?thesis by (auto simp: subnet_laws_def exact_net_ops_def)
qed

text \<open>Prefixes of IPv4, in terms of natural numbers.\<close>

definition v4_cidr :: "netip_prefix \<Rightarrow> bool" where
  "v4_cidr p \<longleftrightarrow> (case pfx_Addr p of Addr4 _ \<Rightarrow> True | _ \<Rightarrow> False) \<and> 2 \<le> pfx_Bits p \<and> pfx_Bits p \<le> 32"

definition cidr_base :: "netip_prefix \<Rightarrow> nat" where
  "cidr_base p = (case pfx_Addr p of Addr4 b \<Rightarrow> unat b div 2 ^ (32 - pfx_Bits p) * 2 ^ (32 - pfx_Bits p) | _ \<Rightarrow> 0)"

definition cidr_size :: "netip_prefix \<Rightarrow> nat" where
  "cidr_size p = 2 ^ (32 - pfx_Bits p)"

definition usable :: "netip_prefix \<Rightarrow> 32 word \<Rightarrow> bool" where
  "usable p x \<longleftrightarrow> cidr_base p < unat x \<and> unat x + 1 < cidr_base p + cidr_size p"

lemma xor_zero_iff: "(a :: 'a :: len word) XOR b = 0 \<longleftrightarrow> a = b"
  by (auto simp: bit_eq_iff bit_xor_iff)

lemma drop_bit_eq_nat: "drop_bit k (a :: 'a :: len word) = drop_bit k b \<longleftrightarrow> unat a div 2 ^ k = unat b div 2 ^ k"
  by (metis drop_bit_eq_div unat_drop_bit_eq unsigned_word_eqI)

lemma div_eq_interval: "0 < (k :: nat) \<Longrightarrow> a div k = b div k \<longleftrightarrow> b div k * k \<le> a \<and> a < b div k * k + k"
proof
  assume "0 < k" "a div k = b div k"
  then show "b div k * k \<le> a \<and> a < b div k * k + k"
    by (metis div_times_less_eq_dividend dividend_less_div_times add.commute)
next
  assume "0 < k" "b div k * k \<le> a \<and> a < b div k * k + k"
  then show "a div k = b div k" by (intro div_nat_eqI) (auto simp: algebra_simps)
qed

lemma contains4:
  assumes "v4_cidr p"
  shows "prefix_Contains p (Addr4 x) \<longleftrightarrow> cidr_base p \<le> unat x \<and> unat x < cidr_base p + cidr_size p"
proof -
  obtain b where b: "pfx_Addr p = Addr4 b" using assms by (auto simp: v4_cidr_def split: netip_addr.splits)
  then have "prefix_Contains p (Addr4 x) \<longleftrightarrow> unat x div cidr_size p = unat b div cidr_size p"
    by (simp add: prefix_Contains_def drop_bit_xor xor_zero_iff drop_bit_eq_nat cidr_size_def)
  also have "\<dots> \<longleftrightarrow> cidr_base p \<le> unat x \<and> unat x < cidr_base p + cidr_size p"
    by (subst div_eq_interval) (simp_all add: cidr_size_def cidr_base_def b)
  finally show ?thesis .
qed

lemma contains_v4_only: "v4_cidr p \<Longrightarrow> prefix_Contains p a \<Longrightarrow> \<exists>x. a = Addr4 x"
  by (auto simp: v4_cidr_def prefix_Contains_def split: netip_addr.splits)

lemma masked4:
  assumes "v4_cidr p"
  obtains m where "prefix_Masked p = Addr4 m" "unat m = cidr_base p" "aligned m (pfx_Bits p)"
    "cidr_base p + cidr_size p \<le> 2 ^ 32"
proof -
  obtain b where b: "pfx_Addr p = Addr4 b" using assms by (auto simp: v4_cidr_def split: netip_addr.splits)
  let ?k = "32 - pfx_Bits p"
  let ?m = "push_bit ?k (drop_bit ?k b)"
  have le: "unat b div 2 ^ ?k * 2 ^ ?k \<le> unat b" by (rule div_times_less_eq_dividend)
  have b32: "unat b < 2 ^ 32" using unsigned_less [of b] by simp
  have m: "unat ?m = unat b div 2 ^ ?k * 2 ^ ?k"
  proof -
    have "unat ?m = push_bit ?k (drop_bit ?k (unat b)) mod 2 ^ LENGTH(32)"
      by (simp only: unsigned_push_bit_eq unat_drop_bit_eq take_bit_eq_mod)
    also have "push_bit ?k (drop_bit ?k (unat b)) = unat b div 2 ^ ?k * 2 ^ ?k"
      by (simp only: push_bit_eq_mult drop_bit_eq_div)
    finally show ?thesis using le_less_trans [OF le b32] by simp
  qed
  have "unat b div 2 ^ ?k < 2 ^ (32 - ?k)"
  proof -
    have "unat b < 2 ^ (32 - ?k) * 2 ^ ?k" using b32 by (simp flip: power_add)
    then show ?thesis by (simp add: div_less_iff_less_mult)
  qed
  then have "(unat b div 2 ^ ?k + 1) * 2 ^ ?k \<le> 2 ^ (32 - ?k) * 2 ^ ?k" by (intro mult_right_mono) auto
  then have "unat b div 2 ^ ?k * 2 ^ ?k + 2 ^ ?k \<le> 2 ^ 32" by (simp add: algebra_simps flip: power_add)
  with m show thesis
    by (intro that [of ?m]) (simp_all add: prefix_Masked_def b cidr_base_def cidr_size_def aligned_def)
qed

lemma v4_mapped_inj: "v4_mapped x = v4_mapped y \<longleftrightarrow> x = y"
proof
  assume "v4_mapped x = v4_mapped y"
  then have "unat (word_of_nat (unat x) :: 128 word) = unat (word_of_nat (unat y) :: 128 word)"
    by (simp add: v4_mapped_def)
  moreover have "unat (word_of_nat (unat z) :: 128 word) = unat z" for z :: "32 word"
    unfolding unat_of_nat using unsigned_less [of z, where ?'a = nat] by simp
  ultimately show "x = y" by (simp add: unsigned_word_eqI)
qed simp

lemma toIPNet_laws:
  assumes "subnet_laws no" and "v4_cidr p"
  shows "RangeSize no (toIPNet p) = int (cidr_size p)"
    and "i < cidr_size p \<Longrightarrow> GetIndexedIP no (toIPNet p) (int i) = Some (v4_mapped (word_of_nat (cidr_base p + i)))"
proof -
  obtain m where m: "prefix_Masked p = Addr4 m" "unat m = cidr_base p" "aligned m (pfx_Bits p)"
    using masked4 [OF assms(2)] by blast
  have "2 \<le> pfx_Bits p \<and> pfx_Bits p \<le> 32 \<and> aligned m (pfx_Bits p)" using assms(2) m by (simp add: v4_cidr_def)
  then show "RangeSize no (toIPNet p) = int (cidr_size p)"
    and "i < cidr_size p \<Longrightarrow> GetIndexedIP no (toIPNet p) (int i) = Some (v4_mapped (word_of_nat (cidr_base p + i)))"
    using assms(1) unfolding subnet_laws_def toIPNet_def m(1) cidr_size_def m(2) [symmetric] by auto
qed

lemma isFirstLast4:
  assumes "subnet_laws no" and p: "v4_cidr p"
  shows "isFirstLastIP no (Addr4 x) p = Inr (unat x = cidr_base p \<or> unat x + 1 = cidr_base p + cidr_size p)"
proof -
  have size: "0 < cidr_size p" by (simp add: cidr_size_def)
  have bound: "cidr_base p + cidr_size p \<le> 2 ^ 32" using masked4 [OF p] by blast
  have same: "AsSlice (Addr4 x) = Some (v4_mapped (word_of_nat n)) \<longleftrightarrow> unat x = n" if "n < 2 ^ 32" for n
  proof -
    have "unat (word_of_nat n :: 32 word) = n" using that by (simp add: unat_of_nat)
    then have "x = word_of_nat n \<longleftrightarrow> unat x = n" by (metis unsigned_word_eqI)
    then show ?thesis by (simp add: AsSlice_def v4_mapped_inj)
  qed
  have last: "int (cidr_size p) - 1 = int (cidr_size p - 1)" using size by simp
  show ?thesis
    unfolding isFirstLastIP_def Let_def toIPNet_laws(1) [OF assms] last
    using toIPNet_laws(2) [OF assms, of 0] toIPNet_laws(2) [OF assms, of "cidr_size p - 1"] size bound
      same [of "cidr_base p"] same [of "cidr_base p + (cidr_size p - 1)"]
    by auto
qed

section \<open>Allocation\<close>

text \<open>
  The client's view of a range: the range has a size, its bounds are recognised, and membership is an
  interval.  Stated as a locale, its lemmas hold for every provider of subnet arithmetic.
\<close>

locale subnet_arith =
  fixes t :: ip6_text and no :: net_ops
  assumes laws: "subnet_laws no"
begin

lemma alloc_step:
  assumes "v4_cidr p" and "prefix_Contains p (Addr4 x)" and "pfx_Bits p \<noteq> 32"
  shows "alloc_from t no p al (Addr4 x) =
    (if usable p x \<and> print4 x \<notin> set al then Inr (Some (print4 x))
     else alloc_from t no p al (addr_Next (Addr4 x)))"
proof -
  have "RangeSize no (toIPNet p) \<noteq> 1"
  proof -
    have "0 < 32 - pfx_Bits p" using assms(1,3) by (auto simp: v4_cidr_def)
    then obtain k where "32 - pfx_Bits p = Suc k" using gr0_implies_Suc by blast
    then have "cidr_size p \<noteq> 1" by (simp add: cidr_size_def)
    then show ?thesis unfolding toIPNet_laws(1) [OF laws assms(1)] by simp
  qed
  moreover have "usable p x \<longleftrightarrow> \<not> (unat x = cidr_base p \<or> unat x + 1 = cidr_base p + cidr_size p)"
    using assms(2) contains4 [OF assms(1)] by (auto simp: usable_def)
  ultimately show ?thesis
    using assms(2) by (subst alloc_from.simps) (simp add: isFirstLast4 [OF laws assms(1)] addr_String_def)
qed

lemma alloc_from_correct:
  assumes "v4_cidr p" and "pfx_Bits p \<noteq> 32"
  shows "\<lbrakk>unat x = 2 ^ 32 - n; prefix_Contains p (Addr4 x); n \<le> 2 ^ 32\<rbrakk> \<Longrightarrow>
    (\<exists>y. alloc_from t no p al (Addr4 x) = Inr (Some (print4 y)) \<and> usable p y \<and> print4 y \<notin> set al) \<or>
    alloc_from t no p al (Addr4 x) = Inr None \<and> (\<forall>y. unat x \<le> unat y \<and> usable p y \<longrightarrow> print4 y \<in> set al)"
proof (induction n arbitrary: x)
  case 0
  then show ?case using unsigned_less [of x, where ?'a = nat] by simp
next
  case (Suc n)
  let ?goal = "\<lambda>x. (\<exists>y. alloc_from t no p al (Addr4 x) = Inr (Some (print4 y)) \<and> usable p y \<and> print4 y \<notin> set al) \<or>
    alloc_from t no p al (Addr4 x) = Inr None \<and> (\<forall>y. unat x \<le> unat y \<and> usable p y \<longrightarrow> print4 y \<in> set al)"
  have unique: "unat x \<le> unat y \<Longrightarrow> unat y \<noteq> unat x \<Longrightarrow> Suc (unat x) \<le> unat y" for y by simp
  show ?case
  proof (cases "usable p x \<and> print4 x \<notin> set al")
    case True
    then show ?thesis using alloc_step [OF assms(1) Suc.prems(2) assms(2)] by auto
  next
    case False
    then have step: "alloc_from t no p al (Addr4 x) = alloc_from t no p al (addr_Next (Addr4 x))"
      using alloc_step [OF assms(1) Suc.prems(2) assms(2), of al] by (simp only: if_False)
    have here: "print4 y \<in> set al" if "usable p y" "unat y = unat x" for y
      using False that by (metis unsigned_word_eqI)
    show ?thesis
    proof (cases "x + 1 = 0 \<or> \<not> prefix_Contains p (Addr4 (x + 1))")
      case True
      then have none: "alloc_from t no p al (Addr4 x) = Inr None"
        unfolding step by (subst alloc_from.simps) (auto simp: addr_Next_def prefix_Contains_def split: netip_addr.splits)
      have "unat y = unat x" if "unat x \<le> unat y" "usable p y" for y
      proof (rule ccontr)
        assume "unat y \<noteq> unat x"
        then have less: "unat x + 1 \<le> unat y" using that(1) by simp
        then have next0: "x + 1 \<noteq> 0" using unsigned_less [of y, where ?'a = nat] unat_last [of x] by auto
        then have "prefix_Contains p (Addr4 (x + 1))"
          using less that(2) Suc.prems(2) unfolding contains4 [OF assms(1)] unat_next [OF next0] by (simp add: usable_def)
        with True next0 show False by blast
      qed
      then show ?thesis using none here by blast
    next
      case False
      then have next1: "addr_Next (Addr4 x) = Addr4 (x + 1)" "unat (x + 1) = Suc (unat x)"
        by (auto simp: addr_Next_def unat_next)
      moreover have "unat (x + 1) = 2 ^ 32 - n" "n \<le> 2 ^ 32" using Suc.prems next1(2) by simp_all
      ultimately have "?goal (x + 1)" using Suc.IH [of "x + 1"] False by blast
      then show ?thesis unfolding step next1(1) next1(2) using here unique by (metis le_eq_less_or_eq Suc_leI)
    qed
  qed
qed

end

context subnet_arith
begin

lemma inside_some_v4:
  assumes "list_all v4_cidr cs"
  shows "inside_some no (Addr4 x) cs = (if list_ex (\<lambda>p. usable p x) cs then None else Some ErrIPAddressOutOfRange)"
  using assms
proof (induction cs)
  case (Cons p cs)
  then have "usable p x \<longleftrightarrow> \<not> (unat x = cidr_base p \<or> unat x + 1 = cidr_base p + cidr_size p) \<and> prefix_Contains p (Addr4 x)"
    using contains4 [of p x] by (auto simp: usable_def)
  then show ?case using Cons by (simp add: isFirstLast4 [OF laws])
qed simp

lemma inside_iff:
  assumes "list_all v4_cidr cs" and "\<And>y z. inside_some no (Addr6 y z) cs \<noteq> None"
  shows "IsInsideOfRange t no cs s = None \<longleftrightarrow> (\<exists>x. s = print4 x \<and> list_ex (\<lambda>p. usable p x) cs)"
proof
  assume "IsInsideOfRange t no cs s = None"
  then obtain a where "ParseAddr t s = Some a" "a \<noteq> NoAddr" "inside_some no a cs = None"
    by (auto simp: IsInsideOfRange_def split: option.splits netip_addr.splits)
  moreover then obtain x where "a = Addr4 x" using assms(2) by (cases a) auto
  ultimately show "\<exists>x. s = print4 x \<and> list_ex (\<lambda>p. usable p x) cs"
    using inside_some_v4 [OF assms(1), of x] by (auto simp: ParseAddr_Addr4 split: if_splits)
next
  assume "\<exists>x. s = print4 x \<and> list_ex (\<lambda>p. usable p x) cs"
  then show "IsInsideOfRange t no cs s = None"
    using inside_some_v4 [OF assms(1)] by (auto simp: IsInsideOfRange_def ParseAddr_print4)
qed

lemma inside_v6:
  assumes "list_all v4_cidr cs"
  shows "inside_some no (Addr6 y z) cs \<noteq> None"
  using assms
proof (induction cs)
  case (Cons p cs)
  then have "\<not> prefix_Contains p (Addr6 y z)" using contains_v4_only by fastforce
  then show ?case using Cons by (auto split: sum.split)
qed simp

lemma alloc_range:
  assumes p: "v4_cidr p" and "pfx_Bits p \<noteq> 32" and "pfx_Addr p = prefix_Masked p"
  shows "(\<exists>y. alloc_from t no p al (pfx_Addr p) = Inr (Some (print4 y)) \<and> usable p y \<and> print4 y \<notin> set al) \<or>
    alloc_from t no p al (pfx_Addr p) = Inr None \<and> (\<forall>y. usable p y \<longrightarrow> print4 y \<in> set al)"
proof -
  obtain m where m: "prefix_Masked p = Addr4 m" "unat m = cidr_base p" using masked4 [OF p] by blast
  have "prefix_Contains p (Addr4 m)" using contains4 [OF p] m by (simp add: cidr_size_def)
  moreover have "unat m = 2 ^ 32 - (2 ^ 32 - unat m)" using unsigned_less [of m, where ?'a = nat] by simp
  ultimately have "(\<exists>y. alloc_from t no p al (Addr4 m) = Inr (Some (print4 y)) \<and> usable p y \<and> print4 y \<notin> set al) \<or>
    alloc_from t no p al (Addr4 m) = Inr None \<and> (\<forall>y. unat m \<le> unat y \<and> usable p y \<longrightarrow> print4 y \<in> set al)"
    using alloc_from_correct [OF assms(1,2), of m "2 ^ 32 - unat m" al] by simp
  then show ?thesis unfolding assms(3) m(1) m(2) by (auto simp: usable_def)
qed

lemma allocate_exact:
  assumes "list_all (\<lambda>p. v4_cidr p \<and> pfx_Bits p \<noteq> 32 \<and> pfx_Addr p = prefix_Masked p) cs"
  shows "(\<exists>y. AllocateNewIP t no cs al = Inr (print4 y) \<and> list_ex (\<lambda>p. usable p y) cs \<and> print4 y \<notin> set al) \<or>
    AllocateNewIP t no cs al = Inl NoRemainingIPs \<and> (\<forall>y. list_ex (\<lambda>p. usable p y) cs \<longrightarrow> print4 y \<in> set al)"
  using assms
proof (induction cs)
  case (Cons p cs)
  then have "(\<exists>y. alloc_from t no p al (pfx_Addr p) = Inr (Some (print4 y)) \<and> usable p y \<and> print4 y \<notin> set al) \<or>
    alloc_from t no p al (pfx_Addr p) = Inr None \<and> (\<forall>y. usable p y \<longrightarrow> print4 y \<in> set al)"
    by (intro alloc_range) simp_all
  then show ?case using Cons by auto
qed simp

end

interpretation exact_subnets: subnet_arith no_ip6 exact_net_ops
  by unfold_locales (rule exact_net_ops_laws)

lemma allocation_outcome:
  assumes "subnet_laws no"
    and "list_all (\<lambda>p. v4_cidr p \<and> pfx_Bits p \<noteq> 32 \<and> pfx_Addr p = prefix_Masked p) cidrs"
  shows "(\<exists>s. AllocateNewIP t no cidrs allocated = Inr s \<and> IsInsideOfRange t no cidrs s = None \<and> s \<notin> set allocated) \<or>
    AllocateNewIP t no cidrs allocated = Inl NoRemainingIPs \<and>
      (\<forall>s. IsInsideOfRange t no cidrs s = None \<longrightarrow> s \<in> set allocated)"
proof -
  have sub: "subnet_arith no" using assms(1) by unfold_locales
  have v4: "list_all v4_cidr cidrs" using assms(2) by (auto simp: list_all_iff)
  have inside: "IsInsideOfRange t no cidrs s = None \<longleftrightarrow> (\<exists>x. s = print4 x \<and> list_ex (\<lambda>p. usable p x) cidrs)" for s
    by (rule subnet_arith.inside_iff [OF sub v4 subnet_arith.inside_v6 [OF sub v4]])
  show ?thesis using subnet_arith.allocate_exact [OF sub assms(2), of t allocated] unfolding inside by blast
qed

text \<open>
  Claim C31: with IPv4 ranges that start at their base address and hold more than one address, the
  allocation of an address ends with an address that the admission check of ranges accepts and that is
  not allocated, or, when it reports that none remains, every address the check accepts is allocated.
\<close>

theorem AllocateNewIP_exact:
  assumes "subnet_laws no"
    and "list_all (\<lambda>p. v4_cidr p \<and> pfx_Bits p \<noteq> 32 \<and> pfx_Addr p = prefix_Masked p) cidrs"
  shows "(\<exists>s. AllocateNewIP t no cidrs allocated = Inr s \<and> IsInsideOfRange t no cidrs s = None \<and> s \<notin> set allocated) \<or>
    AllocateNewIP t no cidrs allocated = Inl NoRemainingIPs \<and>
      (\<forall>s. IsInsideOfRange t no cidrs s = None \<longrightarrow> s \<in> set allocated)"
  using assms by (rule allocation_outcome)

definition example_cidr :: netip_prefix where
  "example_cidr = \<lparr> pfx_Addr = Addr4 0x0a000000, pfx_Bits = 30 \<rparr>"

theorem AllocateNewIP_exact_witness:
  "(\<exists>s. AllocateNewIP no_ip6 exact_net_ops [example_cidr] [] = Inr s \<and>
      IsInsideOfRange no_ip6 exact_net_ops [example_cidr] s = None) \<or>
   (\<forall>s. IsInsideOfRange no_ip6 exact_net_ops [example_cidr] s \<noteq> None)"
proof -
  have "list_all (\<lambda>p. v4_cidr p \<and> pfx_Bits p \<noteq> 32 \<and> pfx_Addr p = prefix_Masked p) [example_cidr]"
    by (simp add: example_cidr_def v4_cidr_def prefix_Masked_def)
  from AllocateNewIP_exact [OF exact_net_ops_laws this, of no_ip6 "[]"] show ?thesis by auto
qed

text \<open>
  A range of a single address: the allocation hands the address out, but the check that follows it
  excludes the first and the last address of every range, and refuses it.
\<close>

lemma single_address_refused:
  assumes "subnet_laws no" and "pfx_Addr p = Addr4 x" and "pfx_Bits p = 32"
  shows "AllocateNewIP t no [p] [] = Inr (print4 x) \<and> IsInsideOfRange t no [p] (print4 x) = Some ErrIPAddressOutOfRange"
proof -
  have p: "v4_cidr p" using assms(2,3) by (simp add: v4_cidr_def)
  have size: "cidr_base p = unat x" "cidr_size p = 1" using assms(2,3) by (simp_all add: cidr_base_def cidr_size_def)
  have "prefix_Contains p (Addr4 x)" using contains4 [OF p] size by simp
  then have "alloc_from t no p [] (Addr4 x) = Inr (Some (print4 x))"
    using toIPNet_laws(1) [OF assms(1) p] size by (subst alloc_from.simps) (simp add: addr_String_def)
  moreover have "\<not> usable p x" using size by (simp add: usable_def)
  moreover have "subnet_arith no" using assms(1) by unfold_locales
  ultimately show ?thesis
    using assms(2) subnet_arith.inside_some_v4 [of no "[p]" x] p
    by (simp add: IsInsideOfRange_def ParseAddr_print4)
qed

end
