(* ===== verification/IPLeases.thy ===== *)
theory IPLeases
  imports IPAddresses Reconciler NetworkSpec
begin

text \<open>
  The controllers of IP addresses and of their leases: lookup of leases
  (\<^verbatim>\<open>controller/vmip/internal/service\<close>), the steps that bind an address
  (\<^verbatim>\<open>controller/vmip/internal/step\<close>, \<^verbatim>\<open>common/steptaker\<close>), the handlers of both controllers
  (\<^verbatim>\<open>controller/vmip/internal\<close>, \<^verbatim>\<open>controller/vmiplease/internal\<close>) and their webhooks.

  What a pass reads is a parameter, the record \<open>ip_env\<close>: a read gives an error or a value, and a read of
  one object may find none.  Calls that change something go through the server of \<^verbatim>\<open>Effects\<close>.
\<close>

section \<open>Resources\<close>

record owner_ref =
  own_Kind :: string
  own_Name :: string
  own_UID :: string

record vmip =
  ip_Name :: string
  ip_Namespace :: string
  ip_UID :: string
  ip_Generation :: int
  ip_Deleting :: bool
  ip_Labels :: str_map
  ip_OwnerReferences :: "owner_ref list"
  ip_Finalizers :: "string list"
  ip_Type :: string
  ip_StaticIP :: string
  ip_VirtualMachine :: string
  ip_Address :: string
  ip_Phase :: string
  ip_ObservedGeneration :: int
  ip_Conditions :: "condition list"

record lease_ref =
  lr_Namespace :: string
  lr_Name :: string

record lease =
  le_Name :: string
  le_Generation :: int
  le_Deleting :: bool
  le_Labels :: str_map
  le_Finalizers :: "string list"
  le_Ref :: "lease_ref option"
  le_Phase :: string
  le_ObservedGeneration :: int
  le_Conditions :: "condition list"

abbreviation TypeAuto :: string where "TypeAuto \<equiv> ''Auto''"
abbreviation TypeStatic :: string where "TypeStatic \<equiv> ''Static''"

abbreviation IPPhasePending :: string where "IPPhasePending \<equiv> ''Pending''"
abbreviation IPPhaseBound :: string where "IPPhaseBound \<equiv> ''Bound''"
abbreviation IPPhaseAttached :: string where "IPPhaseAttached \<equiv> ''Attached''"
abbreviation LeasePhaseReleased :: string where "LeasePhaseReleased \<equiv> ''Released''"

abbreviation BoundType :: string where "BoundType \<equiv> ''Bound''"
abbreviation AttachedType :: string where "AttachedType \<equiv> ''Attached''"
abbreviation ReasonBound :: string where "ReasonBound \<equiv> ''Bound''"
abbreviation ReasonReleased :: string where "ReasonReleased \<equiv> ''Released''"
abbreviation LeaseNotReady :: string where "LeaseNotReady \<equiv> ''VirtualMachineIPAddressLeaseNotReady''"
abbreviation LeaseNotFound :: string where "LeaseNotFound \<equiv> ''VirtualMachineIPAddressLeaseNotFound''"
abbreviation LeaseLost :: string where "LeaseLost \<equiv> ''VirtualMachineIPAddressLeaseLost''"
abbreviation LeaseAlreadyExists :: string where "LeaseAlreadyExists \<equiv> ''VirtualMachineIPAddressLeaseAlreadyExists''"
abbreviation OutOfTheValidRange :: string where
  "OutOfTheValidRange \<equiv> ''VirtualMachineIPAddressIsOutOfTheValidRange''"

abbreviation LabelIPAddressUID :: string where
  "LabelIPAddressUID \<equiv> ''virtualization.deckhouse.io/virtual-machine-ip-address-uid''"
abbreviation LabelVMUID :: string where "LabelVMUID \<equiv> ''virtualization.deckhouse.io/virtual-machine-uid''"
abbreviation FinalizerIPAddressCleanup :: string where
  "FinalizerIPAddressCleanup \<equiv> ''virtualization.deckhouse.io/vmip-cleanup''"
abbreviation FinalizerIPAddressProtection :: string where
  "FinalizerIPAddressProtection \<equiv> ''virtualization.deckhouse.io/vmip-protection''"
abbreviation FinalizerIPAddressLeaseCleanup :: string where
  "FinalizerIPAddressLeaseCleanup \<equiv> ''virtualization.deckhouse.io/vmipl-cleanup''"

text \<open>A missing label reads as the empty string.\<close>

definition label_value :: "str_map \<Rightarrow> string \<Rightarrow> string" where
  "label_value m k = (case map_of (map_entries m) k of None \<Rightarrow> '''' | Some v \<Rightarrow> v)"

definition AddLabel :: "string \<Rightarrow> string \<Rightarrow> str_map \<Rightarrow> str_map" where
  "AddLabel k v m = Some (AList.update k v (map_entries m))"

datatype read_error = TooManyRequests | ReadFailed

record 'q ip_env =
  ie_CachedLease :: "string \<Rightarrow> read_error + lease option"
  ie_Lease :: "string \<Rightarrow> read_error + lease option"
  ie_CachedLeasesByUID :: "string \<Rightarrow> read_error + lease list"
  ie_LeasesByUID :: "string \<Rightarrow> read_error + lease list"
  ie_Leases :: "read_error + lease list"
  ie_VMs :: "read_error + 'q virtual_machine list"
  ie_VM :: "string \<Rightarrow> read_error + 'q virtual_machine option"
  ie_Clock :: "nat \<Rightarrow> int"

record ip_service =
  svc_Text :: ip6_text
  svc_Net :: net_ops
  svc_CIDRs :: "netip_prefix list"

text \<open>
  An update carries the version of the object it was computed from, which the server compares with the
  stored one: the lease that was read, or \<open>None\<close> for the answer to the call before.  \<open>StoreVMIP\<close> and
  \<open>StoreLease\<close> stand for the update of status and metadata by \<^verbatim>\<open>Resource.Update\<close>.
\<close>

datatype ip_call =
  CreateLease lease | UpdateLease "lease option" lease | DeleteLease string | StoreVMIP vmip | StoreLease lease

type_synonym 'a ip_run = "(ip_call, 'a) run"

section \<open>ip\_address\_service.go and reference.go: leases\<close>

definition getAssignedIPAddress :: "vmip \<Rightarrow> string" where
  "getAssignedIPAddress vmip =
     (if ip_StaticIP vmip \<noteq> '''' then ip_StaticIP vmip
      else if ip_Address vmip \<noteq> '''' then ip_Address vmip else '''')"

definition GetAllocatedIPs :: "'q ip_env \<Rightarrow> read_error + string list" where
  "GetAllocatedIPs env =
     (case ie_Leases env of Inl e \<Rightarrow> Inl e | Inr leases \<Rightarrow> Inr (map (LeaseNameToIP \<circ> le_Name) leases))"

definition getLeaseByIPAddress :: "ip_service \<Rightarrow> 'q ip_env \<Rightarrow> string \<Rightarrow> read_error + lease option" where
  "getLeaseByIPAddress s env ipAddress =
     (case ie_CachedLease env (IPToLeaseName (svc_Text s) ipAddress) of
        Inl e \<Rightarrow> Inl e
      | Inr (Some lease) \<Rightarrow> Inr (Some lease)
      | Inr None \<Rightarrow> ie_Lease env (IPToLeaseName (svc_Text s) ipAddress))"

definition getLeaseByLabel :: "'q ip_env \<Rightarrow> vmip \<Rightarrow> read_error + lease option" where
  "getLeaseByLabel env vmip =
     (case ie_CachedLeasesByUID env (ip_UID vmip) of
        Inl e \<Rightarrow> Inl e
      | Inr [lease] \<Rightarrow> Inr (Some lease)
      | Inr (_ # _ # _) \<Rightarrow> Inl ReadFailed
      | Inr [] \<Rightarrow>
          (case ie_LeasesByUID env (ip_UID vmip) of
             Inl e \<Rightarrow> Inl e
           | Inr [] \<Rightarrow> Inr None
           | Inr [lease] \<Rightarrow> Inr (Some lease)
           | Inr (_ # _ # _) \<Rightarrow> Inl ReadFailed))"

definition GetLease :: "ip_service \<Rightarrow> 'q ip_env \<Rightarrow> vmip \<Rightarrow> read_error + lease option" where
  "GetLease s env vmip =
     (let ipAddress = getAssignedIPAddress vmip
      in if ipAddress \<noteq> '''' then getLeaseByIPAddress s env ipAddress else getLeaseByLabel env vmip)"

definition HasReference :: "vmip \<Rightarrow> lease option \<Rightarrow> bool" where
  "HasReference vmip lease =
     (case lease of
        None \<Rightarrow> False
      | Some l \<Rightarrow>
          (case le_Ref l of
             None \<Rightarrow> False
           | Some vmipRef \<Rightarrow> lr_Name vmipRef = ip_Name vmip \<and> lr_Namespace vmipRef = ip_Namespace vmip))"

section \<open>steptaker and the steps of binding\<close>

text \<open>
  A step works on the address and on the builder of its condition; it fails, ends the sequence with a
  result, or leaves the rest to the next step.
\<close>

type_synonym 's step_taker = "'s \<Rightarrow> ('s \<times> (rec_error + reconcile_result option)) ip_run"

fun StepTakers_Run :: "'s step_taker list \<Rightarrow> 's \<Rightarrow> ('s \<times> reconcile_result \<times> rec_error option) ip_run" where
  "StepTakers_Run [] r = ret (r, no_requeue, Some (OtherError ''none of the steps returned a final result''))"
| "StepTakers_Run (s # steps) r =
     bind_run (s r) (\<lambda>(r, res).
       case res of
         Inl e \<Rightarrow> ret (r, no_requeue, Some e)
       | Inr (Some result) \<Rightarrow> ret (r, result, None)
       | Inr None \<Rightarrow> StepTakers_Run steps r)"

definition cb_set :: "string \<Rightarrow> string \<Rightarrow> string \<Rightarrow> condition_builder \<Rightarrow> condition_builder" where
  "cb_set status reason message cb = builder_Message message (builder_Reason reason (builder_Status status cb))"

definition BindStep_Take :: "lease option \<Rightarrow> (vmip \<times> condition_builder) step_taker" where
  "BindStep_Take lease = (\<lambda>(vmip0, cb).
     let vmip = (case lease of None \<Rightarrow> vmip0 | Some l \<Rightarrow> vmip0\<lparr> ip_Address := LeaseNameToIP (le_Name l) \<rparr>)
     in case lease of
          None \<Rightarrow> ret ((vmip, cb), Inr None)
        | Some l \<Rightarrow>
            if \<not> HasReference vmip lease then ret ((vmip, cb), Inr None)
            else (let boundCondition = fst (GetCondition BoundType (le_Conditions l))
                  in if cond_Status boundCondition \<noteq> ConditionTrue \<or> \<not> IsLastUpdated boundCondition (le_Generation l)
                     then ret ((vmip, cb_set ConditionFalse LeaseNotReady (le_Name l) cb), Inr (Some no_requeue))
                     else ret ((vmip, cb_set ConditionTrue ReasonBound '''' cb), Inr (Some no_requeue))))"

definition TakeLeaseStep_Take :: "ip_call api_server \<Rightarrow> lease option \<Rightarrow> (vmip \<times> condition_builder) step_taker" where
  "TakeLeaseStep_Take api lease = (\<lambda>(vmip, cb).
     case lease of
       None \<Rightarrow> ret ((vmip, cb), Inr None)
     | Some l \<Rightarrow>
         (let refNamespace = (case le_Ref l of None \<Rightarrow> '''' | Some r \<Rightarrow> lr_Namespace r);
              refName = (case le_Ref l of None \<Rightarrow> '''' | Some r \<Rightarrow> lr_Name r)
          in if refNamespace \<noteq> '''' \<and> refNamespace \<noteq> ip_Namespace vmip
             then bind_run (event LeaseAlreadyExists) (\<lambda>_.
                    ret ((vmip, cb_set ConditionFalse LeaseNotReady (le_Name l) cb), Inr (Some no_requeue)))
             else if refName \<noteq> '''' \<or> label_value (le_Labels l) LabelIPAddressUID \<noteq> ''''
             then ret ((vmip, cb_set ConditionFalse LeaseNotReady (le_Name l) cb), Inr (Some no_requeue))
             else (let taken = l\<lparr> le_Ref := Some \<lparr> lr_Namespace = ip_Namespace vmip, lr_Name = ip_Name vmip \<rparr>,
                               le_Labels := AddLabel LabelIPAddressUID (ip_UID vmip) (le_Labels l) \<rparr>
                   in bind_run (call api (UpdateLease (Some l) taken)) (\<lambda>r.
                        if r \<noteq> OK
                        then ret ((vmip, cb_set ConditionFalse LeaseNotReady ''failed to update the lease'' cb), Inl (APIError r))
                        else ret ((vmip, cb_set ConditionFalse LeaseNotReady (le_Name l) cb), Inr (Some no_requeue))))))"

definition buildVirtualMachineIPAddressLease :: "ip_service \<Rightarrow> vmip \<Rightarrow> string \<Rightarrow> lease" where
  "buildVirtualMachineIPAddressLease s vmip ipAddress =
     \<lparr> le_Name = IPToLeaseName (svc_Text s) ipAddress, le_Generation = 0, le_Deleting = False,
       le_Labels = Some [(LabelIPAddressUID, ip_UID vmip)], le_Finalizers = [],
       le_Ref = Some \<lparr> lr_Namespace = ip_Namespace vmip, lr_Name = ip_Name vmip \<rparr>,
       le_Phase = '''', le_ObservedGeneration = 0, le_Conditions = [] \<rparr>"

text \<open>The checks of \<^verbatim>\<open>CreateLeaseStep\<close> on the address it is about to lease, and the creation.\<close>

definition create_lease :: "ip_call api_server \<Rightarrow> ip_service \<Rightarrow> string list \<Rightarrow> string \<Rightarrow>
    (vmip \<times> condition_builder) step_taker" where
  "create_lease api s allocatedIPs ipAddress = (\<lambda>(vmip, cb).
     case IsInsideOfRange (svc_Text s) (svc_Net s) (svc_CIDRs s) ipAddress of
       Some ErrIPAddressOutOfRange \<Rightarrow>
         bind_run (event ''Failed'') (\<lambda>_.
           ret ((vmip, cb_set ConditionFalse OutOfTheValidRange (ip_StaticIP vmip) cb), Inr (Some no_requeue)))
     | Some e \<Rightarrow>
         ret ((vmip, cb_set ConditionFalse LeaseNotReady ''failed to check availability of IP address'' cb),
              Inl (OtherError ''failed to check availability of IP address''))
     | None \<Rightarrow>
         if ipAddress \<in> set allocatedIPs
         then bind_run (event ''Bound'') (\<lambda>_.
                ret ((vmip, cb_set ConditionFalse LeaseAlreadyExists ipAddress cb), Inr (Some no_requeue)))
         else bind_run (call api (CreateLease (buildVirtualMachineIPAddressLease s vmip ipAddress))) (\<lambda>r.
                if r = OK
                then bind_run (event ''Bound'') (\<lambda>_.
                       ret ((vmip, cb_set ConditionFalse LeaseNotReady ipAddress cb), Inr (Some no_requeue)))
                else if r = AlreadyExistsErr
                then ret ((vmip, cb_set ConditionFalse LeaseNotFound '''' cb), Inr (Some (requeue_after 2000000000)))
                else ret ((vmip, cb_set ConditionFalse LeaseNotFound ''failed to create a new lease'' cb), Inl (APIError r))))"

definition CreateLeaseStep_Take :: "ip_call api_server \<Rightarrow> ip_service \<Rightarrow> 'q ip_env \<Rightarrow> lease option \<Rightarrow>
    (vmip \<times> condition_builder) step_taker" where
  "CreateLeaseStep_Take api s env lease = (\<lambda>(vmip, cb).
     if lease \<noteq> None
     then ret ((vmip, cb_set ConditionFalse LeaseNotReady ''already exists'' cb), Inl (OtherError ''already exists''))
     else if ip_Address vmip \<noteq> ''''
     then bind_run (event ''Failed'') (\<lambda>_.
            ret ((vmip, cb_set ConditionFalse LeaseLost (IPToLeaseName (svc_Text s) (ip_Address vmip)) cb),
                 Inr (Some no_requeue)))
     else case GetAllocatedIPs env of
            Inl e \<Rightarrow>
              ret ((vmip, cb_set ConditionFalse LeaseNotReady ''failed to get allocated IP addresses'' cb),
                   Inl (OtherError ''failed to get allocated IP addresses''))
          | Inr allocatedIPs \<Rightarrow>
              (case (if ip_Type vmip = TypeStatic then Inr (ip_StaticIP vmip)
                     else AllocateNewIP (svc_Text s) (svc_Net s) (svc_CIDRs s) allocatedIPs) of
                 Inl e \<Rightarrow>
                   ret ((vmip, cb_set ConditionFalse LeaseNotReady ''failed to allocate new IP address'' cb),
                        Inl (OtherError ''failed to allocate new IP address''))
               | Inr ipAddress \<Rightarrow> create_lease api s allocatedIPs ipAddress (vmip, cb)))"

section \<open>Handlers of addresses\<close>

definition set_ip_condition :: "'q ip_env \<Rightarrow> nat \<Rightarrow> condition_builder \<Rightarrow> vmip \<Rightarrow> vmip" where
  "set_ip_condition env k cb vmip =
     vmip\<lparr> ip_Conditions :=
       SetCondition (ie_Clock env (2 * k)) (ie_Clock env (2 * k + 1)) (builder_Condition cb) (ip_Conditions vmip) \<rparr>"

definition BoundHandler_Handle :: "ip_call api_server \<Rightarrow> ip_service \<Rightarrow> 'q ip_env \<Rightarrow> (ip_call, vmip) executor" where
  "BoundHandler_Handle api s env vmip =
     (let cb = builder_Generation (ip_Generation vmip) (NewConditionBuilder BoundType)
      in case GetLease s env vmip of
           Inl e \<Rightarrow>
             (let vmip' = set_ip_condition env 0 (cb_set ConditionFalse LeaseNotReady ''error occurred'' cb) vmip
              in if e = TooManyRequests then ret (vmip', requeue_after 5000000000, None)
                 else ret (vmip', no_requeue, Some (OtherError ''error occurred'')))
         | Inr lease \<Rightarrow>
             bind_run (StepTakers_Run
                 [BindStep_Take lease, TakeLeaseStep_Take api lease, CreateLeaseStep_Take api s env lease] (vmip, cb))
               (\<lambda>((vmip, cb), result, e). ret (set_ip_condition env 0 cb vmip, result, e)))"

fun find_attached :: "string \<Rightarrow> 'q virtual_machine option \<Rightarrow> 'q virtual_machine list \<Rightarrow> 'q virtual_machine option" where
  "find_attached name attachedVM [] = attachedVM"
| "find_attached name attachedVM (vm # vms) =
     (if StatusVirtualMachineIPAddress (vm_Status vm) = name then Some vm
      else if attachedVM = None \<and> VirtualMachineIPAddress (vm_Spec vm) = name then find_attached name (Some vm) vms
      else find_attached name attachedVM vms)"

definition owner_vm_name :: "vmip \<Rightarrow> string" where
  "owner_vm_name vmip =
     (case List.find (\<lambda>r. own_Kind r = ''VirtualMachine'' \<and> own_UID r = label_value (ip_Labels vmip) LabelVMUID)
         (ip_OwnerReferences vmip) of
        None \<Rightarrow> '''' | Some r \<Rightarrow> own_Name r)"

definition attached_or_none :: "'q virtual_machine option \<Rightarrow> 'q virtual_machine option" where
  "attached_or_none attachedVM =
     (case attachedVM of
        None \<Rightarrow> None
      | Some vm \<Rightarrow>
          if vm_Deleting vm \<and> VirtualMachinePods (vm_Status vm) = [] then None
          else if HasMainNetworkStatus (StatusNetworks (vm_Status vm)) then Some vm
          else if HasMainNetworkSpec (slice (Networks (vm_Spec vm))) then Some vm
          else None)"

definition getAttachedVirtualMachine :: "'q ip_env \<Rightarrow> vmip \<Rightarrow> read_error + 'q virtual_machine option" where
  "getAttachedVirtualMachine env vmip =
     (case ie_VMs env of
        Inl e \<Rightarrow> Inl e
      | Inr vms \<Rightarrow>
          (case find_attached (ip_Name vmip) None vms of
             Some vm \<Rightarrow> Inr (attached_or_none (Some vm))
           | None \<Rightarrow>
               if owner_vm_name vmip = '''' then Inr None
               else (case ie_VM env (owner_vm_name vmip) of
                       Inl e \<Rightarrow> Inl e
                     | Inr vm \<Rightarrow> Inr (attached_or_none vm))))"

definition AttachedHandler_Handle :: "'q ip_env \<Rightarrow> (ip_call, vmip) executor" where
  "AttachedHandler_Handle env vmip =
     (let cb = builder_Generation (ip_Generation vmip) (NewConditionBuilder AttachedType)
      in case getAttachedVirtualMachine env vmip of
           Inl e \<Rightarrow>
             ret (set_ip_condition env 1 (cb_set ConditionUnknown ''Unknown'' ''Failed to get attached virtual machine'' cb) vmip,
                  no_requeue, Some (OtherError ''get attached vm''))
         | Inr None \<Rightarrow>
             bind_run (event ''NotAttached'') (\<lambda>_.
               ret (set_ip_condition env 1 (cb_set ConditionFalse ''VirtualMachineNotFound'' '''' cb)
                      (vmip\<lparr> ip_VirtualMachine := '''' \<rparr>), no_requeue, None))
         | Inr (Some vm) \<Rightarrow>
             bind_run (event ''Attached'') (\<lambda>_.
               ret (set_ip_condition env 1 (cb_set ConditionTrue ''Attached'' '''' cb)
                      (vmip\<lparr> ip_VirtualMachine := vm_Name vm \<rparr>), no_requeue, None)))"

definition IPLifecycleHandler_Handle :: "(ip_call, vmip) executor" where
  "IPLifecycleHandler_Handle vmip =
     (let boundCondition = fst (GetCondition BoundType (ip_Conditions vmip));
          attachedCondition = fst (GetCondition AttachedType (ip_Conditions vmip))
      in if cond_Status boundCondition \<noteq> ConditionTrue \<or> \<not> IsLastUpdated boundCondition (ip_Generation vmip)
         then ret (vmip\<lparr> ip_Phase := IPPhasePending \<rparr>, no_requeue, None)
         else if cond_Status attachedCondition \<noteq> ConditionTrue \<or> \<not> IsLastUpdated boundCondition (ip_Generation vmip)
         then bind_run (if ip_Phase vmip \<noteq> IPPhaseBound then event ''Bound'' else ret ()) (\<lambda>_.
                ret (vmip\<lparr> ip_Phase := IPPhaseBound \<rparr>, no_requeue, None))
         else ret (vmip\<lparr> ip_Phase := IPPhaseAttached \<rparr>, no_requeue, None))"

definition IPProtectionHandler_Handle :: "finalizer_ops \<Rightarrow> (ip_call, vmip) executor" where
  "IPProtectionHandler_Handle fo vmip0 =
     (let vmip = vmip0\<lparr> ip_Finalizers := fin_Add fo FinalizerIPAddressCleanup (ip_Finalizers vmip0) \<rparr>;
          attachedCondition = fst (GetCondition AttachedType (ip_Conditions vmip))
      in if \<not> ip_Deleting vmip then ret (vmip, no_requeue, None)
         else if cond_Status attachedCondition = ConditionTrue \<or> \<not> IsLastUpdated attachedCondition (ip_Generation vmip)
         then ret (vmip, no_requeue, None)
         else ret (vmip\<lparr> ip_Finalizers := fin_Remove fo FinalizerIPAddressProtection
                     (fin_Remove fo FinalizerIPAddressCleanup (ip_Finalizers vmip)) \<rparr>, no_requeue, None))"

text \<open>
  \<^verbatim>\<open>Reconcile\<close> of the address controller: the handlers in the order of \<^verbatim>\<open>NewController\<close>, then the update of
  the resource, one call here.
\<close>

datatype vmip_handler = BoundHandler | AttachedHandler | IPLifecycleHandler | IPProtectionHandler

definition vmip_handlers :: "vmip_handler list" where
  "vmip_handlers = [BoundHandler, AttachedHandler, IPLifecycleHandler, IPProtectionHandler]"

fun vmip_execute :: "ip_call api_server \<Rightarrow> ip_service \<Rightarrow> finalizer_ops \<Rightarrow> 'q ip_env \<Rightarrow> vmip_handler \<Rightarrow>
    (ip_call, vmip) executor" where
  "vmip_execute api s fo env BoundHandler = BoundHandler_Handle api s env"
| "vmip_execute api s fo env AttachedHandler = AttachedHandler_Handle env"
| "vmip_execute api s fo env IPLifecycleHandler = IPLifecycleHandler_Handle"
| "vmip_execute api s fo env IPProtectionHandler = IPProtectionHandler_Handle fo"

definition api_error :: "api_outcome \<Rightarrow> rec_error option" where
  "api_error r = (if r = OK then None else Some (APIError r))"

definition store_vmip :: "ip_call api_server \<Rightarrow> vmip \<Rightarrow> rec_error option ip_run" where
  "store_vmip api vmip =
     bind_run (call api (StoreVMIP (vmip\<lparr> ip_ObservedGeneration := ip_Generation vmip \<rparr>))) (\<lambda>r. ret (api_error r))"

definition VMIPReconciler_Reconcile :: "ip_call api_server \<Rightarrow> ip_service \<Rightarrow> finalizer_ops \<Rightarrow> 'q ip_env \<Rightarrow> vmip option \<Rightarrow>
    (reconcile_result \<times> rec_error list) ip_run" where
  "VMIPReconciler_Reconcile api s fo env vmip =
     (case vmip of
        None \<Rightarrow> ret (no_requeue, [])
      | Some v \<Rightarrow>
          BaseReconciler_Reconcile (Some (vmip_execute api s fo env)) (Some (store_vmip api)) (\<lambda>h. None) vmip_handlers v)"

section \<open>Handlers of leases\<close>

record lease_env =
  lv_VMIP :: "string \<Rightarrow> string \<Rightarrow> read_error + vmip option"
  lv_Clock :: "nat \<Rightarrow> int"
  lv_Now :: int

definition isBound :: "lease \<Rightarrow> vmip option \<Rightarrow> bool" where
  "isBound lease vmip =
     (case vmip of
        None \<Rightarrow> False
      | Some v \<Rightarrow>
          (case le_Ref lease of
             None \<Rightarrow> False
           | Some vmipRef \<Rightarrow>
               if ip_Name v \<noteq> lr_Name vmipRef \<or> ip_Namespace v \<noteq> lr_Namespace vmipRef then False
               else if ip_Address v \<noteq> '''' \<and> ip_Address v \<noteq> LeaseNameToIP (le_Name lease) then False
               else True))"

definition set_lease_condition :: "lease_env \<Rightarrow> condition_builder \<Rightarrow> lease \<Rightarrow> lease" where
  "set_lease_condition env cb lease =
     lease\<lparr> le_Conditions := SetCondition (lv_Clock env 0) (lv_Clock env 1) (builder_Condition cb) (le_Conditions lease) \<rparr>"

text \<open>The reference is dereferenced before the object is fetched: a lease without one panics.\<close>

definition LeaseLifecycleHandler_Handle :: "lease_env \<Rightarrow> (ip_call, lease) executor" where
  "LeaseLifecycleHandler_Handle env lease =
     (let cb = builder_Generation (le_Generation lease) (NewConditionBuilder BoundType)
      in case le_Ref lease of
           None \<Rightarrow> panic
         | Some ref \<Rightarrow>
             (case lv_VMIP env (lr_Namespace ref) (lr_Name ref) of
                Inl e \<Rightarrow>
                  ret (set_lease_condition env (cb_set ConditionUnknown ''Unknown'' ''Failed to fetch'' cb) lease,
                       no_requeue, Some (OtherError ''fetch vmip''))
              | Inr vmip \<Rightarrow>
                  if isBound lease vmip
                  then bind_run (if le_Phase lease \<noteq> ''Bound'' then event ''Bound'' else ret ()) (\<lambda>_.
                         ret (set_lease_condition env (cb_set ConditionTrue ReasonBound '''' cb)
                                (lease\<lparr> le_Labels := AddLabel LabelIPAddressUID (ip_UID (the vmip)) (le_Labels lease),
                                        le_Phase := ''Bound'' \<rparr>), no_requeue, None))
                  else bind_run (if le_Phase lease \<noteq> LeasePhaseReleased then event ''Released'' else ret ()) (\<lambda>_.
                         ret (set_lease_condition env (cb_set ConditionFalse ReasonReleased '''' cb)
                                (lease\<lparr> le_Labels := AddLabel LabelIPAddressUID '''' (le_Labels lease),
                                        le_Ref := Some (ref\<lparr> lr_Name := '''' \<rparr>),
                                        le_Phase := LeasePhaseReleased \<rparr>), no_requeue, None))))"

definition verified_released :: "lease \<Rightarrow> bool" where
  "verified_released lease \<longleftrightarrow>
     (let boundCondition = fst (GetCondition BoundType (le_Conditions lease))
      in cond_Reason boundCondition = ReasonReleased \<and> IsLastUpdated boundCondition (le_Generation lease))"

definition LeaseProtectionHandler_Handle :: "finalizer_ops \<Rightarrow> (ip_call, lease) executor" where
  "LeaseProtectionHandler_Handle fo lease0 =
     (let lease = lease0\<lparr> le_Finalizers := fin_Add fo FinalizerIPAddressLeaseCleanup (le_Finalizers lease0) \<rparr>
      in if \<not> le_Deleting lease then ret (lease, no_requeue, None)
         else if \<not> verified_released lease then ret (lease, no_requeue, None)
         else ret (lease\<lparr> le_Finalizers := fin_Remove fo FinalizerIPAddressLeaseCleanup (le_Finalizers lease) \<rparr>,
                   no_requeue, None))"

definition LeaseRetentionHandler_Handle :: "ip_call api_server \<Rightarrow> int \<Rightarrow> lease_env \<Rightarrow> (ip_call, lease) executor" where
  "LeaseRetentionHandler_Handle api retentionDuration env lease =
     (let boundCondition = fst (GetCondition BoundType (le_Conditions lease));
          duration = lv_Now env - cond_LastTransitionTime boundCondition
      in if verified_released lease
         then (if duration \<ge> retentionDuration
               then bind_run (call api (DeleteLease (le_Name lease))) (\<lambda>r.
                      if r \<noteq> OK \<and> r \<noteq> NotFoundErr then ret (lease, no_requeue, Some (APIError r))
                      else ret (lease, no_requeue, None))
               else ret (lease, requeue_after (retentionDuration - duration), None))
         else ret (lease, no_requeue, None))"

datatype lease_handler = LeaseLifecycleHandler | LeaseProtectionHandler | LeaseRetentionHandler

definition lease_handlers :: "lease_handler list" where
  "lease_handlers = [LeaseLifecycleHandler, LeaseProtectionHandler, LeaseRetentionHandler]"

fun lease_execute :: "ip_call api_server \<Rightarrow> finalizer_ops \<Rightarrow> int \<Rightarrow> lease_env \<Rightarrow> lease_handler \<Rightarrow> (ip_call, lease) executor" where
  "lease_execute api fo d env LeaseLifecycleHandler = LeaseLifecycleHandler_Handle env"
| "lease_execute api fo d env LeaseProtectionHandler = LeaseProtectionHandler_Handle fo"
| "lease_execute api fo d env LeaseRetentionHandler = LeaseRetentionHandler_Handle api d env"

text \<open>
  The update of a lease stores its status and metadata and then, when the handlers changed it, its
  specification, which the answer to the status update has overwritten in the meantime.
\<close>

definition store_lease :: "ip_call api_server \<Rightarrow> lease \<Rightarrow> lease \<Rightarrow> rec_error option ip_run" where
  "store_lease api current changed0 =
     (let changed = changed0\<lparr> le_ObservedGeneration := le_Generation changed0 \<rparr>
      in bind_run (call api (StoreLease changed)) (\<lambda>r.
           if r \<noteq> OK \<and> r \<noteq> NotFoundErr then ret (Some (APIError r))
           else if le_Ref current \<noteq> le_Ref changed
           then bind_run (call api (UpdateLease None changed)) (\<lambda>r.
                  if r \<noteq> OK \<and> r \<noteq> NotFoundErr then ret (Some (APIError r)) else ret None)
           else ret None))"

definition LeaseReconciler_Reconcile :: "ip_call api_server \<Rightarrow> finalizer_ops \<Rightarrow> int \<Rightarrow> lease_env \<Rightarrow> lease option \<Rightarrow>
    (reconcile_result \<times> rec_error list) ip_run" where
  "LeaseReconciler_Reconcile api fo retentionDuration env lease =
     (case lease of
        None \<Rightarrow> ret (no_requeue, [])
      | Some l \<Rightarrow>
          BaseReconciler_Reconcile (Some (lease_execute api fo retentionDuration env)) (Some (store_lease api l))
            (\<lambda>h. None) lease_handlers l)"

section \<open>Webhooks\<close>

datatype vmip_rejection =
  CIDRsNotConfigured | StaticIPRequired | StaticIPInvalid string | StaticIPNotAllowed | InvalidType string
| OutOfRange string | AvailabilityError ip_error | AllocatedUnreadable | LeaseUnreadable | AlreadyAllocated string
| OnlyTypeChange string string | TypeChangeWhileBound | StaticIPChangeWhileBound

definition isValidAddressFormat :: "ip6_text \<Rightarrow> string \<Rightarrow> bool" where
  "isValidAddressFormat t address \<longleftrightarrow> ParseIP t address \<noteq> None"

definition validateSpecFields :: "ip_service \<Rightarrow> vmip \<Rightarrow> vmip_rejection option" where
  "validateSpecFields s vmip =
     (if ip_Type vmip = TypeStatic then
        (if ip_StaticIP vmip = '''' then Some StaticIPRequired
         else if \<not> isValidAddressFormat (svc_Text s) (ip_StaticIP vmip) then Some (StaticIPInvalid (ip_StaticIP vmip))
         else None)
      else if ip_Type vmip = TypeAuto then
        (if ip_StaticIP vmip \<noteq> '''' then Some StaticIPNotAllowed else None)
      else Some (InvalidType (ip_Type vmip)))"

definition validateAllocatedIPAddresses :: "ip_service \<Rightarrow> 'q ip_env \<Rightarrow> string \<Rightarrow> vmip_rejection option" where
  "validateAllocatedIPAddresses s env ipAddress =
     (case IsInsideOfRange (svc_Text s) (svc_Net s) (svc_CIDRs s) ipAddress of
        Some e \<Rightarrow> Some (AvailabilityError e)
      | None \<Rightarrow>
          (case GetAllocatedIPs env of
             Inl e \<Rightarrow> Some AllocatedUnreadable
           | Inr allocatedIPs \<Rightarrow>
               if ipAddress \<in> set allocatedIPs
               then (case ie_CachedLease env (IPToLeaseName (svc_Text s) ipAddress) of
                       Inl e \<Rightarrow> Some LeaseUnreadable
                     | Inr None \<Rightarrow> None
                     | Inr (Some lease) \<Rightarrow>
                         if cond_Reason (fst (GetCondition BoundType (le_Conditions lease))) \<noteq> ReasonReleased
                         then Some (AlreadyAllocated ipAddress) else None)
               else None))"

definition validateVirtualMachineCIDRsConfigured :: "string list \<Rightarrow> vmip_rejection option" where
  "validateVirtualMachineCIDRsConfigured virtualMachineCIDRs =
     (if virtualMachineCIDRs = [] then Some CIDRsNotConfigured else None)"

definition VMIPValidator_ValidateCreate :: "string list \<Rightarrow> ip_service \<Rightarrow> 'q ip_env \<Rightarrow> vmip \<Rightarrow> vmip_rejection option" where
  "VMIPValidator_ValidateCreate cidrs s env vmip =
     (case validateVirtualMachineCIDRsConfigured cidrs of
        Some e \<Rightarrow> Some e
      | None \<Rightarrow>
          (case validateSpecFields s vmip of
             Some e \<Rightarrow> Some e
           | None \<Rightarrow>
               if ip_StaticIP vmip \<noteq> ''''
               then (case validateAllocatedIPAddresses s env (ip_StaticIP vmip) of
                       None \<Rightarrow> None
                     | Some (AvailabilityError ErrIPAddressOutOfRange) \<Rightarrow> Some (OutOfRange (ip_StaticIP vmip))
                     | Some e \<Rightarrow> Some e)
               else None))"

text \<open>The checks of an update of a bound address; \<open>Some (Inr w)\<close> accepts with the warnings \<open>w\<close> given so far or none.\<close>

definition validate_bound_update :: "vmip \<Rightarrow> vmip \<Rightarrow> string list \<Rightarrow> vmip_rejection + string list" where
  "validate_bound_update oldVmip newVmip warnings =
     (if cond_Status (fst (GetCondition BoundType (ip_Conditions oldVmip))) = ConditionTrue
      then if ip_Type oldVmip = TypeAuto \<and> ip_Type newVmip = TypeStatic
           then (if ip_StaticIP newVmip \<noteq> ip_Address newVmip
                 then Inl (OnlyTypeChange (ip_Address newVmip) (ip_StaticIP newVmip)) else Inr [])
           else if ip_Type oldVmip \<noteq> ip_Type newVmip then Inl TypeChangeWhileBound
           else if ip_Type newVmip = TypeStatic \<and> ip_StaticIP oldVmip \<noteq> ip_StaticIP newVmip
           then Inl StaticIPChangeWhileBound
           else Inr warnings
      else Inr warnings)"

definition VMIPValidator_ValidateUpdate :: "string list \<Rightarrow> ip_service \<Rightarrow> 'q ip_env \<Rightarrow> vmip \<Rightarrow> vmip \<Rightarrow> vmip_rejection + string list" where
  "VMIPValidator_ValidateUpdate cidrs s env oldVmip newVmip =
     (case (if (ip_Type oldVmip, ip_StaticIP oldVmip) \<noteq> (ip_Type newVmip, ip_StaticIP newVmip)
            then validateVirtualMachineCIDRsConfigured cidrs else None) of
        Some e \<Rightarrow> Inl e
      | None \<Rightarrow>
          (case validateSpecFields s newVmip of
             Some e \<Rightarrow> Inl e
           | None \<Rightarrow>
               if ip_StaticIP newVmip \<noteq> '''' \<and> ip_StaticIP oldVmip \<noteq> ip_StaticIP newVmip
               then (case validateAllocatedIPAddresses s env (ip_StaticIP newVmip) of
                       None \<Rightarrow> validate_bound_update oldVmip newVmip []
                     | Some (AvailabilityError ErrIPAddressOutOfRange) \<Rightarrow>
                         validate_bound_update oldVmip newVmip [ip_StaticIP newVmip]
                     | Some e \<Rightarrow> Inl e)
               else validate_bound_update oldVmip newVmip []))"

definition LeaseValidator_ValidateCreate :: "ip6_text \<Rightarrow> lease \<Rightarrow> bool" where
  "LeaseValidator_ValidateCreate t lease \<longleftrightarrow> isValidAddressFormat t (LeaseNameToIP (le_Name lease))"

section \<open>Properties of the webhooks\<close>

lemma validateSpecFields_cases:
  assumes "validateSpecFields s v = None"
  obtains "ip_Type v = TypeStatic" "ip_StaticIP v \<noteq> ''''" | "ip_Type v = TypeAuto" "ip_StaticIP v = ''''"
  using assms by (auto simp: validateSpecFields_def split: if_splits)

lemma update_accepted:
  assumes "VMIPValidator_ValidateUpdate cidrs s env old new = Inr w"
  shows "validateSpecFields s new = None" and "\<exists>w1 w2. validate_bound_update old new w1 = Inr w2"
  using assms unfolding VMIPValidator_ValidateUpdate_def
  by (auto split: option.splits if_splits vmip_rejection.splits ip_error.splits)

text \<open>
  An accepted update of a bound address keeps the address the controller looks its lease up
  by, whatever else it changes.
\<close>

lemma bound_address_immutable:
  assumes "VMIPValidator_ValidateUpdate cidrs s env old new = Inr w"
    and "cond_Status (fst (GetCondition BoundType (ip_Conditions old))) = ConditionTrue"
    and "validateSpecFields s old = None" and "ip_Address new = ip_Address old" and "ip_Address old \<noteq> ''''"
  shows "getAssignedIPAddress new = getAssignedIPAddress old"
proof -
  have new: "validateSpecFields s new = None" using update_accepted(1) [OF assms(1)] .
  obtain w1 w2 where bound: "validate_bound_update old new w1 = Inr w2" using update_accepted(2) [OF assms(1)] by blast
  show ?thesis
    using validateSpecFields_cases [OF assms(3)]
  proof cases
    case 1
    then have "ip_Type new = TypeStatic" "ip_StaticIP new = ip_StaticIP old"
      using bound assms(2) by (auto simp: validate_bound_update_def split: if_splits)
    with 1 show ?thesis by (simp add: getAssignedIPAddress_def)
  next
    case 2
    show ?thesis
      using validateSpecFields_cases [OF new]
    proof cases
      case 1
      then have "ip_StaticIP new = ip_Address new"
        using 2 bound assms(2) by (auto simp: validate_bound_update_def split: if_splits)
      with 2 assms(4,5) show ?thesis by (simp add: getAssignedIPAddress_def)
    qed (use 2 assms(4) in \<open>simp add: getAssignedIPAddress_def\<close>)
  qed
qed

definition example_vmip :: vmip where
  "example_vmip = \<lparr> ip_Name = ''a'', ip_Namespace = ''ns'', ip_UID = ''u'', ip_Generation = 1, ip_Deleting = False,
     ip_Labels = None, ip_OwnerReferences = [], ip_Finalizers = [], ip_Type = TypeAuto, ip_StaticIP = '''',
     ip_VirtualMachine = '''', ip_Address = ''10.0.0.5'', ip_Phase = ''Bound'', ip_ObservedGeneration = 1,
     ip_Conditions = [example_condition BoundType ConditionTrue] \<rparr>"

definition example_service :: ip_service where
  "example_service = \<lparr> svc_Text = no_ip6, svc_Net = exact_net_ops, svc_CIDRs = [] \<rparr>"

definition example_ip_env :: "int ip_env" where
  "example_ip_env = \<lparr> ie_CachedLease = (\<lambda>n. Inr None), ie_Lease = (\<lambda>n. Inr None), ie_CachedLeasesByUID = (\<lambda>u. Inr []),
     ie_LeasesByUID = (\<lambda>u. Inr []), ie_Leases = Inr [], ie_VMs = Inr [], ie_VM = (\<lambda>n. Inr None), ie_Clock = int \<rparr>"

text \<open>
  The change of a bound automatic address to a static one with the same address is provided for by the
  checks of bound addresses, but it does not reach them: the address is allocated, by the address itself,
  and its lease is not released.
\<close>

lemma bound_type_change_refused:
  assumes "ip_StaticIP old = ''''" and "ip_Type new = TypeStatic" and "ip_StaticIP new = a" and "a \<noteq> ''''"
    and "cidrs \<noteq> []" and "isValidAddressFormat (svc_Text s) a"
    and "IsInsideOfRange (svc_Text s) (svc_Net s) (svc_CIDRs s) a = None"
    and "ie_Leases env = Inr leases" and "lease \<in> set leases" and "LeaseNameToIP (le_Name lease) = a"
    and "ie_CachedLease env (IPToLeaseName (svc_Text s) a) = Inr (Some lease)"
    and "cond_Reason (fst (GetCondition BoundType (le_Conditions lease))) = ReasonBound"
  shows "VMIPValidator_ValidateUpdate cidrs s env old new = Inl (AlreadyAllocated a)"
proof -
  have "a \<in> set (map (LeaseNameToIP \<circ> le_Name) leases)" using assms(9,10) by auto
  then have "validateAllocatedIPAddresses s env a = Some (AlreadyAllocated a)"
    using assms(7,8,11,12) by (simp add: validateAllocatedIPAddresses_def GetAllocatedIPs_def)
  moreover have "validateSpecFields s new = None" using assms(2,3,4,6) by (simp add: validateSpecFields_def)
  ultimately show ?thesis
    using assms(1,3,4,5) by (auto simp: VMIPValidator_ValidateUpdate_def validateVirtualMachineCIDRsConfigured_def)
qed

text \<open>
  The webhook of leases reads the address back from the name, and a name with dots reads as the same
  address as the name with dashes: two leases of one address are admitted.
\<close>

lemma lease_names_collide:
  "LeaseValidator_ValidateCreate no_ip6 (l\<lparr> le_Name := ''ip-10-0-0-5'' \<rparr>) \<and>
   LeaseValidator_ValidateCreate no_ip6 (l\<lparr> le_Name := ''ip-10.0.0.5'' \<rparr>) \<and>
   LeaseNameToIP ''ip-10-0-0-5'' = LeaseNameToIP ''ip-10.0.0.5''"
proof -
  have "ParseAddr no_ip6 ''10.0.0.5'' = Some (Addr4 0x0a000005)"
    using parse4_example by (simp add: ParseAddr_def)
  moreover have "LeaseNameToIP ''ip-10-0-0-5'' = ''10.0.0.5''" "LeaseNameToIP ''ip-10.0.0.5'' = ''10.0.0.5''"
    by (simp_all add: LeaseNameToIP_def has_prefix_def)
  ultimately show ?thesis by (simp add: LeaseValidator_ValidateCreate_def isValidAddressFormat_def ParseIP_def)
qed

text \<open>A lease without a reference, which the schema allows, panics the controller of leases.\<close>

lemma lease_without_reference_panics:
  assumes "le_Ref lease = None"
  shows "fst (LeaseReconciler_Reconcile api fo d env (Some lease) log) = Panic"
  using assms
  by (simp add: LeaseReconciler_Reconcile_def BaseReconciler_Reconcile_def lease_handlers_def bind_run_def
      LeaseLifecycleHandler_Handle_def panic_def)

end
