(* ===== verification/IPLeaseSystem.thy ===== *)
theory IPLeaseSystem
  imports IPLeases
begin

text \<open>
  Addresses and leases together.  A cluster stores the resources; the passes of the two controllers,
  which read the cluster and write to it, and what users do are the steps of a transition relation.  A
  read may fail, and otherwise gives what is stored; the server performs every call it can perform.  A
  pass is one step, and its calls take effect one after the other.
\<close>

section \<open>The cluster\<close>

record ip_cluster =
  cl_VMIPs :: "vmip list"
  cl_Leases :: "lease list"

definition find_lease :: "ip_cluster \<Rightarrow> string \<Rightarrow> lease option" where
  "find_lease cl n = List.find (\<lambda>l. le_Name l = n) (cl_Leases cl)"

definition find_vmip :: "ip_cluster \<Rightarrow> string \<Rightarrow> string \<Rightarrow> vmip option" where
  "find_vmip cl ns n = List.find (\<lambda>v. ip_Namespace v = ns \<and> ip_Name v = n) (cl_VMIPs cl)"

definition vmip_ref :: "vmip \<Rightarrow> lease_ref" where
  "vmip_ref v = \<lparr> lr_Namespace = ip_Namespace v, lr_Name = ip_Name v \<rparr>"

text \<open>An object that is being deleted is gone when its last finalizer is.\<close>

definition change_leases :: "string \<Rightarrow> (lease \<Rightarrow> lease) \<Rightarrow> ip_cluster \<Rightarrow> ip_cluster" where
  "change_leases n f cl =
     cl\<lparr> cl_Leases := filter (\<lambda>l. \<not> (le_Name l = n \<and> le_Deleting l \<and> le_Finalizers l = []))
       (map (\<lambda>l. if le_Name l = n then f l else l) (cl_Leases cl)) \<rparr>"

definition change_vmips :: "lease_ref \<Rightarrow> (vmip \<Rightarrow> vmip) \<Rightarrow> ip_cluster \<Rightarrow> ip_cluster" where
  "change_vmips k f cl =
     cl\<lparr> cl_VMIPs := filter (\<lambda>v. \<not> (vmip_ref v = k \<and> ip_Deleting v \<and> ip_Finalizers v = []))
       (map (\<lambda>v. if vmip_ref v = k then f v else v) (cl_VMIPs cl)) \<rparr>"

text \<open>
  What the server does.  Creation and update of the specification set the generation; a status update
  and a metadata patch leave the specification alone, and an update of the specification leaves the
  status alone.  Both callers of an update send the finalizers they have just read or stored.
\<close>

definition store_status :: "lease \<Rightarrow> lease \<Rightarrow> lease" where
  "store_status new l =
     l\<lparr> le_Labels := le_Labels new, le_Finalizers := le_Finalizers new, le_Phase := le_Phase new,
        le_ObservedGeneration := le_ObservedGeneration new, le_Conditions := le_Conditions new \<rparr>"

definition store_spec :: "lease \<Rightarrow> lease \<Rightarrow> lease" where
  "store_spec new l =
     l\<lparr> le_Labels := le_Labels new, le_Ref := le_Ref new,
        le_Generation := (if le_Ref new = le_Ref l then le_Generation l else le_Generation l + 1) \<rparr>"

definition store_vmip_status :: "vmip \<Rightarrow> vmip \<Rightarrow> vmip" where
  "store_vmip_status new v =
     v\<lparr> ip_Labels := ip_Labels new, ip_Finalizers := ip_Finalizers new, ip_VirtualMachine := ip_VirtualMachine new,
        ip_Address := ip_Address new, ip_Phase := ip_Phase new, ip_ObservedGeneration := ip_ObservedGeneration new,
        ip_Conditions := ip_Conditions new \<rparr>"

fun serve :: "ip_cluster \<Rightarrow> ip_call \<Rightarrow> api_outcome \<times> ip_cluster" where
  "serve cl (CreateLease l) =
     (if find_lease cl (le_Name l) \<noteq> None then (AlreadyExistsErr, cl)
      else (OK, cl\<lparr> cl_Leases := cl_Leases cl @ [l\<lparr> le_Generation := 1 \<rparr>] \<rparr>))"
| "serve cl (UpdateLease read l) =
     (case find_lease cl (le_Name l) of
        None \<Rightarrow> (NotFoundErr, cl)
      | Some stored \<Rightarrow>
          if read \<noteq> None \<and> read \<noteq> Some stored then (ConflictErr, cl)
          else (OK, change_leases (le_Name l) (store_spec l) cl))"
| "serve cl (DeleteLease n) =
     (if find_lease cl n = None then (NotFoundErr, cl)
      else (OK, change_leases n (\<lambda>l. l\<lparr> le_Deleting := True \<rparr>) cl))"
| "serve cl (StoreLease l) =
     (if find_lease cl (le_Name l) = None then (NotFoundErr, cl)
      else (OK, change_leases (le_Name l) (store_status l) cl))"
| "serve cl (StoreVMIP v) =
     (if find_vmip cl (ip_Namespace v) (ip_Name v) = None then (NotFoundErr, cl)
      else (OK, change_vmips (vmip_ref v) (store_vmip_status v) cl))"

fun apply_effect :: "ip_cluster \<Rightarrow> ip_call effect \<Rightarrow> ip_cluster" where
  "apply_effect cl (Call c) = snd (serve cl c)"
| "apply_effect cl (Event r) = cl"

definition apply_log :: "ip_cluster \<Rightarrow> ip_call effect list \<Rightarrow> ip_cluster" where
  "apply_log cl log = foldl apply_effect cl log"

text \<open>The server as the passes see it: the log of a pass starts at the cluster before it.\<close>

definition cluster_api :: "ip_cluster \<Rightarrow> ip_call api_server" where
  "cluster_api cl log c = fst (serve (apply_log cl log) c)"

text \<open>Reads give what is stored, or fail.\<close>

definition reads :: "(read_error + 'a) \<Rightarrow> 'a \<Rightarrow> bool" where
  "reads r x \<longleftrightarrow> (case r of Inl e \<Rightarrow> True | Inr y \<Rightarrow> y = x)"

definition fresh_env :: "ip_cluster \<Rightarrow> 'q ip_env \<Rightarrow> bool" where
  "fresh_env cl env \<longleftrightarrow>
     (\<forall>n. reads (ie_CachedLease env n) (find_lease cl n)) \<and> (\<forall>n. reads (ie_Lease env n) (find_lease cl n)) \<and>
     (\<forall>u. reads (ie_CachedLeasesByUID env u) (filter (\<lambda>l. label_value (le_Labels l) LabelIPAddressUID = u) (cl_Leases cl))) \<and>
     (\<forall>u. reads (ie_LeasesByUID env u) (filter (\<lambda>l. label_value (le_Labels l) LabelIPAddressUID = u) (cl_Leases cl))) \<and>
     reads (ie_Leases env) (cl_Leases cl)"

definition fresh_lease_env :: "ip_cluster \<Rightarrow> lease_env \<Rightarrow> bool" where
  "fresh_lease_env cl env \<longleftrightarrow> (\<forall>ns n. reads (lv_VMIP env ns n) (find_vmip cl ns n))"

section \<open>Steps\<close>

text \<open>
  Users create, change and delete addresses, and create and delete leases; a new resource has no status,
  and a lease gets the name of an IPv4 address.
\<close>

inductive ip_step :: "'q itself \<Rightarrow> ip_service \<Rightarrow> finalizer_ops \<Rightarrow> int \<Rightarrow> ip_cluster \<Rightarrow> ip_cluster \<Rightarrow> bool"
  for q s fo d where
  vmip_pass: "fresh_env cl (env :: 'q ip_env) \<Longrightarrow> v \<in> set (cl_VMIPs cl) \<Longrightarrow>
    VMIPReconciler_Reconcile (cluster_api cl) s fo env (Some v) [] = (r, log) \<Longrightarrow> ip_step q s fo d cl (apply_log cl log)"
| lease_pass: "fresh_lease_env cl lenv \<Longrightarrow> l \<in> set (cl_Leases cl) \<Longrightarrow>
    LeaseReconciler_Reconcile (cluster_api cl) fo d lenv (Some l) [] = (r, log) \<Longrightarrow> ip_step q s fo d cl (apply_log cl log)"
| create_vmip: "find_vmip cl (ip_Namespace v) (ip_Name v) = None \<Longrightarrow> ip_Name v \<noteq> '''' \<Longrightarrow> ip_Conditions v = [] \<Longrightarrow>
    ip_Address v = '''' \<Longrightarrow> ip_step q s fo d cl (cl\<lparr> cl_VMIPs := cl_VMIPs cl @ [v] \<rparr>)"
| change_vmip: "ip_step q s fo d cl (change_vmips k (\<lambda>v. v\<lparr> ip_Type := t, ip_StaticIP := a, ip_Labels := ls,
    ip_OwnerReferences := os, ip_Generation := ip_Generation v + 1 \<rparr>) cl)"
| delete_vmip: "ip_step q s fo d cl (change_vmips k (\<lambda>v. v\<lparr> ip_Deleting := True \<rparr>) cl)"
| create_lease: "find_lease cl (IPToLeaseName (svc_Text s) (print4 x)) = None \<Longrightarrow>
    ip_step q s fo d cl (cl\<lparr> cl_Leases := cl_Leases cl @ [\<lparr> le_Name = IPToLeaseName (svc_Text s) (print4 x),
      le_Generation = 1, le_Deleting = False, le_Labels = ls, le_Finalizers = [], le_Ref = ref, le_Phase = '''',
      le_ObservedGeneration = 0, le_Conditions = [] \<rparr>] \<rparr>)"
| delete_lease: "ip_step q s fo d cl (change_leases n (\<lambda>l. l\<lparr> le_Deleting := True \<rparr>) cl)"

inductive ip_reachable :: "'q itself \<Rightarrow> ip_service \<Rightarrow> finalizer_ops \<Rightarrow> int \<Rightarrow> ip_cluster \<Rightarrow> bool" for q s fo d where
  ip_start: "ip_reachable q s fo d \<lparr> cl_VMIPs = [], cl_Leases = [] \<rparr>"
| ip_next: "ip_reachable q s fo d cl \<Longrightarrow> ip_step q s fo d cl cl' \<Longrightarrow> ip_reachable q s fo d cl'"

section \<open>Invariant\<close>

abbreviation lease_bound :: "lease \<Rightarrow> bool" where
  "lease_bound l \<equiv> cond_Status (fst (GetCondition BoundType (le_Conditions l))) = ConditionTrue"

abbreviation vmip_bound :: "vmip \<Rightarrow> bool" where
  "vmip_bound v \<equiv> cond_Status (fst (GetCondition BoundType (ip_Conditions v))) = ConditionTrue"

abbreviation protected :: "lease \<Rightarrow> bool" where
  "protected l \<equiv> FinalizerIPAddressLeaseCleanup \<in> set (le_Finalizers l)"

text \<open>The lease that a bound address rests on: it names the address, carries its value and is protected.\<close>

definition leased_by :: "lease \<Rightarrow> vmip \<Rightarrow> bool" where
  "leased_by l v \<longleftrightarrow> le_Ref l = Some (vmip_ref v) \<and> LeaseNameToIP (le_Name l) = ip_Address v \<and> protected l"

definition canonical :: "ip_service \<Rightarrow> string \<Rightarrow> bool" where
  "canonical s n \<longleftrightarrow> (\<exists>x. n = IPToLeaseName (svc_Text s) (print4 x))"

definition leases_ok :: "ip_service \<Rightarrow> ip_cluster \<Rightarrow> bool" where
  "leases_ok s cl \<longleftrightarrow> distinct (map le_Name (cl_Leases cl)) \<and>
     (\<forall>l \<in> set (cl_Leases cl). canonical s (le_Name l) \<and> (lease_bound l \<longrightarrow> protected l) \<and>
        (le_Deleting l \<longrightarrow> le_Finalizers l \<noteq> []))"

definition vmips_ok :: "ip_cluster \<Rightarrow> bool" where
  "vmips_ok cl \<longleftrightarrow> distinct (map vmip_ref (cl_VMIPs cl)) \<and>
     (\<forall>v \<in> set (cl_VMIPs cl). ip_Name v \<noteq> '''' \<and> (vmip_bound v \<longrightarrow> (\<exists>l \<in> set (cl_Leases cl). leased_by l v)))"

lemma canonical_inj: "canonical s n \<Longrightarrow> canonical s m \<Longrightarrow> LeaseNameToIP n = LeaseNameToIP m \<Longrightarrow> n = m"
  by (auto simp: canonical_def LeaseNameToIP_lease print4_inj)

lemma find_lease_Some: "find_lease cl n = Some l \<Longrightarrow> l \<in> set (cl_Leases cl) \<and> le_Name l = n"
  unfolding find_lease_def by (metis (mono_tags, lifting) find_Some_iff nth_mem)

lemma find_lease_None: "find_lease cl n = None \<longleftrightarrow> n \<notin> le_Name ` set (cl_Leases cl)"
  by (auto simp: find_lease_def find_None_iff)

lemma find_vmip_Some: "find_vmip cl ns n = Some v \<Longrightarrow> v \<in> set (cl_VMIPs cl) \<and> ip_Namespace v = ns \<and> ip_Name v = n"
  unfolding find_vmip_def by (metis (mono_tags, lifting) find_Some_iff nth_mem)

lemma find_vmip_None: "find_vmip cl (ip_Namespace v) (ip_Name v) = None \<longleftrightarrow> vmip_ref v \<notin> vmip_ref ` set (cl_VMIPs cl)"
  by (auto simp: find_vmip_def find_None_iff vmip_ref_def image_iff)

lemma same_name: "leases_ok s cl \<Longrightarrow> l \<in> set (cl_Leases cl) \<Longrightarrow> m \<in> set (cl_Leases cl) \<Longrightarrow> le_Name l = le_Name m \<Longrightarrow> l = m"
  unfolding leases_ok_def by (metis distinct_map inj_onD)

lemma same_ref: "vmips_ok cl \<Longrightarrow> v \<in> set (cl_VMIPs cl) \<Longrightarrow> w \<in> set (cl_VMIPs cl) \<Longrightarrow> vmip_ref v = vmip_ref w \<Longrightarrow> v = w"
  unfolding vmips_ok_def by (metis distinct_map inj_onD)

lemma find_vmip_stored:
  assumes "vmips_ok cl" and "v \<in> set (cl_VMIPs cl)"
  shows "find_vmip cl (ip_Namespace v) (ip_Name v) = Some v"
proof (cases "find_vmip cl (ip_Namespace v) (ip_Name v)")
  case None
  then show ?thesis using assms(2) by (simp add: find_vmip_None)
next
  case (Some w)
  then have w: "w \<in> set (cl_VMIPs cl)" "vmip_ref v = vmip_ref w" using find_vmip_Some by (auto simp: vmip_ref_def)
  show ?thesis using same_ref [OF assms w] Some by simp
qed

subsection \<open>Changes of stored objects\<close>

lemma change_leases_set:
  "x \<in> set (cl_Leases (change_leases n f cl)) \<longleftrightarrow>
     (\<exists>l \<in> set (cl_Leases cl). x = (if le_Name l = n then f l else l)) \<and>
     \<not> (le_Name x = n \<and> le_Deleting x \<and> le_Finalizers x = [])"
  by (simp add: change_leases_def image_iff del: if_image_distrib)

lemma change_vmips_set:
  "x \<in> set (cl_VMIPs (change_vmips k f cl)) \<longleftrightarrow>
     (\<exists>v \<in> set (cl_VMIPs cl). x = (if vmip_ref v = k then f v else v)) \<and>
     \<not> (vmip_ref x = k \<and> ip_Deleting x \<and> ip_Finalizers x = [])"
  by (simp add: change_vmips_def image_iff del: if_image_distrib)

lemma change_other [simp]:
  "cl_VMIPs (change_leases n f cl) = cl_VMIPs cl" "cl_Leases (change_vmips k g cl) = cl_Leases cl"
  by (simp_all add: change_leases_def change_vmips_def)

lemma distinct_map_filter_same:
  assumes "distinct (map key xs)" and "\<And>x. key (f x) = key x"
  shows "distinct (map key (filter P (map f xs)))"
proof -
  have "map key (map f xs) = map key xs" using assms(2) by simp
  then show ?thesis using assms(1) by (metis distinct_map_filter)
qed

lemma change_leases_ok:
  assumes "leases_ok s cl" and "\<And>l. le_Name (f l) = le_Name l"
    and "\<And>l. l \<in> set (cl_Leases cl) \<Longrightarrow> le_Name l = n \<Longrightarrow> lease_bound (f l) \<Longrightarrow> protected (f l)"
  shows "leases_ok s (change_leases n f cl)"
  unfolding leases_ok_def
proof (intro conjI ballI)
  show "distinct (map le_Name (cl_Leases (change_leases n f cl)))"
    using assms(1,2) unfolding leases_ok_def change_leases_def by (auto intro!: distinct_map_filter_same)
next
  fix x assume "x \<in> set (cl_Leases (change_leases n f cl))"
  then obtain l where l: "l \<in> set (cl_Leases cl)" "x = (if le_Name l = n then f l else l)"
      "\<not> (le_Name x = n \<and> le_Deleting x \<and> le_Finalizers x = [])"
    unfolding change_leases_set by blast
  then show "canonical s (le_Name x)" "lease_bound x \<longrightarrow> protected x"
    using assms by (auto simp: leases_ok_def)
  show "le_Deleting x \<longrightarrow> le_Finalizers x \<noteq> []"
    using l assms(1,2) by (cases "le_Name l = n") (auto simp: leases_ok_def)
qed

lemma vmips_ok_leases:
  assumes "vmips_ok cl" and "cl_VMIPs cl' = cl_VMIPs cl"
    and "\<And>l v. l \<in> set (cl_Leases cl) \<Longrightarrow> v \<in> set (cl_VMIPs cl) \<Longrightarrow> vmip_bound v \<Longrightarrow> leased_by l v \<Longrightarrow>
      \<exists>l' \<in> set (cl_Leases cl'). leased_by l' v"
  shows "vmips_ok cl'"
  using assms unfolding vmips_ok_def by metis

lemma change_vmips_ok:
  assumes "vmips_ok cl" and "\<And>v. ip_Name (f v) = ip_Name v \<and> ip_Namespace (f v) = ip_Namespace v"
    and "\<And>v. v \<in> set (cl_VMIPs cl) \<Longrightarrow> vmip_ref v = k \<Longrightarrow> vmip_bound (f v) \<Longrightarrow> \<exists>l \<in> set (cl_Leases cl). leased_by l (f v)"
  shows "vmips_ok (change_vmips k f cl)"
  unfolding vmips_ok_def
proof (intro conjI ballI)
  have "vmip_ref (if b then f v else v) = vmip_ref v" for b v using assms(2) by (simp add: vmip_ref_def)
  then show "distinct (map vmip_ref (cl_VMIPs (change_vmips k f cl)))"
    using assms(1) unfolding vmips_ok_def change_vmips_def by (auto intro!: distinct_map_filter_same)
next
  fix x assume "x \<in> set (cl_VMIPs (change_vmips k f cl))"
  then obtain v where v: "v \<in> set (cl_VMIPs cl)" "x = (if vmip_ref v = k then f v else v)"
    unfolding change_vmips_set by blast
  then show "ip_Name x \<noteq> ''''" using assms(1,2) by (auto simp: vmips_ok_def)
  show "vmip_bound x \<longrightarrow> (\<exists>l \<in> set (cl_Leases (change_vmips k f cl)). leased_by l x)"
    using v assms(1) assms(3) [OF v(1)] by (auto simp: vmips_ok_def)
qed

section \<open>A pass over an address\<close>

definition ref_namespace :: "lease \<Rightarrow> string" where
  "ref_namespace l = (case le_Ref l of None \<Rightarrow> '''' | Some r \<Rightarrow> lr_Namespace r)"

definition unoccupied :: "lease \<Rightarrow> bool" where
  "unoccupied l \<longleftrightarrow> (case le_Ref l of None \<Rightarrow> True | Some r \<Rightarrow> lr_Name r = '''')"

definition bound_ok :: "ip_cluster \<Rightarrow> vmip \<Rightarrow> bool" where
  "bound_ok cl v \<longleftrightarrow> ip_Name v \<noteq> '''' \<and> (vmip_bound v \<longrightarrow> (\<exists>l \<in> set (cl_Leases cl). leased_by l v))"

text \<open>What a pass may send: a lease for an address, the taking of a free lease, and a justified status.\<close>

fun vmip_safe :: "ip_service \<Rightarrow> ip_cluster \<Rightarrow> ip_call effect \<Rightarrow> bool" where
  "vmip_safe s cl (Call (CreateLease l)) = (canonical s (le_Name l) \<and> le_Conditions l = [] \<and> \<not> le_Deleting l)"
| "vmip_safe s cl (Call (UpdateLease read l)) =
     (\<exists>l0. read = Some l0 \<and> le_Name l = le_Name l0 \<and> unoccupied l0 \<and>
        (ref_namespace l0 \<noteq> '''' \<longrightarrow> ref_namespace l = ref_namespace l0))"
| "vmip_safe s cl (Call (StoreVMIP v)) = bound_ok cl v"
| "vmip_safe s cl (Call _) = False"
| "vmip_safe s cl (Event r) = True"

lemma cb_set_fields [simp]:
  "cb_status (cb_set ConditionTrue r m cb) = ConditionTrue" "cb_status (cb_set ConditionFalse r m cb) = ConditionFalse"
  "cb_status (cb_set ConditionUnknown r m cb) = ConditionUnknown"
  "cb_conditionType (cb_set st r m cb) = cb_conditionType cb" "cb_generation (cb_set st r m cb) = cb_generation cb"
  "r \<noteq> '''' \<Longrightarrow> cb_reason (cb_set st r m cb) = r"
  by (simp_all add: cb_set_def builder_Status_def builder_Reason_def builder_Message_def)

lemma builder_Condition_fields [simp]:
  "cond_Type (builder_Condition cb) = cb_conditionType cb" "cond_Status (builder_Condition cb) = cb_status cb"
  "cond_Reason (builder_Condition cb) = cb_reason cb" "cond_ObservedGeneration (builder_Condition cb) = cb_generation cb"
  by (simp_all add: builder_Condition_def)

lemma set_ip_condition_frame [simp]:
  "ip_Address (set_ip_condition env k cb v) = ip_Address v" "vmip_ref (set_ip_condition env k cb v) = vmip_ref v"
  by (simp_all add: set_ip_condition_def vmip_ref_def)

lemma set_ip_condition_name [simp]: "ip_Name (set_ip_condition env k cb v) = ip_Name v"
  by (simp add: set_ip_condition_def)

lemma vmip_ref_name: "vmip_ref v = vmip_ref w \<Longrightarrow> ip_Name v = ip_Name w"
  by (simp add: vmip_ref_def)

lemma leased_by_condition [simp]: "leased_by l (set_ip_condition env k cb v) \<longleftrightarrow> leased_by l v"
  by (simp add: leased_by_def)

lemma set_ip_condition_bound:
  "cb_conditionType cb = BoundType \<Longrightarrow> vmip_bound (set_ip_condition env k cb v) \<longleftrightarrow> cb_status cb = ConditionTrue"
  by (simp add: set_ip_condition_def SetCondition_same)

lemma set_ip_condition_other:
  "cb_conditionType cb \<noteq> BoundType \<Longrightarrow> vmip_bound (set_ip_condition env k cb v) \<longleftrightarrow> vmip_bound v"
  by (simp add: set_ip_condition_def SetCondition_other)

text \<open>After a step other than the successful bind, the condition that is being built is false.\<close>

definition step_post :: "ip_cluster \<Rightarrow> vmip \<Rightarrow> (vmip \<times> condition_builder) \<times> reconcile_result \<times> rec_error option \<Rightarrow> bool" where
  "step_post cl v x =
     (case x of ((v', cb), r, e) \<Rightarrow>
        cb_conditionType cb = BoundType \<and> vmip_ref v' = vmip_ref v \<and> e \<noteq> Some StopHandlerChain \<and>
        (cb_status cb = ConditionTrue \<longrightarrow> (\<exists>l \<in> set (cl_Leases cl). leased_by l v')))"

lemma GetLease_stored:
  assumes "fresh_env cl env" and "GetLease s env v = Inr (Some l)"
  shows "l \<in> set (cl_Leases cl)"
proof -
  have "(\<exists>n. ie_CachedLease env n = Inr (Some l) \<or> ie_Lease env n = Inr (Some l)) \<or>
      (\<exists>u. ie_CachedLeasesByUID env u = Inr [l] \<or> ie_LeasesByUID env u = Inr [l])"
    using assms(2) unfolding GetLease_def getLeaseByIPAddress_def getLeaseByLabel_def
    by (auto simp: Let_def split: if_splits sum.splits option.splits list.splits)
  moreover have "l \<in> set (cl_Leases cl)" if "reads (Inr (Some l)) (find_lease cl n)" for n
    using that find_lease_Some [of cl n l] by (simp add: reads_def)
  moreover have "l \<in> set (cl_Leases cl)" if "reads (Inr [l]) (filter P (cl_Leases cl))" for P
    using that by (simp add: reads_def) (metis list.set_intros(1) filter_is_subset subsetD)
  ultimately show ?thesis using assms(1) unfolding fresh_env_def by metis
qed

lemma inside_is_v4:
  assumes "list_all v4_cidr (svc_CIDRs s)" and "IsInsideOfRange t no (svc_CIDRs s) a = None"
  shows "\<exists>x. a = print4 x"
proof -
  have v6: "inside_some no (Addr6 y z) cs \<noteq> None" if "list_all v4_cidr cs" for y z cs
    using that
  proof (induction cs)
    case (Cons p cs)
    then have "\<not> prefix_Contains p (Addr6 y z)" using contains_v4_only by fastforce
    then show ?case using Cons by (auto split: sum.split)
  qed simp
  obtain b where b: "ParseAddr t a = Some b" "b \<noteq> NoAddr" "inside_some no b (svc_CIDRs s) = None"
    using assms(2) by (auto simp: IsInsideOfRange_def split: option.splits netip_addr.splits)
  then obtain x where "b = Addr4 x" using v6 [OF assms(1)] by (cases b) auto
  with b show ?thesis by (auto simp: ParseAddr_Addr4)
qed

lemma step_post_final:
  "step_post cl v ((v', cb_set ConditionFalse r m cb), res, e) \<longleftrightarrow>
     cb_conditionType cb = BoundType \<and> vmip_ref v' = vmip_ref v \<and> e \<noteq> Some StopHandlerChain"
  by (simp add: step_post_def)

text \<open>A sequence of steps satisfies a postcondition when its first step ends it so or leaves it to the others.\<close>

lemma StepTakers_Cons:
  assumes "emits P (f r)"
    and "\<And>r' res. may_return (f r) (r', res) \<Longrightarrow>
      (case res of
         Inl e \<Rightarrow> post (r', no_requeue, Some e)
       | Inr (Some result) \<Rightarrow> post (r', result, None)
       | Inr None \<Rightarrow> emits P (StepTakers_Run fs r') \<and> (\<forall>x. may_return (StepTakers_Run fs r') x \<longrightarrow> post x))"
  shows "emits P (StepTakers_Run (f # fs) r) \<and> (\<forall>x. may_return (StepTakers_Run (f # fs) r) x \<longrightarrow> post x)"
proof (intro conjI allI impI)
  show "emits P (StepTakers_Run (f # fs) r)"
    unfolding StepTakers_Run.simps
    by (rule emits_bind [OF assms(1)]) (auto dest!: assms(2) intro: emits_rules split: sum.split option.split)
next
  fix x assume "may_return (StepTakers_Run (f # fs) r) x"
  then show "post x"
    unfolding StepTakers_Run.simps
    by (cases x, elim may_return_bindD) (auto dest!: assms(2) split: sum.splits option.splits)
qed

lemma take_lease_ok:
  assumes cb: "cb_conditionType cb = BoundType" and v: "vmip_ref v' = vmip_ref v"
  shows "emits (vmip_safe s cl) (StepTakers_Run (TakeLeaseStep_Take api (Some l) # steps) (v', cb)) \<and>
    (\<forall>x. may_return (StepTakers_Run (TakeLeaseStep_Take api (Some l) # steps) (v', cb)) x \<longrightarrow> step_post cl v x)"
proof (rule StepTakers_Cons)
  show "emits (vmip_safe s cl) (TakeLeaseStep_Take api (Some l) (v', cb))"
    unfolding TakeLeaseStep_Take_def prod.case option.case Let_def
    by (intro emits_rules) (auto simp: unoccupied_def ref_namespace_def split: option.splits)
next
  fix r' res
  assume "may_return (TakeLeaseStep_Take api (Some l) (v', cb)) (r', res)"
  then show "case res of Inl e \<Rightarrow> step_post cl v (r', no_requeue, Some e)
    | Inr (Some result) \<Rightarrow> step_post cl v (r', result, None)
    | Inr None \<Rightarrow> emits (vmip_safe s cl) (StepTakers_Run steps r') \<and>
        (\<forall>x. may_return (StepTakers_Run steps r') x \<longrightarrow> step_post cl v x)"
    using cb v unfolding TakeLeaseStep_Take_def prod.case option.case Let_def
    by (auto simp: step_post_final elim!: may_return_bindD split: if_splits)
qed

lemma create_lease_ok:
  assumes v4: "list_all v4_cidr (svc_CIDRs s)"
    and cb: "cb_conditionType cb = BoundType" and v: "vmip_ref v' = vmip_ref v"
  shows "emits (vmip_safe s cl) (StepTakers_Run [CreateLeaseStep_Take api s env None] (v', cb)) \<and>
    (\<forall>x. may_return (StepTakers_Run [CreateLeaseStep_Take api s env None] (v', cb)) x \<longrightarrow> step_post cl v x)"
proof (rule StepTakers_Cons)
  have canonical: "canonical s (IPToLeaseName (svc_Text s) a)"
    if "IsInsideOfRange (svc_Text s) (svc_Net s) (svc_CIDRs s) a = None" for a
    using inside_is_v4 [OF v4 that] by (auto simp: canonical_def)
  then have "vmip_safe s cl (Call (CreateLease (buildVirtualMachineIPAddressLease s v' a)))"
    if "IsInsideOfRange (svc_Text s) (svc_Net s) (svc_CIDRs s) a = None" for a
    using that by (simp add: buildVirtualMachineIPAddressLease_def)
  then have "emits (vmip_safe s cl) (create_lease api s al a (v', cb))" for al a
    unfolding create_lease_def prod.case
    by (cases "IsInsideOfRange (svc_Text s) (svc_Net s) (svc_CIDRs s) a")
      (auto intro!: emits_rules split: ip_error.split)
  then show "emits (vmip_safe s cl) (CreateLeaseStep_Take api s env None (v', cb))"
    unfolding CreateLeaseStep_Take_def prod.case by (auto intro!: emits_rules split: sum.split)
next
  fix r' res
  have post: "case res of Inl e \<Rightarrow> step_post cl v (r', no_requeue, Some e)
      | Inr (Some result) \<Rightarrow> step_post cl v (r', result, None) | Inr None \<Rightarrow> False"
    if "may_return (create_lease api s al a (v', cb)) (r', res)" for al a
    using that cb v unfolding create_lease_def prod.case
    by (cases "IsInsideOfRange (svc_Text s) (svc_Net s) (svc_CIDRs s) a")
      (auto simp: step_post_final elim!: may_return_bindD split: if_splits ip_error.splits)
  assume "may_return (CreateLeaseStep_Take api s env None (v', cb)) (r', res)"
  then have "case res of Inl e \<Rightarrow> step_post cl v (r', no_requeue, Some e)
      | Inr (Some result) \<Rightarrow> step_post cl v (r', result, None) | Inr None \<Rightarrow> False"
    using cb v post unfolding CreateLeaseStep_Take_def prod.case
    by (auto simp: step_post_final elim!: may_return_bindD split: if_splits sum.splits)
  then show "case res of Inl e \<Rightarrow> step_post cl v (r', no_requeue, Some e)
    | Inr (Some result) \<Rightarrow> step_post cl v (r', result, None)
    | Inr None \<Rightarrow> emits (vmip_safe s cl) (StepTakers_Run [] r') \<and>
        (\<forall>x. may_return (StepTakers_Run [] r') x \<longrightarrow> step_post cl v x)"
    by (auto split: sum.splits option.splits)
qed

lemma steps_ok:
  assumes v4: "list_all v4_cidr (svc_CIDRs s)" and cb: "cb_conditionType cb = BoundType" "cb_status cb \<noteq> ConditionTrue"
    and ok: "leases_ok s cl" and l: "\<And>l. lease = Some l \<Longrightarrow> l \<in> set (cl_Leases cl)"
  shows "emits (vmip_safe s cl) (StepTakers_Run
      [BindStep_Take lease, TakeLeaseStep_Take api lease, CreateLeaseStep_Take api s env lease] (v, cb)) \<and>
    (\<forall>x. may_return (StepTakers_Run
      [BindStep_Take lease, TakeLeaseStep_Take api lease, CreateLeaseStep_Take api s env lease] (v, cb)) x \<longrightarrow> step_post cl v x)"
proof (cases lease)
  case None
  then show ?thesis
    using create_lease_ok [OF v4 cb(1) refl] by (simp add: BindStep_Take_def TakeLeaseStep_Take_def)
next
  case (Some l')
  let ?v = "v\<lparr> ip_Address := LeaseNameToIP (le_Name l') \<rparr>"
  have ref: "vmip_ref ?v = vmip_ref v" by (simp add: vmip_ref_def)
  show ?thesis
  proof (cases "HasReference ?v (Some l')")
    case False
    then have eq: "StepTakers_Run (BindStep_Take (Some l') # steps) (v, cb) = StepTakers_Run steps (?v, cb)" for steps
      by (simp add: BindStep_Take_def)
    show ?thesis unfolding Some eq by (rule take_lease_ok [OF cb(1) ref])
  next
    case True
    have "leased_by l' ?v" if "lease_bound l'"
      using True that ok l [OF Some] by (auto simp: leased_by_def HasReference_def leases_ok_def vmip_ref_def split: option.splits)
    then show ?thesis
      using True Some l [OF Some] cb(1) ref
      by (auto simp: BindStep_Take_def Let_def step_post_def emits_pure)
  qed
qed

lemma bound_handler_triple:
  assumes "list_all v4_cidr (svc_CIDRs s)" and "leases_ok s cl" and "fresh_env cl env" and "ip_Name v \<noteq> ''''"
  shows "triple (\<lambda>w. w = v) (vmip_safe s cl) (BoundHandler_Handle api s env)
    (\<lambda>(v', r, e). e \<noteq> Some StopHandlerChain \<and> bound_ok cl v')"
proof (rule tripleI; clarify)
  let ?cb = "builder_Generation (ip_Generation v) (NewConditionBuilder BoundType)"
  have cb: "cb_conditionType ?cb = BoundType" "cb_status ?cb \<noteq> ConditionTrue"
    by (simp_all add: builder_Generation_def NewConditionBuilder_def)
  have steps: "GetLease s env v = Inr lease \<Longrightarrow> emits (vmip_safe s cl) (StepTakers_Run
      [BindStep_Take lease, TakeLeaseStep_Take api lease, CreateLeaseStep_Take api s env lease] (v, ?cb)) \<and>
    (\<forall>x. may_return (StepTakers_Run
      [BindStep_Take lease, TakeLeaseStep_Take api lease, CreateLeaseStep_Take api s env lease] (v, ?cb)) x \<longrightarrow> step_post cl v x)" for lease
    using GetLease_stored [OF assms(3)] by (intro steps_ok [OF assms(1) cb assms(2)]) auto
  show "emits (vmip_safe s cl) (BoundHandler_Handle api s env v)"
  proof (cases "GetLease s env v")
    case (Inr lease)
    then show ?thesis
      unfolding BoundHandler_Handle_def Let_def using steps [OF Inr] by (auto intro!: emits_rules)
  qed (auto simp: BoundHandler_Handle_def Let_def intro!: emits_rules)
  fix v' r e assume ret: "may_return (BoundHandler_Handle api s env v) (v', r, e)"
  show "e \<noteq> Some StopHandlerChain \<and> bound_ok cl v'"
  proof (cases "GetLease s env v")
    case (Inl err)
    then show ?thesis using ret cb assms(4)
      by (auto simp: BoundHandler_Handle_def Let_def bound_ok_def set_ip_condition_bound split: if_splits)
  next
    case (Inr lease)
    then have "may_return (bind_run (StepTakers_Run
        [BindStep_Take lease, TakeLeaseStep_Take api lease, CreateLeaseStep_Take api s env lease] (v, ?cb))
        (\<lambda>((w, cb), result, e). ret (set_ip_condition env 0 cb w, result, e))) (v', r, e)"
      using ret by (simp add: BoundHandler_Handle_def Let_def)
    from may_return_bind [OF this] obtain x where x: "may_return (StepTakers_Run
        [BindStep_Take lease, TakeLeaseStep_Take api lease, CreateLeaseStep_Take api s env lease] (v, ?cb)) x"
      "may_return ((\<lambda>((w, cb), result, e).
        (ret (set_ip_condition env 0 cb w, result, e) :: (vmip \<times> reconcile_result \<times> rec_error option) ip_run)) x) (v', r, e)"
      by (elim exE conjE) (rule that)
    have "step_post cl v x" using steps [OF Inr] x(1) by blast
    then obtain w cb' where "step_post cl v ((w, cb'), r, e)" "v' = set_ip_condition env 0 cb' w"
      using x(2) by (auto split: prod.splits)
    then show ?thesis using assms(4) by (auto simp: step_post_def bound_ok_def set_ip_condition_bound dest: vmip_ref_name)
  qed
qed

lemma bound_ok_frame:
  "bound_ok cl (v\<lparr> ip_VirtualMachine := m \<rparr>) = bound_ok cl v" "bound_ok cl (v\<lparr> ip_Phase := p \<rparr>) = bound_ok cl v"
  "bound_ok cl (v\<lparr> ip_Finalizers := f \<rparr>) = bound_ok cl v" "bound_ok cl (v\<lparr> ip_ObservedGeneration := g \<rparr>) = bound_ok cl v"
  by (simp_all add: bound_ok_def leased_by_def vmip_ref_def)

lemma bound_ok_other: "cb_conditionType cb \<noteq> BoundType \<Longrightarrow> bound_ok cl (set_ip_condition env k cb v) = bound_ok cl v"
  by (simp add: bound_ok_def set_ip_condition_other)

lemma attached_handler_triple:
  "triple (bound_ok cl) (vmip_safe s cl) (AttachedHandler_Handle env)
     (\<lambda>(v', r, e). e \<noteq> Some StopHandlerChain \<and> bound_ok cl v')"
proof -
  have cb: "cb_conditionType (builder_Generation g (NewConditionBuilder AttachedType)) \<noteq> BoundType" for g
    by (simp add: builder_Generation_def NewConditionBuilder_def)
  show ?thesis
    by (rule tripleI)
      (auto simp: AttachedHandler_Handle_def Let_def bound_ok_other bound_ok_frame cb intro!: emits_rules
        split: sum.split option.split sum.splits option.splits)
qed

lemma lifecycle_handler_triple:
  "triple (bound_ok cl) (vmip_safe s cl) IPLifecycleHandler_Handle
     (\<lambda>(v', r, e). e \<noteq> Some StopHandlerChain \<and> bound_ok cl v')"
  by (rule tripleI) (auto simp: IPLifecycleHandler_Handle_def Let_def bound_ok_frame intro!: emits_rules split: if_splits)

lemma protection_handler_triple:
  "triple (bound_ok cl) (vmip_safe s cl) (IPProtectionHandler_Handle fo)
     (\<lambda>(v', r, e). e \<noteq> Some StopHandlerChain \<and> bound_ok cl v')"
  by (rule tripleI) (auto simp: IPProtectionHandler_Handle_def Let_def bound_ok_frame intro!: emits_rules split: if_splits)

lemma vmip_pass_emits:
  assumes "list_all v4_cidr (svc_CIDRs s)" and "leases_ok s cl" and "fresh_env cl env" and "ip_Name v \<noteq> ''''"
  shows "emits (vmip_safe s cl) (VMIPReconciler_Reconcile api s fo env (Some v))"
proof -
  have "triple (\<lambda>w. w = v) (vmip_safe s cl)
      (\<lambda>w. handlers_loop (vmip_execute api s fo env) vmip_handlers w (no_requeue, [])) (\<lambda>(w, acc). bound_ok cl w)"
    unfolding vmip_handlers_def
    by (intro chain_triple_Cons [where mid = "bound_ok cl"] chain_triple_Nil)
      (simp_all add: bound_handler_triple assms attached_handler_triple lifecycle_handler_triple protection_handler_triple)
  then show ?thesis
    unfolding VMIPReconciler_Reconcile_def option.case
    by (rule reconcile_emits) (auto simp: store_vmip_def bound_ok_frame intro!: emits_rules)
qed

lemma store_spec_frame:
  "le_Name (store_spec l x) = le_Name x" "le_Conditions (store_spec l x) = le_Conditions x"
  "le_Finalizers (store_spec l x) = le_Finalizers x" "le_Ref (store_spec l x) = le_Ref l"
  by (simp_all add: store_spec_def)

lemma store_status_frame:
  "le_Name (store_status l x) = le_Name x" "le_Conditions (store_status l x) = le_Conditions l"
  "le_Finalizers (store_status l x) = le_Finalizers l" "le_Ref (store_status l x) = le_Ref x"
  by (simp_all add: store_status_def)

text \<open>A safe call keeps the invariant; the leases that name an address stay as they were.\<close>

definition keeps_occupied :: "ip_cluster \<Rightarrow> ip_cluster \<Rightarrow> bool" where
  "keeps_occupied cl0 cl \<longleftrightarrow> (\<forall>l \<in> set (cl_Leases cl0). \<not> unoccupied l \<longrightarrow> l \<in> set (cl_Leases cl))"

lemma leased_occupied: "vmips_ok cl \<Longrightarrow> v \<in> set (cl_VMIPs cl) \<Longrightarrow> leased_by l v \<Longrightarrow> \<not> unoccupied l"
  by (auto simp: vmips_ok_def leased_by_def unoccupied_def vmip_ref_def)

lemma serve_vmip_safe:
  assumes "leases_ok s cl" and "vmips_ok cl" and "keeps_occupied cl0 cl" and "vmip_safe s cl0 (Call c)"
  shows "leases_ok s (snd (serve cl c)) \<and> vmips_ok (snd (serve cl c)) \<and> keeps_occupied cl0 (snd (serve cl c))"
proof (cases c)
  case (CreateLease l)
  show ?thesis
  proof (cases "find_lease cl (le_Name l)")
    case None
    let ?cl = "cl\<lparr> cl_Leases := cl_Leases cl @ [l\<lparr> le_Generation := 1 \<rparr>] \<rparr>"
    have "canonical s (le_Name l)" "le_Conditions l = []" "\<not> le_Deleting l" using assms(4) CreateLease by auto
    then have "leases_ok s ?cl"
      using assms(1) None by (auto simp: leases_ok_def find_lease_None GetCondition_def empty_condition_def)
    moreover have "vmips_ok ?cl" by (rule vmips_ok_leases [OF assms(2)]) auto
    moreover have "keeps_occupied cl0 ?cl" using assms(3) by (auto simp: keeps_occupied_def)
    ultimately show ?thesis using CreateLease None by simp
  qed (use CreateLease assms in auto)
next
  case (UpdateLease read l)
  then obtain l0 where l0: "read = Some l0" "le_Name l = le_Name l0" "unoccupied l0" using assms(4) by auto
  show ?thesis
  proof (cases "find_lease cl (le_Name l) = Some l0")
    case True
    let ?cl = "change_leases (le_Name l) (store_spec l) cl"
    have other: "le_Name x \<noteq> le_Name l" if "x \<in> set (cl_Leases cl)" "\<not> unoccupied x" for x
    proof
      assume "le_Name x = le_Name l"
      then have "x = l0" using same_name [OF assms(1) that(1)] find_lease_Some [OF True] by metis
      then show False using l0(3) that(2) by blast
    qed
    have kept: "x \<in> set (cl_Leases ?cl)" if "x \<in> set (cl_Leases cl)" "\<not> unoccupied x" for x
      using that other [OF that] unfolding change_leases_set by (auto intro!: bexI [of _ x])
    have "leases_ok s ?cl"
      by (rule change_leases_ok [OF assms(1)]) (use assms(1) in \<open>auto simp: leases_ok_def store_spec_frame\<close>)
    moreover have "vmips_ok ?cl"
      by (rule vmips_ok_leases [OF assms(2)]) (use kept leased_occupied [OF assms(2)] in auto)
    moreover have "keeps_occupied cl0 ?cl" using assms(3) kept by (auto simp: keeps_occupied_def)
    ultimately show ?thesis using UpdateLease True l0 by simp
  qed (use UpdateLease l0 assms in \<open>auto split: option.split\<close>)
next
  case (StoreVMIP v)
  let ?cl = "change_vmips (vmip_ref v) (store_vmip_status v) cl"
  have "\<exists>l \<in> set (cl_Leases cl). leased_by l (store_vmip_status v w)"
    if w: "vmip_ref w = vmip_ref v" "vmip_bound (store_vmip_status v w)" for w
  proof -
    have "vmip_bound v" using w(2) by (simp add: store_vmip_status_def)
    then obtain l where l: "l \<in> set (cl_Leases cl0)" "leased_by l v"
      using assms(4) StoreVMIP by (auto simp: bound_ok_def)
    have "\<not> unoccupied l" using l(2) assms(4) StoreVMIP by (auto simp: bound_ok_def leased_by_def unoccupied_def vmip_ref_def)
    then have "l \<in> set (cl_Leases cl)" using l(1) assms(3) by (auto simp: keeps_occupied_def)
    moreover have "leased_by l (store_vmip_status v w)"
      using l(2) w(1) by (simp add: leased_by_def store_vmip_status_def vmip_ref_def)
    ultimately show ?thesis by blast
  qed
  then have "vmips_ok ?cl" by (intro change_vmips_ok [OF assms(2)]) (auto simp: store_vmip_status_def)
  then show ?thesis using assms(1-3) StoreVMIP by (auto simp: leases_ok_def keeps_occupied_def)
qed (use assms(4) in auto)

section \<open>A pass over a lease\<close>

definition held :: "ip_cluster \<Rightarrow> lease \<Rightarrow> bool" where
  "held cl l \<longleftrightarrow> (\<exists>v \<in> set (cl_VMIPs cl). vmip_bound v \<and> le_Ref l = Some (vmip_ref v) \<and> LeaseNameToIP (le_Name l) = ip_Address v)"

text \<open>
  What a pass over the lease \<open>l\<close> may send: its deletion, a status that protects it when it is held or bound,
  and, when it is not held, a reference that names no address.
\<close>

fun lease_safe :: "ip_cluster \<Rightarrow> lease \<Rightarrow> ip_call effect \<Rightarrow> bool" where
  "lease_safe cl l (Call (DeleteLease n)) = (n = le_Name l)"
| "lease_safe cl l (Call (StoreLease l')) = (le_Name l' = le_Name l \<and> (held cl l \<or> lease_bound l' \<longrightarrow> protected l'))"
| "lease_safe cl l (Call (UpdateLease read l')) =
     (read = None \<and> le_Name l' = le_Name l \<and> \<not> held cl l \<and> unoccupied l' \<and> ref_namespace l' = ref_namespace l)"
| "lease_safe cl l (Call _) = False"
| "lease_safe cl l (Event r) = True"

definition after_lifecycle :: "ip_cluster \<Rightarrow> lease \<Rightarrow> lease \<Rightarrow> bool" where
  "after_lifecycle cl l l' \<longleftrightarrow> le_Name l' = le_Name l \<and>
     (le_Ref l' = le_Ref l \<or> \<not> held cl l \<and> unoccupied l' \<and> ref_namespace l' = ref_namespace l) \<and>
     (held cl l \<or> lease_bound l' \<longrightarrow> cond_Reason (fst (GetCondition BoundType (le_Conditions l'))) \<noteq> ReasonReleased)"

definition after_protection :: "ip_cluster \<Rightarrow> lease \<Rightarrow> lease \<Rightarrow> bool" where
  "after_protection cl l l' \<longleftrightarrow> after_lifecycle cl l l' \<and> (held cl l \<or> lease_bound l' \<longrightarrow> protected l')"

lemma set_lease_condition_fields:
  assumes "cb_conditionType cb = BoundType"
  shows "cond_Status (fst (GetCondition BoundType (le_Conditions (set_lease_condition env cb l)))) = cb_status cb"
    and "cond_Reason (fst (GetCondition BoundType (le_Conditions (set_lease_condition env cb l)))) = cb_reason cb"
  using assms by (simp_all add: set_lease_condition_def SetCondition_same)

lemma set_lease_condition_frame [simp]:
  "le_Name (set_lease_condition env cb l) = le_Name l" "le_Ref (set_lease_condition env cb l) = le_Ref l"
  by (simp_all add: set_lease_condition_def)

lemma held_isBound:
  assumes "vmips_ok cl" and "held cl l" and "le_Ref l = Some ref"
    and "reads (Inr vmip) (find_vmip cl (lr_Namespace ref) (lr_Name ref))"
  shows "isBound l vmip"
proof -
  obtain v where v: "v \<in> set (cl_VMIPs cl)" "ref = vmip_ref v" "LeaseNameToIP (le_Name l) = ip_Address v"
    using assms(2,3) by (auto simp: held_def)
  then have "vmip = Some v" using assms(4) find_vmip_stored [OF assms(1) v(1)] by (simp add: reads_def vmip_ref_def)
  then show ?thesis using v assms(3) by (simp add: isBound_def vmip_ref_def)
qed

lemma lease_lifecycle_triple:
  assumes "vmips_ok cl" and "fresh_lease_env cl env"
  shows "triple (\<lambda>x. x = l) (lease_safe cl l) (LeaseLifecycleHandler_Handle env)
    (\<lambda>(l', r, e). e \<noteq> Some StopHandlerChain \<and> after_lifecycle cl l l')"
proof (rule tripleI; clarify)
  let ?cb = "builder_Generation (le_Generation l) (NewConditionBuilder BoundType)"
  have cb: "cb_conditionType ?cb = BoundType" by (simp add: builder_Generation_def NewConditionBuilder_def)
  have fields: "cond_Status (fst (GetCondition BoundType (le_Conditions (set_lease_condition env (cb_set st r m ?cb) x)))) =
      cb_status (cb_set st r m ?cb)"
    "cond_Reason (fst (GetCondition BoundType (le_Conditions (set_lease_condition env (cb_set st r m ?cb) x)))) =
      cb_reason (cb_set st r m ?cb)" for st r m x
    by (rule set_lease_condition_fields; simp add: cb)+
  show "emits (lease_safe cl l) (LeaseLifecycleHandler_Handle env l)"
    unfolding LeaseLifecycleHandler_Handle_def Let_def
    by (auto intro!: emits_rules split: option.split sum.split)
  fix l' r e assume ret: "may_return (LeaseLifecycleHandler_Handle env l) (l', r, e)"
  then obtain ref where ref: "le_Ref l = Some ref" by (cases "le_Ref l") (auto simp: LeaseLifecycleHandler_Handle_def)
  show "e \<noteq> Some StopHandlerChain \<and> after_lifecycle cl l l'"
  proof (cases "lv_VMIP env (lr_Namespace ref) (lr_Name ref)")
    case (Inl err)
    then show ?thesis using ret ref
      by (simp add: LeaseLifecycleHandler_Handle_def Let_def after_lifecycle_def fields)
  next
    case (Inr vmip)
    have bound: "held cl l \<Longrightarrow> isBound l vmip"
      using held_isBound [OF assms(1) _ ref] assms(2) Inr unfolding fresh_lease_env_def by metis
    show ?thesis
    proof (cases "isBound l vmip")
      case True
      then show ?thesis using ret ref Inr
        by (simp add: LeaseLifecycleHandler_Handle_def Let_def after_lifecycle_def fields)
    next
      case False
      then have "\<not> held cl l" using bound by blast
      then show ?thesis using False ret ref Inr
        by (simp add: LeaseLifecycleHandler_Handle_def Let_def after_lifecycle_def fields unoccupied_def ref_namespace_def)
    qed
  qed
qed

lemma after_lifecycle_finalizers [simp]:
  "after_lifecycle cl l (x\<lparr> le_Finalizers := f \<rparr>) = after_lifecycle cl l x"
  "verified_released (x\<lparr> le_Finalizers := f \<rparr>) = verified_released x"
  by (simp_all add: after_lifecycle_def unoccupied_def ref_namespace_def verified_released_def)

lemma lease_protection_triple:
  assumes "finalizer_laws fo"
  shows "triple (after_lifecycle cl l) (lease_safe cl l) (LeaseProtectionHandler_Handle fo)
    (\<lambda>(l', r, e). e \<noteq> Some StopHandlerChain \<and> after_protection cl l l')"
proof (rule tripleI)
  fix x
  show "emits (lease_safe cl l) (LeaseProtectionHandler_Handle fo x)"
    unfolding LeaseProtectionHandler_Handle_def Let_def by (auto intro!: emits_rules)
  fix y assume x: "after_lifecycle cl l x" and ret: "may_return (LeaseProtectionHandler_Handle fo x) y"
  have "verified_released x \<Longrightarrow> \<not> (held cl l \<or> lease_bound x)"
    using x by (auto simp: after_lifecycle_def verified_released_def Let_def)
  then show "case y of (l', r, e) \<Rightarrow> e \<noteq> Some StopHandlerChain \<and> after_protection cl l l'"
    using x ret assms
    by (auto simp: LeaseProtectionHandler_Handle_def Let_def after_protection_def finalizer_laws_def split: if_splits)
qed

lemma lease_retention_triple:
  "triple (after_protection cl l) (lease_safe cl l) (LeaseRetentionHandler_Handle api d env)
    (\<lambda>(l', r, e). e \<noteq> Some StopHandlerChain \<and> after_protection cl l l')"
  by (rule tripleI)
    (auto simp: LeaseRetentionHandler_Handle_def Let_def after_protection_def after_lifecycle_def intro!: emits_rules
      dest!: may_return_bind split: if_splits)

lemma lease_pass_emits:
  assumes "vmips_ok cl" and "fresh_lease_env cl env" and "finalizer_laws fo"
  shows "emits (lease_safe cl l) (LeaseReconciler_Reconcile api fo d env (Some l))"
proof -
  have "triple (\<lambda>x. x = l) (lease_safe cl l)
      (\<lambda>x. handlers_loop (lease_execute api fo d env) lease_handlers x (no_requeue, [])) (\<lambda>(x, acc). after_protection cl l x)"
    unfolding lease_handlers_def
    by (rule chain_triple_Cons [where mid = "after_lifecycle cl l"],
        simp add: lease_lifecycle_triple assms,
        rule chain_triple_Cons [where mid = "after_protection cl l"],
        simp add: lease_protection_triple assms,
        rule chain_triple_Cons [where mid = "after_protection cl l"],
        simp add: lease_retention_triple, rule chain_triple_Nil)
  then show ?thesis
    unfolding LeaseReconciler_Reconcile_def option.case
  proof (rule reconcile_emits)
    fix x assume "after_protection cl l x"
    then show "emits (lease_safe cl l) (store_lease api l x)"
      unfolding store_lease_def Let_def
      by (intro emits_rules) (auto simp: after_protection_def after_lifecycle_def unoccupied_def ref_namespace_def)
  qed simp
qed

definition same_reference :: "ip_cluster \<Rightarrow> lease \<Rightarrow> ip_cluster \<Rightarrow> bool" where
  "same_reference cl0 l cl \<longleftrightarrow> cl_VMIPs cl = cl_VMIPs cl0 \<and>
     (\<forall>x \<in> set (cl_Leases cl). le_Name x = le_Name l \<longrightarrow> le_Ref x = le_Ref l \<or> unoccupied x)"

lemma same_reference_held:
  assumes "vmips_ok cl" and "same_reference cl0 l cl" and "x \<in> set (cl_Leases cl)" and "v \<in> set (cl_VMIPs cl)"
    and "vmip_bound v" and "leased_by x v" and "le_Name x = le_Name l"
  shows "held cl0 l"
proof -
  have "\<not> unoccupied x" using leased_occupied [OF assms(1,4,6)] .
  then have "le_Ref l = Some (vmip_ref v)" using assms(2,3,6,7) by (auto simp: same_reference_def leased_by_def)
  then show ?thesis using assms(2,4-7) unfolding held_def by (auto simp: same_reference_def leased_by_def intro!: bexI [of _ v])
qed

lemma protected_alive: "protected x \<Longrightarrow> le_Finalizers x \<noteq> []"
  by auto

lemma change_leases_keeps:
  assumes "x \<in> set (cl_Leases cl)" and "le_Name x \<noteq> n \<or> f x = y \<and> protected y"
  shows "(if le_Name x = n then y else x) \<in> set (cl_Leases (change_leases n f cl))"
  unfolding change_leases_set using assms protected_alive by (auto intro!: bexI [of _ x])

lemma delete_lease_ok:
  assumes "leases_ok s cl" and "vmips_ok cl"
  shows "leases_ok s (change_leases n (\<lambda>l. l\<lparr> le_Deleting := True \<rparr>) cl) \<and>
    vmips_ok (change_leases n (\<lambda>l. l\<lparr> le_Deleting := True \<rparr>) cl)"
proof
  show "leases_ok s (change_leases n (\<lambda>l. l\<lparr> le_Deleting := True \<rparr>) cl)"
    by (rule change_leases_ok [OF assms(1)]) (use assms(1) in \<open>auto simp: leases_ok_def\<close>)
  show "vmips_ok (change_leases n (\<lambda>l. l\<lparr> le_Deleting := True \<rparr>) cl)"
  proof (rule vmips_ok_leases [OF assms(2)])
    fix l v assume l: "l \<in> set (cl_Leases cl)" "leased_by l v"
    let ?y = "l\<lparr> le_Deleting := True \<rparr>"
    have "leased_by ?y v" using l(2) by (simp add: leased_by_def)
    moreover have "(if le_Name l = n then ?y else l) \<in> set (cl_Leases (change_leases n (\<lambda>l. l\<lparr> le_Deleting := True \<rparr>) cl))"
      using l by (intro change_leases_keeps) (auto simp: leased_by_def)
    ultimately show "\<exists>l' \<in> set (cl_Leases (change_leases n (\<lambda>l. l\<lparr> le_Deleting := True \<rparr>) cl)). leased_by l' v"
      using l(2) by (metis (no_types, lifting))
  qed simp
qed

lemma same_reference_change:
  assumes "same_reference cl0 l cl" and "\<And>x. le_Name (f x) = le_Name x" and "\<And>x. le_Ref (f x) = le_Ref x \<or> unoccupied (f x)"
  shows "same_reference cl0 l (change_leases n f cl)"
  unfolding same_reference_def
proof (intro conjI ballI impI)
  show "cl_VMIPs (change_leases n f cl) = cl_VMIPs cl0" using assms(1) by (simp add: same_reference_def)
  fix x assume x: "x \<in> set (cl_Leases (change_leases n f cl))" "le_Name x = le_Name l"
  then obtain y where y: "y \<in> set (cl_Leases cl)" "x = (if le_Name y = n then f y else y)"
    unfolding change_leases_set by blast
  then have "le_Ref y = le_Ref l \<or> unoccupied y"
    using assms(1) x(2) assms(2) [of y] by (auto simp: same_reference_def split: if_splits)
  then show "le_Ref x = le_Ref l \<or> unoccupied x"
    using y(2) assms(3) [of y] by (cases "le_Name y = n") (auto simp: unoccupied_def)
qed

lemma serve_lease_safe:
  assumes ok: "leases_ok s cl" "vmips_ok cl" and same: "same_reference cl0 l cl" and "lease_safe cl0 l (Call c)"
  shows "leases_ok s (snd (serve cl c)) \<and> vmips_ok (snd (serve cl c)) \<and> same_reference cl0 l (snd (serve cl c))"
proof (cases c)
  case (DeleteLease n)
  have "same_reference cl0 l (change_leases n (\<lambda>l. l\<lparr> le_Deleting := True \<rparr>) cl)"
    by (rule same_reference_change [OF same]) simp_all
  then show ?thesis using DeleteLease delete_lease_ok [OF ok] same ok by simp
next
  case (StoreLease l')
  let ?cl = "change_leases (le_Name l') (store_status l') cl"
  have l': "le_Name l' = le_Name l" "held cl0 l \<or> lease_bound l' \<longrightarrow> protected l'" using assms(4) StoreLease by auto
  have "leases_ok s ?cl"
    by (rule change_leases_ok [OF ok(1)]) (use l' in \<open>auto simp: store_status_frame\<close>)
  moreover have "vmips_ok ?cl"
  proof (rule vmips_ok_leases [OF ok(2)])
    fix x v assume x: "x \<in> set (cl_Leases cl)" "v \<in> set (cl_VMIPs cl)" "vmip_bound v" "leased_by x v"
    have "leased_by (store_status l' x) v" if "le_Name x = le_Name l'"
      using same_reference_held [OF ok(2) same x] that l' x(4) by (simp add: leased_by_def store_status_frame)
    moreover have "(if le_Name x = le_Name l' then store_status l' x else x) \<in> set (cl_Leases ?cl)"
      using x(1) calculation by (intro change_leases_keeps) (auto simp: leased_by_def)
    ultimately show "\<exists>y \<in> set (cl_Leases ?cl). leased_by y v" using x(4) by (metis (no_types, lifting))
  qed simp
  moreover have "same_reference cl0 l ?cl"
    by (rule same_reference_change [OF same]) (simp_all add: store_status_frame)
  ultimately show ?thesis using StoreLease same ok by simp
next
  case (UpdateLease read l')
  let ?cl = "change_leases (le_Name l') (store_spec l') cl"
  have l': "read = None" "le_Name l' = le_Name l" "\<not> held cl0 l" "unoccupied l'" using assms(4) UpdateLease by auto
  have "leases_ok s ?cl"
    by (rule change_leases_ok [OF ok(1)]) (use ok(1) in \<open>auto simp: store_spec_frame leases_ok_def\<close>)
  moreover have "vmips_ok ?cl"
  proof (rule vmips_ok_leases [OF ok(2)])
    fix x v assume x: "x \<in> set (cl_Leases cl)" "v \<in> set (cl_VMIPs cl)" "vmip_bound v" "leased_by x v"
    have "le_Name x \<noteq> le_Name l'" using same_reference_held [OF ok(2) same x] l' by auto
    then have "x \<in> set (cl_Leases ?cl)" using change_leases_keeps [OF x(1), of "le_Name l'" "store_spec l'" x] by simp
    then show "\<exists>y \<in> set (cl_Leases ?cl). leased_by y v" using x(4) by blast
  qed simp
  moreover have "same_reference cl0 l ?cl"
    by (rule same_reference_change [OF same]) (use l'(4) in \<open>simp_all add: unoccupied_def store_spec_frame\<close>)
  ultimately show ?thesis using UpdateLease l'(1) same ok by (simp split: option.split)
qed (use assms(4) in auto)

section \<open>The invariant of the cluster\<close>

lemma apply_log_keeps:
  assumes "\<And>cl c. J cl \<Longrightarrow> P (Call c) \<Longrightarrow> J (snd (serve cl c))" and "list_all P log" and "J cl"
  shows "J (apply_log cl log)"
  using assms(2,3)
proof (induction log arbitrary: cl)
  case (Cons e log)
  have "J (apply_effect cl e)" using Cons.prems assms(1) by (cases e) auto
  then show ?case using Cons by (simp add: apply_log_def)
qed (simp add: apply_log_def)

lemma emits_log_all: "emits P m \<Longrightarrow> m [] = (r, log) \<Longrightarrow> list_all P log"
  unfolding emits_def by (metis append_Nil snd_conv)

lemma vmip_pass_ok:
  assumes "list_all v4_cidr (svc_CIDRs s)" and ok: "leases_ok s cl" "vmips_ok cl" and "fresh_env cl env"
    and v: "v \<in> set (cl_VMIPs cl)" and run: "VMIPReconciler_Reconcile api s fo env (Some v) [] = (r, log)"
  shows "leases_ok s (apply_log cl log) \<and> vmips_ok (apply_log cl log) \<and> keeps_occupied cl (apply_log cl log)"
proof (rule apply_log_keeps [where P = "vmip_safe s cl"])
  have "ip_Name v \<noteq> ''''" using ok(2) v by (simp add: vmips_ok_def)
  from emits_log_all [OF vmip_pass_emits [OF assms(1) ok(1) assms(4) this] run] show "list_all (vmip_safe s cl) log" .
  show "leases_ok s cl \<and> vmips_ok cl \<and> keeps_occupied cl cl" using ok by (simp add: keeps_occupied_def)
qed (use serve_vmip_safe in blast)

lemma lease_pass_ok:
  assumes "finalizer_laws fo" and ok: "leases_ok s cl" "vmips_ok cl" and "fresh_lease_env cl env"
    and l: "l \<in> set (cl_Leases cl)" and run: "LeaseReconciler_Reconcile api fo d env (Some l) [] = (r, log)"
  shows "leases_ok s (apply_log cl log) \<and> vmips_ok (apply_log cl log) \<and> same_reference cl l (apply_log cl log)"
proof (rule apply_log_keeps [where P = "lease_safe cl l"])
  show "list_all (lease_safe cl l) log" using emits_log_all [OF lease_pass_emits [OF ok(2) assms(4,1)] run] .
  have "same_reference cl l cl" unfolding same_reference_def using same_name [OF ok(1) _ l] by metis
  then show "leases_ok s cl \<and> vmips_ok cl \<and> same_reference cl l cl" using ok by simp
qed (use serve_lease_safe in blast)

lemma no_conditions: "\<not> cond_Status (fst (GetCondition k [])) = ConditionTrue"
  by (simp add: GetCondition_def empty_condition_def)

lemma ip_step_ok:
  assumes "ip_step q s fo d cl cl'" and v4: "list_all v4_cidr (svc_CIDRs s)" and fo: "finalizer_laws fo"
    and ok: "leases_ok s cl" "vmips_ok cl"
  shows "leases_ok s cl' \<and> vmips_ok cl'"
  using assms(1)
proof (cases rule: ip_step.cases)
  case (vmip_pass env v r log)
  then show ?thesis using vmip_pass_ok [OF v4 ok] by blast
next
  case (lease_pass env l r log)
  then show ?thesis using lease_pass_ok [OF fo ok] by blast
next
  case (create_vmip v)
  then have "vmips_ok cl'"
    using ok(2) no_conditions by (auto simp: vmips_ok_def find_vmip_None)
  then show ?thesis using ok(1) create_vmip(1) by (simp add: leases_ok_def)
next
  case (change_vmip k t a ls os)
  have "vmips_ok cl'" unfolding change_vmip
    by (rule change_vmips_ok [OF ok(2)]) (use ok(2) in \<open>auto simp: vmips_ok_def leased_by_def vmip_ref_def\<close>)
  then show ?thesis using ok(1) change_vmip by (simp add: leases_ok_def)
next
  case (delete_vmip k)
  have "vmips_ok cl'" unfolding delete_vmip
    by (rule change_vmips_ok [OF ok(2)]) (use ok(2) in \<open>auto simp: vmips_ok_def leased_by_def vmip_ref_def\<close>)
  then show ?thesis using ok(1) delete_vmip by (simp add: leases_ok_def)
next
  case (create_lease x ls ref)
  then have "leases_ok s cl'"
    using ok(1) no_conditions by (auto simp: leases_ok_def find_lease_None canonical_def)
  moreover have "vmips_ok cl'" by (rule vmips_ok_leases [OF ok(2)]) (auto simp: create_lease)
  ultimately show ?thesis by simp
next
  case (delete_lease n)
  then show ?thesis using delete_lease_ok [OF ok] by simp
qed

lemma ip_reachable_ok:
  assumes "ip_reachable q s fo d cl" and "list_all v4_cidr (svc_CIDRs s)" and "finalizer_laws fo"
  shows "leases_ok s cl \<and> vmips_ok cl"
  using assms
proof (induction rule: ip_reachable.induct)
  case ip_start
  then show ?case by (simp add: leases_ok_def vmips_ok_def)
next
  case (ip_next cl cl')
  then show ?case using ip_step_ok by blast
qed


section \<open>The namespace of a lease\<close>

definition namespaces_kept :: "ip_cluster \<Rightarrow> ip_cluster \<Rightarrow> bool" where
  "namespaces_kept cl cl' \<longleftrightarrow>
     (\<forall>l \<in> set (cl_Leases cl). \<forall>l' \<in> set (cl_Leases cl'). le_Name l' = le_Name l \<longrightarrow> ref_namespace l \<noteq> '''' \<longrightarrow>
        ref_namespace l' = ref_namespace l)"

lemma namespaces_kept_change:
  assumes "namespaces_kept cl0 cl" and "\<And>x. le_Name (f x) = le_Name x"
    and "\<And>l x. l \<in> set (cl_Leases cl0) \<Longrightarrow> x \<in> set (cl_Leases cl) \<Longrightarrow> le_Name l = n \<Longrightarrow> le_Name x = n \<Longrightarrow>
      ref_namespace l \<noteq> '''' \<Longrightarrow> ref_namespace x = ref_namespace l \<Longrightarrow> ref_namespace (f x) = ref_namespace l"
  shows "namespaces_kept cl0 (change_leases n f cl)"
  unfolding namespaces_kept_def
proof (intro ballI impI)
  fix l l'
  assume l: "l \<in> set (cl_Leases cl0)" "l' \<in> set (cl_Leases (change_leases n f cl))" "le_Name l' = le_Name l" "ref_namespace l \<noteq> ''''"
  obtain x where x: "x \<in> set (cl_Leases cl)" "l' = (if le_Name x = n then f x else x)"
    using l(2) unfolding change_leases_set by blast
  then have name: "le_Name x = le_Name l" using l(3) assms(2) by (auto split: if_splits)
  then have "ref_namespace x = ref_namespace l" using assms(1) l(1,4) x(1) unfolding namespaces_kept_def by blast
  then show "ref_namespace l' = ref_namespace l" using assms(3) [OF l(1) x(1)] name x(2) l(4) by (cases "le_Name x = n") simp_all
qed

lemma namespaces_kept_append:
  assumes "namespaces_kept cl0 cl" and "le_Name l \<notin> le_Name ` set (cl_Leases cl0)"
  shows "namespaces_kept cl0 (cl\<lparr> cl_Leases := cl_Leases cl @ [l] \<rparr>)"
  unfolding namespaces_kept_def
proof (intro ballI impI)
  fix x x' assume x: "x \<in> set (cl_Leases cl0)" "x' \<in> set (cl_Leases (cl\<lparr> cl_Leases := cl_Leases cl @ [l] \<rparr>))"
    "le_Name x' = le_Name x" "ref_namespace x \<noteq> ''''"
  then have "x' \<noteq> l" using assms(2) by auto
  then show "ref_namespace x' = ref_namespace x" using x assms(1) by (simp add: namespaces_kept_def)
qed

lemma namespaces_kept_vmips: "cl_Leases cl' = cl_Leases cl \<Longrightarrow> namespaces_kept cl0 cl \<Longrightarrow> namespaces_kept cl0 cl'"
  unfolding namespaces_kept_def by metis

lemma namespaces_kept_refl: "leases_ok s cl \<Longrightarrow> namespaces_kept cl cl"
  unfolding namespaces_kept_def using same_name by metis

lemma namespaces_kept_delete:
  "leases_ok s cl \<Longrightarrow> namespaces_kept cl0 cl \<Longrightarrow> namespaces_kept cl0 (change_leases n (\<lambda>l. l\<lparr> le_Deleting := True \<rparr>) cl)"
  by (rule namespaces_kept_change) (simp_all add: ref_namespace_def)

definition names_kept :: "ip_cluster \<Rightarrow> ip_cluster \<Rightarrow> bool" where
  "names_kept cl cl' \<longleftrightarrow> le_Name ` set (cl_Leases cl) \<subseteq> le_Name ` set (cl_Leases cl')"

lemma names_kept_store_spec:
  assumes "leases_ok s cl" and "names_kept cl0 cl"
  shows "names_kept cl0 (change_leases n (store_spec l) cl)"
  unfolding names_kept_def
proof
  fix m assume "m \<in> le_Name ` set (cl_Leases cl0)"
  with assms(2) have "m \<in> le_Name ` set (cl_Leases cl)" unfolding names_kept_def by (rule subsetD)
  then obtain x where x: "x \<in> set (cl_Leases cl)" "le_Name x = m" by (elim imageE) simp
  let ?y = "if le_Name x = n then store_spec l x else x"
  have alive: "le_Deleting x \<longrightarrow> le_Finalizers x \<noteq> []" using assms(1) x(1) by (simp add: leases_ok_def)
  have "\<not> (le_Name ?y = n \<and> le_Deleting ?y \<and> le_Finalizers ?y = [])" using alive by (auto simp: store_spec_def)
  then have "?y \<in> set (cl_Leases (change_leases n (store_spec l) cl))" unfolding change_leases_set using x(1) by blast
  moreover have "le_Name ?y = m" using x(2) by (simp add: store_spec_frame)
  ultimately show "m \<in> le_Name ` set (cl_Leases (change_leases n (store_spec l) cl))" by (metis imageI)
qed

lemma serve_vmip_namespace:
  assumes ok: "leases_ok s cl" and kept: "namespaces_kept cl0 cl" "names_kept cl0 cl" and "vmip_safe s cl0 (Call c)"
  shows "namespaces_kept cl0 (snd (serve cl c)) \<and> names_kept cl0 (snd (serve cl c))"
proof (cases c)
  case (CreateLease l)
  show ?thesis
  proof (cases "find_lease cl (le_Name l)")
    case None
    then have "le_Name l \<notin> le_Name ` set (cl_Leases cl0)" using kept(2) by (auto simp: find_lease_None names_kept_def)
    then have "namespaces_kept cl0 (cl\<lparr> cl_Leases := cl_Leases cl @ [l\<lparr> le_Generation := 1 \<rparr>] \<rparr>)"
      using kept(1) by (intro namespaces_kept_append) simp_all
    moreover have "names_kept cl0 (cl\<lparr> cl_Leases := cl_Leases cl @ [l\<lparr> le_Generation := 1 \<rparr>] \<rparr>)"
      using kept(2) unfolding names_kept_def by auto
    ultimately show ?thesis using CreateLease None by simp
  qed (use CreateLease kept in simp)
next
  case (UpdateLease read l)
  then obtain l0 where l0: "read = Some l0" "le_Name l = le_Name l0"
    "ref_namespace l0 \<noteq> '''' \<longrightarrow> ref_namespace l = ref_namespace l0" using assms(4) by auto
  show ?thesis
  proof (cases "find_lease cl (le_Name l) = Some l0")
    case True
    have stored: "x = l0" if "x \<in> set (cl_Leases cl)" "le_Name x = le_Name l" for x
      using same_name [OF ok that(1)] find_lease_Some [OF True] that(2) by metis
    have "namespaces_kept cl0 (change_leases (le_Name l) (store_spec l) cl)"
    proof (rule namespaces_kept_change [OF kept(1)])
      fix m x assume x: "x \<in> set (cl_Leases cl)" "le_Name x = le_Name l" "ref_namespace m \<noteq> ''''" "ref_namespace x = ref_namespace m"
      have "ref_namespace (store_spec l x) = ref_namespace l" by (simp add: ref_namespace_def store_spec_frame)
      then show "ref_namespace (store_spec l x) = ref_namespace m" using stored [OF x(1,2)] x(3,4) l0(3) by simp
    qed (simp add: store_spec_frame)
    then show ?thesis using UpdateLease True l0(1) names_kept_store_spec [OF ok kept(2)] by simp
  qed (use UpdateLease l0 kept in \<open>auto split: option.split\<close>)
next
  case (StoreVMIP v)
  then show ?thesis using kept namespaces_kept_vmips by (simp add: names_kept_def)
qed (use assms(4) in simp_all)

lemma serve_lease_namespace:
  assumes ok: "leases_ok s cl0" "l \<in> set (cl_Leases cl0)" and kept: "namespaces_kept cl0 cl" and "lease_safe cl0 l (Call c)"
  shows "namespaces_kept cl0 (snd (serve cl c))"
proof (cases c)
  case (DeleteLease n)
  have "namespaces_kept cl0 (change_leases n (\<lambda>l. l\<lparr> le_Deleting := True \<rparr>) cl)"
    by (rule namespaces_kept_change [OF kept]) (simp_all add: ref_namespace_def)
  then show ?thesis using DeleteLease kept by simp
next
  case (StoreLease l')
  have "namespaces_kept cl0 (change_leases (le_Name l') (store_status l') cl)"
    by (rule namespaces_kept_change [OF kept]) (simp_all add: ref_namespace_def store_status_frame)
  then show ?thesis using StoreLease kept by simp
next
  case (UpdateLease read l')
  then have l': "read = None" "le_Name l' = le_Name l" "ref_namespace l' = ref_namespace l" using assms(4) by auto
  have "namespaces_kept cl0 (change_leases (le_Name l') (store_spec l') cl)"
  proof (rule namespaces_kept_change [OF kept])
    fix m x assume m: "m \<in> set (cl_Leases cl0)" "le_Name m = le_Name l'"
    have "m = l" using same_name [OF ok(1) m(1) ok(2)] m(2) l'(2) by metis
    then show "ref_namespace (store_spec l' x) = ref_namespace m" using l'(3) by (simp add: ref_namespace_def store_spec_frame)
  qed (simp add: store_spec_frame)
  then show ?thesis using UpdateLease l'(1) kept by (simp split: option.split)
qed (use assms(4) in simp_all)

lemma ip_step_namespaces:
  assumes "ip_step q s fo d cl cl'" and v4: "list_all v4_cidr (svc_CIDRs s)" and fo: "finalizer_laws fo"
    and ok: "leases_ok s cl" "vmips_ok cl"
  shows "namespaces_kept cl cl'"
  using assms(1)
proof (cases rule: ip_step.cases)
  case (vmip_pass env v r log)
  then have "ip_Name v \<noteq> ''''" using ok(2) by (simp add: vmips_ok_def)
  from emits_log_all [OF vmip_pass_emits [OF v4 ok(1) vmip_pass(2) this] vmip_pass(4)]
  have safe: "list_all (vmip_safe s cl) log" .
  have "(leases_ok s cl' \<and> vmips_ok cl' \<and> keeps_occupied cl cl') \<and> namespaces_kept cl cl' \<and> names_kept cl cl'"
    unfolding vmip_pass(1)
  proof (rule apply_log_keeps [OF _ safe])
    fix cl1 c
    assume J: "(leases_ok s cl1 \<and> vmips_ok cl1 \<and> keeps_occupied cl cl1) \<and> namespaces_kept cl cl1 \<and> names_kept cl cl1"
      and c: "vmip_safe s cl (Call c)"
    show "(leases_ok s (snd (serve cl1 c)) \<and> vmips_ok (snd (serve cl1 c)) \<and> keeps_occupied cl (snd (serve cl1 c))) \<and>
      namespaces_kept cl (snd (serve cl1 c)) \<and> names_kept cl (snd (serve cl1 c))"
      using serve_vmip_safe [of s cl1 cl c] serve_vmip_namespace [of s cl1 cl c] J c by blast
  qed (use ok namespaces_kept_refl in \<open>auto simp: keeps_occupied_def names_kept_def\<close>)
  then show ?thesis by blast
next
  case (lease_pass env l r log)
  show ?thesis unfolding lease_pass(1)
    by (rule apply_log_keeps [OF serve_lease_namespace [OF ok(1) lease_pass(3)]
          emits_log_all [OF lease_pass_emits [OF ok(2) lease_pass(2) fo] lease_pass(4)] namespaces_kept_refl [OF ok(1)]])
next
  case (create_lease x ls ref)
  then show ?thesis
    using namespaces_kept_append [OF namespaces_kept_refl [OF ok(1)]] by (simp add: find_lease_None)
next
  case (delete_lease n)
  then show ?thesis using namespaces_kept_delete [OF ok(1) namespaces_kept_refl [OF ok(1)]] by simp
qed (use namespaces_kept_refl [OF ok(1)] namespaces_kept_vmips in simp_all)


end
