(* ===== verification/IPBinding.thy ===== *)
theory IPBinding
  imports IPLeaseSystem
begin

text \<open>
  Progress of the address controllers: passes whose reads succeed are steps of the cluster, and three of
  them bind a new address.  The example at the end is a cluster with a bound address, which also shows that
  the hypotheses of the invariants can hold.
\<close>

section \<open>A new address gets bound\<close>

text \<open>Passes whose reads succeed.  The base \<open>env\<close> gives the virtual machines and the clock.\<close>

definition served_env :: "ip_cluster \<Rightarrow> 'q ip_env \<Rightarrow> 'q ip_env" where
  "served_env cl env =
     env\<lparr> ie_CachedLease := \<lambda>n. Inr (find_lease cl n), ie_Lease := \<lambda>n. Inr (find_lease cl n),
          ie_CachedLeasesByUID := \<lambda>u. Inr (filter (\<lambda>l. label_value (le_Labels l) LabelIPAddressUID = u) (cl_Leases cl)),
          ie_LeasesByUID := \<lambda>u. Inr (filter (\<lambda>l. label_value (le_Labels l) LabelIPAddressUID = u) (cl_Leases cl)),
          ie_Leases := Inr (cl_Leases cl) \<rparr>"

definition served_lease_env :: "ip_cluster \<Rightarrow> lease_env \<Rightarrow> lease_env" where
  "served_lease_env cl env = env\<lparr> lv_VMIP := \<lambda>ns n. Inr (find_vmip cl ns n) \<rparr>"

definition vmip_turn :: "ip_service \<Rightarrow> finalizer_ops \<Rightarrow> 'q ip_env \<Rightarrow> lease_ref \<Rightarrow> ip_cluster \<Rightarrow> ip_cluster" where
  "vmip_turn s fo env k cl =
     (case find_vmip cl (lr_Namespace k) (lr_Name k) of
        None \<Rightarrow> cl
      | Some v \<Rightarrow> apply_log cl (snd (VMIPReconciler_Reconcile (cluster_api cl) s fo (served_env cl env) (Some v) [])))"

definition lease_turn :: "finalizer_ops \<Rightarrow> int \<Rightarrow> lease_env \<Rightarrow> string \<Rightarrow> ip_cluster \<Rightarrow> ip_cluster" where
  "lease_turn fo d env n cl =
     (case find_lease cl n of
        None \<Rightarrow> cl
      | Some l \<Rightarrow> apply_log cl (snd (LeaseReconciler_Reconcile (cluster_api cl) fo d (served_lease_env cl env) (Some l) [])))"

lemma served_env_fresh: "fresh_env cl (served_env cl env)" "fresh_lease_env cl (served_lease_env cl lenv)"
  by (simp_all add: fresh_env_def served_env_def fresh_lease_env_def served_lease_env_def reads_def)

lemma vmip_turn_step:
  fixes env :: "'q ip_env" and q :: "'q itself"
  assumes "find_vmip cl (lr_Namespace k) (lr_Name k) = Some v"
  shows "ip_step q s fo d cl (vmip_turn s fo env k cl)"
proof -
  obtain r log where run: "VMIPReconciler_Reconcile (cluster_api cl) s fo (served_env cl env) (Some v) [] = (r, log)"
    by fastforce
  have "v \<in> set (cl_VMIPs cl)" using find_vmip_Some [OF assms] by blast
  from ip_step.vmip_pass [OF served_env_fresh(1) this run] show ?thesis by (simp add: vmip_turn_def assms run)
qed

lemma lease_turn_step:
  assumes "find_lease cl n = Some l"
  shows "ip_step q s fo d cl (lease_turn fo d env n cl)"
proof -
  obtain r log where run: "LeaseReconciler_Reconcile (cluster_api cl) fo d (served_lease_env cl env) (Some l) [] = (r, log)"
    by fastforce
  have "l \<in> set (cl_Leases cl)" using find_lease_Some [OF assms] by blast
  from ip_step.lease_pass [OF served_env_fresh(2) this run] show ?thesis by (simp add: lease_turn_def assms run)
qed

text \<open>What the handlers after the bound handler keep.\<close>

definition same_binding :: "vmip \<Rightarrow> vmip \<Rightarrow> bool" where
  "same_binding v w \<longleftrightarrow> vmip_ref w = vmip_ref v \<and> ip_Address w = ip_Address v \<and> vmip_bound w = vmip_bound v"

abbreviation is_event :: "ip_call effect \<Rightarrow> bool" where "is_event e \<equiv> (\<exists>r. e = Event r)"

lemma same_binding_frame:
  "same_binding v (w\<lparr> ip_VirtualMachine := m \<rparr>) = same_binding v w" "same_binding v (w\<lparr> ip_Phase := p \<rparr>) = same_binding v w"
  "same_binding v (w\<lparr> ip_Finalizers := f \<rparr>) = same_binding v w" "same_binding v (w\<lparr> ip_ObservedGeneration := g \<rparr>) = same_binding v w"
  "same_binding v v"
  by (simp_all add: same_binding_def vmip_ref_def)

lemma same_binding_other:
  "cb_conditionType cb \<noteq> BoundType \<Longrightarrow> same_binding v (set_ip_condition env k cb w) = same_binding v w"
  by (simp add: same_binding_def set_ip_condition_other)

lemma later_handlers_triple:
  "triple (same_binding v) is_event
     (\<lambda>w. handlers_loop (vmip_execute api s fo env) [AttachedHandler, IPLifecycleHandler, IPProtectionHandler] w acc)
     (\<lambda>(w, acc). same_binding v w)"
proof -
  have cb: "cb_conditionType (builder_Generation g (NewConditionBuilder AttachedType)) \<noteq> BoundType" for g
    by (simp add: builder_Generation_def NewConditionBuilder_def)
  have "triple (same_binding v) is_event (AttachedHandler_Handle env) (\<lambda>(w, r, e). e \<noteq> Some StopHandlerChain \<and> same_binding v w)"
    by (rule tripleI)
      (auto simp: AttachedHandler_Handle_def Let_def same_binding_other same_binding_frame cb intro!: emits_rules
        split: sum.split option.split sum.splits option.splits)
  moreover have "triple (same_binding v) is_event IPLifecycleHandler_Handle (\<lambda>(w, r, e). e \<noteq> Some StopHandlerChain \<and> same_binding v w)"
    by (rule tripleI) (auto simp: IPLifecycleHandler_Handle_def Let_def same_binding_frame intro!: emits_rules split: if_splits)
  moreover have "triple (same_binding v) is_event (IPProtectionHandler_Handle fo) (\<lambda>(w, r, e). e \<noteq> Some StopHandlerChain \<and> same_binding v w)"
    by (rule tripleI) (auto simp: IPProtectionHandler_Handle_def Let_def same_binding_frame intro!: emits_rules split: if_splits)
  ultimately show ?thesis
    by (intro chain_triple_Cons [where mid = "same_binding v"] chain_triple_Nil) simp_all
qed

lemma returns_later: "returns (handlers_loop (vmip_execute api s fo env) [AttachedHandler, IPLifecycleHandler, IPProtectionHandler] w acc)"
proof -
  have handlers: "returns (AttachedHandler_Handle env x)" "returns (IPLifecycleHandler_Handle x)" "returns (IPProtectionHandler_Handle fo x)" for x
    unfolding AttachedHandler_Handle_def IPLifecycleHandler_Handle_def IPProtectionHandler_Handle_def Let_def
    by (auto intro!: returns_rules split: sum.split option.split)
  show ?thesis by (auto intro!: returns_rules handlers simp: Let_def)
qed

lemma base_run:
  assumes "handlers_loop exe hs s (no_requeue, []) log = (Returned (s', acc), log1)"
    and "upd s' log1 = (Returned e, log2)"
  shows "\<exists>x. BaseReconciler_Reconcile (Some exe) (Some upd) (\<lambda>h. None) hs s log = (Returned x, log2)"
  using assms by (simp add: BaseReconciler_Reconcile_def List.map_filter_def bind_run_def ret_def split: prod.split)

lemma store_vmip_run:
  "store_vmip api v log = (Returned (api_error (api log (StoreVMIP (v\<lparr> ip_ObservedGeneration := ip_Generation v \<rparr>)))),
     log @ [Call (StoreVMIP (v\<lparr> ip_ObservedGeneration := ip_Generation v \<rparr>))])"
  by (simp add: store_vmip_def bind_run_def call_def ret_def)

lemma vmip_pass_run:
  assumes "BoundHandler_Handle api s env v [] = (Returned (v1, r, e), log1)" and "e \<noteq> Some StopHandlerChain"
  shows "\<exists>evs v2. snd (VMIPReconciler_Reconcile api s fo env (Some v) []) = log1 @ evs @ [Call (StoreVMIP v2)] \<and>
    list_all is_event evs \<and> same_binding v1 v2"
proof -
  let ?later = "handlers_loop (vmip_execute api s fo env) [AttachedHandler, IPLifecycleHandler, IPProtectionHandler]
    v1 (handler_outcome (no_requeue, []) r e)"
  obtain w acc log2 where later: "?later log1 = (Returned (w, acc), log2)"
    using returns_later [of api s fo env v1 "handler_outcome (no_requeue, []) r e"] unfolding returns_def by (metis surj_pair)
  have "same_binding v1 v1" by (simp add: same_binding_frame)
  then have post: "emits is_event ?later" "\<And>x. may_return ?later x \<Longrightarrow> (case x of (w, acc) \<Rightarrow> same_binding v1 w)"
    using later_handlers_triple [of v1 api s fo env "handler_outcome (no_requeue, []) r e"] unfolding triple_def by blast+
  have w: "same_binding v1 w" using post(2) [of "(w, acc)"] later by (auto simp: may_return_def)
  obtain evs where evs: "log2 = log1 @ evs" "list_all is_event evs"
    using post(1) later unfolding emits_def by (metis snd_conv)
  have "handlers_loop (vmip_execute api s fo env) vmip_handlers v (no_requeue, []) [] = (Returned (w, acc), log2)"
    using later assms by (simp add: vmip_handlers_def bind_run_def Let_def)
  from base_run [OF this, of "store_vmip api"] have
    "snd (VMIPReconciler_Reconcile api s fo env (Some v) []) = log2 @ [Call (StoreVMIP (w\<lparr> ip_ObservedGeneration := ip_Generation w \<rparr>))]"
    unfolding VMIPReconciler_Reconcile_def option.case
    by (metis (no_types, lifting) store_vmip_run snd_conv)
  then show ?thesis using evs w by (auto simp: same_binding_frame)
qed

lemma apply_log_append: "apply_log cl (xs @ ys) = apply_log (apply_log cl xs) ys"
  by (simp add: apply_log_def)

lemma apply_log_events: "list_all is_event evs \<Longrightarrow> apply_log cl evs = cl"
  by (induction evs) (auto simp: apply_log_def)

lemma change_leases_last:
  assumes "le_Name l = n" and "n \<notin> le_Name ` set ls" and "\<not> le_Deleting (f l)"
  shows "change_leases n f (cl\<lparr> cl_Leases := ls @ [l] \<rparr>) = cl\<lparr> cl_Leases := ls @ [f l] \<rparr>"
proof -
  have "map (\<lambda>x. if le_Name x = n then f x else x) ls = ls" using assms(2) by (intro map_idI) auto
  moreover have "filter (\<lambda>x. \<not> (le_Name x = n \<and> le_Deleting x \<and> le_Finalizers x = [])) ls = ls"
    using assms(2) by (intro filter_True) auto
  ultimately show ?thesis using assms(1,3) by (simp add: change_leases_def)
qed

text \<open>The end of a pass over an address: its status is stored, and the leases are left alone.\<close>

lemma vmip_turn_stores:
  fixes env :: "'q ip_env"
  assumes v: "find_vmip cl (lr_Namespace k) (lr_Name k) = Some v" and alive: "\<not> ip_Deleting v"
    and bound: "BoundHandler_Handle (cluster_api cl) s (served_env cl env) v [] = (Returned (v1, r, e), log1)"
    and "e \<noteq> Some StopHandlerChain" and ref: "vmip_ref v1 = vmip_ref v"
    and mid: "cl_VMIPs (apply_log cl log1) = cl_VMIPs cl" and ok: "vmips_ok (vmip_turn s fo env k cl)"
  shows "cl_Leases (vmip_turn s fo env k cl) = cl_Leases (apply_log cl log1) \<and>
    (\<exists>v2. same_binding v1 v2 \<and> find_vmip (vmip_turn s fo env k cl) (lr_Namespace k) (lr_Name k) = Some (store_vmip_status v2 v))"
proof -
  obtain evs v2 where log: "snd (VMIPReconciler_Reconcile (cluster_api cl) s fo (served_env cl env) (Some v) []) =
      log1 @ evs @ [Call (StoreVMIP v2)]" "list_all is_event evs" "same_binding v1 v2"
    using vmip_pass_run [OF bound assms(4)] by blast
  have v': "v \<in> set (cl_VMIPs cl)" "vmip_ref v = k" using find_vmip_Some [OF v] by (auto simp: vmip_ref_def)
  have v2: "vmip_ref v2 = k" using log(3) ref v'(2) by (simp add: same_binding_def)
  then have "find_vmip (apply_log cl log1) (ip_Namespace v2) (ip_Name v2) \<noteq> None"
    using v mid by (auto simp: find_vmip_def vmip_ref_def)
  then have turn: "vmip_turn s fo env k cl = change_vmips k (store_vmip_status v2) (apply_log cl log1)"
    using v log(1) v2 by (simp add: vmip_turn_def apply_log_append apply_log_events [OF log(2)]) (auto simp: apply_log_def)
  let ?w = "store_vmip_status v2 v"
  have w: "vmip_ref ?w = k" using v'(2) by (simp add: store_vmip_status_def vmip_ref_def)
  have "?w \<in> set (cl_VMIPs (vmip_turn s fo env k cl))"
    unfolding turn change_vmips_set using v' alive mid
    by (auto simp: store_vmip_status_def intro!: bexI [of _ v])
  from find_vmip_stored [OF ok this] have "find_vmip (vmip_turn s fo env k cl) (lr_Namespace k) (lr_Name k) = Some ?w"
    using w by (auto simp: vmip_ref_def)
  then show ?thesis using turn log(3) by auto
qed

text \<open>The first pass creates a lease for a free address.\<close>

definition new_lease :: "ip_service \<Rightarrow> vmip \<Rightarrow> string \<Rightarrow> lease" where
  "new_lease s v a = (buildVirtualMachineIPAddressLease s v a)\<lparr> le_Generation := 1 \<rparr>"

lemma bound_handler_creates:
  assumes v: "ip_Type v \<noteq> TypeStatic" "ip_StaticIP v = ''''" "ip_Address v = ''''"
    and uid: "\<And>l. l \<in> set (cl_Leases cl) \<Longrightarrow> label_value (le_Labels l) LabelIPAddressUID \<noteq> ip_UID v"
    and a: "AllocateNewIP (svc_Text s) (svc_Net s) (svc_CIDRs s) (map (LeaseNameToIP \<circ> le_Name) (cl_Leases cl)) = Inr a"
      "IsInsideOfRange (svc_Text s) (svc_Net s) (svc_CIDRs s) a = None"
      "a \<notin> set (map (LeaseNameToIP \<circ> le_Name) (cl_Leases cl))"
    and new: "find_lease cl (IPToLeaseName (svc_Text s) a) = None"
  shows "\<exists>v1 r. BoundHandler_Handle (cluster_api cl) s (served_env cl env) v [] =
    (Returned (v1, r, None), [Call (CreateLease (buildVirtualMachineIPAddressLease s v a)), Event ''Bound'']) \<and>
    vmip_ref v1 = vmip_ref v \<and> ip_Address v1 = ''''"
proof -
  have none: "filter (\<lambda>l. label_value (le_Labels l) LabelIPAddressUID = ip_UID v) (cl_Leases cl) = []"
    using uid by (simp add: filter_empty_conv)
  have "GetLease s (served_env cl env) v = Inr None"
    using v none by (simp add: GetLease_def getAssignedIPAddress_def getLeaseByLabel_def served_env_def)
  moreover have "cluster_api cl [] (CreateLease (buildVirtualMachineIPAddressLease s v a)) = OK"
    using new by (simp add: cluster_api_def apply_log_def buildVirtualMachineIPAddressLease_def)
  moreover have "GetAllocatedIPs (served_env cl env) = Inr (map (LeaseNameToIP \<circ> le_Name) (cl_Leases cl))"
    by (simp add: GetAllocatedIPs_def served_env_def)
  ultimately show ?thesis
    using v a by (simp add: BoundHandler_Handle_def Let_def BindStep_Take_def TakeLeaseStep_Take_def
        CreateLeaseStep_Take_def create_lease_def bind_run_def call_def event_def ret_def)
qed

lemma first_turn:
  fixes env :: "'q ip_env"
  assumes "find_vmip cl (lr_Namespace k) (lr_Name k) = Some v" and "\<not> ip_Deleting v"
    and v: "ip_Type v \<noteq> TypeStatic" "ip_StaticIP v = ''''" "ip_Address v = ''''"
    and uid: "\<And>l. l \<in> set (cl_Leases cl) \<Longrightarrow> label_value (le_Labels l) LabelIPAddressUID \<noteq> ip_UID v"
    and a: "AllocateNewIP (svc_Text s) (svc_Net s) (svc_CIDRs s) (map (LeaseNameToIP \<circ> le_Name) (cl_Leases cl)) = Inr a"
      "IsInsideOfRange (svc_Text s) (svc_Net s) (svc_CIDRs s) a = None"
      "a \<notin> set (map (LeaseNameToIP \<circ> le_Name) (cl_Leases cl))"
    and new: "find_lease cl (IPToLeaseName (svc_Text s) a) = None" and ok: "vmips_ok (vmip_turn s fo env k cl)"
  shows "cl_Leases (vmip_turn s fo env k cl) = cl_Leases cl @ [new_lease s v a] \<and>
    (\<exists>w. find_vmip (vmip_turn s fo env k cl) (lr_Namespace k) (lr_Name k) = Some (store_vmip_status w v) \<and> ip_Address w = '''')"
proof -
  obtain v1 r where run: "BoundHandler_Handle (cluster_api cl) s (served_env cl env) v [] =
      (Returned (v1, r, None), [Call (CreateLease (buildVirtualMachineIPAddressLease s v a)), Event ''Bound''])"
      "vmip_ref v1 = vmip_ref v" "ip_Address v1 = ''''"
    using bound_handler_creates [OF v uid a new] by blast
  have log: "apply_log cl [Call (CreateLease (buildVirtualMachineIPAddressLease s v a)), Event ''Bound''] =
      cl\<lparr> cl_Leases := cl_Leases cl @ [new_lease s v a] \<rparr>"
    using new by (simp add: apply_log_def new_lease_def buildVirtualMachineIPAddressLease_def)
  have "cl_Leases (vmip_turn s fo env k cl) = cl_Leases cl @ [new_lease s v a] \<and>
    (\<exists>w. same_binding v1 w \<and> find_vmip (vmip_turn s fo env k cl) (lr_Namespace k) (lr_Name k) = Some (store_vmip_status w v))"
    using vmip_turn_stores [OF assms(1,2) run(1) _ run(2) _ ok] unfolding log by simp
  then show ?thesis using run(3) by (auto simp: same_binding_def)
qed

text \<open>The pass over the new lease binds it.\<close>

definition bound_lease :: "finalizer_ops \<Rightarrow> lease_env \<Rightarrow> vmip \<Rightarrow> lease \<Rightarrow> lease" where
  "bound_lease fo env v l =
     (let l' = set_lease_condition env
            (cb_set ConditionTrue ReasonBound '''' (builder_Generation (le_Generation l) (NewConditionBuilder BoundType)))
            (l\<lparr> le_Labels := AddLabel LabelIPAddressUID (ip_UID v) (le_Labels l), le_Phase := ''Bound'' \<rparr>)
      in l'\<lparr> le_Finalizers := fin_Add fo FinalizerIPAddressLeaseCleanup (le_Finalizers l'),
             le_ObservedGeneration := le_Generation l \<rparr>)"

lemma bound_lease_fields:
  "le_Name (bound_lease fo env v l) = le_Name l" "le_Ref (bound_lease fo env v l) = le_Ref l"
  "le_Generation (bound_lease fo env v l) = le_Generation l" "le_Deleting (bound_lease fo env v l) = le_Deleting l"
  "label_value (le_Labels (bound_lease fo env v l)) LabelIPAddressUID = ip_UID v"
  by (simp_all add: bound_lease_def Let_def set_lease_condition_def label_value_def AddLabel_def update_conv)

lemma bound_lease_condition:
  "lease_bound (bound_lease fo env v l)"
  "cond_ObservedGeneration (fst (GetCondition BoundType (le_Conditions (bound_lease fo env v l)))) = le_Generation l"
  "cond_Reason (fst (GetCondition BoundType (le_Conditions (bound_lease fo env v l)))) = ReasonBound"
  by (simp_all add: bound_lease_def Let_def set_lease_condition_def SetCondition_same builder_Generation_def NewConditionBuilder_def)

lemma lease_pass_run:
  assumes "le_Ref l = Some ref" and "lv_VMIP env (lr_Namespace ref) (lr_Name ref) = Inr (Some v)" and "isBound l (Some v)"
    and "\<not> le_Deleting l" and "le_Phase l \<noteq> ''Bound''"
  shows "snd (LeaseReconciler_Reconcile api fo d env (Some l) []) = [Event ''Bound'', Call (StoreLease (bound_lease fo env v l))]"
proof -
  let ?cb = "cb_set ConditionTrue ReasonBound '''' (builder_Generation (le_Generation l) (NewConditionBuilder BoundType))"
  let ?l1 = "set_lease_condition env ?cb
    (l\<lparr> le_Labels := AddLabel LabelIPAddressUID (ip_UID v) (le_Labels l), le_Phase := ''Bound'' \<rparr>)"
  let ?l2 = "?l1\<lparr> le_Finalizers := fin_Add fo FinalizerIPAddressLeaseCleanup (le_Finalizers ?l1) \<rparr>"
  have l2: "?l2\<lparr> le_ObservedGeneration := le_Generation ?l2 \<rparr> = bound_lease fo env v l"
    by (simp add: bound_lease_def Let_def set_lease_condition_def)
  have released: "\<not> verified_released ?l2"
    using bound_lease_condition(3) [of fo env v l] unfolding l2 [symmetric] by (simp add: verified_released_def Let_def)
  have "LeaseLifecycleHandler_Handle env l [] = (Returned (?l1, no_requeue, None), [Event ''Bound''])"
    using assms by (simp add: LeaseLifecycleHandler_Handle_def Let_def bind_run_def event_def ret_def)
  moreover have "LeaseProtectionHandler_Handle fo ?l1 log = (Returned (?l2, no_requeue, None), log)" for log
    using assms(4) by (simp add: LeaseProtectionHandler_Handle_def Let_def ret_def set_lease_condition_def)
  moreover have "LeaseRetentionHandler_Handle api d env ?l2 log = (Returned (?l2, no_requeue, None), log)" for log
    using released by (simp add: LeaseRetentionHandler_Handle_def Let_def ret_def)
  ultimately obtain acc where run: "handlers_loop (lease_execute api fo d env) lease_handlers l (no_requeue, []) [] =
      (Returned (?l2, acc), [Event ''Bound''])"
    by (simp add: lease_handlers_def bind_run_def Let_def ret_def)
  have "\<exists>e. store_lease api l ?l2 [Event ''Bound''] =
      (Returned e, [Event ''Bound'', Call (StoreLease (bound_lease fo env v l))])"
    unfolding store_lease_def Let_def l2
    by (simp add: bind_run_def call_def ret_def bound_lease_fields)
  then obtain e where store: "store_lease api l ?l2 [Event ''Bound''] =
      (Returned e, [Event ''Bound'', Call (StoreLease (bound_lease fo env v l))])" ..
  from base_run [OF run, of "store_lease api l", OF store] show ?thesis
    unfolding LeaseReconciler_Reconcile_def option.case by (elim exE) simp
qed

lemma second_turn:
  assumes leases: "cl_Leases cl = ls @ [l]" "le_Name l \<notin> le_Name ` set ls"
    and l: "le_Ref l = Some ref" "isBound l (Some v)" "\<not> le_Deleting l" "le_Phase l \<noteq> ''Bound''"
    and v: "find_vmip cl (lr_Namespace ref) (lr_Name ref) = Some v"
  shows "lease_turn fo d env (le_Name l) cl =
    cl\<lparr> cl_Leases := ls @ [store_status (bound_lease fo (served_lease_env cl env) v l) l] \<rparr>"
proof -
  let ?b = "bound_lease fo (served_lease_env cl env) v l"
  have find: "find_lease cl (le_Name l) = Some l"
  proof -
    have "List.find (\<lambda>x. le_Name x = le_Name l) ls = None" using leases(2) by (auto simp: find_None_iff image_iff)
    then show ?thesis using leases(1) by (simp add: find_lease_def)
  qed
  have log: "snd (LeaseReconciler_Reconcile (cluster_api cl) fo d (served_lease_env cl env) (Some l) []) =
      [Event ''Bound'', Call (StoreLease ?b)]"
    by (rule lease_pass_run [OF l(1) _ l(2-4)]) (simp add: served_lease_env_def v)
  have "cl = cl\<lparr> cl_Leases := ls @ [l] \<rparr>" using leases(1) by (metis ip_cluster.surjective ip_cluster.update_convs(2))
  then have "change_leases (le_Name l) (store_status ?b) cl = cl\<lparr> cl_Leases := ls @ [store_status ?b l] \<rparr>"
    using change_leases_last [of l "le_Name l" ls "store_status ?b" cl] leases(2) l(3) by (simp add: store_status_def)
  then show ?thesis
    using find log by (simp add: lease_turn_def apply_log_def bound_lease_fields)
qed

text \<open>The pass over the address that follows finds the lease by its label and binds the address.\<close>

lemma third_turn:
  fixes env :: "'q ip_env"
  assumes w: "find_vmip cl (lr_Namespace k) (lr_Name k) = Some w" "\<not> ip_Deleting w" "ip_StaticIP w = ''''" "ip_Address w = ''''"
    and leases: "filter (\<lambda>l. label_value (le_Labels l) LabelIPAddressUID = ip_UID w) (cl_Leases cl) = [l]"
    and l: "le_Ref l = Some k" "lease_bound l"
      "IsLastUpdated (fst (GetCondition BoundType (le_Conditions l))) (le_Generation l)"
    and ok: "vmips_ok (vmip_turn s fo env k cl)"
  shows "\<exists>x. find_vmip (vmip_turn s fo env k cl) (lr_Namespace k) (lr_Name k) = Some x \<and> vmip_bound x \<and>
    ip_Address x = LeaseNameToIP (le_Name l)"
proof -
  let ?cb = "cb_set ConditionTrue ReasonBound '''' (builder_Generation (ip_Generation w) (NewConditionBuilder BoundType))"
  let ?w = "w\<lparr> ip_Address := LeaseNameToIP (le_Name l) \<rparr>"
  let ?v1 = "set_ip_condition (served_env cl env) 0 ?cb ?w"
  have ref: "vmip_ref w = k" using find_vmip_Some [OF w(1)] by (auto simp: vmip_ref_def)
  have "HasReference ?w (Some l)" using l(1) ref by (auto simp: HasReference_def vmip_ref_def)
  moreover have "GetLease s (served_env cl env) w = Inr (Some l)"
    using w leases by (simp add: GetLease_def getAssignedIPAddress_def getLeaseByLabel_def served_env_def)
  ultimately have run: "BoundHandler_Handle (cluster_api cl) s (served_env cl env) w [] = (Returned (?v1, no_requeue, None), [])"
    using l(2,3) by (simp add: BoundHandler_Handle_def Let_def BindStep_Take_def ret_def bind_run_def)
  have v1: "vmip_ref ?v1 = vmip_ref w" by (simp add: vmip_ref_def set_ip_condition_def)
  have "cb_conditionType ?cb = BoundType" by (simp add: builder_Generation_def NewConditionBuilder_def)
  then have "vmip_bound ?v1" by (simp add: set_ip_condition_bound)
  moreover obtain v2 where "same_binding ?v1 v2"
      "find_vmip (vmip_turn s fo env k cl) (lr_Namespace k) (lr_Name k) = Some (store_vmip_status v2 w)"
    using vmip_turn_stores [OF w(1,2) run _ v1 _ ok] by (auto simp: apply_log_def)
  ultimately show ?thesis by (simp add: same_binding_def store_vmip_status_def)
qed

lemma bound_label:
  assumes "\<And>l. l \<in> set ls \<Longrightarrow> label_value (le_Labels l) LabelIPAddressUID \<noteq> ip_UID v"
  shows "filter (\<lambda>l. label_value (le_Labels l) LabelIPAddressUID = ip_UID (store_vmip_status w v))
    (ls @ [store_status (bound_lease fo env (store_vmip_status w v) l') l']) =
    [store_status (bound_lease fo env (store_vmip_status w v) l') l']"
proof -
  let ?w = "store_vmip_status w v"
  have "filter (\<lambda>l. label_value (le_Labels l) LabelIPAddressUID = ip_UID v) ls = []"
    using assms by (simp add: filter_empty_conv)
  moreover have "ip_UID ?w = ip_UID v" by (simp add: store_vmip_status_def)
  moreover have "label_value (le_Labels (store_status (bound_lease fo env ?w l') l')) LabelIPAddressUID = ip_UID ?w"
    by (simp add: store_status_def bound_lease_fields)
  ultimately show ?thesis by simp
qed

definition binding_round :: "ip_service \<Rightarrow> finalizer_ops \<Rightarrow> int \<Rightarrow> 'q ip_env \<Rightarrow> lease_env \<Rightarrow> lease_ref \<Rightarrow> string \<Rightarrow>
    ip_cluster \<Rightarrow> ip_cluster" where
  "binding_round s fo d env lenv k a cl =
     vmip_turn s fo env k (lease_turn fo d lenv (IPToLeaseName (svc_Text s) a) (vmip_turn s fo env k cl))"

lemma binding_turns:
  fixes env :: "'q ip_env" and q :: "'q itself"
  assumes reach: "ip_reachable q s fo d cl" and fo: "finalizer_laws fo" and v4: "list_all v4_cidr (svc_CIDRs s)"
    and v: "find_vmip cl (lr_Namespace k) (lr_Name k) = Some v" "\<not> ip_Deleting v"
      "ip_Type v \<noteq> TypeStatic" "ip_StaticIP v = ''''" "ip_Address v = ''''"
    and uid: "\<And>l. l \<in> set (cl_Leases cl) \<Longrightarrow> label_value (le_Labels l) LabelIPAddressUID \<noteq> ip_UID v"
    and a: "AllocateNewIP (svc_Text s) (svc_Net s) (svc_CIDRs s) (map (LeaseNameToIP \<circ> le_Name) (cl_Leases cl)) = Inr a"
      "IsInsideOfRange (svc_Text s) (svc_Net s) (svc_CIDRs s) a = None"
      "a \<notin> set (map (LeaseNameToIP \<circ> le_Name) (cl_Leases cl))"
  shows "ip_reachable q s fo d (binding_round s fo d env lenv k a cl) \<and>
    (\<exists>x. find_vmip (binding_round s fo d env lenv k a cl) (lr_Namespace k) (lr_Name k) = Some x \<and> vmip_bound x \<and> ip_Address x = a)"
proof -
  let ?n = "IPToLeaseName (svc_Text s) a"
  let ?cl1 = "vmip_turn s fo env k cl" let ?cl2 = "lease_turn fo d lenv ?n ?cl1"
  have name: "LeaseNameToIP ?n = a" using inside_is_v4 [OF v4 a(2)] LeaseNameToIP_lease by metis
  then have new: "?n \<notin> le_Name ` set (cl_Leases cl)" using a(3) by (auto simp: image_iff)
  then have unused: "find_lease cl ?n = None" by (simp add: find_lease_None)
  have reach1: "ip_reachable q s fo d ?cl1" using reach vmip_turn_step [OF v(1)] by (rule ip_next)
  have ref: "vmip_ref v = k" using find_vmip_Some [OF v(1)] by (auto simp: vmip_ref_def)
  let ?l = "new_lease s v a"
  have l: "le_Name ?l = ?n" "le_Ref ?l = Some k" "\<not> le_Deleting ?l" "le_Phase ?l \<noteq> ''Bound''" "le_Generation ?l = 1"
    using ref by (auto simp: new_lease_def buildVirtualMachineIPAddressLease_def vmip_ref_def)
  obtain w where one: "cl_Leases ?cl1 = cl_Leases cl @ [?l]"
      "find_vmip ?cl1 (lr_Namespace k) (lr_Name k) = Some (store_vmip_status w v)" "ip_Address w = ''''"
    using first_turn [OF v uid a unused conjunct2 [OF ip_reachable_ok [OF reach1 v4 fo]]] by blast
  let ?w = "store_vmip_status w v" let ?b = "store_status (bound_lease fo (served_lease_env ?cl1 lenv) ?w ?l) ?l"
  have "isBound ?l (Some ?w)" using l(2) ref one(3) by (auto simp: isBound_def store_vmip_status_def vmip_ref_def)
  then have two: "?cl2 = ?cl1\<lparr> cl_Leases := cl_Leases cl @ [?b] \<rparr>"
    using second_turn [OF one(1) _ l(2) _ l(3,4) one(2)] new l(1) by simp
  have found: "find_vmip ?cl2 (lr_Namespace k) (lr_Name k) = Some ?w" using one(2) two by (simp add: find_vmip_def)
  have "find_lease ?cl1 ?n \<noteq> None" using one(1) l(1) by (auto simp: find_lease_None)
  then have "ip_reachable q s fo d ?cl2" using reach1 lease_turn_step by (metis ip_next option.exhaust)
  then have reach3: "ip_reachable q s fo d (vmip_turn s fo env k ?cl2)" using vmip_turn_step [OF found] by (rule ip_next)
  have w: "\<not> ip_Deleting ?w" "ip_StaticIP ?w = ''''" "ip_Address ?w = ''''"
    using v one(3) by (simp_all add: store_vmip_status_def)
  have b: "le_Ref ?b = Some k" "lease_bound ?b"
    "IsLastUpdated (fst (GetCondition BoundType (le_Conditions ?b))) (le_Generation ?b)" "le_Name ?b = ?n"
    using l bound_lease_condition by (simp_all add: store_status_def IsLastUpdated_def)
  have "filter (\<lambda>l. label_value (le_Labels l) LabelIPAddressUID = ip_UID ?w) (cl_Leases ?cl2) = [?b]"
    unfolding two using bound_label [OF uid] by simp
  from third_turn [OF found w this b(1-3) conjunct2 [OF ip_reachable_ok [OF reach3 v4 fo]]] show ?thesis
    using reach3 name unfolding binding_round_def b(4) by simp
qed

text \<open>
  Claim C11: a new address gets bound.  When a free address is left in the ranges, a pass over a new address
  that asks for no particular one, a pass over the lease which that pass creates and another pass over the
  address end with the address bound to an IP address of the ranges that no lease had before.
\<close>

theorem new_address_gets_bound:
  fixes env :: "'q ip_env" and q :: "'q itself"
  assumes "ip_reachable q s fo d cl" and "finalizer_laws fo" and "subnet_laws (svc_Net s)"
    and cidrs: "list_all (\<lambda>p. v4_cidr p \<and> pfx_Bits p \<noteq> 32 \<and> pfx_Addr p = prefix_Masked p) (svc_CIDRs s)"
    and free: "\<exists>a. IsInsideOfRange (svc_Text s) (svc_Net s) (svc_CIDRs s) a = None \<and>
      a \<notin> set (map (LeaseNameToIP \<circ> le_Name) (cl_Leases cl))"
    and v: "find_vmip cl (lr_Namespace k) (lr_Name k) = Some v" "\<not> ip_Deleting v"
      "ip_Type v \<noteq> TypeStatic" "ip_StaticIP v = ''''" "ip_Address v = ''''"
    and uid: "\<And>l. l \<in> set (cl_Leases cl) \<Longrightarrow> label_value (le_Labels l) LabelIPAddressUID \<noteq> ip_UID v"
  shows "\<exists>a x. IsInsideOfRange (svc_Text s) (svc_Net s) (svc_CIDRs s) a = None \<and>
    a \<notin> set (map (LeaseNameToIP \<circ> le_Name) (cl_Leases cl)) \<and>
    find_vmip (binding_round s fo d env lenv k a cl) (lr_Namespace k) (lr_Name k) = Some x \<and> vmip_bound x \<and> ip_Address x = a"
proof -
  have v4: "list_all v4_cidr (svc_CIDRs s)" using cidrs by (auto simp: list_all_iff)
  obtain a where a: "AllocateNewIP (svc_Text s) (svc_Net s) (svc_CIDRs s) (map (LeaseNameToIP \<circ> le_Name) (cl_Leases cl)) = Inr a"
      "IsInsideOfRange (svc_Text s) (svc_Net s) (svc_CIDRs s) a = None"
      "a \<notin> set (map (LeaseNameToIP \<circ> le_Name) (cl_Leases cl))"
    using allocation_outcome [OF assms(3) cidrs] free by metis
  from binding_turns [OF assms(1,2) v4 v uid a] show ?thesis using a(2,3) by blast
qed

section \<open>An example cluster\<close>

definition range_service :: ip_service where
  "range_service = \<lparr> svc_Text = no_ip6, svc_Net = exact_net_ops, svc_CIDRs = [example_cidr] \<rparr>"

definition fresh_vmip :: vmip where
  "fresh_vmip = \<lparr> ip_Name = ''a'', ip_Namespace = ''ns'', ip_UID = ''u'', ip_Generation = 1, ip_Deleting = False,
     ip_Labels = None, ip_OwnerReferences = [], ip_Finalizers = [], ip_Type = TypeAuto, ip_StaticIP = '''',
     ip_VirtualMachine = '''', ip_Address = '''', ip_Phase = '''', ip_ObservedGeneration = 0, ip_Conditions = [] \<rparr>"

definition one_vmip :: ip_cluster where
  "one_vmip = \<lparr> cl_VMIPs = [fresh_vmip], cl_Leases = [] \<rparr>"

definition example_lease_env :: lease_env where
  "example_lease_env = \<lparr> lv_VMIP = (\<lambda>ns n. Inr None), lv_Clock = (\<lambda>n. 0), lv_Now = 0 \<rparr>"

lemma one_vmip_reachable: "ip_reachable TYPE(int) range_service list_finalizers 0 one_vmip"
proof -
  have "ip_step TYPE(int) range_service list_finalizers 0 \<lparr> cl_VMIPs = [], cl_Leases = [] \<rparr>
      (\<lparr> cl_VMIPs = [], cl_Leases = [] \<rparr>\<lparr> cl_VMIPs := [] @ [fresh_vmip] \<rparr>)"
    using ip_step.create_vmip [of "\<lparr> cl_VMIPs = [], cl_Leases = [] \<rparr>" fresh_vmip]
    by (simp add: find_vmip_def fresh_vmip_def)
  from ip_next [OF ip_start this] show ?thesis by (simp add: one_vmip_def)
qed

lemma range_service_laws:
  "subnet_laws (svc_Net range_service)"
  "list_all (\<lambda>p. v4_cidr p \<and> pfx_Bits p \<noteq> 32 \<and> pfx_Addr p = prefix_Masked p) (svc_CIDRs range_service)"
  "list_all v4_cidr (svc_CIDRs range_service)"
  by (simp_all add: range_service_def exact_net_ops_laws example_cidr_def v4_cidr_def prefix_Masked_def)

lemma range_service_free:
  "IsInsideOfRange (svc_Text range_service) (svc_Net range_service) (svc_CIDRs range_service) (print4 0x0a000001) = None"
proof -
  have cidrs: "list_all v4_cidr [example_cidr]" using range_service_laws(3) by (simp add: range_service_def)
  have "usable example_cidr 0x0a000001" by (simp add: usable_def cidr_base_def cidr_size_def example_cidr_def)
  then show ?thesis
    using exact_subnets.inside_iff [OF cidrs exact_subnets.inside_v6 [OF cidrs]] by (auto simp: range_service_def)
qed

lemma one_vmip_facts:
  "find_vmip one_vmip ''ns'' ''a'' = Some fresh_vmip" "\<not> ip_Deleting fresh_vmip" "ip_Type fresh_vmip \<noteq> TypeStatic"
  "ip_StaticIP fresh_vmip = ''''" "ip_Address fresh_vmip = ''''" "cl_Leases one_vmip = []"
  by (simp_all add: one_vmip_def find_vmip_def fresh_vmip_def)

theorem new_address_gets_bound_witness:
  "\<exists>a x. find_vmip (binding_round range_service list_finalizers 0 example_ip_env example_lease_env
     \<lparr> lr_Namespace = ''ns'', lr_Name = ''a'' \<rparr> a one_vmip) ''ns'' ''a'' = Some x \<and> vmip_bound x \<and> ip_Address x = a"
proof -
  let ?k = "\<lparr> lr_Namespace = ''ns'', lr_Name = ''a'' \<rparr>"
  have "\<exists>a. IsInsideOfRange (svc_Text range_service) (svc_Net range_service) (svc_CIDRs range_service) a = None \<and>
      a \<notin> set (map (LeaseNameToIP \<circ> le_Name) (cl_Leases one_vmip))"
    using range_service_free one_vmip_facts(6) by auto
  from new_address_gets_bound [OF one_vmip_reachable list_finalizers_laws range_service_laws(1,2) this, of ?k fresh_vmip
      example_ip_env example_lease_env]
  show ?thesis using one_vmip_facts by auto
qed

text \<open>A cluster with a bound address, for the invariants.\<close>

lemma bound_cluster:
  "\<exists>cl x. ip_reachable TYPE(int) range_service list_finalizers 0 cl \<and> x \<in> set (cl_VMIPs cl) \<and> vmip_bound x"
proof -
  let ?k = "\<lparr> lr_Namespace = ''ns'', lr_Name = ''a'' \<rparr>"
  obtain a where a: "AllocateNewIP (svc_Text range_service) (svc_Net range_service) (svc_CIDRs range_service)
      (map (LeaseNameToIP \<circ> le_Name) (cl_Leases one_vmip)) = Inr a"
      "IsInsideOfRange (svc_Text range_service) (svc_Net range_service) (svc_CIDRs range_service) a = None"
    using allocation_outcome [OF range_service_laws(1,2), of "svc_Text range_service" "[]"] range_service_free one_vmip_facts(6)
    by auto (metis option.distinct(1))
  have "ip_reachable TYPE(int) range_service list_finalizers 0
      (binding_round range_service list_finalizers 0 example_ip_env example_lease_env ?k a one_vmip) \<and>
    (\<exists>x. find_vmip (binding_round range_service list_finalizers 0 example_ip_env example_lease_env ?k a one_vmip)
      (lr_Namespace ?k) (lr_Name ?k) = Some x \<and> vmip_bound x \<and> ip_Address x = a)"
    by (rule binding_turns [where v = fresh_vmip, OF one_vmip_reachable list_finalizers_laws range_service_laws(3) _ _ _ _ _ _ a])
      (simp_all add: one_vmip_facts)
  then obtain x where "ip_reachable TYPE(int) range_service list_finalizers 0
      (binding_round range_service list_finalizers 0 example_ip_env example_lease_env ?k a one_vmip)"
      "find_vmip (binding_round range_service list_finalizers 0 example_ip_env example_lease_env ?k a one_vmip)
        (lr_Namespace ?k) (lr_Name ?k) = Some x" "vmip_bound x" by blast
  then show ?thesis using find_vmip_Some by (intro exI conjI) blast+
qed


definition kept_lease :: lease where
  "kept_lease = \<lparr> le_Name = IPToLeaseName no_ip6 (print4 0x0a000001), le_Generation = 1, le_Deleting = False,
     le_Labels = None, le_Finalizers = [], le_Ref = Some \<lparr> lr_Namespace = ''ns'', lr_Name = '''' \<rparr>, le_Phase = '''',
     le_ObservedGeneration = 0, le_Conditions = [] \<rparr>"


end
