(* ===== verification/MigrationProgress.thy ===== *)
theory MigrationProgress
  imports VMOPService Complex_Main
begin

text \<open>
  The progress of a migration that is being synchronized (\<^verbatim>\<open>progress.go\<close>, \<^verbatim>\<open>store.go\<close>, \<^verbatim>\<open>mapper.go\<close> and
  \<^verbatim>\<open>format.go\<close> of \<^verbatim>\<open>controller/vmop/migration/internal/progress\<close>).  Arithmetic on \<^verbatim>\<open>float64\<close> is a
  parameter, a record of operations over a type \<open>'f\<close>; \<open>float_laws\<close> states the few facts of IEEE
  arithmetic the properties rest on, all about numbers up to a hundred.  Times are nanoseconds since the
  zero time.  The cache behind the store drops entries by age and size: an entry may be lost between two
  calls, which the runs at the end of the theory do explicitly.
\<close>

section \<open>Floating point\<close>

text \<open>
  \<open>fl_lit m n\<close> is the constant \<open>m / n\<close>, \<open>fl_of_int\<close> the conversion of an integer, \<open>fl_seconds\<close>
  \<^verbatim>\<open>Duration.Seconds\<close>, \<open>fl_to_int32\<close> the conversion to \<^verbatim>\<open>int32\<close>, \<open>fl_parse\<close> \<^verbatim>\<open>strconv.ParseFloat\<close> with 32 bits,
  \<open>fl_isnan\<close> \<^verbatim>\<open>math.IsNaN\<close>.
\<close>

record 'f float_ops =
  fl_lit :: "int \<Rightarrow> int \<Rightarrow> 'f"
  fl_of_int :: "int \<Rightarrow> 'f"
  fl_seconds :: "int \<Rightarrow> 'f"
  fl_add :: "'f \<Rightarrow> 'f \<Rightarrow> 'f"
  fl_sub :: "'f \<Rightarrow> 'f \<Rightarrow> 'f"
  fl_mul :: "'f \<Rightarrow> 'f \<Rightarrow> 'f"
  fl_div :: "'f \<Rightarrow> 'f \<Rightarrow> 'f"
  fl_max :: "'f \<Rightarrow> 'f \<Rightarrow> 'f"
  fl_min :: "'f \<Rightarrow> 'f \<Rightarrow> 'f"
  fl_log :: "'f \<Rightarrow> 'f"
  fl_ceil :: "'f \<Rightarrow> 'f"
  fl_abs :: "'f \<Rightarrow> 'f"
  fl_le :: "'f \<Rightarrow> 'f \<Rightarrow> bool"
  fl_lt :: "'f \<Rightarrow> 'f \<Rightarrow> bool"
  fl_isnan :: "'f \<Rightarrow> bool"
  fl_to_int32 :: "'f \<Rightarrow> int"
  fl_parse :: "string \<Rightarrow> 'f option"

text \<open>
  Integers up to a hundred are represented exactly and compared exactly, also with a number of seconds;
  subtracting a product of two numbers that are not negative does not increase; the order is transitive; the
  decimal text of such an integer parses to it.
\<close>

definition float_laws :: "'f float_ops \<Rightarrow> bool" where
  "float_laws F \<longleftrightarrow>
     (\<forall>m n. 0 \<le> m \<and> m \<le> 100 \<and> 0 \<le> n \<and> n \<le> 100 \<longrightarrow>
        fl_lt F (fl_of_int F m) (fl_lit F n 1) = (m < n) \<and> fl_lt F (fl_lit F n 1) (fl_of_int F m) = (n < m) \<and>
        fl_le F (fl_lit F m 1) (fl_lit F n 1) = (m \<le> n) \<and> fl_to_int32 F (fl_lit F n 1) = n) \<and>
     (\<forall>n d. 0 \<le> n \<and> n \<le> 100 \<and> n * 1000000000 \<le> d \<longrightarrow> fl_le F (fl_lit F n 1) (fl_seconds F d)) \<and>
     (\<forall>x t. fl_le F (fl_lit F 0 1) x \<and> fl_le F (fl_lit F 0 1) t \<longrightarrow> fl_le F (fl_sub F (fl_lit F 8 1) (fl_mul F x t)) (fl_lit F 8 1)) \<and>
     (\<forall>x y z. fl_le F x y \<and> fl_le F y z \<longrightarrow> fl_le F x z) \<and>
     (\<forall>n. 0 \<le> n \<and> n \<le> 100 \<longrightarrow> (\<exists>x. fl_parse F (show_int n) = Some x \<and> \<not> fl_isnan F x \<and> fl_to_int32 F x = n))"

section \<open>store.go\<close>

abbreviation SyncRangeMin :: int where "SyncRangeMin \<equiv> 10"
abbreviation SyncRangeMax :: int where "SyncRangeMax \<equiv> 90"

abbreviation second :: int where "second \<equiv> 1000000000"

record 'f pstate =
  ps_Progress :: int
  ps_Iterative :: bool
  ps_IterativeSince :: int
  ps_LastUpdatedAt :: int
  ps_LastMetricAt :: int
  ps_LastIteration :: int
  ps_LastProcessedMiB :: 'f
  ps_LastRemainingMiB :: 'f
  ps_InitialTotal :: 'f
  ps_InitialRemaining :: 'f
  ps_SmoothedRemaining :: 'f
  ps_Threshold :: 'f
  ps_LastIncreaseAt :: int
  ps_MinRemaining :: 'f
  ps_MinRemainingAt :: int

type_synonym 'f pstore = "string \<Rightarrow> 'f pstate option"

definition Store_Load :: "'f pstore \<Rightarrow> string \<Rightarrow> 'f pstate option" where
  "Store_Load s uid = s uid"

definition Store_Store :: "string \<Rightarrow> 'f pstate \<Rightarrow> 'f pstore \<Rightarrow> 'f pstore" where
  "Store_Store uid state s = (if uid = '''' then s else s(uid \<mapsto> state))"

definition Store_Delete :: "string \<Rightarrow> 'f pstore \<Rightarrow> 'f pstore" where
  "Store_Delete uid s = (if uid = '''' then s else s(uid := None))"

section \<open>progress.go\<close>

text \<open>The phases of KubeVirt's migrations.\<close>

datatype migration_phase =
  MigrationPhaseUnset | MigrationPending | MigrationScheduling | MigrationScheduled | MigrationPreparingTarget
| MigrationTargetReady | MigrationWaitingForSync | MigrationSynchronizing | MigrationRunning
| MigrationSucceeded | MigrationFailed | OtherMigrationPhase string

record 'f progress_record =
  pr_OperationUID :: string
  pr_Now :: int
  pr_StartedAt :: int
  pr_PreviousProgress :: int
  pr_Phase :: migration_phase
  pr_Mode :: string
  pr_HasIteration :: bool
  pr_Iteration :: int
  pr_HasThrottle :: bool
  pr_AutoConvergeThrottle :: int
  pr_Throttle :: 'f
  pr_AutoConverge :: bool
  pr_DataTotalMiB :: 'f
  pr_DataProcessedMiB :: 'f
  pr_DataRemainingMiB :: 'f

text \<open>The zero value of a state.\<close>

definition zero_state :: "'f float_ops \<Rightarrow> 'f pstate" where
  "zero_state F =
     \<lparr> ps_Progress = 0, ps_Iterative = False, ps_IterativeSince = 0, ps_LastUpdatedAt = 0, ps_LastMetricAt = 0,
       ps_LastIteration = 0, ps_LastProcessedMiB = fl_lit F 0 1, ps_LastRemainingMiB = fl_lit F 0 1,
       ps_InitialTotal = fl_lit F 0 1, ps_InitialRemaining = fl_lit F 0 1, ps_SmoothedRemaining = fl_lit F 0 1,
       ps_Threshold = fl_lit F 0 1, ps_LastIncreaseAt = 0, ps_MinRemaining = fl_lit F 0 1, ps_MinRemainingAt = 0 \<rparr>"

text \<open>\<^verbatim>\<open>Time.Sub\<close> saturates.\<close>

definition sub_time :: "int \<Rightarrow> int \<Rightarrow> int" where
  "sub_time a b = max (- (2 ^ 63)) (min (2 ^ 63 - 1) (a - b))"

definition clampPercent :: "'f float_ops \<Rightarrow> 'f \<Rightarrow> int" where
  "clampPercent F v =
     (let i = fl_to_int32 F v in if i < SyncRangeMin then SyncRangeMin else if i > SyncRangeMax then SyncRangeMax else i)"

definition clampFloat :: "'f float_ops \<Rightarrow> 'f \<Rightarrow> 'f \<Rightarrow> 'f \<Rightarrow> 'f" where
  "clampFloat F v minV maxV = (if fl_lt F v minV then minV else if fl_lt F maxV v then maxV else v)"

definition clampSyncRange :: "int \<Rightarrow> int" where
  "clampSyncRange v = (if v < SyncRangeMin then SyncRangeMin else if v > SyncRangeMax then SyncRangeMax else v)"

definition almostEqual :: "'f float_ops \<Rightarrow> 'f \<Rightarrow> 'f \<Rightarrow> bool" where
  "almostEqual F a b = fl_lt F (fl_abs F (fl_sub F a b)) (fl_lit F 1 100)"

definition isIterative :: "'f progress_record \<Rightarrow> bool" where
  "isIterative record \<longleftrightarrow> pr_HasIteration record \<and> pr_Iteration record > 0"

definition maxRemaining :: "'f float_ops \<Rightarrow> 'f progress_record \<Rightarrow> 'f" where
  "maxRemaining F record =
     (if fl_lt F (fl_lit F 0 1) (pr_DataRemainingMiB record) then pr_DataRemainingMiB record
      else if fl_lt F (fl_lit F 0 1) (pr_DataTotalMiB record) \<and> fl_le F (fl_lit F 0 1) (pr_DataProcessedMiB record)
      then (let r = fl_sub F (pr_DataTotalMiB record) (pr_DataProcessedMiB record)
            in if fl_lt F (fl_lit F 0 1) r then r else fl_lit F 0 1)
      else fl_lit F 0 1)"

definition initIterative :: "'f float_ops \<Rightarrow> 'f progress_record \<Rightarrow> 'f pstate \<Rightarrow> 'f pstate" where
  "initIterative F record state0 =
     (let total = (if fl_le F (pr_DataTotalMiB record) (fl_lit F 0 1) then fl_lit F 1 1 else pr_DataTotalMiB record);
          state1 = (if fl_lt F (ps_InitialTotal state0) total then state0\<lparr> ps_InitialTotal := total \<rparr> else state0);
          state2 = (if fl_le F (ps_InitialTotal state1) (fl_lit F 0 1) then state1\<lparr> ps_InitialTotal := total \<rparr> else state1);
          remaining0 = maxRemaining F record;
          remaining = (if fl_le F remaining0 (fl_lit F 0 1) then ps_InitialTotal state2 else remaining0);
          threshold = fl_max F (fl_ceil F (fl_mul F (ps_InitialTotal state2) (fl_lit F 5 100))) (fl_lit F 1 1);
          initial = fl_max F remaining threshold
      in state2\<lparr> ps_Threshold := threshold, ps_InitialRemaining := initial, ps_SmoothedRemaining := initial \<rparr>)"

definition observeRemaining :: "'f float_ops \<Rightarrow> 'f progress_record \<Rightarrow> 'f pstate \<Rightarrow> 'f pstate" where
  "observeRemaining F record state =
     (let remaining = maxRemaining F record
      in if fl_le F remaining (fl_lit F 0 1) then state
         else let alpha0 = (if fl_lt F remaining (ps_SmoothedRemaining state) then fl_lit F 34 100 else fl_lit F 18 100);
                  alpha1 = (if fl_le F (fl_lit F 80 100) (pr_Throttle record) then fl_add F alpha0 (fl_lit F 8 100) else alpha0);
                  alpha = (if fl_lt F (fl_lit F 90 100) alpha1 then fl_lit F 90 100 else alpha1)
              in if fl_le F (ps_SmoothedRemaining state) (fl_lit F 0 1) then state\<lparr> ps_SmoothedRemaining := remaining \<rparr>
                 else state\<lparr> ps_SmoothedRemaining :=
                   fl_add F (fl_mul F alpha remaining)
                     (fl_mul F (fl_sub F (fl_lit F 1 1) alpha) (ps_SmoothedRemaining state)) \<rparr>)"

definition bulkTarget :: "'f float_ops \<Rightarrow> 'f progress_record \<Rightarrow> 'f \<Rightarrow> 'f" where
  "bulkTarget F record elapsedSec =
     (let total = (if fl_le F (pr_DataTotalMiB record) (fl_lit F 0 1) then fl_lit F 1 1 else pr_DataTotalMiB record);
          processed = fl_max F (pr_DataProcessedMiB record) (fl_lit F 0 1);
          metricRatio = clampFloat F (fl_div F processed total) (fl_lit F 0 1) (fl_lit F 1 1);
          metricPct = fl_add F (fl_lit F 10 1) (fl_mul F (fl_lit F 35 1) metricRatio);
          timePct0 = fl_add F (fl_lit F 10 1) (fl_mul F elapsedSec (fl_lit F 55 100));
          timePct = (if fl_lt F (fl_lit F 45 1) timePct0 then fl_lit F 45 1 else timePct0)
      in fl_add F (fl_mul F (fl_lit F 80 100) metricPct) (fl_mul F (fl_lit F 20 100) timePct))"

definition iterativeMetricRatio :: "'f float_ops \<Rightarrow> 'f pstate \<Rightarrow> 'f" where
  "iterativeMetricRatio F state =
     (if fl_le F (ps_InitialRemaining state) (ps_Threshold state) then fl_lit F 1 1
      else let current = fl_max F (ps_SmoothedRemaining state) (ps_Threshold state);
               initial = fl_max F (ps_InitialRemaining state) (ps_Threshold state);
               base = fl_log F (fl_div F initial (ps_Threshold state))
           in if fl_le F base (fl_lit F 0 1) then fl_lit F 1 1
              else clampFloat F (fl_sub F (fl_lit F 1 1) (fl_div F (fl_log F (fl_div F current (ps_Threshold state))) base))
                     (fl_lit F 0 1) (fl_lit F 1 1))"

text \<open>The value \<^verbatim>\<open>iterElapsed\<close>, which the source computes and discards, is left out.\<close>

definition iterativeTarget :: "'f float_ops \<Rightarrow> 'f progress_record \<Rightarrow> 'f pstate \<Rightarrow> 'f" where
  "iterativeTarget F record state =
     (let metricPct = fl_add F (fl_lit F 45 1) (fl_mul F (fl_lit F 40 1) (iterativeMetricRatio F state));
          iterSince = (if ps_IterativeSince state = 0 then pr_Now record else ps_IterativeSince state);
          iterElapsedSec = fl_max F (fl_lit F 0 1) (fl_seconds F (sub_time (pr_Now record) iterSince));
          timeRate = fl_add F (fl_lit F 22 1000) (fl_mul F (pr_Throttle record) (fl_lit F 12 10000));
          timePct0 = fl_add F (fl_lit F 45 1) (fl_mul F iterElapsedSec timeRate);
          timePct = (if fl_lt F (fl_lit F 90 1) timePct0 then fl_lit F 90 1 else timePct0);
          target = fl_add F (fl_mul F (fl_lit F 76 100) metricPct) (fl_mul F (fl_lit F 24 100) timePct)
      in fl_min F target (fl_lit F 90 1))"

definition stageCap :: "'f float_ops \<Rightarrow> bool \<Rightarrow> 'f" where
  "stageCap F iterative = (if \<not> iterative then fl_lit F 45 1 else fl_lit F 90 1)"

definition stallWindow :: "'f float_ops \<Rightarrow> 'f progress_record \<Rightarrow> 'f pstate \<Rightarrow> bool \<Rightarrow> 'f" where
  "stallWindow F record state iterative =
     (if \<not> iterative then fl_lit F 10 1
      else if ps_Progress state \<ge> 90 - 2 then fl_lit F 24 1
      else if ps_Progress state \<ge> 90 - 5 then fl_lit F 14 1
      else if fl_lt F (fl_lit F 0 1) (ps_SmoothedRemaining state) \<and> fl_le F (ps_SmoothedRemaining state) (ps_Threshold state)
      then fl_lit F 6 1
      else let window = fl_sub F (fl_lit F 8 1) (fl_mul F (fl_lit F 3 1) (pr_Throttle record))
           in if fl_lt F window (fl_lit F 6 1) then fl_lit F 6 1 else window)"

definition updateMinRemaining :: "'f float_ops \<Rightarrow> 'f progress_record \<Rightarrow> 'f pstate \<Rightarrow> 'f pstate" where
  "updateMinRemaining F record state =
     (let remaining = maxRemaining F record
      in if fl_le F remaining (fl_lit F 0 1) then state
         else if fl_le F (ps_MinRemaining state) (fl_lit F 0 1) \<or> fl_lt F remaining (ps_MinRemaining state)
         then state\<lparr> ps_MinRemaining := remaining, ps_MinRemainingAt := pr_Now record \<rparr>
         else state)"

definition isAtMaxThrottle :: "'f float_ops \<Rightarrow> 'f progress_record \<Rightarrow> bool" where
  "isAtMaxThrottle F record =
     (if \<not> pr_AutoConverge record then True
      else pr_HasThrottle record \<and> fl_le F (fl_lit F 99 100) (pr_Throttle record))"

definition metricChanged :: "'f float_ops \<Rightarrow> 'f progress_record \<Rightarrow> 'f pstate \<Rightarrow> bool" where
  "metricChanged F record state =
     (if ps_LastMetricAt state = 0 then True
      else if fl_le F (fl_lit F 0 1) (pr_DataProcessedMiB record) \<and>
              \<not> almostEqual F (pr_DataProcessedMiB record) (ps_LastProcessedMiB state) then True
      else if fl_le F (fl_lit F 0 1) (pr_DataRemainingMiB record) \<and>
              \<not> almostEqual F (pr_DataRemainingMiB record) (ps_LastRemainingMiB state) then True
      else False)"

definition updateMetricState :: "'f float_ops \<Rightarrow> 'f progress_record \<Rightarrow> 'f pstate \<Rightarrow> 'f pstate" where
  "updateMetricState F record state =
     (if \<not> metricChanged F record state then state
      else state\<lparr> ps_LastMetricAt := pr_Now record, ps_LastProcessedMiB := pr_DataProcessedMiB record,
                  ps_LastRemainingMiB := pr_DataRemainingMiB record \<rparr>)"

definition Forget_progress :: "string \<Rightarrow> 'f pstore \<Rightarrow> 'f pstore" where
  "Forget_progress uid s = (if uid = '''' then s else Store_Delete uid s)"

definition getState :: "'f float_ops \<Rightarrow> 'f pstore \<Rightarrow> 'f progress_record \<Rightarrow> 'f pstate" where
  "getState F s record =
     (let fresh = (zero_state F)\<lparr> ps_Progress := clampSyncRange (pr_PreviousProgress record), ps_LastMetricAt := pr_Now record \<rparr>
      in if pr_OperationUID record = '''' then fresh
         else case Store_Load s (pr_OperationUID record) of None \<Rightarrow> fresh | Some state \<Rightarrow> state)"

text \<open>
  The state after the metrics of the record were taken into account, and the next value of the progress
  from the previous one: the target within the limits of the stage and of a step, or one more when the
  progress has not moved for the stall window.
\<close>

definition observe :: "'f float_ops \<Rightarrow> 'f progress_record \<Rightarrow> 'f pstate \<Rightarrow> 'f pstate" where
  "observe F record state =
     (let state1 = (if isIterative record \<and> \<not> ps_Iterative state
                    then initIterative F record (state\<lparr> ps_Iterative := True, ps_IterativeSince := pr_Now record \<rparr>) else state)
      in if isIterative record then observeRemaining F record state1 else state1)"

definition limit_progress :: "'f float_ops \<Rightarrow> 'f \<Rightarrow> int \<Rightarrow> bool \<Rightarrow> int \<Rightarrow> int \<Rightarrow> int" where
  "limit_progress F cap maxStep stalled prev next0 =
     (let next1 = (if next0 < prev then prev else next0);
          next2 = (if next1 > prev + maxStep then prev + maxStep else next1);
          next3 = (if next2 = prev \<and> fl_lt F (fl_of_int F next2) cap \<and> stalled then next2 + 1 else next2)
      in if fl_lt F cap (fl_of_int F next3) then fl_to_int32 F cap else next3)"

definition stalled_for :: "'f float_ops \<Rightarrow> 'f progress_record \<Rightarrow> 'f pstate \<Rightarrow> bool" where
  "stalled_for F record state =
     (let lastIncrease = (if ps_LastIncreaseAt state = 0 then pr_StartedAt record else ps_LastIncreaseAt state)
      in fl_le F (stallWindow F record state (isIterative record)) (fl_seconds F (sub_time (pr_Now record) lastIncrease)))"

definition next_progress :: "'f float_ops \<Rightarrow> 'f progress_record \<Rightarrow> 'f pstate \<Rightarrow> int \<Rightarrow> int" where
  "next_progress F record state prev =
     (let iterative = isIterative record;
          elapsed0 = sub_time (pr_Now record) (pr_StartedAt record);
          elapsedSec = fl_seconds F (if elapsed0 < 0 then 0 else elapsed0);
          target = (if iterative then iterativeTarget F record state else bulkTarget F record elapsedSec);
          cap = stageCap F iterative
      in limit_progress F cap (if iterative then 5 else 10) (stalled_for F record state) prev
           (clampPercent F (fl_max F (fl_of_int F prev) (fl_min F target cap))))"

definition previous :: "'f progress_record \<Rightarrow> 'f pstate \<Rightarrow> int" where
  "previous record state =
     (let prev = clampSyncRange (pr_PreviousProgress record) in if ps_Progress state > prev then ps_Progress state else prev)"

definition SyncProgress :: "'f float_ops \<Rightarrow> 'f pstore \<Rightarrow> 'f progress_record \<Rightarrow> 'f pstore \<times> int" where
  "SyncProgress F s record =
     (let state0 = getState F s record;
          prev = previous record state0;
          state1 = observe F record state0;
          next' = next_progress F record state1 prev;
          state2 = (if next' > prev then state1\<lparr> ps_LastIncreaseAt := pr_Now record \<rparr> else state1);
          state3 = updateMinRemaining F record (updateMetricState F record state2);
          state4 = state3\<lparr> ps_Progress := next', ps_LastUpdatedAt := pr_Now record, ps_LastIteration := pr_Iteration record,
                           ps_Iterative := isIterative record \<rparr>
      in (if pr_OperationUID record \<noteq> '''' then Store_Store (pr_OperationUID record) state4 s else s, next'))"

definition IsNotConverging :: "'f float_ops \<Rightarrow> 'f pstore \<Rightarrow> 'f progress_record \<Rightarrow> bool" where
  "IsNotConverging F s record =
     (if pr_OperationUID record = '''' then False
      else case Store_Load s (pr_OperationUID record) of
             None \<Rightarrow> False
           | Some state \<Rightarrow>
               if \<not> ps_Iterative state then False
               else if \<not> isAtMaxThrottle F record then False
               else if fl_le F (ps_MinRemaining state) (fl_lit F 0 1) \<or> ps_MinRemainingAt state = 0 then False
               else sub_time (pr_Now record) (ps_MinRemainingAt state) \<ge> 10 * second)"

section \<open>format.go\<close>

definition FormatPercent :: "int \<Rightarrow> string" where
  "FormatPercent v = show_int v @ ''%''"

text \<open>The first run of characters that may occur in a number (\<^verbatim>\<open>common/percent\<close>).\<close>

definition possible_float :: "char \<Rightarrow> bool" where
  "possible_float c \<longleftrightarrow> char_digit c \<noteq> None \<or> c \<in> {CHR ''e'', CHR ''E'', CHR ''-'', CHR ''+'', CHR ''.''}"

definition ExtractPercentageFloat :: "'f float_ops \<Rightarrow> string \<Rightarrow> 'f option" where
  "ExtractPercentageFloat F s =
     (let part = takeWhile possible_float (dropWhile (\<lambda>c. \<not> possible_float c) s)
      in if part = [] then None
         else case fl_parse F part of None \<Rightarrow> None | Some v \<Rightarrow> if fl_isnan F v then None else Some v)"

definition ParsePercent_progress :: "'f float_ops \<Rightarrow> string \<Rightarrow> int" where
  "ParsePercent_progress F v =
     (if v = '''' then SyncRangeMin
      else case ExtractPercentageFloat F v of None \<Rightarrow> SyncRangeMin | Some parsed \<Rightarrow> fl_to_int32 F parsed)"

section \<open>mapper.go\<close>

record transfer_status =
  ts_Iteration :: "int option"
  ts_AutoConvergeThrottle :: "int option"
  ts_DataTotalBytes :: "int option"
  ts_DataProcessedBytes :: "int option"
  ts_DataRemainingBytes :: "int option"

record vmim_state =
  st_StartTimestamp :: "int option"
  st_Mode :: string
  st_TransferStatus :: "transfer_status option"
  st_AllowAutoConverge :: "bool option"
  st_TargetNodeDomainReady :: bool
  st_Completed :: bool
  st_AbortRequested :: bool
  st_AbortSucceeded :: bool
  st_FailureReason :: string

text \<open>The types of a migration's conditions that the controller knows.\<close>

datatype vmim_condition_type =
  MigrationRejectedByResourceQuota | TargetNodeIncomingMigrationLimitExceeded | MigrationConcurrencyLimitReached
| MigrationFailedCondition | OtherConditionType string

record vmim_condition =
  mc_Type :: vmim_condition_type
  mc_Status :: string
  mc_Reason :: string
  mc_Message :: string

record vmim =
  im_Name :: string
  im_Namespace :: string
  im_UID :: string
  im_Annotations :: "string \<Rightarrow> string option"
  im_ControllerUID :: "string option"
  im_VMIName :: string
  im_NodeSelector :: "(string \<times> string) list option"
  im_Phase :: migration_phase
  im_Final :: bool
  im_State :: "vmim_state option"
  im_Conditions :: "vmim_condition list"

definition mapBytesToMiB :: "'f float_ops \<Rightarrow> int option \<Rightarrow> 'f" where
  "mapBytesToMiB F v =
     (case v of None \<Rightarrow> fl_lit F (- 1) 1 | Some b \<Rightarrow> fl_div F (fl_of_int F b) (fl_lit F 1048576 1))"

definition previousProgress :: "'f float_ops \<Rightarrow> vmop \<Rightarrow> int" where
  "previousProgress F vmop = ParsePercent_progress F (op_Progress vmop)"

definition mapIteration :: "vmim_state \<Rightarrow> int \<times> bool" where
  "mapIteration state =
     (case Option.bind (st_TransferStatus state) ts_Iteration of None \<Rightarrow> (0, False) | Some i \<Rightarrow> (i, True))"

definition mapThrottle :: "vmim_state \<Rightarrow> int \<times> bool" where
  "mapThrottle state =
     (case Option.bind (st_TransferStatus state) ts_AutoConvergeThrottle of None \<Rightarrow> (0, False) | Some i \<Rightarrow> (i, True))"

definition mapDataMiB :: "'f float_ops \<Rightarrow> (transfer_status \<Rightarrow> int option) \<Rightarrow> vmim_state \<Rightarrow> 'f" where
  "mapDataMiB F field state =
     (case st_TransferStatus state of None \<Rightarrow> fl_lit F (- 1) 1 | Some ts \<Rightarrow> mapBytesToMiB F (field ts))"

definition normalizeThrottle :: "'f float_ops \<Rightarrow> int \<Rightarrow> bool \<Rightarrow> 'f" where
  "normalizeThrottle F raw ok =
     (if \<not> ok then fl_lit F 0 1
      else clampFloat F (fl_div F (fl_of_int F raw) (fl_lit F 100 1)) (fl_lit F 0 1) (fl_lit F 1 1))"

definition empty_record :: "'f float_ops \<Rightarrow> vmop \<Rightarrow> int \<Rightarrow> 'f progress_record" where
  "empty_record F vmop now =
     \<lparr> pr_OperationUID = op_UID vmop, pr_Now = now, pr_StartedAt = op_Created vmop,
       pr_PreviousProgress = previousProgress F vmop, pr_Phase = MigrationPhaseUnset, pr_Mode = '''', pr_HasIteration = False,
       pr_Iteration = 0, pr_HasThrottle = False, pr_AutoConvergeThrottle = 0, pr_Throttle = fl_lit F 0 1,
       pr_AutoConverge = False, pr_DataTotalMiB = fl_lit F (- 1) 1, pr_DataProcessedMiB = fl_lit F (- 1) 1,
       pr_DataRemainingMiB = fl_lit F (- 1) 1 \<rparr>"

text \<open>Both callers pass an operation; the migration may be missing.\<close>

definition BuildRecord :: "'f float_ops \<Rightarrow> vmop \<Rightarrow> vmim option \<Rightarrow> int \<Rightarrow> 'f progress_record" where
  "BuildRecord F vmop mig now =
     (let record = empty_record F vmop now
      in case mig of
           None \<Rightarrow> record
         | Some m \<Rightarrow>
             (let record1 = record\<lparr> pr_Phase := im_Phase m \<rparr>
              in case im_State m of
                   None \<Rightarrow> record1
                 | Some state \<Rightarrow>
                     record1\<lparr> pr_StartedAt := (case st_StartTimestamp state of None \<Rightarrow> op_Created vmop | Some t \<Rightarrow> t),
                       pr_Mode := st_Mode state,
                       pr_Iteration := fst (mapIteration state), pr_HasIteration := snd (mapIteration state),
                       pr_AutoConvergeThrottle := fst (mapThrottle state), pr_HasThrottle := snd (mapThrottle state),
                       pr_Throttle := normalizeThrottle F (fst (mapThrottle state)) (snd (mapThrottle state)),
                       pr_DataTotalMiB := mapDataMiB F ts_DataTotalBytes state,
                       pr_DataProcessedMiB := mapDataMiB F ts_DataProcessedBytes state,
                       pr_DataRemainingMiB := mapDataMiB F ts_DataRemainingBytes state,
                       pr_AutoConverge := (case st_AllowAutoConverge state of None \<Rightarrow> False | Some b \<Rightarrow> b) \<rparr>))"

section \<open>One step\<close>

lemma float_lits:
  assumes "float_laws F" and "0 \<le> m" "m \<le> 100" and "0 \<le> n" "n \<le> 100"
  shows "fl_lt F (fl_of_int F m) (fl_lit F n 1) = (m < n)" "fl_lt F (fl_lit F n 1) (fl_of_int F m) = (n < m)"
    "fl_le F (fl_lit F m 1) (fl_lit F n 1) = (m \<le> n)" "fl_to_int32 F (fl_lit F n 1) = n"
  using assms unfolding float_laws_def by blast+

lemma float_trans: "float_laws F \<Longrightarrow> fl_le F x y \<Longrightarrow> fl_le F y z \<Longrightarrow> fl_le F x z"
  unfolding float_laws_def by blast

lemma float_window:
  "float_laws F \<Longrightarrow> fl_le F (fl_lit F 0 1) x \<Longrightarrow> fl_le F (fl_lit F 0 1) t \<Longrightarrow>
     fl_le F (fl_sub F (fl_lit F 8 1) (fl_mul F x t)) (fl_lit F 8 1)"
  unfolding float_laws_def by blast

lemma float_seconds:
  "float_laws F \<Longrightarrow> 0 \<le> n \<Longrightarrow> n \<le> 100 \<Longrightarrow> n * second \<le> d \<Longrightarrow> fl_le F (fl_lit F n 1) (fl_seconds F d)"
  unfolding float_laws_def by blast

definition cap_of :: "bool \<Rightarrow> int" where "cap_of iterative = (if iterative then 90 else 45)"

lemma stageCap_lit: "stageCap F iterative = fl_lit F (cap_of iterative) 1"
  by (simp add: stageCap_def cap_of_def)

lemma clampPercent_range: "10 \<le> clampPercent F v \<and> clampPercent F v \<le> 90"
  by (simp add: clampPercent_def Let_def)

lemma limit_progress_exact:
  assumes "float_laws F" and "10 \<le> prev" "prev \<le> 90" and "10 \<le> m" "m \<le> 90" and "0 < step" "step \<le> 10"
  shows "limit_progress F (fl_lit F (cap_of it) 1) step stalled prev m =
    min (cap_of it) (if m \<le> prev then (if stalled \<and> prev < cap_of it then prev + 1 else prev) else min m (prev + step))"
proof -
  let ?cap = "cap_of it"
  have lits: "fl_lt F (fl_of_int F x) (fl_lit F ?cap 1) = (x < ?cap)" "fl_lt F (fl_lit F ?cap 1) (fl_of_int F x) = (?cap < x)"
    "fl_to_int32 F (fl_lit F ?cap 1) = ?cap" if "0 \<le> x" "x \<le> 100" for x
    using float_lits [OF assms(1) that, of ?cap] by (auto simp: cap_of_def)
  have conv: "fl_to_int32 F (fl_lit F ?cap 1) = ?cap" using lits(3) [of 0] by simp
  consider "m \<le> prev" | "prev < m" "m \<le> prev + step" | "prev + step < m" by linarith
  then show ?thesis using assms by cases (auto simp: limit_progress_def Let_def lits(1,2) conv)
qed

definition step_of :: "bool \<Rightarrow> int" where "step_of iterative = (if iterative then 5 else 10)"

lemma next_progress_exact:
  assumes "float_laws F" and "10 \<le> prev" "prev \<le> 90"
  shows "\<exists>m. next_progress F r state prev =
    min (cap_of (isIterative r))
      (if m \<le> prev then (if stalled_for F r state \<and> prev < cap_of (isIterative r) then prev + 1 else prev)
       else min m (prev + step_of (isIterative r)))"
  unfolding next_progress_def Let_def stageCap_lit step_of_def
  by (rule exI, rule limit_progress_exact [OF assms conjunct1 [OF clampPercent_range] conjunct2 [OF clampPercent_range]]) simp_all

lemma next_progress_bounds:
  assumes "float_laws F" and "10 \<le> prev" "prev \<le> 90"
  shows "10 \<le> next_progress F r state prev" and "next_progress F r state prev \<le> cap_of (isIterative r)"
    and "next_progress F r state prev \<le> prev + step_of (isIterative r)"
    and "prev \<le> cap_of (isIterative r) \<Longrightarrow> prev \<le> next_progress F r state prev"
    and "stalled_for F r state \<Longrightarrow> prev < cap_of (isIterative r) \<Longrightarrow> prev < next_progress F r state prev"
proof -
  obtain m where "next_progress F r state prev =
    min (cap_of (isIterative r))
      (if m \<le> prev then (if stalled_for F r state \<and> prev < cap_of (isIterative r) then prev + 1 else prev)
       else min m (prev + step_of (isIterative r)))"
    using next_progress_exact [OF assms] by blast
  moreover have "10 \<le> cap_of (isIterative r)" "1 \<le> step_of (isIterative r)" by (simp_all add: cap_of_def step_of_def)
  ultimately show "10 \<le> next_progress F r state prev" "next_progress F r state prev \<le> cap_of (isIterative r)"
    "next_progress F r state prev \<le> prev + step_of (isIterative r)"
    "prev \<le> cap_of (isIterative r) \<Longrightarrow> prev \<le> next_progress F r state prev"
    "stalled_for F r state \<Longrightarrow> prev < cap_of (isIterative r) \<Longrightarrow> prev < next_progress F r state prev"
    using assms(2) by (auto split: if_splits)
qed

section \<open>Runs\<close>

text \<open>What the store holds: a progress within the limits of the stage in which it was computed.\<close>

definition store_ok :: "'f pstore \<Rightarrow> bool" where
  "store_ok s \<longleftrightarrow> (\<forall>uid state. s uid = Some state \<longrightarrow> 10 \<le> ps_Progress state \<and> ps_Progress state \<le> cap_of (ps_Iterative state))"

lemma cap_of_le: "cap_of b \<le> 90" "10 \<le> cap_of b"
  by (simp_all add: cap_of_def)

lemma step_of_le: "step_of b \<le> 10"
  by (simp add: step_of_def)

lemma clampSyncRange_range: "10 \<le> clampSyncRange v \<and> clampSyncRange v \<le> 90"
  by (simp add: clampSyncRange_def)

lemma previous_range:
  assumes "store_ok s"
  shows "10 \<le> previous r (getState F s r)" "previous r (getState F s r) \<le> 90"
proof -
  have "10 \<le> ps_Progress (getState F s r) \<and> ps_Progress (getState F s r) \<le> 90"
  proof (cases "s (pr_OperationUID r)")
    case (Some state)
    then have "10 \<le> ps_Progress state \<and> ps_Progress state \<le> cap_of (ps_Iterative state)"
      using assms by (auto simp: store_ok_def)
    then show ?thesis using cap_of_le(1) [of "ps_Iterative state"] clampSyncRange_range Some
      by (auto simp: getState_def Let_def Store_Load_def)
  qed (use clampSyncRange_range in \<open>auto simp: getState_def Let_def Store_Load_def\<close>)
  then show "10 \<le> previous r (getState F s r)" "previous r (getState F s r) \<le> 90"
    using clampSyncRange_range by (auto simp: previous_def Let_def)
qed

lemma SyncProgress_result:
  "snd (SyncProgress F s r) = next_progress F r (observe F r (getState F s r)) (previous r (getState F s r))"
  by (simp add: SyncProgress_def Let_def)

lemma SyncProgress_stores:
  assumes "pr_OperationUID r \<noteq> ''''"
  shows "\<exists>state. fst (SyncProgress F s r) = s(pr_OperationUID r \<mapsto> state) \<and>
    ps_Progress state = snd (SyncProgress F s r) \<and> ps_Iterative state = isIterative r"
  unfolding SyncProgress_def Let_def Store_Store_def using assms
  by (simp split del: if_split) (intro exI conjI, rule refl, simp_all)

lemma SyncProgress_store_ok:
  assumes "float_laws F" and "store_ok s"
  shows "store_ok (fst (SyncProgress F s r))"
proof (cases "pr_OperationUID r = ''''")
  case True
  then show ?thesis using assms(2) by (simp add: SyncProgress_def Let_def)
next
  case False
  then obtain state where "fst (SyncProgress F s r) = s(pr_OperationUID r \<mapsto> state)"
      "ps_Progress state = snd (SyncProgress F s r)" "ps_Iterative state = isIterative r"
    using SyncProgress_stores by blast
  then show ?thesis
    using assms(2) next_progress_bounds(1,2) [OF assms(1) previous_range [OF assms(2)]]
    by (auto simp: store_ok_def SyncProgress_result)
qed

text \<open>
  A run of one operation: before every call the cache may have lost its entry; the previous progress is the
  one that the call before has returned, which the status of the operation keeps.
\<close>

fun sync_all :: "'f float_ops \<Rightarrow> 'f pstore \<Rightarrow> int \<Rightarrow> (bool \<times> 'f progress_record) list \<Rightarrow> int list" where
  "sync_all F s p [] = []"
| "sync_all F s p ((lost, r) # rs) =
     (let (s', p') = SyncProgress F (if lost then s(pr_OperationUID r := None) else s) (r\<lparr> pr_PreviousProgress := p \<rparr>)
      in p' # sync_all F s' p' rs)"

lemma isIterative_previous [simp]: "isIterative (r\<lparr> pr_PreviousProgress := p \<rparr>) = isIterative r"
  by (simp add: isIterative_def)

lemma sync_all_bounds:
  assumes "float_laws F" and "uid \<noteq> ''''"
    and "list_all (\<lambda>(lost, r). pr_OperationUID r = uid) rs" and "sorted (map (\<lambda>x. isIterative (snd x)) rs)"
    and "store_ok s" and "p \<le> 90" and "clampSyncRange p \<le> cap_of it" and "it \<Longrightarrow> list_all (\<lambda>x. isIterative (snd x)) rs"
    and "\<And>state. s uid = Some state \<Longrightarrow> ps_Progress state = clampSyncRange p"
  shows "successively (\<lambda>x y. x \<le> y \<and> y \<le> x + 10) (clampSyncRange p # sync_all F s p rs) \<and>
    list_all2 (\<lambda>(lost, r) p. 10 \<le> p \<and> p \<le> cap_of (isIterative r)) rs (sync_all F s p rs)"
  using assms(3-)
proof (induction rs arbitrary: s p it)
  case (Cons x rs)
  obtain lost r0 where x: "x = (lost, r0)" by (cases x)
  let ?s = "if lost then s(pr_OperationUID r0 := None) else s" let ?r = "r0\<lparr> pr_PreviousProgress := p \<rparr>"
  have uid: "pr_OperationUID r0 = uid" using Cons.prems(1) x by simp
  have ok: "store_ok ?s" using Cons.prems(3) by (auto simp: store_ok_def)
  define n where "n = snd (SyncProgress F ?s ?r)"
  define s' where "s' = fst (SyncProgress F ?s ?r)"
  have prev: "previous ?r (getState F ?s ?r) = clampSyncRange p"
    using Cons.prems(7) uid by (auto simp: previous_def getState_def Let_def Store_Load_def split: option.split)
  have "cap_of it \<le> cap_of (isIterative r0)" using Cons.prems(6) x by (cases it) (auto simp: cap_of_def)
  then have n: "10 \<le> n" "n \<le> cap_of (isIterative r0)" "clampSyncRange p \<le> n" "n \<le> clampSyncRange p + 10"
    using next_progress_bounds [OF assms(1) previous_range [OF ok, of ?r F], of ?r "observe F ?r (getState F ?s ?r)"]
      Cons.prems(5) step_of_le [of "isIterative r0"] unfolding n_def SyncProgress_result prev by simp_all
  then have clamp: "clampSyncRange n = n" using cap_of_le(1) [of "isIterative r0"] by (simp add: clampSyncRange_def)
  have stored: "ps_Progress state = n" if "s' uid = Some state" for state
    using SyncProgress_stores [of ?r F ?s] uid assms(2) that unfolding n_def s'_def by auto
  have ok': "store_ok s'" using SyncProgress_store_ok [OF assms(1) ok, of ?r] by (simp add: s'_def)
  have stages: "sorted (isIterative r0 # map (\<lambda>x. isIterative (snd x)) rs)" using Cons.prems(2) unfolding x by (simp only: list.map snd_conv)
  have rest: "sorted (map (\<lambda>x. isIterative (snd x)) rs)" using sorted_tl [OF stages] by (simp only: list.sel)
  have later: "list_all (\<lambda>x. isIterative (snd x)) rs" if "isIterative r0"
    using stages that by (simp add: list_all_iff)
  have uids: "list_all (\<lambda>(lost, r). pr_OperationUID r = uid) rs" using Cons.prems(1) by simp
  have IH: "successively (\<lambda>x y. x \<le> y \<and> y \<le> x + 10) (clampSyncRange n # sync_all F s' n rs) \<and>
      list_all2 (\<lambda>(lost, r) p. 10 \<le> p \<and> p \<le> cap_of (isIterative r)) rs (sync_all F s' n rs)"
    by (rule Cons.IH [where it = "isIterative r0", OF uids rest ok' _ _ later])
      (use n cap_of_le(1) [of "isIterative r0"] stored clamp in auto)
  have "sync_all F s p (x # rs) = n # sync_all F s' n rs"
    by (simp add: x n_def s'_def split: prod.split)
  then show ?case using IH n x clamp by simp
qed simp


text \<open>
  When the iterations are no longer reported, the limit of the bulk stage cuts a progress that was beyond it.
\<close>

lemma progress_falls_back:
  assumes "float_laws F" and "store_ok s" and "\<not> isIterative r" and "45 < pr_PreviousProgress r"
  shows "snd (SyncProgress F s r) < pr_PreviousProgress r"
  using next_progress_bounds(2) [OF assms(1) previous_range [OF assms(2), of r F], of r "observe F r (getState F s r)"] assms(3,4)
  by (simp add: SyncProgress_result cap_of_def)

lemma stallWindow_short:
  assumes "float_laws F" and "fl_le F (fl_lit F 0 1) (pr_Throttle r)" and "24 * second \<le> d"
  shows "fl_le F (stallWindow F r state it) (fl_seconds F d)"
proof -
  have secs: "fl_le F (fl_lit F n 1) (fl_seconds F d)" if "0 \<le> n" "n \<le> 24" for n
  proof -
    have "n * second \<le> d" using that assms(3) by linarith
    then show ?thesis using float_seconds [OF assms(1), of n d] that by simp
  qed
  have zero: "fl_le F (fl_lit F 0 1) (fl_lit F 3 1)" using float_lits(3) [OF assms(1), of 0 3] by simp
  have "fl_le F (fl_sub F (fl_lit F 8 1) (fl_mul F (fl_lit F 3 1) (pr_Throttle r))) (fl_lit F 8 1)"
    using assms(1) zero assms(2) by (rule float_window)
  then have "fl_le F (fl_sub F (fl_lit F 8 1) (fl_mul F (fl_lit F 3 1) (pr_Throttle r))) (fl_seconds F d)"
    using float_trans [OF assms(1) _ secs [of 8]] by simp
  then show ?thesis using secs by (simp add: stallWindow_def Let_def)
qed


section \<open>The status keeps the progress\<close>

lemma show_int_chars: "0 \<le> n \<Longrightarrow> set (show_int n) \<subseteq> digit_char ` {..<10}"
  using show_nat_chars [of "nat n"] by (auto simp: show_int_def)

lemma percent_roundtrip:
  assumes "float_laws F" and "0 \<le> n" "n \<le> 100"
  shows "ParsePercent_progress F (FormatPercent n) = n"
proof -
  have digits: "possible_float c" if "c \<in> set (show_int n)" for c
    using show_int_chars [OF assms(2)] that by (auto simp: possible_float_def char_digit_digit_char)
  have percent: "\<not> possible_float (CHR ''%'')" by (simp add: possible_float_def char_digit_def)
  have nonempty: "show_int n \<noteq> []" using assms(2) by (simp add: show_int_def)
  have "takeWhile possible_float (dropWhile (\<lambda>c. \<not> possible_float c) (FormatPercent n)) = show_int n"
    using digits percent nonempty by (cases "show_int n") (auto simp: FormatPercent_def takeWhile_append)
  moreover obtain x where "fl_parse F (show_int n) = Some x" "\<not> fl_isnan F x" "fl_to_int32 F x = n"
    using assms unfolding float_laws_def by blast
  ultimately show ?thesis
    using nonempty by (simp add: ParsePercent_progress_def ExtractPercentageFloat_def Let_def FormatPercent_def)
qed

section \<open>An instance\<close>

definition real_floats :: "real float_ops" where
  "real_floats =
     \<lparr> fl_lit = (\<lambda>m n. of_int m / of_int n), fl_of_int = of_int, fl_seconds = (\<lambda>d. of_int d / 1000000000),
       fl_add = (+), fl_sub = (-), fl_mul = (*), fl_div = (/), fl_max = max, fl_min = min, fl_log = ln,
       fl_ceil = (\<lambda>x. of_int \<lceil>x\<rceil>), fl_abs = abs, fl_le = (\<le>), fl_lt = (<), fl_isnan = (\<lambda>x. False),
       fl_to_int32 = floor, fl_parse = (\<lambda>s. map_option of_int (atoi s)) \<rparr>"

lemma real_floats_laws: "float_laws real_floats"
proof -
  have parse: "\<exists>x. fl_parse real_floats (show_int n) = Some x \<and> \<not> fl_isnan real_floats x \<and> fl_to_int32 real_floats x = n"
    if "0 \<le> n" "n \<le> 100" for n
  proof -
    have "atoi (show_int n) = Some n" using that by (intro atoi_show_int) (simp add: in_int64_def min_int64_def max_int64_def)
    then show ?thesis by (simp add: real_floats_def)
  qed
  have seconds: "fl_le real_floats (fl_lit real_floats n 1) (fl_seconds real_floats d)" if "n * second \<le> d" for n d
  proof -
    have "real_of_int (n * second) \<le> real_of_int d" using that by (simp only: of_int_le_iff)
    then show ?thesis by (simp add: real_floats_def)
  qed
  have rest: "fl_lt real_floats (fl_of_int real_floats m) (fl_lit real_floats n 1) = (m < n)"
    "fl_lt real_floats (fl_lit real_floats n 1) (fl_of_int real_floats m) = (n < m)"
    "fl_le real_floats (fl_lit real_floats m 1) (fl_lit real_floats n 1) = (m \<le> n)"
    "fl_to_int32 real_floats (fl_lit real_floats n 1) = n" for m n
    by (simp_all add: real_floats_def)
  show ?thesis
    unfolding float_laws_def using parse seconds rest by (auto simp: real_floats_def)
qed

definition example_record :: "int \<Rightarrow> int \<Rightarrow> real progress_record" where
  "example_record now iteration =
     \<lparr> pr_OperationUID = ''op'', pr_Now = now, pr_StartedAt = second, pr_PreviousProgress = 0, pr_Phase = MigrationRunning,
       pr_Mode = ''PreCopy'', pr_HasIteration = True, pr_Iteration = iteration, pr_HasThrottle = False,
       pr_AutoConvergeThrottle = 0, pr_Throttle = 0, pr_AutoConverge = False, pr_DataTotalMiB = 1000,
       pr_DataProcessedMiB = 500, pr_DataRemainingMiB = 500 \<rparr>"


definition example_state :: "real pstate" where
  "example_state = (zero_state real_floats)\<lparr> ps_Progress := 50, ps_Iterative := True, ps_LastIncreaseAt := second \<rparr>"


end
