(* ===== verification/MigrationOps.thy ===== *)
theory MigrationOps
  imports MigrationProgress LiveMigration Reconciler
begin

text \<open>
  Operations that migrate a machine (\<^verbatim>\<open>controller/vmop/migration\<close>): the service that creates, reads and deletes
  the migration of an operation (\<^verbatim>\<open>internal/service/migration.go\<close>), the handler that drives the operation
  through its phases (\<^verbatim>\<open>internal/handler/lifecycle.go\<close>) and the one of its finalizer
  (\<^verbatim>\<open>internal/handler/deletion.go\<close>).

  A pass reads the migration of the operation at several places; \<open>me_Migration env k\<close> is what the \<open>k\<close>-th of
  them reads, so that the migration may change between them.  A pass works on the operation and on the store
  of the progress, which lives as long as the controller.  The handler leaves its changes in the operation
  also when it fails.  Constants of KubeVirt that the sources only name are fields of \<open>kubevirt_names\<close>.
\<close>

section \<open>What a pass reads and calls\<close>

record target_pod =
  tp_Namespace :: string
  tp_Name :: string
  tp_Deleting :: bool
  tp_Pending :: bool
  tp_Unschedulable :: bool
  tp_WaitingReasons :: "string list"

text \<open>The last migration of an instance: whether it failed, when it ended, and why.\<close>

record ended_migration =
  em_Failed :: bool
  em_EndTimestamp :: "int option"
  em_FailureReason :: string

record kubevirt_names =
  kn_VMIDoesNotExist :: string
  kn_VMIIsShutdown :: string
  kn_LimitCluster :: string
  kn_LimitOutboundNode :: string

record 'q mig_env =
  me_Op :: "'q op_env"
  me_Migration :: "nat \<Rightarrow> vmim reading"
  me_VMI :: "nat \<Rightarrow> 'q vm_instance reading"
  me_Ended :: "ended_migration option reading"
  me_TargetPod :: "target_pod option option"
  me_PodEvents :: "(string \<times> string \<times> string) list option"
  me_Migrations :: "vmim list option"
  me_NodeIface :: "string \<Rightarrow> string option"
  me_TargetMigration :: bool
  me_SystemNetwork :: string
  me_Override :: string
  me_Names :: kubevirt_names
  me_Now :: "nat \<Rightarrow> int"

datatype mig_call = Op op_call | CreateMigration vmim

type_synonym mig_api = "mig_call api_server"

type_synonym 'a mig_run = "(mig_call, 'a) run"

type_synonym 'f mig_state = "vmop \<times> 'f pstore"

abbreviation ReasonMigrationPending :: string where "ReasonMigrationPending \<equiv> ''MigrationPending''"
abbreviation ReasonTargetScheduling :: string where "ReasonTargetScheduling \<equiv> ''TargetScheduling''"
abbreviation ReasonTargetUnschedulable :: string where "ReasonTargetUnschedulable \<equiv> ''TargetUnschedulable''"
abbreviation ReasonTargetDiskError :: string where "ReasonTargetDiskError \<equiv> ''TargetDiskError''"
abbreviation ReasonTargetPreparing :: string where "ReasonTargetPreparing \<equiv> ''TargetPreparing''"
abbreviation ReasonSyncing :: string where "ReasonSyncing \<equiv> ''Syncing''"
abbreviation ReasonWaitingForSyncSlot :: string where "ReasonWaitingForSyncSlot \<equiv> ''WaitingForSyncSlot''"
abbreviation ReasonNotConverging :: string where "ReasonNotConverging \<equiv> ''NotConverging''"
abbreviation ReasonSourceSuspended :: string where "ReasonSourceSuspended \<equiv> ''SourceSuspended''"
abbreviation ReasonTargetResumed :: string where "ReasonTargetResumed \<equiv> ''TargetResumed''"
abbreviation ReasonMigrationCompleted :: string where "ReasonMigrationCompleted \<equiv> ''Completed''"
abbreviation ReasonAborted :: string where "ReasonAborted \<equiv> ''Aborted''"
abbreviation ReasonFailed :: string where "ReasonFailed \<equiv> ''Failed''"
abbreviation ReasonOperationFailed :: string where "ReasonOperationFailed \<equiv> ''OperationFailed''"
abbreviation messageMigrationPending :: string where
  "messageMigrationPending \<equiv>
     ''The VirtualMachineOperation for migrating the virtual machine has been queued. Waiting for the queue to be processed and for this operation to be executed.''"
abbreviation ReasonWaitingForVM :: string where
  "ReasonWaitingForVM \<equiv> ''WaitingForVirtualMachineToBeReadyToMigrate''"

section \<open>migration.go\<close>

definition MigrationService_IsApplicableForVMPhase :: "string \<Rightarrow> bool" where
  "MigrationService_IsApplicableForVMPhase phase \<longleftrightarrow> phase = MachineRunning"

definition MigrationService_IsApplicableForRunPolicy :: "string \<Rightarrow> bool" where
  "MigrationService_IsApplicableForRunPolicy runPolicy \<longleftrightarrow>
     runPolicy = ManualPolicy \<or> runPolicy = AlwaysOnUnlessStoppedManually \<or> runPolicy = AlwaysOnPolicy"

definition migrationName :: "vmop \<Rightarrow> string" where
  "migrationName vmop = ''vmop-'' @ op_Name vmop"

text \<open>The migration that is created, without what the server sets.\<close>

definition new_migration :: "vmop \<Rightarrow> vmim" where
  "new_migration vmop =
     \<lparr> im_Name = migrationName vmop, im_Namespace = op_Namespace vmop, im_UID = '''', im_Annotations = op_Annotations vmop,
       im_ControllerUID = Some (op_UID vmop), im_VMIName = op_VirtualMachine vmop,
       im_NodeSelector = (case op_Migrate vmop of None \<Rightarrow> None | Some nodeSelector \<Rightarrow> nodeSelector),
       im_Phase = MigrationPhaseUnset, im_Final = False, im_State = None, im_Conditions = [] \<rparr>"

text \<open>Both calls give the error, if any.\<close>

definition MigrationService_CreateMigration :: "mig_api \<Rightarrow> vmop \<Rightarrow> string option mig_run" where
  "MigrationService_CreateMigration api vmop =
     bind_run (call api (CreateMigration (new_migration vmop))) (\<lambda>r.
       ret (if r = OK \<or> r = AlreadyExistsErr then None else Some ''create migration''))"

definition MigrationService_DeleteMigration :: "mig_api \<Rightarrow> 'q mig_env \<Rightarrow> nat \<Rightarrow> string option mig_run" where
  "MigrationService_DeleteMigration api env k =
     (case me_Migration env k of
        Unreadable \<Rightarrow> ret (Some ''get migration'')
      | Missing \<Rightarrow> ret None
      | Got mig \<Rightarrow>
          bind_run (call api (Op (DeleteMigration (im_Name mig)))) (\<lambda>r.
            ret (if r = OK \<or> r = NotFoundErr then None else Some ''delete migration'')))"

section \<open>lifecycle.go: reasons, messages and progress\<close>

definition GetKVVMIMCondition :: "vmim_condition_type \<Rightarrow> vmim_condition list \<Rightarrow> vmim_condition option" where
  "GetKVVMIMCondition condType conditions = List.find (\<lambda>c. mc_Type c = condType) conditions"

definition forgetProgress :: "vmop \<Rightarrow> 'f pstore \<Rightarrow> 'f pstore" where
  "forgetProgress vmop s = Forget_progress (op_UID vmop) s"

definition calculateMigrationProgress :: "'f float_ops \<Rightarrow> 'q mig_env \<Rightarrow> nat \<Rightarrow> 'f mig_state \<Rightarrow> vmim \<Rightarrow> string \<Rightarrow> 'f pstore \<times> int" where
  "calculateMigrationProgress F env k vs mig reason =
     (case vs of (vmop, s) \<Rightarrow>
        if reason = ReasonMigrationPending then (s, 0)
        else if reason = ReasonTargetScheduling \<or> reason = ReasonTargetUnschedulable then (s, 2)
        else if reason = ReasonTargetPreparing \<or> reason = ReasonTargetDiskError then (s, 3)
        else if reason = ReasonWaitingForSyncSlot then (s, 4)
        else if reason = ReasonSyncing \<or> reason = ReasonNotConverging
        then SyncProgress F s (BuildRecord F vmop (Some mig) (me_Now env k))
        else if reason = ReasonSourceSuspended then (forgetProgress vmop s, 91)
        else if reason = ReasonTargetResumed then (forgetProgress vmop s, 92)
        else if reason = ReasonMigrationCompleted then (forgetProgress vmop s, 100)
        else (forgetProgress vmop s, ParsePercent_progress F (op_Progress vmop)))"

text \<open>The result of the calculation is written to the status.\<close>

definition set_progress :: "'f float_ops \<Rightarrow> 'q mig_env \<Rightarrow> nat \<Rightarrow> vmim \<Rightarrow> string \<Rightarrow> 'f mig_state \<Rightarrow> 'f mig_state" where
  "set_progress F env k mig reason vs =
     (case calculateMigrationProgress F env k vs mig reason of
        (s', p) \<Rightarrow> ((fst vs)\<lparr> op_Progress := FormatPercent p \<rparr>, s'))"

definition humanizeMigrationFailedMessage :: "string \<Rightarrow> string" where
  "humanizeMigrationFailedMessage message =
     (if contains message ''unschedulable target pod'' \<and> contains message ''timeout period expiration''
      then ''No available nodes were found to place the target VM within the timeout period'' else message)"

definition getMessageByMigrationFailedReason :: "kubevirt_names \<Rightarrow> vmim \<Rightarrow> string" where
  "getMessageByMigrationFailedReason names mig =
     (case GetKVVMIMCondition MigrationFailedCondition (im_Conditions mig) of
        None \<Rightarrow> ''''
      | Some cond \<Rightarrow>
          if mc_Status cond = ConditionTrue
          then (if mc_Reason cond = kn_VMIDoesNotExist names \<or> mc_Reason cond = kn_VMIIsShutdown names
                then ''VirtualMachine is stopped'' else humanizeMigrationFailedMessage (mc_Message cond))
          else '''')"

text \<open>\<^verbatim>\<open>strings.ToLower\<close>; the texts are ASCII.\<close>

definition lower :: "char \<Rightarrow> char" where
  "lower c = (if 65 \<le> (of_char c :: nat) \<and> (of_char c :: nat) \<le> 90 then char_of ((of_char c :: nat) + 32) else c)"

definition ToLower :: "string \<Rightarrow> string" where "ToLower s = map lower s"

definition getFailedReason :: "vmim \<Rightarrow> string" where
  "getFailedReason mig =
     (let byCondition =
        (case GetKVVMIMCondition MigrationFailedCondition (im_Conditions mig) of
           None \<Rightarrow> ReasonFailed
         | Some cond \<Rightarrow>
             (let reason = ToLower (mc_Reason cond @ '' '' @ mc_Message cond)
              in if contains reason ''schedul'' \<or> contains reason ''unschedul'' then ReasonTargetUnschedulable
                 else if contains reason ''csi'' \<or> contains reason ''attach'' \<or> contains reason ''volume'' \<or> contains reason ''disk''
                 then ReasonTargetDiskError else ReasonFailed))
      in case im_State mig of
           None \<Rightarrow> byCondition
         | Some state \<Rightarrow>
             if st_AbortRequested state \<or> st_AbortSucceeded state then ReasonAborted
             else if contains (ToLower (st_FailureReason state)) ''converg'' \<or> contains (ToLower (st_FailureReason state)) ''progress''
             then ReasonNotConverging else byCondition)"

definition getFailedMessage :: "kubevirt_names \<Rightarrow> string \<Rightarrow> vmim \<Rightarrow> string" where
  "getFailedMessage names reason mig =
     (let base =
            (if reason = ReasonAborted then ''Migration aborted''
             else if reason = ReasonNotConverging then ''Migration did not converge''
             else if reason = ReasonTargetUnschedulable then ''Migration failed: target pod is unschedulable''
             else if reason = ReasonTargetDiskError then ''Migration failed: target disk attach error''
             else ''Migration failed'');
          failure = (case im_State mig of None \<Rightarrow> '''' | Some state \<Rightarrow> st_FailureReason state);
          byCondition = getMessageByMigrationFailedReason names mig
      in if failure \<noteq> '''' then base @ '': '' @ failure
         else if byCondition \<noteq> '''' then base @ '': '' @ byCondition else base)"

definition getMigrationVMI :: "'q mig_env \<Rightarrow> nat \<Rightarrow> vmim \<Rightarrow> string + 'q vm_instance option" where
  "getMigrationVMI env k mig =
     (if im_VMIName mig = '''' then Inr None
      else case me_VMI env k of Got kvvmi \<Rightarrow> Inr (Some kvvmi) | Missing \<Rightarrow> Inr None | Unreadable \<Rightarrow> Inl ''get vmi'')"

definition inboundSlotWaitMessage :: "'q vm_instance option \<Rightarrow> string" where
  "inboundSlotWaitMessage kvvmi =
     (case kvvmi of
        Some i \<Rightarrow> if InboundMigrationWaitingTargetNode i \<noteq> ''''
                  then ''Waiting for a free inbound migration slot on target node '' @ quoted (InboundMigrationWaitingTargetNode i) @ ''.''
                  else ''Waiting for a free inbound migration slot on the target node.''
      | None \<Rightarrow> ''Waiting for a free inbound migration slot on the target node.'')"

definition syncSlotWaitMessage :: "'q vm_instance option \<Rightarrow> string" where
  "syncSlotWaitMessage kvvmi =
     (case kvvmi of
        Some i \<Rightarrow> if SyncMigrationWaitingSourceNode i \<noteq> ''''
                  then ''Target prepared; waiting for a free sync slot on source node '' @ quoted (SyncMigrationWaitingSourceNode i) @ ''.''
                  else ''Target prepared; waiting for a free sync slot on the source node.''
      | None \<Rightarrow> ''Target prepared; waiting for a free sync slot on the source node.'')"

definition concurrencyLimitWaitMessage :: "kubevirt_names \<Rightarrow> string \<Rightarrow> 'q vm_instance option \<Rightarrow> string" where
  "concurrencyLimitWaitMessage names condReason kvvmi =
     (if condReason = kn_LimitCluster names
      then ''Waiting for a free migration slot: the cluster live migration limit is reached.''
      else if condReason = kn_LimitOutboundNode names
      then (case kvvmi of
              Some i \<Rightarrow> if in_NodeName i \<noteq> ''''
                        then ''Waiting for a free outbound migration slot on source node '' @ quoted (in_NodeName i) @ ''.''
                        else ''Waiting for a free outbound migration slot on the source node.''
            | None \<Rightarrow> ''Waiting for a free outbound migration slot on the source node.'')
      else ''Waiting for a free migration slot.'')"

definition isContainerCreating :: "target_pod option \<Rightarrow> bool" where
  "isContainerCreating pod =
     (case pod of None \<Rightarrow> False | Some p \<Rightarrow> tp_Pending p \<and> ''ContainerCreating'' \<in> set (tp_WaitingReasons p))"

definition getTargetPodDiskError :: "'q mig_env \<Rightarrow> target_pod option \<Rightarrow> string option" where
  "getTargetPodDiskError env pod =
     (case pod of
        None \<Rightarrow> None
      | Some p \<Rightarrow>
          if \<not> isContainerCreating pod \<or> tp_Deleting p then None
          else case me_PodEvents env of
                 None \<Rightarrow> None
               | Some events \<Rightarrow>
                   map_option (\<lambda>(type, reason, message). reason @ '': '' @ message)
                     (List.find (\<lambda>(type, reason, message). type = ''Warning'' \<and>
                        (reason = ''FailedAttachVolume'' \<or> reason = ''FailedMount'')) events))"

definition getPodPendingUnschedulableMessage :: "target_pod option \<Rightarrow> string option" where
  "getPodPendingUnschedulableMessage pod =
     (case pod of
        None \<Rightarrow> None
      | Some p \<Rightarrow>
          if \<not> tp_Pending p \<or> tp_Deleting p then None
          else if tp_Unschedulable p then Some (''Target pod '' @ quoted (tp_Namespace p @ ''/'' @ tp_Name p) @ '' is unschedulable'')
          else None)"

definition bytesToMiB :: "int \<Rightarrow> int" where "bytesToMiB value = value div 1024 div 1024"

definition formatMigrationDetails :: "vmim \<Rightarrow> int \<Rightarrow> string" where
  "formatMigrationDetails mig now =
     (case im_State mig of
        None \<Rightarrow> ''''
      | Some state \<Rightarrow>
          (case st_TransferStatus state of
             None \<Rightarrow> ''''
           | Some status \<Rightarrow>
               (let num = (\<lambda>prefix suffix v. case v of None \<Rightarrow> [] | Some n \<Rightarrow> [prefix @ show_int n @ suffix]);
                    elapsed = (\<lambda>t. let d = sub_time now t in max 0 (d - d smod (10 * second)) div second)
                in join_strings '' ''
                     (num ''TimeElapsed:'' ''s'' (map_option elapsed (st_StartTimestamp state)) @
                      num ''DataProcessed:'' ''MiB'' (map_option bytesToMiB (ts_DataProcessedBytes status)) @
                      num ''DataRemaining:'' ''MiB'' (map_option bytesToMiB (ts_DataRemainingBytes status)) @
                      num ''DataTotal:'' ''MiB'' (map_option bytesToMiB (ts_DataTotalBytes status)) @
                      num ''Iteration:'' '''' (ts_Iteration status) @
                      [if ts_AutoConvergeThrottle status \<noteq> None then ''AutoConvergeThrottleSet:true'' else ''AutoConvergeThrottleSet:false''] @
                      num ''AutoConvergeThrottle:'' '''' (ts_AutoConvergeThrottle status)))))"

end
