(* ===== verification/MigrationLifecycle.thy ===== *)
theory MigrationLifecycle
  imports MigrationOps
begin

text \<open>
  The handlers of operations that migrate a machine: \<^verbatim>\<open>internal/handler/lifecycle.go\<close> and
  \<^verbatim>\<open>internal/handler/deletion.go\<close> of \<^verbatim>\<open>controller/vmop/migration\<close>.  What they promise is in
  \<^verbatim>\<open>MigrationGuarantees\<close>.
\<close>

section \<open>lifecycle.go: what a migration in progress waits for\<close>

definition phase_reason :: "'q mig_env \<Rightarrow> vmim \<Rightarrow> string + string \<times> string" where
  "phase_reason env mig =
     (if im_Phase mig = MigrationPhaseUnset \<or> im_Phase mig = MigrationPending then
        (case GetKVVMIMCondition TargetNodeIncomingMigrationLimitExceeded (im_Conditions mig) of
           Some _ \<Rightarrow> map_sum id (\<lambda>kvvmi. (ReasonMigrationPending, inboundSlotWaitMessage kvvmi)) (getMigrationVMI env 0 mig)
         | None \<Rightarrow>
             (case GetKVVMIMCondition MigrationConcurrencyLimitReached (im_Conditions mig) of
                Some cond \<Rightarrow>
                  if mc_Status cond = ConditionTrue
                  then map_sum id (\<lambda>kvvmi. (ReasonMigrationPending, concurrencyLimitWaitMessage (me_Names env) (mc_Reason cond) kvvmi))
                         (getMigrationVMI env 0 mig)
                  else Inr (ReasonMigrationPending, messageMigrationPending)
              | None \<Rightarrow> Inr (ReasonMigrationPending, messageMigrationPending)))
      else if im_Phase mig = MigrationScheduling then Inr (ReasonTargetScheduling, ''Scheduling the migration target'')
      else if im_Phase mig = MigrationScheduled \<or> im_Phase mig = MigrationPreparingTarget
      then Inr (ReasonTargetPreparing, ''Preparing the migration target'')
      else Inr (ReasonSyncing, ''Source and target are being synchronized''))"

definition with_details :: "'q mig_env \<Rightarrow> vmim \<Rightarrow> string \<times> string \<Rightarrow> string \<times> string" where
  "with_details env mig reasonAndMessage =
     (case im_State mig of
        None \<Rightarrow> reasonAndMessage
      | Some state \<Rightarrow>
          (let rm1 = (if st_TargetNodeDomainReady state
                      then (ReasonTargetResumed, ''The virtual machine has resumed on the target'') else reasonAndMessage);
               rm2 = (if st_Completed state
                      then (ReasonSourceSuspended, ''The virtual machine has been suspended on the source'') else rm1);
               details = formatMigrationDetails mig (me_Now env 0)
           in if details \<noteq> '''' then (fst rm2, snd rm2 @ ''. '' @ details) else rm2))"

definition getInProgressReasonAndMessage :: "'q mig_env \<Rightarrow> vmim \<Rightarrow> string + string \<times> string" where
  "getInProgressReasonAndMessage env mig =
     (case phase_reason env mig of
        Inl e \<Rightarrow> Inl e
      | Inr reasonAndMessage \<Rightarrow>
          (case me_TargetPod env of
             None \<Rightarrow> Inl ''list pods''
           | Some pod \<Rightarrow>
               (case getPodPendingUnschedulableMessage pod of
                  Some unschedulableMsg \<Rightarrow> Inr (ReasonTargetUnschedulable, unschedulableMsg)
                | None \<Rightarrow>
                    (case getTargetPodDiskError env pod of
                       Some diskErrMsg \<Rightarrow> Inr (ReasonTargetDiskError, ''Target pod has disk attach error: '' @ diskErrMsg)
                     | None \<Rightarrow>
                         (case getMigrationVMI env 1 mig of
                            Inl e \<Rightarrow> Inl e
                          | Inr kvvmi \<Rightarrow>
                              if case_option False IsInboundMigrationSlotWaiting kvvmi
                              then Inr (ReasonMigrationPending, inboundSlotWaitMessage kvvmi)
                              else if case_option False IsSyncMigrationSlotWaiting kvvmi
                              then Inr (ReasonWaitingForSyncSlot, syncSlotWaitMessage kvvmi)
                              else Inr (with_details env mig reasonAndMessage))))))"

definition prepareTargetTimeout :: int where "prepareTargetTimeout = 5 * 60 * second"

definition waitForVMReadyToMigrateTimeout :: int where "waitForVMReadyToMigrateTimeout = 5 * 60 * second"

definition timeElapsedUpdateInterval :: int where "timeElapsedUpdateInterval = 10 * second"

definition isTargetPreparationStalled :: "string \<Rightarrow> condition \<Rightarrow> int \<Rightarrow> bool" where
  "isTargetPreparationStalled reason prevCompleted now =
     (if reason \<notin> {ReasonTargetScheduling, ReasonTargetUnschedulable, ReasonTargetPreparing, ReasonTargetDiskError} then False
      else if cond_Reason prevCompleted \<noteq> reason \<or> cond_LastTransitionTime prevCompleted = 0 then False
      else sub_time now (cond_LastTransitionTime prevCompleted) > prepareTargetTimeout)"

section \<open>lifecycle.go: following the migration\<close>

definition complete_condition ::
  "'q mig_env \<Rightarrow> nat \<Rightarrow> string \<Rightarrow> string \<Rightarrow> string \<Rightarrow> 'f mig_state \<Rightarrow> 'f mig_state" where
  "complete_condition env k reason status message vs =
     (case vs of (vmop, s) \<Rightarrow>
        (set_op_condition (me_Op env) k (op_condition vmop TypeCompleted reason status message) vmop, s))"

definition set_phase :: "string \<Rightarrow> 'f mig_state \<Rightarrow> 'f mig_state" where
  "set_phase phase vs = ((fst vs)\<lparr> op_Phase := phase \<rparr>, snd vs)"

text \<open>The three outcomes of a migration that is over: it is gone, it failed, it succeeded.\<close>

definition migration_missing :: "'q mig_env \<Rightarrow> 'f mig_state \<Rightarrow> 'f mig_state" where
  "migration_missing env vs =
     (let message =
        (case me_Ended env of
           Got (Some m) \<Rightarrow>
             (case em_EndTimestamp m of
                Some t \<Rightarrow> if em_Failed m \<and> IsAfterSignalSentOrCreation t (fst vs)
                          then ''Migration failed: '' @ em_FailureReason m else ''''
              | None \<Rightarrow> '''')
         | Got None \<Rightarrow> ''''
         | _ \<Rightarrow> ''Migration failed because the virtual machine is currently not running.'')
      in complete_condition env 20 ReasonOperationFailed ConditionFalse message (set_phase VMOPPhaseFailed vs))"

definition failed_reason :: "vmim \<Rightarrow> vmop \<Rightarrow> string" where
  "failed_reason mig vmop =
     (let reason = getFailedReason mig; prev = GetCondition TypeCompleted (op_Conditions vmop)
      in if reason = ReasonFailed \<and> snd prev \<and> cond_Reason (fst prev) = ReasonNotConverging then ReasonNotConverging else reason)"

definition migration_failed :: "'f float_ops \<Rightarrow> 'q mig_env \<Rightarrow> vmim \<Rightarrow> 'f mig_state \<Rightarrow> 'f mig_state" where
  "migration_failed F env mig vs =
     (let reason = failed_reason mig (fst vs)
      in complete_condition env 21 reason ConditionFalse (getFailedMessage (me_Names env) reason mig)
           (set_progress F env 3 mig reason (set_phase VMOPPhaseFailed vs)))"

definition migration_succeeded :: "'q mig_env \<Rightarrow> 'f mig_state \<Rightarrow> 'f mig_state" where
  "migration_succeeded env vs =
     complete_condition env 22 ReasonMigrationCompleted ConditionTrue ''''
       ((fst vs)\<lparr> op_Phase := VMOPPhaseCompleted, op_Progress := FormatPercent 100 \<rparr>, snd vs)"

text \<open>The phase, the progress and the condition of an operation whose migration goes on.\<close>

definition in_progress :: "'f float_ops \<Rightarrow> 'q mig_env \<Rightarrow> nat \<Rightarrow> vmim \<Rightarrow> string \<Rightarrow> string \<Rightarrow> 'f mig_state \<Rightarrow> 'f mig_state" where
  "in_progress F env k mig reason message vs =
     complete_condition env k reason ConditionFalse message
       (set_progress F env 3 mig reason
          (set_phase (if reason = ReasonMigrationPending \<or> reason = ReasonWaitingForSyncSlot
                      then VMOPPhasePending else VMOPPhaseInProgress) vs))"

definition preparation_timed_out :: "'f float_ops \<Rightarrow> 'q mig_env \<Rightarrow> vmim \<Rightarrow> string \<Rightarrow> 'f mig_state \<Rightarrow> 'f mig_state" where
  "preparation_timed_out F env mig reason vs =
     complete_condition env 23 ReasonOperationFailed ConditionFalse ''Timed out preparing the migration target.''
       (set_progress F env 3 mig reason (set_phase VMOPPhaseFailed vs))"

definition converging_reason :: "'f float_ops \<Rightarrow> 'q mig_env \<Rightarrow> vmim \<Rightarrow> 'f mig_state \<Rightarrow> string \<times> string \<Rightarrow> string \<times> string" where
  "converging_reason F env mig vs reasonAndMessage =
     (if fst reasonAndMessage = ReasonSyncing \<and>
         IsNotConverging F (snd vs) (BuildRecord F (fst vs) (Some mig) (me_Now env 1))
      then (ReasonNotConverging, ''Migration is not converging: data remaining is not decreasing at maximum throttle'')
      else reasonAndMessage)"

definition follow_migration ::
  "mig_api \<Rightarrow> 'f float_ops \<Rightarrow> 'q mig_env \<Rightarrow> vmim \<Rightarrow> string \<times> string \<Rightarrow> 'f mig_state \<Rightarrow> ('f mig_state \<times> string option) mig_run" where
  "follow_migration api F env mig reasonAndMessage vs =
     (case converging_reason F env mig vs reasonAndMessage of
        (reason, message) \<Rightarrow>
          if isTargetPreparationStalled reason (fst (GetCondition TypeCompleted (op_Conditions (fst vs)))) (me_Now env 2)
          then bind_run (MigrationService_DeleteMigration api env 3) (\<lambda>e.
                 case e of
                   Some _ \<Rightarrow> ret (vs, Some ''delete migration stuck preparing target'')
                 | None \<Rightarrow>
                     bind_run (event ReasonErrVMOPFailed) (\<lambda>_. ret (preparation_timed_out F env mig reason vs, None)))
          else ret (in_progress F env 24 mig reason message vs, None))"

definition Migration_syncOperationComplete ::
  "mig_api \<Rightarrow> 'f float_ops \<Rightarrow> 'q mig_env \<Rightarrow> 'f mig_state \<Rightarrow> ('f mig_state \<times> string option) mig_run" where
  "Migration_syncOperationComplete api F env vs =
     (case me_Migration env 2 of
        Unreadable \<Rightarrow> ret (vs, Some ''get migration'')
      | Missing \<Rightarrow>
          (case me_Ended env of
             Unreadable \<Rightarrow> ret (vs, Some ''get kvvmi'')
           | _ \<Rightarrow> bind_run (event ReasonErrVMOPFailed) (\<lambda>_. ret (migration_missing env vs, None)))
      | Got mig \<Rightarrow>
          if im_Phase mig = MigrationFailed
          then bind_run (event ReasonErrVMOPFailed) (\<lambda>_. ret (migration_failed F env mig vs, None))
          else if im_Phase mig = MigrationSucceeded
          then bind_run (event ReasonVMOPSucceeded) (\<lambda>_. ret (migration_succeeded env vs, None))
          else case getInProgressReasonAndMessage env mig of
                 Inl e \<Rightarrow> ret (vs, Some e)
               | Inr reasonAndMessage \<Rightarrow> follow_migration api F env mig reasonAndMessage vs)"

definition Migration_syncOperationCompleteResult ::
  "mig_api \<Rightarrow> 'f float_ops \<Rightarrow> 'q mig_env \<Rightarrow> 'f mig_state \<Rightarrow> ('f mig_state \<times> reconcile_result \<times> string option) mig_run" where
  "Migration_syncOperationCompleteResult api F env vs =
     bind_run (Migration_syncOperationComplete api F env vs) (\<lambda>(vs', e).
       ret (vs', if e = None \<and> (op_Phase (fst vs') = VMOPPhaseInProgress \<or> op_Phase (fst vs') = VMOPPhasePending)
                 then requeue_after timeElapsedUpdateInterval else no_requeue, e))"

section \<open>lifecycle.go: the checks before a migration is created\<close>

definition isApplicableForLiveMigrationPolicy :: "'q mig_env \<Rightarrow> vmop \<Rightarrow> 'q virtual_machine \<Rightarrow> string \<times> bool" where
  "isApplicableForLiveMigrationPolicy env vmop vm =
     (case CalculateEffectivePolicy (me_Override env) (LiveMigrationPolicy (vm_Spec vm)) (Some vmop) of
        (effectivePolicy, autoConverge, Some e) \<Rightarrow> (''Operation is invalid: '' @ e, False)
      | (effectivePolicy, autoConverge, None) \<Rightarrow>
          (''Migration settings for operation type '' @ op_Type vmop @ '': liveMigrationPolicy '' @ effectivePolicy @
           '', autoConverge '' @ (if autoConverge then ''true'' else ''false''), True))"

definition isKubeVirtMigrationRejectedDueToQuota :: "'q mig_env \<Rightarrow> string + bool" where
  "isKubeVirtMigrationRejectedDueToQuota env =
     (case me_Migration env 0 of
        Unreadable \<Rightarrow> Inl ''get migration''
      | Missing \<Rightarrow> Inr False
      | Got mig \<Rightarrow> Inr (GetKVVMIMCondition MigrationRejectedByResourceQuota (im_Conditions mig) \<noteq> None))"

text \<open>The list holds the migrations of the namespace; \<^verbatim>\<open>IsControlledBy\<close> compares identifiers.\<close>

definition otherMigrationsAreInProgress :: "'q mig_env \<Rightarrow> vmop \<Rightarrow> string + bool" where
  "otherMigrationsAreInProgress env vmop =
     (case me_Migrations env of
        None \<Rightarrow> Inl ''list migrations''
      | Some migs \<Rightarrow>
          Inr (list_ex (\<lambda>mig. im_VMIName mig = op_VirtualMachine vmop \<and> \<not> im_Final mig \<and>
                              im_ControllerUID mig \<noteq> Some (op_UID vmop)) migs))"

text \<open>The message of a source node that cannot migrate over the network, if there is one.\<close>

definition checkMigrationNetwork :: "'q mig_env \<Rightarrow> 'q virtual_machine \<Rightarrow> string option" where
  "checkMigrationNetwork env vm =
     (let nodeName = StatusNode (vm_Status vm)
      in if nodeName = '''' then Some ''Virtual machine is not scheduled to any node''
         else case me_NodeIface env nodeName of
                None \<Rightarrow> Some (''failed to get source node '' @ quoted nodeName)
              | Some iface \<Rightarrow>
                  if iface = '''' then Some (''source node '' @ quoted nodeName @
                    '' has no dedicated migration interface for network '' @ quoted (me_SystemNetwork env))
                  else None)"

definition canExecute :: "'q mig_env \<Rightarrow> 'q virtual_machine \<Rightarrow> 'f mig_state \<Rightarrow> ('f mig_state \<times> bool) mig_run" where
  "canExecute env vm vs =
     (let migrating = fst (GetCondition ''Migrating'' (Conditions (vm_Status vm)));
          migratable = fst (GetCondition ''Migratable'' (Conditions (vm_Status vm)));
          completed = fst (GetCondition TypeCompleted (op_Conditions (fst vs)))
      in if cond_Reason migrating = ''ReadyToMigrate'' then ret (vs, True)
         else if cond_Status migratable = ConditionTrue then
           (if cond_Reason completed = ReasonWaitingForVM \<and> cond_LastTransitionTime completed \<noteq> 0 \<and>
               sub_time (me_Now env 4) (cond_LastTransitionTime completed) > waitForVMReadyToMigrateTimeout
            then bind_run (event ReasonErrVMOPFailed) (\<lambda>_.
                   ret (complete_condition env 25 ReasonOperationFailed ConditionFalse
                          ''Timed out waiting for the VirtualMachine to become ready to migrate.''
                          (set_phase VMOPPhaseFailed vs), False))
            else ret (complete_condition env 26 ReasonWaitingForVM ConditionFalse '''' (set_phase VMOPPhasePending vs), False))
         else ret (complete_condition env 27 ReasonOperationFailed ConditionFalse
                     ''VirtualMachine is not migratable, cannot be processed.'' (set_phase VMOPPhaseFailed vs), False))"

definition Migration_recordEvent :: "vmop \<Rightarrow> unit mig_run" where
  "Migration_recordEvent vmop =
     (if op_Type vmop = VMOPTypeEvict then event ''Evicted''
      else if op_Type vmop = VMOPTypeMigrate then event ''Migrated''
      else ret ())"

definition signal_condition :: "'q mig_env \<Rightarrow> nat \<Rightarrow> 'f mig_state \<Rightarrow> 'f mig_state" where
  "signal_condition env k vs =
     (case vs of (vmop, s) \<Rightarrow>
        (set_op_condition (me_Op env) k (op_condition vmop TypeSignalSent ''SignalSentSuccess'' ConditionTrue '''') vmop, s))"

definition Migration_execute ::
  "mig_api \<Rightarrow> 'f float_ops \<Rightarrow> 'q mig_env \<Rightarrow> 'f mig_state \<Rightarrow> ('f mig_state \<times> string option) mig_run" where
  "Migration_execute api F env vs =
     bind_run (Migration_recordEvent (fst vs)) (\<lambda>_.
     bind_run (MigrationService_CreateMigration api (fst vs)) (\<lambda>e.
       case e of
         Some e \<Rightarrow> ret (vs, Some e)
       | None \<Rightarrow>
           bind_run (event ReasonVMOPInProgress) (\<lambda>_.
             case me_Migration env 4 of
               Unreadable \<Rightarrow> ret (vs, Some ''get migration'')
             | Missing \<Rightarrow> ret (vs, None)
             | Got mig \<Rightarrow>
                 (case getInProgressReasonAndMessage env mig of
                    Inl e \<Rightarrow> ret (vs, Some e)
                  | Inr (reason, message) \<Rightarrow>
                      ret (signal_condition env 29 (in_progress F env 28 mig reason message vs), None)))))"

section \<open>lifecycle.go: Handle\<close>

type_synonym 'f mig_outcome = "'f mig_state \<times> reconcile_result \<times> string option"

definition op_fails :: "'q mig_env \<Rightarrow> nat \<Rightarrow> string \<Rightarrow> string \<Rightarrow> 'f mig_state \<Rightarrow> 'f mig_outcome mig_run" where
  "op_fails env k reason message vs =
     bind_run (event ReasonErrVMOPFailed) (\<lambda>_.
       ret (complete_condition env k reason ConditionFalse message (set_phase VMOPPhaseFailed vs), no_requeue, None))"

text \<open>Step 7: wait until the machine can migrate, then create the migration.\<close>

definition try_execute :: "mig_api \<Rightarrow> 'f float_ops \<Rightarrow> 'q mig_env \<Rightarrow> 'q virtual_machine \<Rightarrow> 'f mig_state \<Rightarrow> 'f mig_outcome mig_run" where
  "try_execute api F env vm vs =
     bind_run (canExecute env vm vs) (\<lambda>(vs1, ok).
       if \<not> ok
       then ret (vs1, if op_Phase (fst vs1) = VMOPPhasePending then requeue_after timeElapsedUpdateInterval else no_requeue, None)
       else bind_run (Migration_execute api F env vs1) (\<lambda>(vs2, e). ret (vs2, no_requeue, e)))"

text \<open>Steps 6.1 and 6.2.\<close>

definition check_others :: "mig_api \<Rightarrow> 'f float_ops \<Rightarrow> 'q mig_env \<Rightarrow> 'q virtual_machine \<Rightarrow> 'f mig_state \<Rightarrow> 'f mig_outcome mig_run" where
  "check_others api F env vm vs =
     (case otherMigrationsAreInProgress env (fst vs) of
        Inl e \<Rightarrow> ret (vs, no_requeue, Some e)
      | Inr found \<Rightarrow>
          if found then op_fails env 32 ''OtherMigrationInProgress'' ''Other Migrations are in progress'' vs
          else try_execute api F env vm vs)"

definition check_policy :: "mig_api \<Rightarrow> 'f float_ops \<Rightarrow> 'q mig_env \<Rightarrow> 'q virtual_machine \<Rightarrow> 'f mig_state \<Rightarrow> 'f mig_outcome mig_run" where
  "check_policy api F env vm vs =
     (case isApplicableForLiveMigrationPolicy env (fst vs) vm of
        (msg, isApplicable) \<Rightarrow>
          if \<not> isApplicable then op_fails env 31 ''NotApplicableForLiveMigrationPolicy'' msg vs
          else if msg \<noteq> '''' then bind_run (event ReasonVMOPStarted) (\<lambda>_. check_others api F env vm vs)
          else check_others api F env vm vs)"

text \<open>Step 6.\<close>

definition check_applicable :: "mig_api \<Rightarrow> 'f float_ops \<Rightarrow> 'q mig_env \<Rightarrow> 'q virtual_machine \<Rightarrow> 'f mig_state \<Rightarrow> 'f mig_outcome mig_run" where
  "check_applicable api F env vm vs =
     bind_run (lift_run Op api (\<lambda>_. IsApplicableOrSetFailedPhase (me_Op env) MigrationService_IsApplicableForRunPolicy
                 MigrationService_IsApplicableForVMPhase (fst vs) vm)) (\<lambda>(vmop, isApplicable).
       let vs1 = (vmop, snd vs)
       in if \<not> isApplicable then ret (vs1, no_requeue, None)
          else if me_SystemNetwork env \<noteq> '''' \<and> checkMigrationNetwork env vm \<noteq> None
          then op_fails env 30 ''MigrationNetworkUnavailable'' (the (checkMigrationNetwork env vm)) vs1
          else check_policy api F env vm vs1)"

text \<open>Step 5.\<close>

definition start_migration :: "mig_api \<Rightarrow> 'f float_ops \<Rightarrow> 'q mig_env \<Rightarrow> 'q virtual_machine \<Rightarrow> 'f mig_state \<Rightarrow> 'f mig_outcome mig_run" where
  "start_migration api F env vm vs =
     bind_run (lift_run Op api (\<lambda>a. ShouldExecuteOrSetFailedPhase a (me_Op env) (fst vs))) (\<lambda>(vmop, should).
       let vs1 = (vmop, snd vs)
       in case should of
            Inl e \<Rightarrow> ret (vs1, no_requeue, Some e)
          | Inr b \<Rightarrow> if \<not> b then ret (vs1, no_requeue, None) else check_applicable api F env vm vs1)"

text \<open>Steps 3 and 4.\<close>

definition drive_migration :: "mig_api \<Rightarrow> 'f float_ops \<Rightarrow> 'q mig_env \<Rightarrow> 'q virtual_machine \<Rightarrow> 'f mig_state \<Rightarrow> 'f mig_outcome mig_run" where
  "drive_migration api F env vm vs =
     (if IsOperationInProgress (fst vs) then Migration_syncOperationCompleteResult api F env vs
      else case me_Migration env 1 of
             Unreadable \<Rightarrow> ret (vs, no_requeue, Some ''get migration for VMOP'')
           | Got mig \<Rightarrow> Migration_syncOperationCompleteResult api F env (signal_condition env 33 vs)
           | Missing \<Rightarrow> start_migration api F env vm vs)"

text \<open>
  Step 2, after the check of the quota.  A machine that does not exist is reported as an error too: the source
  wraps the error, which is nil then.
\<close>

definition fetch_machine :: "mig_api \<Rightarrow> 'f float_ops \<Rightarrow> 'q mig_env \<Rightarrow> 'f mig_state \<Rightarrow> 'f mig_outcome mig_run" where
  "fetch_machine api F env vs =
     bind_run (lift_run Op api (\<lambda>_. FetchVirtualMachineOrSetFailedPhase (me_Op env) (fst vs))) (\<lambda>(vmop, fetched).
       case fetched of
         Inr (Some vm) \<Rightarrow> drive_migration api F env vm (vmop, snd vs)
       | _ \<Rightarrow> ret ((vmop, snd vs), no_requeue, Some ''failed to fetch VirtualMachine for VMOP''))"

definition check_quota :: "mig_api \<Rightarrow> 'f float_ops \<Rightarrow> 'q mig_env \<Rightarrow> 'f mig_state \<Rightarrow> 'f mig_outcome mig_run" where
  "check_quota api F env vs =
     (case isKubeVirtMigrationRejectedDueToQuota env of
        Inl e \<Rightarrow> ret (vs, no_requeue, Some e)
      | Inr exceeded \<Rightarrow>
          if exceeded
          then bind_run (event ''VirtualMachineOperationPending'') (\<lambda>_.
                 ret (complete_condition env 34 ''QuotaExceeded'' ConditionFalse ''Project quota exceeded'' vs, no_requeue, None))
          else fetch_machine api F env vs)"

definition unsupported_selector :: "'q mig_env \<Rightarrow> vmop \<Rightarrow> bool" where
  "unsupported_selector env vmop \<longleftrightarrow> \<not> me_TargetMigration env \<and> (case op_Migrate vmop of Some (Some _) \<Rightarrow> True | _ \<Rightarrow> False)"

definition init_signal :: "'q mig_env \<Rightarrow> vmop \<Rightarrow> vmop" where
  "init_signal env vmop =
     (if op_Phase vmop = ''''
      then set_op_condition (me_Op env) 35 (op_condition vmop TypeSignalSent ''Unknown'' ConditionUnknown '''') vmop else vmop)"

definition MigrationLifecycle_Handle :: "mig_api \<Rightarrow> 'f float_ops \<Rightarrow> 'q mig_env \<Rightarrow> 'f mig_state \<Rightarrow> 'f mig_outcome mig_run" where
  "MigrationLifecycle_Handle api F env vs =
     (let vmop = fst vs; forgotten = forgetProgress vmop (snd vs)
      in if IsTerminating vmop then ret ((vmop\<lparr> op_Phase := VMOPPhaseTerminating \<rparr>, forgotten), no_requeue, None)
         else if IsFinished vmop then ret ((vmop, forgotten), no_requeue, None)
         else bind_run (lift_run Op api (\<lambda>_. Init (me_Op env) (init_signal env vmop))) (\<lambda>vmop1.
           let vs1 = (vmop1, snd vs)
           in if unsupported_selector env vmop1
              then ret (complete_condition env 36 ReasonOperationFailed ConditionFalse
                          ''The `nodeSelector` field is not available in the Community Edition version.''
                          (set_phase VMOPPhaseFailed vs1), no_requeue, None)
              else check_quota api F env vs1))"

section \<open>deletion.go\<close>

definition MigrationDeletion_Handle ::
  "finalizer_ops \<Rightarrow> mig_api \<Rightarrow> 'q mig_env \<Rightarrow> vmop \<Rightarrow> (vmop \<times> string option) mig_run" where
  "MigrationDeletion_Handle fo api env vmop =
     (if \<not> op_Deleting vmop
      then ret (vmop\<lparr> op_Finalizers := fin_Add fo FinalizerVMOPCleanup (op_Finalizers vmop) \<rparr>, None)
      else bind_run (MigrationService_DeleteMigration api env 5) (\<lambda>e.
        case e of
          Some _ \<Rightarrow> ret (vmop, Some ''failed to delete migration'')
        | None \<Rightarrow>
            (case me_Migration env 6 of
               Unreadable \<Rightarrow> ret (vmop, Some ''failed to get migration after deletion'')
             | Got _ \<Rightarrow> ret (vmop, None)
             | Missing \<Rightarrow> ret (vmop\<lparr> op_Finalizers := fin_Remove fo FinalizerVMOPCleanup (op_Finalizers vmop) \<rparr>, None))))"

end
