(* ===== verification/MigrationGuarantees.thy ===== *)
theory MigrationGuarantees
  imports MigrationLifecycle
begin

text \<open>
  What the handlers of \<^verbatim>\<open>MigrationLifecycle\<close> promise: a migration is created only when every check passed, an
  operation completes only when its migration succeeded, its status stays well typed and shows the phase of the migration
  as documented, the preparation of a target cannot take forever, and an operation does not go away before its migration.
  What a pass keeps is proved once, in the locale \<open>pass_invariant\<close>, for every predicate that the elementary updates keep.
\<close>

section \<open>When a migration is created\<close>

definition creates :: "(vmim \<Rightarrow> bool) \<Rightarrow> mig_call effect \<Rightarrow> bool" where
  "creates Q e \<longleftrightarrow> (\<forall>m. e = Call (CreateMigration m) \<longrightarrow> Q m)"

lemma creates_simps [simp]:
  "creates Q (Event r)" "creates Q (Call (Op c))" "creates Q (Call (CreateMigration m)) = Q m" "creates Q (map_effect Op e)"
  by (auto simp: creates_def) (cases e; simp)

text \<open>What no step of a pass changes in an operation.\<close>

definition same_op :: "vmop \<Rightarrow> vmop \<Rightarrow> bool" where
  "same_op v w \<longleftrightarrow> new_migration v = new_migration w \<and> op_Force v = op_Force w \<and> op_Type v = op_Type w \<and> op_Created v = op_Created w"

lemma same_op_fields:
  assumes "same_op v w"
  shows "op_Name v = op_Name w" "op_Namespace v = op_Namespace w" "op_UID v = op_UID w"
    "op_VirtualMachine v = op_VirtualMachine w" "op_Type v = op_Type w" "op_Force v = op_Force w" "op_Created v = op_Created w"
  using assms by (auto simp: same_op_def new_migration_def migrationName_def)

lemma same_op_refl [simp]: "same_op v v" by (simp add: same_op_def)

lemma same_op_trans: "same_op u v \<Longrightarrow> same_op v w \<Longrightarrow> same_op u w" by (simp add: same_op_def)

lemma same_op_updates [simp]:
  "same_op (set_op_condition env k c v) w = same_op v w" "same_op (v\<lparr> op_Phase := p \<rparr>) w = same_op v w"
  "same_op (v\<lparr> op_Labels := l \<rparr>) w = same_op v w" "same_op (v\<lparr> op_Progress := q \<rparr>) w = same_op v w"
  by (simp_all add: same_op_def new_migration_def migrationName_def set_op_condition_def)

lemma may_return_Init: "may_return (Init env v) w \<Longrightarrow> same_op w v"
  by (auto simp: Init_def split: if_splits)

lemma may_return_Fetch:
  "may_return (FetchVirtualMachineOrSetFailedPhase env v) (w, x) \<Longrightarrow> same_op w v \<and> (\<forall>vm. x = Inr (Some vm) \<longrightarrow> env_VM env = Got vm)"
  by (auto simp: FetchVirtualMachineOrSetFailedPhase_def split: reading.splits)

lemma may_return_Applicable:
  "may_return (IsApplicableOrSetFailedPhase env pol ph v vm) (w, b) \<Longrightarrow>
     same_op w v \<and> (b \<longrightarrow> w = v \<and> pol (RunPolicy (vm_Spec vm)) \<and> ph (Phase (vm_Status vm)))"
  by (auto simp: IsApplicableOrSetFailedPhase_def split: if_splits)

lemma not_superseded_by_migration: "IsMigration v \<Longrightarrow> \<not> CanSupersede old v"
  by (auto simp: IsMigration_def CanSupersede_def Let_def)

lemma may_return_Should:
  assumes "may_return (ShouldExecuteOrSetFailedPhase api env v) (w, x)"
  shows "same_op w v \<and> (x = Inr True \<longrightarrow> w = v \<and> (IsMigration v \<longrightarrow> findOlderActiveVMOPs env v = Some []))"
proof (cases "findOlderActiveVMOPs env v")
  case (Some blockers)
  then show ?thesis
    using assms not_superseded_by_migration [of v] unfolding ShouldExecuteOrSetFailedPhase_def ShouldExecuteOrSupersedeOrSetFailedPhase_def
    by (cases blockers) (auto simp: setNotReadyToBeExecuted_def split: if_splits sum.splits dest!: may_return_bind)
qed (use assms in \<open>auto simp: ShouldExecuteOrSetFailedPhase_def ShouldExecuteOrSupersedeOrSetFailedPhase_def\<close>)

lemma emits_op_service:
  "emits (\<lambda>_. True) (Init env v)" "emits (\<lambda>_. True) (FetchVirtualMachineOrSetFailedPhase env v)"
  "emits (\<lambda>_. True) (IsApplicableOrSetFailedPhase env pol ph v vm)" "emits (\<lambda>_. True) (ShouldExecuteOrSetFailedPhase a env v)"
  unfolding Init_def FetchVirtualMachineOrSetFailedPhase_def IsApplicableOrSetFailedPhase_def
    ShouldExecuteOrSetFailedPhase_def ShouldExecuteOrSupersedeOrSetFailedPhase_def
  by (auto split: reading.split option.split intro!: emits_rules emits_True [OF emits_supersede_loop])

lemma creates_sync: "emits (creates Q) (Migration_syncOperationCompleteResult api F env vs)"
  unfolding Migration_syncOperationCompleteResult_def Migration_syncOperationComplete_def follow_migration_def
    MigrationService_DeleteMigration_def
  by (auto split: reading.split sum.split option.split prod.split intro!: emits_rules)

lemma creates_execute: "Q (new_migration (fst vs)) \<Longrightarrow> emits (creates Q) (Migration_execute api F env vs)"
  unfolding Migration_execute_def Migration_recordEvent_def MigrationService_CreateMigration_def
  by (auto split: reading.split sum.split option.split prod.split intro!: emits_rules)

definition ready_to_migrate :: "'q virtual_machine \<Rightarrow> bool" where
  "ready_to_migrate vm \<longleftrightarrow> cond_Reason (fst (GetCondition ''Migrating'' (Conditions (vm_Status vm)))) = ''ReadyToMigrate''"

lemma may_return_canExecute: "may_return (canExecute env vm vs) (vs', True) \<Longrightarrow> vs' = vs \<and> ready_to_migrate vm"
  by (auto simp: canExecute_def ready_to_migrate_def Let_def split: if_splits)

lemma creates_try:
  assumes "ready_to_migrate vm \<Longrightarrow> Q (new_migration (fst vs))"
  shows "emits (creates Q) (try_execute api F env vm vs)"
  unfolding try_execute_def
proof (rule emits_bind)
  show "emits (creates Q) (canExecute env vm vs)" unfolding canExecute_def Let_def by (auto intro!: emits_rules)
  fix x
  assume "may_return (canExecute env vm vs) x"
  then show "emits (creates Q) (case x of (vs1, ok) \<Rightarrow>
      if \<not> ok then ret (vs1, if op_Phase (fst vs1) = VMOPPhasePending then requeue_after timeElapsedUpdateInterval else no_requeue, None)
      else bind_run (Migration_execute api F env vs1) (\<lambda>(vs2, e). ret (vs2, no_requeue, e)))"
    using assms may_return_canExecute [of env vm vs "fst x"]
    by (cases x) (auto split: prod.split intro!: emits_rules creates_execute)
qed

lemma creates_fails: "emits (creates Q) (op_fails env k reason message vs)"
  unfolding op_fails_def by (intro emits_rules) simp_all

lemma creates_others:
  assumes "otherMigrationsAreInProgress env (fst vs) = Inr False \<Longrightarrow> ready_to_migrate vm \<Longrightarrow> Q (new_migration (fst vs))"
  shows "emits (creates Q) (check_others api F env vm vs)"
  unfolding check_others_def using assms
  by (auto split: sum.split intro!: emits_rules creates_fails creates_try)

lemma creates_policy:
  assumes "snd (isApplicableForLiveMigrationPolicy env (fst vs) vm) \<Longrightarrow>
    otherMigrationsAreInProgress env (fst vs) = Inr False \<Longrightarrow> ready_to_migrate vm \<Longrightarrow> Q (new_migration (fst vs))"
  shows "emits (creates Q) (check_policy api F env vm vs)"
  unfolding check_policy_def using assms
  by (auto split: prod.split intro!: emits_rules creates_fails creates_others)

text \<open>All the checks on a machine.\<close>

definition may_migrate :: "'q mig_env \<Rightarrow> vmop \<Rightarrow> 'q virtual_machine \<Rightarrow> bool" where
  "may_migrate env vmop vm \<longleftrightarrow>
     RunPolicy (vm_Spec vm) \<in> {ManualPolicy, AlwaysOnUnlessStoppedManually, AlwaysOnPolicy} \<and>
     Phase (vm_Status vm) = MachineRunning \<and> ready_to_migrate vm \<and>
     (me_SystemNetwork env \<noteq> '''' \<longrightarrow> checkMigrationNetwork env vm = None) \<and>
     snd (isApplicableForLiveMigrationPolicy env vmop vm) \<and> otherMigrationsAreInProgress env vmop = Inr False"

lemma creates_applicable:
  assumes "may_migrate env (fst vs) vm \<Longrightarrow> Q (new_migration (fst vs))"
  shows "emits (creates Q) (check_applicable api F env vm vs)"
  unfolding check_applicable_def
proof (rule emits_bind)
  let ?app = "\<lambda>_. IsApplicableOrSetFailedPhase (me_Op env) MigrationService_IsApplicableForRunPolicy
      MigrationService_IsApplicableForVMPhase (fst vs) vm"
  show "emits (creates Q) (lift_run Op api ?app)" by (rule emits_lift_any) (simp_all add: emits_op_service)
  fix x
  assume "may_return (lift_run Op api ?app) x"
  from may_return_lift [OF this] have "may_return (?app ()) (fst x, snd x)" by simp
  from may_return_Applicable [OF this] show "emits (creates Q) (case x of (vmop, isApplicable) \<Rightarrow> let vs1 = (vmop, snd vs)
      in if \<not> isApplicable then ret (vs1, no_requeue, None)
         else if me_SystemNetwork env \<noteq> '''' \<and> checkMigrationNetwork env vm \<noteq> None
         then op_fails env 30 ''MigrationNetworkUnavailable'' (the (checkMigrationNetwork env vm)) vs1
         else check_policy api F env vm vs1)"
    using assms by (cases x) (auto simp: Let_def may_migrate_def MigrationService_IsApplicableForRunPolicy_def
        MigrationService_IsApplicableForVMPhase_def intro!: emits_rules creates_fails creates_policy)
qed

lemma creates_start:
  assumes "may_migrate env (fst vs) vm \<Longrightarrow> (IsMigration (fst vs) \<longrightarrow> findOlderActiveVMOPs (me_Op env) (fst vs) = Some []) \<Longrightarrow>
    Q (new_migration (fst vs))"
  shows "emits (creates Q) (start_migration api F env vm vs)"
  unfolding start_migration_def
proof (rule emits_bind)
  let ?should = "\<lambda>a. ShouldExecuteOrSetFailedPhase a (me_Op env) (fst vs)"
  show "emits (creates Q) (lift_run Op api ?should)" by (rule emits_lift_any) (simp_all add: emits_op_service)
  fix x
  assume "may_return (lift_run Op api ?should) x"
  from may_return_lift [OF this] obtain a where "may_return (?should a) x" by blast
  then show "emits (creates Q) (case x of (vmop, should) \<Rightarrow> let vs1 = (vmop, snd vs)
      in case should of Inl e \<Rightarrow> ret (vs1, no_requeue, Some e)
         | Inr b \<Rightarrow> if \<not> b then ret (vs1, no_requeue, None) else check_applicable api F env vm vs1)"
    using assms may_return_Should [of a "me_Op env" "fst vs" "fst x" "snd x"]
    by (cases x) (auto simp: Let_def split: sum.split intro!: emits_rules creates_applicable)
qed

lemma creates_drive:
  assumes "may_migrate env (fst vs) vm \<Longrightarrow> (IsMigration (fst vs) \<longrightarrow> findOlderActiveVMOPs (me_Op env) (fst vs) = Some []) \<Longrightarrow>
    me_Migration env 1 = Missing \<Longrightarrow> Q (new_migration (fst vs))"
  shows "emits (creates Q) (drive_migration api F env vm vs)"
  unfolding drive_migration_def using assms
  by (auto split: reading.split intro!: emits_rules creates_sync creates_start)

lemma creates_fetch:
  assumes "\<And>v vm. same_op v (fst vs) \<Longrightarrow> env_VM (me_Op env) = Got vm \<Longrightarrow> may_migrate env v vm \<Longrightarrow>
    (IsMigration v \<longrightarrow> findOlderActiveVMOPs (me_Op env) v = Some []) \<Longrightarrow> me_Migration env 1 = Missing \<Longrightarrow> Q (new_migration v)"
  shows "emits (creates Q) (check_quota api F env vs)"
proof -
  let ?fetch = "\<lambda>_. FetchVirtualMachineOrSetFailedPhase (me_Op env) (fst vs)"
  have "emits (creates Q) (fetch_machine api F env vs)"
    unfolding fetch_machine_def
  proof (rule emits_bind)
    show "emits (creates Q) (lift_run Op api ?fetch)" by (rule emits_lift_any) (simp_all add: emits_op_service)
    fix x
    assume "may_return (lift_run Op api ?fetch) x"
    from may_return_lift [OF this] have "may_return (?fetch ()) x" by blast
    then show "emits (creates Q) (case x of (vmop, fetched) \<Rightarrow>
        case fetched of Inr (Some vm) \<Rightarrow> drive_migration api F env vm (vmop, snd vs)
        | _ \<Rightarrow> ret ((vmop, snd vs), no_requeue, Some ''failed to fetch VirtualMachine for VMOP''))"
      using assms may_return_Fetch [of "me_Op env" "fst vs" "fst x" "snd x"]
      by (cases x) (auto split: sum.split option.split intro!: emits_rules creates_drive)
  qed
  then show ?thesis
    unfolding check_quota_def by (auto split: sum.split intro!: emits_rules)
qed

lemma same_op_reads:
  assumes "same_op v w"
  shows "findOlderActiveVMOPs env v = findOlderActiveVMOPs env w" "otherMigrationsAreInProgress menv v = otherMigrationsAreInProgress menv w"
    "IsMigration v = IsMigration w" "CalculateEffectivePolicy over pol (Some v) = CalculateEffectivePolicy over pol (Some w)"
  unfolding findOlderActiveVMOPs_def isOlderVMOP_def otherMigrationsAreInProgress_def IsMigration_def
    CalculateEffectivePolicy_def same_op_fields [OF assms] option.case by (rule refl)+

lemma policy_applicable:
  "snd (isApplicableForLiveMigrationPolicy env v vm) \<longleftrightarrow>
     snd (snd (CalculateEffectivePolicy (me_Override env) (LiveMigrationPolicy (vm_Spec vm)) (Some v))) = None"
  by (simp add: isApplicableForLiveMigrationPolicy_def split: prod.split option.split)

lemma creates_Handle:
  assumes "\<And>v vm. \<not> IsTerminating vmop \<Longrightarrow> \<not> IsFinished vmop \<Longrightarrow> same_op v vmop \<Longrightarrow> env_VM (me_Op env) = Got vm \<Longrightarrow>
    may_migrate env v vm \<Longrightarrow> (IsMigration v \<longrightarrow> findOlderActiveVMOPs (me_Op env) v = Some []) \<Longrightarrow> me_Migration env 1 = Missing \<Longrightarrow>
    Q (new_migration v)"
  shows "emits (creates Q) (MigrationLifecycle_Handle api F env (vmop, s))"
proof (cases "IsTerminating vmop \<or> IsFinished vmop")
  case True
  then show ?thesis by (auto simp: MigrationLifecycle_Handle_def Let_def intro!: emits_rules)
next
  case False
  let ?init = "\<lambda>_. Init (me_Op env) (init_signal env vmop)"
  have "emits (creates Q) (let vs1 = (v1, s) in if unsupported_selector env v1
      then ret (complete_condition env 36 ReasonOperationFailed ConditionFalse
                  ''The `nodeSelector` field is not available in the Community Edition version.''
                  (set_phase VMOPPhaseFailed vs1), no_requeue, None)
      else check_quota api F env vs1)" if "may_return (lift_run Op api ?init) v1" for v1
  proof -
    from may_return_lift [OF that] have "may_return (?init ()) v1" by blast
    from may_return_Init [OF this] have "same_op v1 (init_signal env vmop)" .
    moreover have "same_op (init_signal env vmop) vmop" by (simp add: init_signal_def)
    ultimately have "same_op v1 vmop" by (rule same_op_trans)
    then show ?thesis using assms False by (auto simp: Let_def intro!: emits_rules creates_fetch dest: same_op_trans)
  qed
  then show ?thesis using False
    by (auto simp: MigrationLifecycle_Handle_def Let_def emits_op_service intro!: emits_bind emits_lift_any)
qed

text \<open>
  Claim C5: a migration is created only when every check allows it.  When a pass over an operation creates a
  migration, the operation is neither deleted nor finished and has no migration yet; the machine exists, runs and
  is ready to migrate; no other migration of the machine is unfinished; the operation's force flag fits the
  effective policy; a configured migration network is available; no older operation on the machine is unfinished; and
  the migration is the one the operation asks for.
\<close>

theorem migration_created_only_when_allowed:
  assumes "Call (CreateMigration m) \<in> set (new_effects (MigrationLifecycle_Handle api F env (vmop, s)) pre)"
  shows "\<not> IsTerminating vmop \<and> \<not> IsFinished vmop \<and> me_Migration env 1 = Missing \<and> m = new_migration vmop \<and>
    (\<exists>vm. env_VM (me_Op env) = Got vm \<and> Phase (vm_Status vm) = MachineRunning \<and> ready_to_migrate vm \<and>
       (me_SystemNetwork env \<noteq> '''' \<longrightarrow> checkMigrationNetwork env vm = None) \<and>
       snd (snd (CalculateEffectivePolicy (me_Override env) (LiveMigrationPolicy (vm_Spec vm)) (Some vmop))) = None) \<and>
    (\<exists>migs. me_Migrations env = Some migs \<and>
       (\<forall>mig \<in> set migs. im_VMIName mig = op_VirtualMachine vmop \<and> im_ControllerUID mig \<noteq> Some (op_UID vmop) \<longrightarrow> im_Final mig)) \<and>
    (IsMigration vmop \<longrightarrow> findOlderActiveVMOPs (me_Op env) vmop = Some [])" (is "?goal")
proof -
  let ?Q = "\<lambda>m'. m' = m \<longrightarrow> ?goal"
  have "emits (creates ?Q) (MigrationLifecycle_Handle api F env (vmop, s))"
  proof (rule creates_Handle)
    fix v vm
    assume "\<not> IsTerminating vmop" "\<not> IsFinished vmop" and same: "same_op v vmop" and "env_VM (me_Op env) = Got vm" "may_migrate env v vm"
      "IsMigration v \<longrightarrow> findOlderActiveVMOPs (me_Op env) v = Some []" "me_Migration env 1 = Missing"
    moreover have "new_migration v = new_migration vmop" using same by (simp add: same_op_def)
    ultimately show "?Q (new_migration v)"
      unfolding may_migrate_def policy_applicable same_op_reads [OF same]
      by (auto simp: otherMigrationsAreInProgress_def list_ex_iff split: option.splits)
  qed
  then have "list_all (creates ?Q) (new_effects (MigrationLifecycle_Handle api F env (vmop, s)) pre)" by (rule emits_new_effects)
  then show ?thesis using assms by (auto simp: list_all_iff creates_def)
qed

section \<open>What a pass keeps\<close>

lemma phase_simps [simp]:
  "op_Phase (fst (complete_condition env k reason status message vs)) = op_Phase (fst vs)"
  "op_Phase (fst (set_phase p vs)) = p" "op_Phase (fst (set_progress F env k mig reason vs)) = op_Phase (fst vs)"
  "op_Phase (fst (signal_condition env k vs)) = op_Phase (fst vs)"
  by (simp_all add: complete_condition_def set_phase_def set_progress_def signal_condition_def split: prod.split)

lemma may_return_execute:
  assumes "may_return (Migration_execute api F env vs) (vs', e)"
  shows "vs' = vs \<or> (\<exists>mig reason message. vs' = signal_condition env 29 (in_progress F env 28 mig reason message vs))"
  using assms unfolding Migration_execute_def
  by (auto split: option.splits reading.splits sum.splits dest!: may_return_bind)

text \<open>
  A predicate on an operation and the store that every elementary update of a pass keeps, as long as the
  operation is not completed, and that holds after the step for a migration that succeeded.  A pass keeps it.
\<close>

locale pass_invariant =
  fixes I :: "'f mig_state \<Rightarrow> bool" and F :: "'f float_ops" and env :: "'q mig_env"
  assumes keeps_condition: "I (v, s) \<Longrightarrow> op_Phase v \<noteq> VMOPPhaseCompleted \<Longrightarrow> I (set_op_condition (me_Op env) k c v, s)"
    and keeps_phase: "I (v, s) \<Longrightarrow> op_Phase v \<noteq> VMOPPhaseCompleted \<Longrightarrow>
      p \<in> {VMOPPhasePending, VMOPPhaseInProgress, VMOPPhaseFailed, VMOPPhaseTerminating} \<Longrightarrow> I (v\<lparr> op_Phase := p \<rparr>, s)"
    and keeps_labels: "I (v, s) \<Longrightarrow> op_Phase v \<noteq> VMOPPhaseCompleted \<Longrightarrow> I (v\<lparr> op_Labels := l \<rparr>, s)"
    and keeps_forget: "I (v, s) \<Longrightarrow> op_Phase v \<noteq> VMOPPhaseCompleted \<Longrightarrow> I (v, forgetProgress v s)"
    and keeps_progress: "I (v, s) \<Longrightarrow> op_Phase v \<noteq> VMOPPhaseCompleted \<Longrightarrow> I (set_progress F env k mig reason (v, s))"
    and keeps_success: "I (v, s) \<Longrightarrow> me_Migration env 2 = Got mig \<Longrightarrow> im_Phase mig = MigrationSucceeded \<Longrightarrow>
      I (migration_succeeded env (v, s))"
begin

definition good :: "'f mig_state \<Rightarrow> bool" where "good vs \<longleftrightarrow> I vs \<and> op_Phase (fst vs) \<noteq> VMOPPhaseCompleted"

lemma good_I: "good vs \<Longrightarrow> I vs" by (simp add: good_def)

lemma good_updates [simp]:
  "good (v, s) \<Longrightarrow> good (set_op_condition (me_Op env) k c v, s)" "good (v, s) \<Longrightarrow> good (v\<lparr> op_Labels := l \<rparr>, s)"
  "good (v, s) \<Longrightarrow> good (v, forgetProgress v s)" "good vs \<Longrightarrow> good (set_progress F env k mig reason vs)"
  "good (v, s) \<Longrightarrow> p \<in> {VMOPPhasePending, VMOPPhaseInProgress, VMOPPhaseFailed, VMOPPhaseTerminating} \<Longrightarrow> good (v\<lparr> op_Phase := p \<rparr>, s)"
  using keeps_condition keeps_labels keeps_forget keeps_phase keeps_progress [of "fst vs" "snd vs" k mig reason]
  by (auto simp: good_def)

lemma good_composed [simp]:
  "good vs \<Longrightarrow> good (complete_condition env k reason status message vs)" "good vs \<Longrightarrow> good (signal_condition env k vs)"
  "good vs \<Longrightarrow> p \<in> {VMOPPhasePending, VMOPPhaseInProgress, VMOPPhaseFailed} \<Longrightarrow> good (set_phase p vs)"
  by (cases vs; simp add: complete_condition_def signal_condition_def set_phase_def; fail)
    (cases vs; auto simp: signal_condition_def set_phase_def)+

lemma good_outcomes [simp]:
  assumes "good vs"
  shows "good (migration_missing env vs)" "good (migration_failed F env mig vs)" "good (preparation_timed_out F env mig reason vs)"
    "good (in_progress F env k mig reason message vs)"
  using assms by (simp_all add: migration_missing_def migration_failed_def preparation_timed_out_def in_progress_def Let_def)

lemma good_services:
  "may_return (Init (me_Op env) v) w \<Longrightarrow> good (v, s) \<Longrightarrow> good (w, s)"
  "may_return (FetchVirtualMachineOrSetFailedPhase (me_Op env) v) (w, x) \<Longrightarrow> good (v, s) \<Longrightarrow> good (w, s)"
  "may_return (IsApplicableOrSetFailedPhase (me_Op env) pol ph v vm) (w, b) \<Longrightarrow> good (v, s) \<Longrightarrow> good (w, s)"
  "may_return (ShouldExecuteOrSetFailedPhase api (me_Op env) v) (w, y) \<Longrightarrow> good (v, s) \<Longrightarrow> good (w, s)"
  by (auto simp: Init_def FetchVirtualMachineOrSetFailedPhase_def IsApplicableOrSetFailedPhase_def ShouldExecuteOrSetFailedPhase_def
      ShouldExecuteOrSupersedeOrSetFailedPhase_def setNotReadyToBeExecuted_def
      split: if_splits reading.splits option.splits dest!: may_return_bind)

lemma good_sync:
  assumes "good vs" and "may_return (Migration_syncOperationCompleteResult api F env vs) (vs', r)"
  shows "I vs'"
proof -
  obtain e where run: "may_return (Migration_syncOperationComplete api F env vs) (vs', e)"
    using assms(2) unfolding Migration_syncOperationCompleteResult_def by (auto dest!: may_return_bind)
  have follow: "I vs'" if "may_return (follow_migration api F env mig rm vs) (vs', e)" for mig rm
    using that assms(1) by (auto simp: follow_migration_def intro: good_I split: prod.splits if_splits option.splits dest!: may_return_bind)
  show ?thesis
  proof (cases "me_Migration env 2")
    case (Got mig)
    have "I (migration_succeeded env vs)" if "im_Phase mig = MigrationSucceeded"
      using keeps_success [of "fst vs" "snd vs", OF _ Got that] assms(1) by (simp add: good_def)
    then show ?thesis using run follow assms(1) Got unfolding Migration_syncOperationComplete_def
      by (auto intro: good_I split: if_splits sum.splits)
  qed (use run assms(1) in \<open>auto simp: Migration_syncOperationComplete_def intro: good_I split: reading.splits\<close>)
qed

lemma good_try:
  assumes "good vs" and "may_return (try_execute api F env vm vs) (vs', r)"
  shows "good vs'"
proof -
  obtain vs1 ok where can: "may_return (canExecute env vm vs) (vs1, ok)"
    and rest: "may_return (if \<not> ok then ret (vs1, if op_Phase (fst vs1) = VMOPPhasePending then requeue_after timeElapsedUpdateInterval
        else no_requeue, None) else bind_run (Migration_execute api F env vs1) (\<lambda>(vs2, e). ret (vs2, no_requeue, e))) (vs', r)"
    using assms(2) unfolding try_execute_def by (auto dest!: may_return_bind)
  have "good vs1" using can assms(1) by (auto simp: canExecute_def Let_def split: if_splits)
  then show ?thesis using rest by (auto split: if_splits dest!: may_return_bind may_return_execute)
qed

lemma good_checks:
  assumes "good vs" and "may_return (check_policy api F env vm vs) (vs', r)"
  shows "good vs'"
proof -
  have "good vs'" if "may_return (check_others api F env vm vs) (vs', r)"
    using that assms(1) good_try [OF assms(1), of api vm vs' r] by (auto simp: check_others_def op_fails_def split: sum.splits if_splits)
  then show ?thesis
    using assms by (auto simp: check_policy_def op_fails_def split: prod.splits if_splits dest!: may_return_bind)
qed

lemma good_applicable:
  assumes "good vs" and "may_return (check_applicable api F env vm vs) (vs', r)"
  shows "good vs'"
  using assms(2) unfolding check_applicable_def
proof (rule may_return_lift_bind)
  fix x
  assume first: "may_return (IsApplicableOrSetFailedPhase (me_Op env) MigrationService_IsApplicableForRunPolicy
      MigrationService_IsApplicableForVMPhase (fst vs) vm) x"
    and rest: "may_return (case x of (vmop, isApplicable) \<Rightarrow> let vs1 = (vmop, snd vs)
      in if \<not> isApplicable then ret (vs1, no_requeue, None)
         else if me_SystemNetwork env \<noteq> '''' \<and> checkMigrationNetwork env vm \<noteq> None
         then op_fails env 30 ''MigrationNetworkUnavailable'' (the (checkMigrationNetwork env vm)) vs1
         else check_policy api F env vm vs1) (vs', r)"
  have "good (fst x, snd vs)" using good_services(3) [of _ _ "fst vs" vm "fst x" "snd x" "snd vs"] first assms(1) by simp
  then show ?thesis using rest good_checks [of "(fst x, snd vs)" api vm vs' r]
    by (cases x) (auto simp: op_fails_def Let_def split: if_splits)
qed

lemma good_start:
  assumes "good vs" and "may_return (start_migration api F env vm vs) (vs', r)"
  shows "good vs'"
  using assms(2) unfolding start_migration_def
proof (rule may_return_lift_bind)
  fix a x
  assume first: "may_return (ShouldExecuteOrSetFailedPhase a (me_Op env) (fst vs)) x"
    and rest: "may_return (case x of (vmop, should) \<Rightarrow> let vs1 = (vmop, snd vs)
      in case should of Inl e \<Rightarrow> ret (vs1, no_requeue, Some e)
         | Inr b \<Rightarrow> if \<not> b then ret (vs1, no_requeue, None) else check_applicable api F env vm vs1) (vs', r)"
  have "good (fst x, snd vs)" using good_services(4) [of a "fst vs" "fst x" "snd x" "snd vs"] first assms(1) by simp
  then show ?thesis using rest good_applicable [of "(fst x, snd vs)" api vm vs' r]
    by (cases x) (auto simp: Let_def split: if_splits sum.splits)
qed

lemma keeps_drive:
  assumes "good vs" and "may_return (drive_migration api F env vm vs) (vs', r)"
  shows "I vs'"
  using assms(2) good_sync [OF assms(1), of api vs' r] good_sync [of "signal_condition env 33 vs" api vs' r]
    good_start [OF assms(1), of api vm vs' r] assms(1)
  by (auto simp: drive_migration_def intro: good_I split: if_splits reading.splits)

lemma keeps_fetch:
  assumes "good vs" and "may_return (fetch_machine api F env vs) (vs', r)"
  shows "I vs'"
  using assms(2) unfolding fetch_machine_def
proof (rule may_return_lift_bind)
  fix x
  assume first: "may_return (FetchVirtualMachineOrSetFailedPhase (me_Op env) (fst vs)) x"
    and rest: "may_return (case x of (vmop, fetched) \<Rightarrow>
      case fetched of Inr (Some vm) \<Rightarrow> drive_migration api F env vm (vmop, snd vs)
      | _ \<Rightarrow> ret ((vmop, snd vs), no_requeue, Some ''failed to fetch VirtualMachine for VMOP'')) (vs', r)"
  have "good (fst x, snd vs)" using good_services(2) [of "fst vs" "fst x" "snd x" "snd vs"] first assms(1) by simp
  then show ?thesis using rest keeps_drive [of "(fst x, snd vs)" api _ vs' r]
    by (cases x) (auto intro: good_I split: sum.splits option.splits)
qed

lemma keeps_Handle:
  assumes "good (vmop, s)" and run: "may_return (MigrationLifecycle_Handle api F env (vmop, s)) (vs', r)"
  shows "I vs'"
proof (cases "IsTerminating vmop \<or> IsFinished vmop")
  case True
  have "good (vmop\<lparr> op_Phase := VMOPPhaseTerminating \<rparr>, forgetProgress vmop s)" "good (vmop, forgetProgress vmop s)"
    using assms(1) by simp_all
  with True show ?thesis using run by (auto simp: MigrationLifecycle_Handle_def Let_def intro: good_I split: if_splits)
next
  case False
  have quota: "I vs'" if v: "good w" and "may_return (check_quota api F env w) (vs', r)" for w
    using that keeps_fetch [OF v, of api vs' r]
    by (auto simp: check_quota_def intro: good_I split: sum.splits if_splits dest!: may_return_bind)
  have "may_return (bind_run (lift_run Op api (\<lambda>_. Init (me_Op env) (init_signal env vmop))) (\<lambda>v1.
      if unsupported_selector env v1
      then ret (complete_condition env 36 ReasonOperationFailed ConditionFalse
                  ''The `nodeSelector` field is not available in the Community Edition version.''
                  (set_phase VMOPPhaseFailed (v1, s)), no_requeue, None)
      else check_quota api F env (v1, s))) (vs', r)"
    using run False by (simp add: MigrationLifecycle_Handle_def Let_def)
  then show ?thesis
  proof (rule may_return_lift_bind)
    fix v1
    assume init: "may_return (Init (me_Op env) (init_signal env vmop)) v1"
      and rest: "may_return (if unsupported_selector env v1
      then ret (complete_condition env 36 ReasonOperationFailed ConditionFalse
                  ''The `nodeSelector` field is not available in the Community Edition version.''
                  (set_phase VMOPPhaseFailed (v1, s)), no_requeue, None)
      else check_quota api F env (v1, s)) (vs', r)"
    have "good (v1, s)" using good_services(1) [OF init] assms(1) by (simp add: init_signal_def)
    then show ?thesis using rest quota [of "(v1, s)"] by (auto intro: good_I split: if_splits)
  qed
qed

end

section \<open>When an operation is completed\<close>

text \<open>A completed operation has a migration that was read as succeeded, and says so.\<close>

definition completion_ok :: "'q mig_env \<Rightarrow> 'f mig_state \<Rightarrow> bool" where
  "completion_ok env vs \<longleftrightarrow> (op_Phase (fst vs) = VMOPPhaseCompleted \<longrightarrow>
     (\<exists>mig. me_Migration env 2 = Got mig \<and> im_Phase mig = MigrationSucceeded) \<and>
     op_status TypeCompleted (fst vs) = ConditionTrue \<and> op_Progress (fst vs) = ''100%'')"

lemma completion_success:
  assumes "me_Migration env 2 = Got mig" and "im_Phase mig = MigrationSucceeded"
  shows "completion_ok env (migration_succeeded env vs)"
proof -
  have "FormatPercent 100 = ''100%''" by code_simp
  then show ?thesis using assms by (auto simp: completion_ok_def migration_succeeded_def complete_condition_def)
qed

interpretation completion: pass_invariant "completion_ok env" F env for F env
proof unfold_locales
  fix v s mig
  assume "me_Migration env 2 = Got mig" "im_Phase mig = MigrationSucceeded"
  then show "completion_ok env (migration_succeeded env (v, s))" by (rule completion_success)
qed (auto simp: completion_ok_def)

text \<open>
  Claim C8: an operation is completed only when its migration has succeeded.  When a pass ends with the operation
  completed that was not completed before, the migration of the operation was read in this pass as succeeded, and the
  operation reports the condition as true and the whole progress.
\<close>

theorem completed_only_after_success:
  assumes "MigrationLifecycle_Handle api F env (vmop, s) pre = (Returned ((vmop', s'), r), post)"
    and "op_Phase vmop \<noteq> VMOPPhaseCompleted" and "op_Phase vmop' = VMOPPhaseCompleted"
  shows "(\<exists>mig. me_Migration env 2 = Got mig \<and> im_Phase mig = MigrationSucceeded) \<and>
    op_status TypeCompleted vmop' = ConditionTrue \<and> op_Progress vmop' = ''100%''"
proof -
  have "may_return (MigrationLifecycle_Handle api F env (vmop, s)) ((vmop', s'), r)" using assms(1) by (auto simp: may_return_def)
  then have "completion_ok env (vmop', s')"
    using assms(2) by (intro completion.keeps_Handle) (auto simp: completion.good_def completion_ok_def)
  then show ?thesis using assms(3) by (simp add: completion_ok_def)
qed

section \<open>Preparing the target\<close>

abbreviation completed_condition :: "vmop \<Rightarrow> condition" where
  "completed_condition v \<equiv> fst (GetCondition TypeCompleted (op_Conditions v))"

definition preparation_reasons :: "string set" where
  "preparation_reasons = {ReasonTargetScheduling, ReasonTargetUnschedulable, ReasonTargetPreparing, ReasonTargetDiskError}"

text \<open>An operation that has sent its signal and is neither deleted nor finished.\<close>

definition active_op :: "vmop \<Rightarrow> bool" where
  "active_op v \<longleftrightarrow> \<not> IsTerminating v \<and> \<not> IsFinished v \<and> op_Phase v \<noteq> '''' \<and> op_status TypeSignalSent v = ConditionTrue"

text \<open>A pass that finds the machine and finds the migration preparing its target, for the given reason.\<close>

definition preparing :: "'q mig_env \<Rightarrow> string \<Rightarrow> bool" where
  "preparing env reason \<longleftrightarrow> (\<exists>vm. env_VM (me_Op env) = Got vm) \<and> isKubeVirtMigrationRejectedDueToQuota env = Inr False \<and>
     (\<exists>mig message. me_Migration env 2 = Got mig \<and> me_Migration env 3 = Got mig \<and> im_Phase mig \<noteq> MigrationFailed \<and>
        im_Phase mig \<noteq> MigrationSucceeded \<and> getInProgressReasonAndMessage env mig = Inr (reason, message))"

lemma preparation_distinct:
  "reason \<in> preparation_reasons \<Longrightarrow> reason \<noteq> ReasonSyncing \<and> reason \<noteq> ReasonMigrationPending \<and> reason \<noteq> ReasonWaitingForSyncSlot \<and> reason \<noteq> ''''"
  by (auto simp: preparation_reasons_def)

lemma active_Handle:
  assumes "active_op v" and "\<not> unsupported_selector env v" and "env_VM (me_Op env) = Got vm"
    and "isKubeVirtMigrationRejectedDueToQuota env = Inr False"
  shows "MigrationLifecycle_Handle api F env (v, s) =
    Migration_syncOperationCompleteResult api F env (v\<lparr> op_Labels := (op_Labels v)(LabelVirtualMachineUID \<mapsto> vm_UID vm) \<rparr>, s)"
proof -
  have "op_Phase v \<noteq> ''''" "\<not> IsTerminating v" "\<not> IsFinished v" and sent: "op_status TypeSignalSent v = ConditionTrue"
    using assms(1) by (auto simp: active_op_def)
  moreover have "IsOperationInProgress (v\<lparr> op_Labels := l \<rparr>)" for l
    using \<open>\<not> IsFinished v\<close> sent by (simp add: IsOperationInProgress_def IsFinished_def op_status_def)
  ultimately show ?thesis using assms(2-)
    by (simp add: MigrationLifecycle_Handle_def Init_def init_signal_def check_quota_def fetch_machine_def
        FetchVirtualMachineOrSetFailedPhase_def drive_migration_def Let_def)
qed

lemma stalled_iff:
  "reason \<in> preparation_reasons \<Longrightarrow> isTargetPreparationStalled reason c now \<longleftrightarrow>
     cond_Reason c = reason \<and> cond_LastTransitionTime c \<noteq> 0 \<and> now - cond_LastTransitionTime c > prepareTargetTimeout"
  by (auto simp: isTargetPreparationStalled_def preparation_reasons_def sub_time_def prepareTargetTimeout_def)

lemma in_progress_exact:
  "fst (in_progress F env k mig reason message (v, s)) =
     (let p = (if reason = ReasonMigrationPending \<or> reason = ReasonWaitingForSyncSlot then VMOPPhasePending else VMOPPhaseInProgress);
          u = v\<lparr> op_Phase := p, op_Progress := FormatPercent (snd (calculateMigrationProgress F env 3 (v\<lparr> op_Phase := p \<rparr>, s) mig reason)) \<rparr>
      in set_op_condition (me_Op env) k (op_condition u TypeCompleted reason ConditionFalse message) u)"
  by (auto simp: in_progress_def complete_condition_def set_progress_def set_phase_def Let_def split: prod.split)

lemma in_progress_op:
  "\<exists>q. fst (in_progress F env k mig reason message (v, s)) =
     (let u = v\<lparr> op_Phase := (if reason = ReasonMigrationPending \<or> reason = ReasonWaitingForSyncSlot
                               then VMOPPhasePending else VMOPPhaseInProgress), op_Progress := q \<rparr>
      in set_op_condition (me_Op env) k (op_condition u TypeCompleted reason ConditionFalse message) u)"
  unfolding in_progress_exact Let_def by (rule exI) (rule refl)

lemma in_progress_active:
  assumes "active_op v" and "reason \<in> preparation_reasons"
  shows "active_op (fst (in_progress F env k mig reason message (v, s)))"
    and "op_Migrate (fst (in_progress F env k mig reason message (v, s))) = op_Migrate v"
proof -
  obtain q where q: "fst (in_progress F env k mig reason message (v, s)) =
      (let u = v\<lparr> op_Phase := VMOPPhaseInProgress, op_Progress := q \<rparr>
       in set_op_condition (me_Op env) k (op_condition u TypeCompleted reason ConditionFalse message) u)"
    using in_progress_op [of F env k mig reason message v s] preparation_distinct [OF assms(2)] by auto
  have "op_status TypeSignalSent (v\<lparr> op_Phase := VMOPPhaseInProgress, op_Progress := q \<rparr>) = op_status TypeSignalSent v"
    by (simp add: op_status_def)
  then show "active_op (fst (in_progress F env k mig reason message (v, s)))"
    using assms(1) unfolding q by (simp add: active_op_def Let_def IsTerminating_def IsFinished_def)
  show "op_Migrate (fst (in_progress F env k mig reason message (v, s))) = op_Migrate v"
    unfolding q by (simp add: Let_def set_op_condition_def)
qed

text \<open>Since when the operation waits: since the last pass that found another reason.\<close>

lemma in_progress_condition:
  assumes "reason \<noteq> ''''"
  shows "cond_Reason (completed_condition (fst (in_progress F env k mig reason message (v, s)))) = reason"
    and "cond_Status (completed_condition (fst (in_progress F env k mig reason message (v, s)))) = ConditionFalse"
    and "cond_LastTransitionTime (completed_condition (fst (in_progress F env k mig reason message (v, s)))) \<in>
      (if cond_Reason (completed_condition v) = reason \<and> cond_Status (completed_condition v) = ConditionFalse
       then {cond_LastTransitionTime (completed_condition v)}
       else {env_Clock (me_Op env) (2 * k), env_Clock (me_Op env) (2 * k + 1)})"
proof -
  let ?phase = "if reason = ReasonMigrationPending \<or> reason = ReasonWaitingForSyncSlot then VMOPPhasePending else VMOPPhaseInProgress"
  obtain q where q: "fst (in_progress F env k mig reason message (v, s)) = (let u = v\<lparr> op_Phase := ?phase, op_Progress := q \<rparr>
      in set_op_condition (me_Op env) k (op_condition u TypeCompleted reason ConditionFalse message) u)"
    using in_progress_op [of F env k mig reason message v s] by blast
  define u where "u = v\<lparr> op_Phase := ?phase, op_Progress := q \<rparr>"
  then have conds: "op_Conditions u = op_Conditions v" and op: "fst (in_progress F env k mig reason message (v, s)) =
      set_op_condition (me_Op env) k (op_condition u TypeCompleted reason ConditionFalse message) u"
    using q by (simp_all add: Let_def)
  let ?new = "op_condition u TypeCompleted reason ConditionFalse message"
  obtain old found where old: "GetCondition TypeCompleted (op_Conditions v) = (old, found)" by fastforce
  have missing: "old = empty_condition" if "\<not> found" using old that by (auto simp: GetCondition_def split: option.splits)
  show "cond_Reason (completed_condition (fst (in_progress F env k mig reason message (v, s)))) = reason"
    "cond_Status (completed_condition (fst (in_progress F env k mig reason message (v, s)))) = ConditionFalse"
    unfolding op using assms by (simp_all add: set_op_condition_def SetCondition_same)
  show "cond_LastTransitionTime (completed_condition (fst (in_progress F env k mig reason message (v, s)))) \<in>
      (if cond_Reason (completed_condition v) = reason \<and> cond_Status (completed_condition v) = ConditionFalse
       then {cond_LastTransitionTime (completed_condition v)}
       else {env_Clock (me_Op env) (2 * k), env_Clock (me_Op env) (2 * k + 1)})"
    using SetCondition_transition [of ?new "op_Conditions v" old found "env_Clock (me_Op env) (2 * k)" "env_Clock (me_Op env) (2 * k + 1)"]
      old missing assms unfolding op by (cases found) (auto simp: set_op_condition_def conds empty_condition_def split: if_splits)
qed

text \<open>A server that deletes migrations, unless they are gone.\<close>

definition deletes_migrations :: "mig_api \<Rightarrow> bool" where
  "deletes_migrations api \<longleftrightarrow> (\<forall>l n. api l (Op (DeleteMigration n)) \<in> {OK, NotFoundErr})"

text \<open>A pass over an operation whose target is being prepared either goes on waiting or gives up.\<close>

lemma preparing_pass:
  assumes act: "active_op v" and sel: "\<not> unsupported_selector env v" and prep: "preparing env reason" "reason \<in> preparation_reasons"
    and del: "deletes_migrations api"
  obtains (waits) mig message v' r where "MigrationLifecycle_Handle api F env (v, s) l = (Returned r, l)"
      "fst r = in_progress F env 24 mig reason message (v', s)" "active_op v'" "op_Migrate v' = op_Migrate v"
      "completed_condition v' = completed_condition v"
      "\<not> isTargetPreparationStalled reason (completed_condition v) (me_Now env 2)"
  | (ends) n r where "MigrationLifecycle_Handle api F env (v, s) l = (Returned r, l @ [Call (Op (DeleteMigration n)), Event ReasonErrVMOPFailed])"
      "op_Phase (fst (fst r)) = VMOPPhaseFailed" "\<not> op_Deleting (fst (fst r))"
proof -
  obtain vm mig message where reads: "env_VM (me_Op env) = Got vm" "isKubeVirtMigrationRejectedDueToQuota env = Inr False"
    "me_Migration env 2 = Got mig" "me_Migration env 3 = Got mig" "im_Phase mig \<noteq> MigrationFailed" "im_Phase mig \<noteq> MigrationSucceeded"
    "getInProgressReasonAndMessage env mig = Inr (reason, message)" using prep(1) unfolding preparing_def by blast
  let ?v = "v\<lparr> op_Labels := (op_Labels v)(LabelVirtualMachineUID \<mapsto> vm_UID vm) \<rparr>"
  have v: "active_op ?v" "op_Migrate ?v = op_Migrate v" "completed_condition ?v = completed_condition v"
    using act by (simp_all add: active_op_def IsTerminating_def IsFinished_def)
  have conv: "converging_reason F env mig (?v, s) (reason, message) = (reason, message)"
    using preparation_distinct [OF prep(2)] by (simp add: converging_reason_def)
  note handle = active_Handle [OF act sel reads(1,2), of api F s]
  show thesis
  proof (cases "isTargetPreparationStalled reason (completed_condition v) (me_Now env 2)")
    case False
    then show thesis using handle reads conv v
      by (intro that(1) [of _ mig message ?v]) (auto simp: Migration_syncOperationCompleteResult_def Migration_syncOperationComplete_def follow_migration_def ret_def)
  next
    case True
    have "\<not> op_Deleting v" using act by (simp add: active_op_def IsTerminating_def)
    then show thesis using handle reads conv True del [unfolded deletes_migrations_def, rule_format, of l "im_Name mig"]
      by (intro that(2) [of _ "im_Name mig"])
        (auto simp: Migration_syncOperationCompleteResult_def Migration_syncOperationComplete_def follow_migration_def
          MigrationService_DeleteMigration_def bind_run_def call_def event_def ret_def preparation_timed_out_def
          complete_condition_def set_phase_def set_progress_def split: prod.splits)
  qed
qed

text \<open>Passes over one operation, each with what it reads, and the log.\<close>

fun mig_passes :: "mig_api \<Rightarrow> 'f float_ops \<Rightarrow> 'q mig_env list \<Rightarrow> 'f mig_state \<Rightarrow> mig_call effect list \<Rightarrow> 'f mig_state \<times> mig_call effect list" where
  "mig_passes api F [] vs l = (vs, l)"
| "mig_passes api F (env # envs) vs l =
     (case MigrationLifecycle_Handle api F env vs l of
        (Returned (vs', _, _), l') \<Rightarrow> mig_passes api F envs vs' l'
      | (_, l') \<Rightarrow> mig_passes api F envs vs l')"

lemma failed_stays:
  "op_Phase v = VMOPPhaseFailed \<Longrightarrow> \<not> op_Deleting v \<Longrightarrow>
     op_Phase (fst (fst (mig_passes api F envs (v, s) l))) = VMOPPhaseFailed \<and> snd (mig_passes api F envs (v, s) l) = l"
  by (induction envs arbitrary: s)
    (auto simp: MigrationLifecycle_Handle_def Let_def IsTerminating_def IsFinished_def ret_def)

definition given_up :: "'f mig_state \<times> mig_call effect list \<Rightarrow> bool" where
  "given_up out \<longleftrightarrow> op_Phase (fst (fst out)) = VMOPPhaseFailed \<and> (\<exists>n. Call (Op (DeleteMigration n)) \<in> set (snd out))"

lemma unsupported_cong: "op_Migrate v = op_Migrate w \<Longrightarrow> unsupported_selector env v = unsupported_selector env w"
  by (simp add: unsupported_selector_def)

lemma waiting_passes:
  assumes "active_op v" and "reason \<in> preparation_reasons" and "deletes_migrations api"
    and "\<forall>env \<in> set (envs @ [final]). preparing env reason \<and> \<not> unsupported_selector env v"
    and "cond_Reason (completed_condition v) = reason" "cond_Status (completed_condition v) = ConditionFalse"
    and "cond_LastTransitionTime (completed_condition v) \<noteq> 0"
    and "me_Now final 2 - cond_LastTransitionTime (completed_condition v) > prepareTargetTimeout"
  shows "given_up (mig_passes api F (envs @ [final]) (v, s) l)"
  using assms(1,4-)
proof (induction envs arbitrary: v s l)
  case Nil
  have "isTargetPreparationStalled reason (completed_condition v) (me_Now final 2)"
    using Nil.prems unfolding stalled_iff [OF assms(2)] by simp
  moreover have prep: "preparing final reason" and sel: "\<not> unsupported_selector final v" using Nil.prems(2) by auto
  ultimately obtain n r where "MigrationLifecycle_Handle api F final (v, s) l =
      (Returned r, l @ [Call (Op (DeleteMigration n)), Event ReasonErrVMOPFailed])" "op_Phase (fst (fst r)) = VMOPPhaseFailed"
    by (cases rule: preparing_pass [OF Nil.prems(1) sel prep assms(2,3), of F s l]) blast+
  then show ?case by (cases r) (auto simp: given_up_def)
next
  case (Cons env envs)
  have prep: "preparing env reason" and sel: "\<not> unsupported_selector env v" using Cons.prems(2) by auto
  show ?case
  proof (cases rule: preparing_pass [OF Cons.prems(1) sel prep assms(2,3), of F s l, consumes 0, case_names waits ends])
    case (waits mig message v' r)
    obtain w s' where w: "fst r = (w, s')" by fastforce
    have op: "w = fst (in_progress F env 24 mig reason message (v', s))" using waits(2) w by (metis fst_conv)
    have "active_op w" "op_Migrate w = op_Migrate v" using in_progress_active [OF waits(3) assms(2), of F env 24 mig message s] waits(4) op by simp_all
    moreover have "cond_Reason (completed_condition w) = reason" "cond_Status (completed_condition w) = ConditionFalse"
      "cond_LastTransitionTime (completed_condition w) = cond_LastTransitionTime (completed_condition v)"
      using in_progress_condition [of reason F env 24 mig message v' s] preparation_distinct [OF assms(2)] Cons.prems(3,4) waits(5) op by auto
    ultimately have "given_up (mig_passes api F (envs @ [final]) (w, s') l)"
      using Cons.prems unsupported_cong [of w v] by (intro Cons.IH) auto
    then show ?thesis using waits(1) w by (cases r) simp
  next
    case (ends n r)
    obtain w s' where w: "fst r = (w, s')" by fastforce
    then show ?thesis using ends failed_stays [of w api F "envs @ [final]" s'] by (cases r) (auto simp: given_up_def)
  qed
qed

text \<open>
  Claim C6: the preparation of a migration's target ends.  When the passes over an operation keep finding its
  migration waiting for the target for the same reason, from a first pass at which the reason is new up to
  a pass more than five minutes later, then the operation has failed and its migration has been deleted.
\<close>

theorem target_preparation_times_out:
  assumes "active_op v" and "reason \<in> preparation_reasons" and "cond_Reason (completed_condition v) \<noteq> reason"
    and "\<forall>env \<in> set (first # envs @ [final]). preparing env reason \<and> \<not> unsupported_selector env v"
    and "\<forall>k. 0 < env_Clock (me_Op first) k \<and> env_Clock (me_Op first) k \<le> t" and "me_Now final 2 - t > prepareTargetTimeout"
    and "deletes_migrations api"
  shows "op_Phase (fst (fst (mig_passes api F (first # envs @ [final]) (v, s) l))) = VMOPPhaseFailed \<and>
    (\<exists>n. Call (Op (DeleteMigration n)) \<in> set (snd (mig_passes api F (first # envs @ [final]) (v, s) l)))"
proof -
  have prep: "preparing first reason" and sel: "\<not> unsupported_selector first v" using assms(4) by auto
  have "given_up (mig_passes api F (first # envs @ [final]) (v, s) l)"
  proof (cases rule: preparing_pass [OF assms(1) sel prep assms(2,7), of F s l, consumes 0, case_names waits ends])
    case (waits mig message v' r)
    obtain w s' where w: "fst r = (w, s')" by fastforce
    have op: "w = fst (in_progress F first 24 mig reason message (v', s))" using waits(2) w by (metis fst_conv)
    have "active_op w" "op_Migrate w = op_Migrate v" using in_progress_active [OF waits(3) assms(2), of F first 24 mig message s] waits(4) op by simp_all
    moreover have "cond_Reason (completed_condition w) = reason" "cond_Status (completed_condition w) = ConditionFalse"
      "cond_LastTransitionTime (completed_condition w) \<in> {env_Clock (me_Op first) 48, env_Clock (me_Op first) 49}"
      using in_progress_condition [of reason F first 24 mig message v' s] preparation_distinct [OF assms(2)] assms(3) waits(5) op by auto
    moreover from this(3) have "0 < cond_LastTransitionTime (completed_condition w)" "cond_LastTransitionTime (completed_condition w) \<le> t"
      using assms(5) by auto
    ultimately have "given_up (mig_passes api F (envs @ [final]) (w, s') l)"
      using assms(4,6) unsupported_cong [of w v] by (intro waiting_passes [OF _ assms(2,7)]) auto
    then show ?thesis using waits(1) w by (cases r) simp
  next
    case (ends n r)
    obtain w s' where w: "fst r = (w, s')" by fastforce
    then show ?thesis using ends failed_stays [of w api F "envs @ [final]" s'] by (cases r) (auto simp: given_up_def)
  qed
  then show ?thesis by (simp add: given_up_def)
qed

section \<open>The type of an operation\<close>

definition VMOPPhases :: "string list" where
  "VMOPPhases = ['''', VMOPPhasePending, VMOPPhaseInProgress, VMOPPhaseCompleted, VMOPPhaseFailed, VMOPPhaseTerminating, VMOPPhaseSuperseded]"

definition typed_op :: "vmop \<Rightarrow> bool" where
  "typed_op v \<longleftrightarrow> op_Phase v \<in> set VMOPPhases \<and> (op_Progress v = '''' \<or> (\<exists>p \<in> {0..100}. op_Progress v = FormatPercent p)) \<and>
     distinct (map cond_Type (op_Conditions v))"

definition typed_state :: "'f float_ops \<Rightarrow> 'f mig_state \<Rightarrow> bool" where
  "typed_state F vs \<longleftrightarrow> (float_laws F \<longrightarrow> typed_op (fst vs) \<and> store_ok (snd vs))"

lemma store_ok_forget: "store_ok s \<Longrightarrow> store_ok (forgetProgress v s)"
  by (simp add: store_ok_def forgetProgress_def Forget_progress_def Store_Delete_def)

lemma typed_parse: "float_laws F \<Longrightarrow> typed_op v \<Longrightarrow> ParsePercent_progress F (op_Progress v) \<in> {0..100}"
  by (auto simp: typed_op_def percent_roundtrip) (simp_all add: ParsePercent_progress_def)

lemma typed_calculate:
  assumes "float_laws F" and "typed_op v" and "store_ok s"
  shows "store_ok (fst (calculateMigrationProgress F env k (v, s) mig reason)) \<and>
    snd (calculateMigrationProgress F env k (v, s) mig reason) \<in> {0..100}"
proof -
  let ?r = "BuildRecord F v (Some mig) (me_Now env k)"
  have "snd (SyncProgress F s ?r) \<in> {0..100}"
    using next_progress_bounds(1,2) [OF assms(1) previous_range [OF assms(3), of ?r F], of ?r "observe F ?r (getState F s ?r)"]
      cap_of_le(1) [of "isIterative ?r"] by (simp add: SyncProgress_result)
  then show ?thesis
    using typed_parse [OF assms(1,2)] SyncProgress_store_ok [OF assms(1,3)] store_ok_forget [OF assms(3)] assms(3)
    by (simp add: calculateMigrationProgress_def)
qed

lemma typed_progress:
  assumes "typed_state F vs"
  shows "typed_state F (set_progress F env k mig reason vs)"
  using assms typed_calculate [of F "fst vs" "snd vs" env k mig reason]
  by (auto simp: typed_state_def typed_op_def set_progress_def split: prod.split)

interpretation typing: pass_invariant "typed_state F" F env for F env
proof unfold_locales
  fix v s k mig reason
  assume "typed_state F (v, s)"
  then show "typed_state F (set_progress F env k mig reason (v, s))" by (rule typed_progress)
next
  fix v s k c
  assume "typed_state F (v, s)"
  then show "typed_state F (set_op_condition (me_Op env) k c v, s)"
    by (auto simp: typed_state_def typed_op_def set_op_condition_def SetCondition_distinct)
next
  fix v s mig
  assume "typed_state F (v, s)"
  moreover have "(100 :: int) \<in> {0..100}" by simp
  ultimately show "typed_state F (migration_succeeded env (v, s))"
    by (auto simp: typed_state_def typed_op_def VMOPPhases_def migration_succeeded_def complete_condition_def set_op_condition_def
        SetCondition_distinct)
qed (auto simp: typed_state_def typed_op_def VMOPPhases_def store_ok_forget)


section \<open>When an operation goes away\<close>

text \<open>
  Claim C19: an operation does not go away before its migration.  The handler of the finalizer takes the finalizer
  off only when the operation is being deleted and its migration is read as gone; as long as the operation is being
  deleted and a migration exists, the migration is deleted.
\<close>

theorem migration_gone_before_operation:
  assumes "finalizer_laws fo" and "MigrationDeletion_Handle fo api env vmop pre = (Returned (vmop', e), post)"
    and "FinalizerVMOPCleanup \<in> set (op_Finalizers vmop)"
  shows "(FinalizerVMOPCleanup \<notin> set (op_Finalizers vmop') \<longrightarrow> op_Deleting vmop \<and> me_Migration env 6 = Missing) \<and>
    (\<forall>mig. op_Deleting vmop \<and> me_Migration env 5 = Got mig \<longrightarrow> post = pre @ [Call (Op (DeleteMigration (im_Name mig)))]) \<and>
    (op_Deleting vmop \<and> me_Migration env 5 = Missing \<and> me_Migration env 6 = Missing \<longrightarrow>
       FinalizerVMOPCleanup \<notin> set (op_Finalizers vmop') \<and> e = None)"
proof -
  have fin: "set (fin_Add fo f fs) = insert f (set fs)" "set (fin_Remove fo f fs) = set fs - {f}" for f fs
    using assms(1) by (auto simp: finalizer_laws_def)
  show ?thesis
  proof (cases "op_Deleting vmop")
    case True
    then show ?thesis using assms(2,3)
      by (auto simp: MigrationDeletion_Handle_def MigrationService_DeleteMigration_def bind_run_def call_def ret_def fin
          split: reading.splits if_splits)
  next
    case False
    then show ?thesis using assms(2,3) by (auto simp: MigrationDeletion_Handle_def ret_def fin)
  qed
qed

section \<open>The documented table\<close>

text \<open>
  The rows of \<^verbatim>\<open>docs/internal/vmop_migration_lifecycle.md\<close> for the phases of a migration: the reason, the phase of the operation
  and the least and the greatest progress.
\<close>

fun documented_row :: "migration_phase \<Rightarrow> (string \<times> string \<times> int \<times> int) option" where
  "documented_row MigrationPhaseUnset = Some (ReasonMigrationPending, VMOPPhasePending, 0, 0)"
| "documented_row MigrationPending = Some (ReasonMigrationPending, VMOPPhasePending, 0, 0)"
| "documented_row MigrationScheduling = Some (ReasonTargetScheduling, VMOPPhaseInProgress, 2, 2)"
| "documented_row MigrationScheduled = Some (ReasonTargetPreparing, VMOPPhaseInProgress, 3, 3)"
| "documented_row MigrationPreparingTarget = Some (ReasonTargetPreparing, VMOPPhaseInProgress, 3, 3)"
| "documented_row MigrationTargetReady = Some (ReasonSyncing, VMOPPhaseInProgress, 10, 90)"
| "documented_row MigrationWaitingForSync = Some (ReasonSyncing, VMOPPhaseInProgress, 10, 90)"
| "documented_row MigrationSynchronizing = Some (ReasonSyncing, VMOPPhaseInProgress, 10, 90)"
| "documented_row MigrationRunning = Some (ReasonSyncing, VMOPPhaseInProgress, 10, 90)"
| "documented_row MigrationSucceeded = Some (ReasonMigrationCompleted, VMOPPhaseCompleted, 100, 100)"
| "documented_row MigrationFailed = None"
| "documented_row (OtherMigrationPhase _) = None"

text \<open>Nothing but the phase of the migration decides: the target has no pod yet, no slot is awaited, no hand-over has begun.\<close>

definition undisturbed :: "'q mig_env \<Rightarrow> vmim \<Rightarrow> bool" where
  "undisturbed env mig \<longleftrightarrow> me_TargetPod env = Some None \<and> (\<exists>i. getMigrationVMI env 0 mig = Inr i) \<and>
     (\<exists>i. getMigrationVMI env 1 mig = Inr i \<and> \<not> case_option False IsInboundMigrationSlotWaiting i \<and>
        \<not> case_option False IsSyncMigrationSlotWaiting i) \<and>
     (case im_State mig of None \<Rightarrow> True | Some st \<Rightarrow> \<not> st_TargetNodeDomainReady st \<and> \<not> st_Completed st)"

lemma undisturbed_reason:
  assumes "undisturbed env mig" and "documented_row (im_Phase mig) = Some (reason, phase, least, most)" and "im_Phase mig \<noteq> MigrationSucceeded"
  shows "\<exists>message. getInProgressReasonAndMessage env mig = Inr (reason, message)"
proof -
  have "\<exists>message. phase_reason env mig = Inr (reason, message)"
    using assms by (cases "im_Phase mig") (auto simp: phase_reason_def undisturbed_def split: option.split)
  then obtain message where "phase_reason env mig = Inr (reason, message)" by blast
  moreover have "fst (with_details env mig (reason, message)) = reason"
    using assms(1) by (auto simp: with_details_def undisturbed_def Let_def split: option.splits)
  ultimately show ?thesis
    using assms(1) by (auto simp: getInProgressReasonAndMessage_def undisturbed_def getPodPendingUnschedulableMessage_def
        getTargetPodDiskError_def) (metis prod.collapse)
qed

lemma documented_progress:
  assumes "float_laws F" and "store_ok s" and "documented_row ph = Some (reason, phase, least, most)" and "ph \<noteq> MigrationSucceeded"
  shows "snd (calculateMigrationProgress F env k (v, s) mig reason) \<in> {least..most}"
proof -
  let ?r = "BuildRecord F v (Some mig) (me_Now env k)"
  have "snd (SyncProgress F s ?r) \<in> {10..90}"
    using next_progress_bounds(1,2) [OF assms(1) previous_range [OF assms(2), of ?r F], of ?r "observe F ?r (getState F s ?r)"]
      cap_of_le(1) [of "isIterative ?r"] by (simp add: SyncProgress_result)
  moreover have "(reason, least, most) \<in> {(ReasonMigrationPending, 0, 0), (ReasonTargetScheduling, 2, 2), (ReasonTargetPreparing, 3, 3),
      (ReasonSyncing, 10, 90)}" using assms(3,4) by (cases ph) auto
  ultimately show ?thesis by (elim insertE emptyE) (simp_all add: calculateMigrationProgress_def)
qed


section \<open>Where the code and the documentation differ\<close>

text \<open>
  The target has resumed before the migration is reported as completed on the source: the progress is 92 and then 91.
\<close>

lemma resumed_progress_falls_back:
  assumes "st_TargetNodeDomainReady st"
  shows "snd (calculateMigrationProgress F env k (v, s) mig
      (fst (with_details env (mig\<lparr> im_State := Some (st\<lparr> st_Completed := False \<rparr>) \<rparr>) rm))) = 92"
    and "snd (calculateMigrationProgress F env k (v, s) mig
      (fst (with_details env (mig\<lparr> im_State := Some (st\<lparr> st_Completed := True \<rparr>) \<rparr>) rm))) = 91"
  using assms by (auto simp: with_details_def calculateMigrationProgress_def Let_def)

text \<open>The iterative stage is documented to begin at 45; the step limit makes it begin at most at 15.\<close>

lemma iterative_stage_starts_low:
  assumes "float_laws F" and "store_ok s" and "s (pr_OperationUID r) = None" and "pr_PreviousProgress r \<le> 10" and "isIterative r"
  shows "snd (SyncProgress F s r) \<le> 15"
proof -
  have "previous r (getState F s r) = 10"
    using assms(3,4) by (simp add: previous_def getState_def Store_Load_def clampSyncRange_def Let_def)
  then show ?thesis
    using next_progress_bounds(3) [OF assms(1) previous_range [OF assms(2), of r F], of r "observe F r (getState F s r)"] assms(5)
    by (simp add: SyncProgress_result step_of_def)
qed

text \<open>A failure keeps the progress, but an operation without one gets ten percent.\<close>

lemma failure_invents_progress:
  assumes "op_Progress v = ''''" and "failed_reason mig v = ReasonFailed"
  shows "op_Progress (fst (migration_failed F env mig (v, s))) = ''10%''"
proof -
  have "FormatPercent 10 = ''10%''" by code_simp
  then show ?thesis
    using assms by (simp add: migration_failed_def complete_condition_def set_progress_def set_phase_def Let_def calculateMigrationProgress_def
        ParsePercent_progress_def)
qed

text \<open>A machine that does not exist is an error of the pass, although the operation is marked as failed.\<close>

lemma missing_machine_is_an_error:
  assumes "env_VM (me_Op env) = Missing"
  shows "\<exists>v s r e. fetch_machine api F env vs l = (Returned ((v, s), r, Some e), l @ [Event ReasonErrVMOPFailed]) \<and> op_Phase v = VMOPPhaseFailed"
  using assms by (simp add: fetch_machine_def FetchVirtualMachineOrSetFailedPhase_def lift_run_def bind_run_def event_def ret_def)

section \<open>Examples\<close>

definition migrating_vm :: "int virtual_machine" where
  "migrating_vm = example_vm\<lparr> vm_Status := example_status\<lparr> Phase := MachineRunning, StatusNode := ''node'',
     Conditions := [\<lparr> cond_Type = ''Migrating'', cond_Status = ConditionFalse, cond_Reason = ''ReadyToMigrate'', cond_Message = '''',
       cond_ObservedGeneration = 1, cond_LastTransitionTime = 1 \<rparr>] \<rparr> \<rparr>"

definition example_mig :: "migration_phase \<Rightarrow> vmim" where
  "example_mig phase = (new_migration (example_op ''a'' ''Migrate'' None))\<lparr> im_UID := ''mig'', im_Phase := phase \<rparr>"

definition example_mig_env :: "vmim reading \<Rightarrow> int \<Rightarrow> int mig_env" where
  "example_mig_env mig now =
     \<lparr> me_Op = (example_op_env [])\<lparr> env_VM := Got migrating_vm, env_Clock := (\<lambda>_. now) \<rparr>, me_Migration = (\<lambda>_. mig),
       me_VMI = (\<lambda>_. Missing), me_Ended = Missing, me_TargetPod = Some None, me_PodEvents = Some [], me_Migrations = Some [],
       me_NodeIface = (\<lambda>_. Some ''eth1''), me_TargetMigration = True, me_SystemNetwork = ''net'', me_Override = '''',
       me_Names = \<lparr> kn_VMIDoesNotExist = ''VMIDoesNotExist'', kn_VMIIsShutdown = ''VMIIsShutdown'', kn_LimitCluster = ''Cluster'',
         kn_LimitOutboundNode = ''OutboundNode'' \<rparr>, me_Now = (\<lambda>_. now) \<rparr>"

definition empty_store :: "real pstore" where "empty_store = Map.empty"

abbreviation accept :: mig_api where "accept \<equiv> \<lambda>_ _. OK"

fun is_creation :: "mig_call effect \<Rightarrow> bool" where
  "is_creation (Call (CreateMigration _)) = True"
| "is_creation _ = False"

lemma example_creates:
  "list_ex is_creation (new_effects (MigrationLifecycle_Handle accept F (example_mig_env Missing 1) (example_op ''a'' ''Migrate'' None, s)) [])"
  by code_simp

lemma is_creation_iff: "is_creation e \<longleftrightarrow> (\<exists>m. e = Call (CreateMigration m))"
  by (cases e rule: is_creation.cases) auto

theorem migration_created_only_when_allowed_witness:
  "\<exists>m. Call (CreateMigration m) \<in> set (new_effects (MigrationLifecycle_Handle accept real_floats (example_mig_env Missing 1)
       (example_op ''a'' ''Migrate'' None, empty_store)) []) \<and> m = new_migration (example_op ''a'' ''Migrate'' None)"
proof -
  obtain m where m: "Call (CreateMigration m) \<in> set (new_effects (MigrationLifecycle_Handle accept real_floats (example_mig_env Missing 1)
       (example_op ''a'' ''Migrate'' None, empty_store)) [])"
    using example_creates [of real_floats empty_store] by (auto simp: list_ex_iff is_creation_iff)
  with migration_created_only_when_allowed [OF this] show ?thesis by blast
qed

definition sent_op :: vmop where
  "sent_op = (example_op ''a'' ''Migrate'' None)\<lparr> op_Phase := VMOPPhaseInProgress, op_Progress := ''2%'', op_Finalizers := [FinalizerVMOPCleanup],
     op_Conditions := [\<lparr> cond_Type = TypeSignalSent, cond_Status = ConditionTrue, cond_Reason = ''SignalSentSuccess'', cond_Message = '''',
       cond_ObservedGeneration = 1, cond_LastTransitionTime = 1 \<rparr>] \<rparr>"

lemma sent_op_active: "active_op sent_op" by code_simp

lemma example_success:
  "case MigrationLifecycle_Handle accept F (example_mig_env (Got (example_mig MigrationSucceeded)) 1) (sent_op, s) [] of
     (Returned ((v, s), r), post) \<Rightarrow> op_Phase v = VMOPPhaseCompleted | _ \<Rightarrow> False"
  by code_simp

theorem completed_only_after_success_witness:
  "\<exists>v s r post. MigrationLifecycle_Handle accept real_floats (example_mig_env (Got (example_mig MigrationSucceeded)) 1) (sent_op, empty_store) [] =
     (Returned ((v, s), r), post) \<and> op_Phase v = VMOPPhaseCompleted \<and> op_Progress v = ''100%''"
proof -
  obtain v s r post where run: "MigrationLifecycle_Handle accept real_floats (example_mig_env (Got (example_mig MigrationSucceeded)) 1)
      (sent_op, empty_store) [] = (Returned ((v, s), r), post)" "op_Phase v = VMOPPhaseCompleted"
    using example_success [of real_floats empty_store] by (auto split: prod.splits outcome.splits)
  have "op_Phase sent_op \<noteq> VMOPPhaseCompleted" by code_simp
  from completed_only_after_success [OF run(1) this run(2)] run show ?thesis by blast
qed


theorem target_preparation_times_out_witness:
  "op_Phase (fst (fst (mig_passes accept real_floats
     (example_mig_env (Got (example_mig MigrationScheduling)) 1 # [] @ [example_mig_env (Got (example_mig MigrationScheduling)) 300000000002])
     (sent_op, empty_store) []))) = VMOPPhaseFailed"
proof -
  let ?e = "\<lambda>now. example_mig_env (Got (example_mig MigrationScheduling)) now"
  have "getInProgressReasonAndMessage (?e now) (example_mig MigrationScheduling) = Inr (ReasonTargetScheduling, ''Scheduling the migration target'')" for now
    by code_simp
  then have prep: "preparing (?e now) ReasonTargetScheduling" for now
    unfolding preparing_def by (auto simp: example_mig_env_def example_mig_def isKubeVirtMigrationRejectedDueToQuota_def
        GetKVVMIMCondition_def new_migration_def)
  have reason: "ReasonTargetScheduling \<in> preparation_reasons" by (simp add: preparation_reasons_def)
  have fresh: "cond_Reason (completed_condition sent_op) \<noteq> ReasonTargetScheduling" by code_simp
  have "\<not> unsupported_selector (?e now) sent_op" for now by code_simp
  then have all: "\<forall>env \<in> set (?e 1 # [] @ [?e 300000000002]). preparing env ReasonTargetScheduling \<and> \<not> unsupported_selector env sent_op"
    using prep by simp
  have clock: "\<forall>k. 0 < env_Clock (me_Op (?e 1)) k \<and> env_Clock (me_Op (?e 1)) k \<le> 1" by (simp add: example_mig_env_def)
  have late: "me_Now (?e 300000000002) 2 - 1 > prepareTargetTimeout" by (simp add: example_mig_env_def prepareTargetTimeout_def)
  have "deletes_migrations accept" by (simp add: deletes_migrations_def)
  from target_preparation_times_out [OF sent_op_active reason fresh all clock late this] show ?thesis by blast
qed

theorem migration_gone_before_operation_witness:
  "finalizer_laws list_finalizers \<and>
   (\<exists>v e post. MigrationDeletion_Handle list_finalizers accept (example_mig_env Missing 1) (sent_op\<lparr> op_Deleting := True \<rparr>) [] = (Returned (v, e), post) \<and>
      FinalizerVMOPCleanup \<notin> set (op_Finalizers v))"
proof -
  let ?op = "sent_op\<lparr> op_Deleting := True \<rparr>"
  have "case MigrationDeletion_Handle list_finalizers accept (example_mig_env Missing 1) ?op [] of (Returned _, post) \<Rightarrow> True | _ \<Rightarrow> False" by code_simp
  then obtain v e post where run: "MigrationDeletion_Handle list_finalizers accept (example_mig_env Missing 1) ?op [] = (Returned (v, e), post)"
    by (auto split: prod.splits outcome.splits)
  have "FinalizerVMOPCleanup \<in> set (op_Finalizers ?op)" by (simp add: sent_op_def)
  from migration_gone_before_operation [OF list_finalizers_laws run this]
  have "FinalizerVMOPCleanup \<notin> set (op_Finalizers v)" by (simp add: example_mig_env_def)
  with run list_finalizers_laws show ?thesis by blast
qed


end
