(* ===== verification/VMMigrating.thy ===== *)
theory VMMigrating
  imports VMOPService "HOL-Library.Multiset"
begin

text \<open>
  The handler that reports whether a machine can be migrated and how far a migration is
  (\<^verbatim>\<open>controller/vm/internal/migrating.go\<close>).  The conditions it sets are what the operations of \<^verbatim>\<open>MigrationLifecycle\<close> wait for.
  The service for the volumes of a migration is an interface of the source: a parameter, with the reads of a
  pass in the record \<open>migrating_env\<close>.  \<^verbatim>\<open>slices.SortFunc\<close> leaves the order of equal elements open and is a parameter \<open>mh_Sort\<close>
  with the law \<open>sorts_by_creation\<close>; the removal of a condition is a function of apimachinery, with the law
  \<open>removes_conditions\<close>.
\<close>

section \<open>What a pass reads\<close>

record kv_condition =
  kvc_Type :: string
  kvc_Status :: string
  kvc_Reason :: string
  kvc_Message :: string

text \<open>The fields of an internal machine that the handlers of the status read, besides those of \<open>kvvm\<close>.\<close>

record kvvm_status = kvvm +
  kvvm_Conditions :: "kv_condition list"
  kvvm_UpdateVolumesStrategy :: "string option"
  kvvm_PrintableStatus :: string

text \<open>The migration state of an instance.\<close>

record kvvmi_migration =
  km_Start :: "int option"
  km_End :: "int option"
  km_TargetNode :: string
  km_TargetPod :: string
  km_SourceNode :: string
  km_Completed :: bool
  km_Failed :: bool

text \<open>Constants of KubeVirt.\<close>

record migratable_names =
  mn_IsMigratable :: string
  mn_DisksNotMigratable :: string
  mn_HostDeviceNotMigratable :: string
  mn_UpdateVolumesMigration :: string

record migrating_env =
  mh_KVVM :: "kvvm_status reading"
  mh_KVVMI :: "kvvmi_migration option reading"
  mh_VMOPs :: "vmop list option"
  mh_VolumesSynced :: "bool option"
  mh_UnreadyDisks :: "string list option"
  mh_ReadWriteOnceDisks :: "string list option"
  mh_VolumeMigration :: bool
  mh_Names :: migratable_names
  mh_Sort :: "vmop list \<Rightarrow> vmop list"
  mh_Remove :: "string \<Rightarrow> condition list \<Rightarrow> condition list"
  mh_Clock :: "nat \<Rightarrow> int"

definition sorts_by_creation :: "(vmop list \<Rightarrow> vmop list) \<Rightarrow> bool" where
  "sorts_by_creation f \<longleftrightarrow> (\<forall>vs. mset (f vs) = mset vs \<and> sorted (map op_Created (f vs)))"

definition removes_conditions :: "(string \<Rightarrow> condition list \<Rightarrow> condition list) \<Rightarrow> bool" where
  "removes_conditions f \<longleftrightarrow>
     (\<forall>t cs. t \<notin> cond_Type ` set (f t cs) \<and> (\<forall>u. u \<noteq> t \<longrightarrow> GetCondition u (f t cs) = GetCondition u cs))"

abbreviation TypeMigrating :: string where "TypeMigrating \<equiv> ''Migrating''"
abbreviation TypeMigratable :: string where "TypeMigratable \<equiv> ''Migratable''"
abbreviation ReasonReadyToMigrate :: string where "ReasonReadyToMigrate \<equiv> ''ReadyToMigrate''"
abbreviation ReasonMigratingPending :: string where "ReasonMigratingPending \<equiv> ''Pending''"
abbreviation ReasonMigratingInProgress :: string where "ReasonMigratingInProgress \<equiv> ''InProgress''"
abbreviation ReasonWaitingToBeReady :: string where
  "ReasonWaitingToBeReady \<equiv> ''WaitingForVirtualMachineToBeReadyToMigrate''"

section \<open>migrating.go\<close>

definition vm_condition :: "'q virtual_machine \<Rightarrow> string \<Rightarrow> string \<Rightarrow> string \<Rightarrow> string \<Rightarrow> condition" where
  "vm_condition vm type reason status message =
     builder_Condition (builder_Message message (builder_Status status (builder_Reason reason
       (builder_Generation (vm_Generation vm) (NewConditionBuilder type)))))"

definition vm_conditions :: "'q virtual_machine \<Rightarrow> condition list" where
  "vm_conditions vm = Conditions (vm_Status vm)"

definition put_conditions :: "condition list \<Rightarrow> 'q virtual_machine \<Rightarrow> 'q virtual_machine" where
  "put_conditions cs vm = vm\<lparr> vm_Status := (vm_Status vm)\<lparr> Conditions := cs \<rparr> \<rparr>"

definition set_vm_condition :: "(nat \<Rightarrow> int) \<Rightarrow> nat \<Rightarrow> condition \<Rightarrow> 'q virtual_machine \<Rightarrow> 'q virtual_machine" where
  "set_vm_condition clock k c vm = put_conditions (SetCondition (clock (2 * k)) (clock (2 * k + 1)) c (vm_conditions vm)) vm"

definition RemoveCondition :: "(string \<Rightarrow> condition list \<Rightarrow> condition list) \<Rightarrow> string \<Rightarrow> 'q virtual_machine \<Rightarrow> 'q virtual_machine" where
  "RemoveCondition rm conditionType vm = put_conditions (rm conditionType (vm_conditions vm)) vm"

definition getMigrationResult :: "kvvmi_migration \<Rightarrow> string" where
  "getMigrationResult state =
     (if km_Completed state \<and> \<not> km_Failed state then ''Succeeded'' else if km_Failed state then ''Failed'' else '''')"

text \<open>\<open>None\<close> for no instance or an instance without a migration.\<close>

definition wrapMigrationState :: "kvvmi_migration option option \<Rightarrow> vm_migration_state option" where
  "wrapMigrationState kvvmi =
     (case kvvmi of
        Some (Some m) \<Rightarrow>
          Some \<lparr> vms_StartTimestamp = km_Start m, vms_EndTimestamp = km_End m, vms_TargetNode = km_TargetNode m,
                 vms_TargetPod = km_TargetPod m, vms_SourceNode = km_SourceNode m, vms_Result = getMigrationResult m \<rparr>
      | _ \<Rightarrow> None)"

definition liveMigrationInProgress :: "vm_migration_state option \<Rightarrow> bool" where
  "liveMigrationInProgress migrationState =
     (case migrationState of None \<Rightarrow> False | Some m \<Rightarrow> vms_StartTimestamp m \<noteq> None \<and> vms_EndTimestamp m = None)"

text \<open>The operations of the machine (\<^verbatim>\<open>VMOPs\<close> of \<^verbatim>\<open>state.go\<close>), from the list of the namespace.\<close>

definition state_VMOPs :: "migrating_env \<Rightarrow> 'q virtual_machine \<Rightarrow> vmop list option" where
  "state_VMOPs env vm = map_option (filter (\<lambda>v. op_VirtualMachine v = vm_Name vm)) (mh_VMOPs env)"

definition getVMOPCandidate :: "migrating_env \<Rightarrow> 'q virtual_machine \<Rightarrow> vmop option option" where
  "getVMOPCandidate env vm =
     (case state_VMOPs env vm of
        None \<Rightarrow> None
      | Some vmops \<Rightarrow>
          if length vmops = 0 then Some None
          else let migrations = filter IsMigration (mh_Sort env vmops)
               in case List.find IsInProgressOrPending migrations of
                    Some migration \<Rightarrow> Some (Some migration)
                  | None \<Rightarrow> Some (if length migrations > 0 then Some (migrations ! (length migrations - 1)) else None))"

text \<open>The reason and the message of a machine that an operation waits for.\<close>

definition syncWaitingForVMToBeReadyMigrate :: "migrating_env \<Rightarrow> string + string \<times> string" where
  "syncWaitingForVMToBeReadyMigrate env =
     (case mh_VolumesSynced env of
        None \<Rightarrow> Inl ''volumes synced''
      | Some synced \<Rightarrow>
          if \<not> synced
          then Inr (ReasonMigratingPending, ''The virtual machine disks are not synchronized to the migration target yet.'')
          else case mh_UnreadyDisks env of
                 None \<Rightarrow> Inl ''unready disks''
               | Some disks \<Rightarrow>
                   if length disks > 0
                   then Inr (ReasonMigratingPending, ''Migration is awaiting virtual disks to be ready to migrate ['' @
                          join_strings '', '' disks @ ''].'')
                   else Inr (ReasonReadyToMigrate, ''''))"

text \<open>What the condition becomes for the operation that was found; \<open>None\<close> removes it.\<close>

definition migrating_for_op :: "migrating_env \<Rightarrow> vmop \<Rightarrow> string + (string \<times> string \<times> string) option" where
  "migrating_for_op env vmop =
     (let completed = fst (GetCondition TypeCompleted (op_Conditions vmop)); reason = cond_Reason completed;
          pending = (\<lambda>message. Inr (Some (ReasonMigratingPending, ConditionFalse, message)));
          wait = ''Wait until operation is completed; VirtualMachineOperation: '' @ op_Name vmop @ ''.''
      in if reason = ''MigrationPending'' then pending ''Migration is awaiting start.''
         else if reason = ''TargetScheduling'' then pending ''Migration is in progress: target pod is being scheduled.''
         else if reason = ''QuotaExceeded'' then pending (''Migration is pending: '' @ cond_Message completed @ ''.'')
         else if reason = ''MigrationPrepareTarget'' \<or> reason = ''TargetPreparing''
         then pending ''Migration is in progress: preparing the migration target.''
         else if reason \<in> {''MigrationTargetReady'', ''Syncing'', ''SourceSuspended'', ''TargetResumed''}
         then pending ''Migration is in progress: source and target are being synchronized.''
         else if reason = ReasonWaitingToBeReady
         then map_sum id (\<lambda>(r, message). Some (r, ConditionFalse, message)) (syncWaitingForVMToBeReadyMigrate env)
         else if reason = ''MigrationRunning'' then Inr (Some (ReasonMigratingInProgress, ConditionTrue, ''''))
         else if reason = ''OperationCompleted'' \<or> reason = ''Completed'' then Inr None
         else if op_Phase vmop = '''' then Inr None
         else if op_Phase vmop = VMOPPhasePending then pending wait
         else if op_Phase vmop = VMOPPhaseInProgress then Inr (Some (ReasonMigratingInProgress, ConditionFalse, wait))
         else if op_Phase vmop \<in> {VMOPPhaseCompleted, VMOPPhaseFailed, VMOPPhaseTerminating, VMOPPhaseSuperseded} then Inr None
         else pending '''')"

definition syncMigrating :: "migrating_env \<Rightarrow> bool \<Rightarrow> 'q virtual_machine \<Rightarrow> 'q virtual_machine \<times> string option" where
  "syncMigrating env hasInstance vm =
     (let removed = RemoveCondition (mh_Remove env) TypeMigrating vm;
          put = (\<lambda>(reason, status, message). set_vm_condition (mh_Clock env) 1 (vm_condition vm TypeMigrating reason status message) vm)
      in if \<not> hasInstance then (removed, None)
         else if liveMigrationInProgress (StatusMigrationState (vm_Status vm))
         then (put (ReasonMigratingInProgress, ConditionTrue, ''''), None)
         else case getVMOPCandidate env vm of
                None \<Rightarrow> (vm, Some ''list vmops'')
              | Some None \<Rightarrow> (removed, None)
              | Some (Some vmop) \<Rightarrow>
                  (case migrating_for_op env vmop of
                     Inl e \<Rightarrow> (vm, Some e)
                   | Inr None \<Rightarrow> (removed, None)
                   | Inr (Some c) \<Rightarrow> (put c, None)))"

definition GetKVVMCondition :: "string \<Rightarrow> kv_condition list \<Rightarrow> kv_condition option" where
  "GetKVVMCondition condType conditions = List.find (\<lambda>c. kvc_Type c = condType) conditions"

text \<open>Reason, status and message of the condition \<^verbatim>\<open>Migratable\<close>.\<close>

definition disks_migratable :: "migrating_env \<Rightarrow> string \<times> string \<times> string" where
  "disks_migratable env =
     (if mh_VolumeMigration env then (''VirtualMachineDisksShouldBeMigrating'', ConditionTrue, '''')
      else (''VirtualMachineDisksNotMigratable'', ConditionFalse,
        ''Live migration requires all disks to use ReadWriteMany (shared) storage. Make sure the StorageClass supports the ReadWriteMany access mode.''))"

definition migratable_of :: "migrating_env \<Rightarrow> kvvm_status option \<Rightarrow> string + string \<times> string \<times> string" where
  "migratable_of env kvvm =
     (case kvvm of
        None \<Rightarrow> Inr (''VirtualMachineNonMigratable'', ConditionFalse, '''')
      | Some kv \<Rightarrow>
          (let names = mh_Names env;
               volumes =
                 (if kvvm_UpdateVolumesStrategy kv = Some (mn_UpdateVolumesMigration names) then
                    (case mh_ReadWriteOnceDisks env of
                       None \<Rightarrow> Inl ''read write once disks''
                     | Some disks \<Rightarrow> Inr (if length disks > 0 then disks_migratable env else (''VirtualMachineMigratable'', ConditionTrue, '''')))
                  else Inr (''VirtualMachineMigratable'', ConditionTrue, ''''))
           in case GetKVVMCondition (mn_IsMigratable names) (kvvm_Conditions kv) of
                None \<Rightarrow> volumes
              | Some c \<Rightarrow>
                  if kvc_Reason c = mn_DisksNotMigratable names then Inr (disks_migratable env)
                  else if kvc_Reason c = mn_HostDeviceNotMigratable names
                  then Inr (''VirtualMachineHostDevicesNotMigratable'', ConditionFalse,
                    ''Live migration is blocked because the VirtualMachine has a device that cannot be migrated. Remove it to enable live migration.'')
                  else if kvc_Status c = ConditionFalse then Inr (''VirtualMachineNonMigratable'', ConditionFalse, kvc_Message c)
                  else volumes))"

definition syncMigratable :: "migrating_env \<Rightarrow> kvvm_status option \<Rightarrow> 'q virtual_machine \<Rightarrow> 'q virtual_machine \<times> string option" where
  "syncMigratable env kvvm vm =
     (case migratable_of env kvvm of
        Inl e \<Rightarrow> (vm, Some e)
      | Inr (reason, status, message) \<Rightarrow>
          (set_vm_condition (mh_Clock env) 0 (vm_condition vm TypeMigratable reason status message) vm, None))"

definition of_reading :: "'a reading \<Rightarrow> 'a option option" where
  "of_reading r = (case r of Got x \<Rightarrow> Some (Some x) | Missing \<Rightarrow> Some None | Unreadable \<Rightarrow> None)"

definition put_migration_state :: "vm_migration_state option \<Rightarrow> 'q virtual_machine \<Rightarrow> 'q virtual_machine" where
  "put_migration_state m vm = vm\<lparr> vm_Status := (vm_Status vm)\<lparr> StatusMigrationState := m \<rparr> \<rparr>"

definition MigratingHandler_Handle :: "migrating_env \<Rightarrow> 'q virtual_machine \<Rightarrow> 'q virtual_machine \<times> string option" where
  "MigratingHandler_Handle env vm =
     (if vm_Deleting vm then (vm, None)
      else case of_reading (mh_KVVM env) of
             None \<Rightarrow> (vm, Some ''get kvvm'')
           | Some kvvm \<Rightarrow>
               (case of_reading (mh_KVVMI env) of
                  None \<Rightarrow> (vm, Some ''get kvvmi'')
                | Some kvvmi \<Rightarrow>
                    (case syncMigratable env kvvm (put_migration_state (wrapMigrationState kvvmi) vm) of
                       (vm1, Some e) \<Rightarrow> (vm1, Some (''failed to sync migratable condition: '' @ e))
                     | (vm1, None) \<Rightarrow>
                         (case syncMigrating env (kvvmi \<noteq> None) vm1 of
                            (vm2, Some e) \<Rightarrow> (vm2, Some (''failed to sync migrating condition: '' @ e))
                          | (vm2, None) \<Rightarrow> (vm2, None)))))"

section \<open>Which operation is reported\<close>

lemma find_sorted_least:
  assumes "sorted (map f xs)" and "List.find P xs = Some x" and "y \<in> set xs" and "P y"
  shows "f x \<le> f y"
  using assms by (induction xs) (auto split: if_splits)

text \<open>The operation that is reported is the oldest unfinished migration of the machine, if there is one.\<close>

lemma getVMOPCandidate_oldest:
  assumes "sorts_by_creation (mh_Sort env)" and "state_VMOPs env vm = Some vmops"
    and "v \<in> set vmops" and "IsMigration v" and "IsInProgressOrPending v"
  shows "\<exists>w. getVMOPCandidate env vm = Some (Some w) \<and> w \<in> set vmops \<and> IsMigration w \<and> IsInProgressOrPending w \<and> op_Created w \<le> op_Created v"
proof -
  let ?ms = "filter IsMigration (mh_Sort env vmops)"
  have sorted: "sorted (map op_Created (mh_Sort env vmops))" and set: "set (mh_Sort env vmops) = set vmops"
    using assms(1) unfolding sorts_by_creation_def by (blast, metis set_mset_mset)
  have "List.find IsInProgressOrPending ?ms \<noteq> None" using assms(3-) set by (auto simp: find_None_iff)
  then obtain w where w: "List.find IsInProgressOrPending ?ms = Some w" by blast
  have "v \<in> set ?ms" using assms(3,4) set by simp
  then have "op_Created w \<le> op_Created v"
    using find_sorted_least [OF sorted_filter [OF sorted] w] assms(5) by blast
  moreover have "w \<in> set ?ms \<and> IsInProgressOrPending w" using w by (metis find_Some_iff nth_mem)
  ultimately show ?thesis using w assms(2,3) set by (auto simp: getVMOPCandidate_def Let_def)
qed

section \<open>When a machine is ready to migrate\<close>

abbreviation migrating_condition :: "'q virtual_machine \<Rightarrow> condition" where
  "migrating_condition vm \<equiv> fst (GetCondition TypeMigrating (vm_conditions vm))"

abbreviation migratable_condition :: "'q virtual_machine \<Rightarrow> condition" where
  "migratable_condition vm \<equiv> fst (GetCondition TypeMigratable (vm_conditions vm))"

lemma vm_condition_fields [simp]:
  "cond_Type (vm_condition vm t r s m) = t" "r \<noteq> '''' \<Longrightarrow> cond_Reason (vm_condition vm t r s m) = r"
  "s \<noteq> '''' \<Longrightarrow> cond_Status (vm_condition vm t r s m) = s"
  by (simp_all add: vm_condition_def builder_Condition_def builder_Message_def builder_Status_def builder_Reason_def
      builder_Generation_def NewConditionBuilder_def)

lemma put_conditions_simps [simp]:
  "vm_conditions (put_conditions cs vm) = cs" "vm_Name (put_conditions cs vm) = vm_Name vm"
  "vm_conditions (put_migration_state m vm) = vm_conditions vm" "vm_Name (put_migration_state m vm) = vm_Name vm"
  "StatusMigrationState (vm_Status (put_conditions cs vm)) = StatusMigrationState (vm_Status vm)"
  "StatusMigrationState (vm_Status (put_migration_state m vm)) = m"
  by (simp_all add: put_conditions_def vm_conditions_def put_migration_state_def)

lemma removed_condition:
  assumes "removes_conditions rm"
  shows "GetCondition t (vm_conditions (RemoveCondition rm t vm)) = (empty_condition, False)"
    and "u \<noteq> t \<Longrightarrow> GetCondition u (vm_conditions (RemoveCondition rm t vm)) = GetCondition u (vm_conditions vm)"
proof -
  have "t \<notin> cond_Type ` set (rm t (vm_conditions vm))" using assms by (simp add: removes_conditions_def)
  then have "List.find (\<lambda>c. cond_Type c = t) (rm t (vm_conditions vm)) = None" by (auto simp: find_None_iff)
  then show "GetCondition t (vm_conditions (RemoveCondition rm t vm)) = (empty_condition, False)"
    by (simp add: RemoveCondition_def GetCondition_def)
  show "u \<noteq> t \<Longrightarrow> GetCondition u (vm_conditions (RemoveCondition rm t vm)) = GetCondition u (vm_conditions vm)"
    using assms by (simp add: removes_conditions_def RemoveCondition_def)
qed

lemma candidate_same: "vm_Name vm = vm_Name vm' \<Longrightarrow> getVMOPCandidate env vm = getVMOPCandidate env vm'"
  by (simp add: getVMOPCandidate_def state_VMOPs_def)

lemma ready_reason:
  "migrating_for_op env vmop = Inr (Some (ReasonReadyToMigrate, status, message)) \<longleftrightarrow>
     cond_Reason (fst (GetCondition TypeCompleted (op_Conditions vmop))) = ReasonWaitingToBeReady \<and>
     mh_VolumesSynced env = Some True \<and> mh_UnreadyDisks env = Some [] \<and> status = ConditionFalse \<and> message = ''''"
  by (auto simp: migrating_for_op_def syncWaitingForVMToBeReadyMigrate_def Let_def split: option.splits sum.splits)

lemma migrating_for_op_reasons:
  assumes "migrating_for_op env vmop = Inr (Some (reason, status, message))"
  shows "reason \<in> {ReasonMigratingPending, ReasonMigratingInProgress, ReasonReadyToMigrate} \<and> status \<in> {ConditionTrue, ConditionFalse}"
  using assms by (auto simp: migrating_for_op_def syncWaitingForVMToBeReadyMigrate_def Let_def split: option.splits sum.splits if_splits)

lemma migrating_reason_set:
  assumes "reason \<noteq> ''''"
  shows "cond_Reason (migrating_condition (set_vm_condition clock k (vm_condition vm TypeMigrating reason status message) vm)) = reason"
  using assms by (simp add: set_vm_condition_def SetCondition_same)

lemma syncMigrating_ready:
  assumes rm: "removes_conditions (mh_Remove env)" and run: "syncMigrating env b vm = (vm', None)"
  shows "cond_Reason (migrating_condition vm') = ReasonReadyToMigrate \<longleftrightarrow>
    b \<and> \<not> liveMigrationInProgress (StatusMigrationState (vm_Status vm)) \<and>
    (\<exists>vmop. getVMOPCandidate env vm = Some (Some vmop) \<and>
       cond_Reason (fst (GetCondition TypeCompleted (op_Conditions vmop))) = ReasonWaitingToBeReady) \<and>
    mh_VolumesSynced env = Some True \<and> mh_UnreadyDisks env = Some []" (is "_ \<longleftrightarrow> ?ready")
proof -
  let ?removed = "RemoveCondition (mh_Remove env) TypeMigrating vm"
  have gone: "cond_Reason (migrating_condition ?removed) = ''''" unfolding removed_condition(1) [OF rm] by (simp add: empty_condition_def)
  consider (absent) "\<not> b" | (live) "b" "liveMigrationInProgress (StatusMigrationState (vm_Status vm))"
    | (none) "b" "\<not> liveMigrationInProgress (StatusMigrationState (vm_Status vm))" "getVMOPCandidate env vm = Some None"
    | (op) vmop where "b" "\<not> liveMigrationInProgress (StatusMigrationState (vm_Status vm))" "getVMOPCandidate env vm = Some (Some vmop)"
    using run by (cases "getVMOPCandidate env vm") (auto simp: syncMigrating_def Let_def split: if_splits option.splits)
  then show ?thesis
  proof cases
    case (op vmop)
    show ?thesis
    proof (cases "migrating_for_op env vmop")
      case (Inr c)
      show ?thesis
      proof (cases c)
        case None
        then have "vm' = ?removed" using run op Inr by (simp add: syncMigrating_def Let_def)
        moreover have "\<not> ?ready" using ready_reason [of env vmop ConditionFalse "''''"] Inr None op(3) by auto
        ultimately show ?thesis using gone by simp
      next
        case (Some rsm)
        obtain reason status message where rsm: "rsm = (reason, status, message)" by (cases rsm)
        have "vm' = set_vm_condition (mh_Clock env) 1 (vm_condition vm TypeMigrating reason status message) vm"
          using run op Inr Some rsm by (simp add: syncMigrating_def Let_def)
        moreover have "reason \<noteq> ''''" using migrating_for_op_reasons [of env vmop reason status message] Inr Some rsm by auto
        ultimately have "cond_Reason (migrating_condition vm') = reason" by (simp add: migrating_reason_set)
        moreover have "reason = ReasonReadyToMigrate \<longleftrightarrow> ?ready"
          using ready_reason [of env vmop status message] ready_reason [of env vmop ConditionFalse "''''"] Inr Some rsm op by auto
        ultimately show ?thesis by simp
      qed
    qed (use run op in \<open>simp add: syncMigrating_def Let_def\<close>)
  qed (use run gone in \<open>auto simp: syncMigrating_def Let_def migrating_reason_set\<close>)
qed

lemma syncMigratable_same:
  assumes "syncMigratable env kvvm vm = (vm1, None)"
  shows "vm_Name vm1 = vm_Name vm" "StatusMigrationState (vm_Status vm1) = StatusMigrationState (vm_Status vm)"
    "migratable_of env kvvm = Inr (reason, status, message) \<Longrightarrow> status \<noteq> '''' \<Longrightarrow> cond_Status (migratable_condition vm1) = status"
  using assms by (auto simp: syncMigratable_def set_vm_condition_def SetCondition_same split: sum.splits)

lemma reported_ready:
  assumes "removes_conditions (mh_Remove env)" and "MigratingHandler_Handle env vm = (vm', None)" and "\<not> vm_Deleting vm"
  shows "cond_Reason (migrating_condition vm') = ReasonReadyToMigrate \<longleftrightarrow>
    (\<exists>m. mh_KVVMI env = Got m \<and> \<not> liveMigrationInProgress (wrapMigrationState (Some m))) \<and>
    (\<exists>vmop. getVMOPCandidate env vm = Some (Some vmop) \<and>
       cond_Reason (fst (GetCondition TypeCompleted (op_Conditions vmop))) = ReasonWaitingToBeReady) \<and>
    mh_VolumesSynced env = Some True \<and> mh_UnreadyDisks env = Some []"
proof -
  obtain kvvm kvvmi vm1 where reads: "of_reading (mh_KVVM env) = Some kvvm" "of_reading (mh_KVVMI env) = Some kvvmi"
    and first: "syncMigratable env kvvm (put_migration_state (wrapMigrationState kvvmi) vm) = (vm1, None)"
    and second: "syncMigrating env (kvvmi \<noteq> None) vm1 = (vm', None)"
    using assms(2,3) by (auto simp: MigratingHandler_Handle_def split: option.splits prod.splits)
  have same: "StatusMigrationState (vm_Status vm1) = wrapMigrationState kvvmi" "getVMOPCandidate env vm1 = getVMOPCandidate env vm"
    using syncMigratable_same(1,2) [OF first] candidate_same [of vm1 vm env] by simp_all
  have inst: "kvvmi \<noteq> None \<longleftrightarrow> (\<exists>m. mh_KVVMI env = Got m)" "mh_KVVMI env = Got m \<Longrightarrow> kvvmi = Some m" for m
    using reads(2) by (auto simp: of_reading_def split: reading.splits)
  show ?thesis unfolding syncMigrating_ready [OF assms(1) second] same using inst by (cases "mh_KVVMI env") auto
qed

text \<open>
  Claim C18: a machine is reported ready to migrate exactly when it is.  After a pass without an error over a machine
  that is not being deleted, the condition says that the machine is ready to migrate exactly when it has an instance that is not migrating, the
  operation that is reported waits for the machine, the volumes are synchronized and every disk is ready.
\<close>

theorem ready_to_migrate_exact:
  assumes "removes_conditions (mh_Remove env)" and "MigratingHandler_Handle env vm = (vm', None)" and "\<not> vm_Deleting vm"
  shows "cond_Reason (migrating_condition vm') = ReasonReadyToMigrate \<longleftrightarrow>
    (\<exists>m. mh_KVVMI env = Got m \<and> \<not> liveMigrationInProgress (wrapMigrationState (Some m))) \<and>
    (\<exists>vmop. getVMOPCandidate env vm = Some (Some vmop) \<and>
       cond_Reason (fst (GetCondition TypeCompleted (op_Conditions vmop))) = ReasonWaitingToBeReady) \<and>
    mh_VolumesSynced env = Some True \<and> mh_UnreadyDisks env = Some []"
  using assms by (rule reported_ready)

section \<open>Examples\<close>

definition example_migrating_env :: "vmop list \<Rightarrow> migrating_env" where
  "example_migrating_env ops =
     \<lparr> mh_KVVM = Missing, mh_KVVMI = Got None, mh_VMOPs = Some ops, mh_VolumesSynced = Some True, mh_UnreadyDisks = Some [],
       mh_ReadWriteOnceDisks = Some [], mh_VolumeMigration = True,
       mh_Names = \<lparr> mn_IsMigratable = ''LiveMigratable'', mn_DisksNotMigratable = ''DisksNotLiveMigratable'',
         mn_HostDeviceNotMigratable = ''HostDeviceNotLiveMigratable'', mn_UpdateVolumesMigration = ''Migration'' \<rparr>,
       mh_Sort = sort_key op_Created, mh_Remove = (\<lambda>t. filter (\<lambda>c. cond_Type c \<noteq> t)), mh_Clock = (\<lambda>k. int k) \<rparr>"

lemma GetCondition_filter: "u \<noteq> t \<Longrightarrow> GetCondition u (filter (\<lambda>c. cond_Type c \<noteq> t) cs) = GetCondition u cs"
  by (induction cs) (auto simp: GetCondition_def)

lemma example_migrating_laws: "removes_conditions (mh_Remove (example_migrating_env ops))" "sorts_by_creation (mh_Sort (example_migrating_env ops))"
  by (auto simp: removes_conditions_def sorts_by_creation_def example_migrating_env_def GetCondition_filter)

definition unfinished_op :: vmop where
  "unfinished_op = (example_op ''a'' ''Migrate'' None)\<lparr> op_Phase := VMOPPhasePending,
     op_Conditions := [\<lparr> cond_Type = TypeCompleted, cond_Status = ConditionFalse, cond_Reason = ReasonWaitingToBeReady, cond_Message = '''',
       cond_ObservedGeneration = 1, cond_LastTransitionTime = 1 \<rparr>] \<rparr>"

lemma example_migrating_pass:
  assumes "\<not> vm_Deleting vm"
  shows "MigratingHandler_Handle (example_migrating_env ops) vm = (fst (MigratingHandler_Handle (example_migrating_env ops) vm), None)"
proof -
  let ?env = "example_migrating_env ops"
  have reads: "of_reading (mh_KVVM ?env) = Some None" "of_reading (mh_KVVMI ?env) = Some (Some None)"
    by (simp_all add: example_migrating_env_def of_reading_def)
  have "\<exists>c. getVMOPCandidate ?env w = Some c" for w :: "'a virtual_machine"
    by (simp add: getVMOPCandidate_def state_VMOPs_def example_migrating_env_def Let_def split: option.splits)
  moreover have "migrating_for_op ?env v \<noteq> Inl e" for v e
    by (simp add: migrating_for_op_def syncWaitingForVMToBeReadyMigrate_def example_migrating_env_def Let_def)
  ultimately have "snd (syncMigrating ?env b w) = None" for b and w :: "'a virtual_machine"
    by (auto simp: syncMigrating_def Let_def split: option.splits sum.splits) (metis option.distinct(1))
  moreover have "snd (syncMigratable ?env None w) = None" for w :: "'a virtual_machine" by (simp add: syncMigratable_def migratable_of_def)
  ultimately have "snd (MigratingHandler_Handle ?env vm) = None"
    using assms reads by (auto simp: MigratingHandler_Handle_def split: prod.splits option.splits) (metis snd_conv option.distinct(1))+
  then show ?thesis by (metis prod.collapse)
qed

theorem ready_to_migrate_exact_witness:
  "cond_Reason (migrating_condition (fst (MigratingHandler_Handle (example_migrating_env [unfinished_op]) example_vm))) = ReasonReadyToMigrate"
proof -
  let ?env = "example_migrating_env [unfinished_op]" and ?vm = example_vm
  have del: "\<not> vm_Deleting ?vm" and name: "vm_Name ?vm = ''vm''" by code_simp+
  have cand: "getVMOPCandidate ?env ?vm = Some (Some unfinished_op)"
    by (simp add: getVMOPCandidate_def state_VMOPs_def example_migrating_env_def name unfinished_op_def example_op_def IsMigration_def
        IsInProgressOrPending_def)
  have reason: "cond_Reason (fst (GetCondition TypeCompleted (op_Conditions unfinished_op))) = ReasonWaitingToBeReady" by code_simp
  show ?thesis
    unfolding ready_to_migrate_exact [OF example_migrating_laws(1) example_migrating_pass [OF del] del] using cand reason
    by (simp add: example_migrating_env_def wrapMigrationState_def liveMigrationInProgress_def)
qed

end
