(* ===== verification/MigrationHandshake.thy ===== *)
theory MigrationHandshake
  imports MigrationGuarantees VMMigrating
begin

text \<open>
  How an operation and the handler of its machine wait for each other: the operation marks itself as waiting, the handler of the
  machine reports the machine as ready for the operation that waits, and the operation creates its migration.
\<close>

section \<open>A pass that reaches the last check\<close>

text \<open>Every check before the last one passes for the operation and the machine.\<close>

definition allows :: "'q mig_env \<Rightarrow> vmop \<Rightarrow> 'q virtual_machine \<Rightarrow> bool" where
  "allows env v vm \<longleftrightarrow>
     \<not> unsupported_selector env v \<and> me_Migration env 0 = Missing \<and> me_Migration env 1 = Missing \<and>
     findOlderActiveVMOPs (me_Op env) v = Some [] \<and>
     MigrationService_IsApplicableForRunPolicy (RunPolicy (vm_Spec vm)) \<and> MigrationService_IsApplicableForVMPhase (Phase (vm_Status vm)) \<and>
     (me_SystemNetwork env \<noteq> '''' \<longrightarrow> checkMigrationNetwork env vm = None) \<and>
     snd (isApplicableForLiveMigrationPolicy env v vm) \<and> otherMigrationsAreInProgress env v = Inr False"

lemma allows_same:
  assumes "same_op v w" and "vm_Spec vm = vm_Spec vm'" and "Phase (vm_Status vm) = Phase (vm_Status vm')"
    and "StatusNode (vm_Status vm) = StatusNode (vm_Status vm')"
  shows "allows env v vm = allows env w vm'"
proof -
  have "op_Migrate v = op_Migrate w \<or> op_Migrate v = Some None \<or> op_Migrate w = Some None"
    using assms(1) by (auto simp: same_op_def new_migration_def split: option.splits)
  then have "unsupported_selector env v = unsupported_selector env w"
    using assms(1) by (auto simp: unsupported_selector_def same_op_def new_migration_def split: option.splits)
  then show ?thesis
    using assms(2-) by (simp add: allows_def policy_applicable same_op_reads [OF assms(1)] checkMigrationNetwork_def)
qed

definition init_op_of :: "'q mig_env \<Rightarrow> vmop \<Rightarrow> vmop" where
  "init_op_of env v =
     (let v1 = init_signal env v
      in if op_Phase v1 = '''' then set_op_condition (me_Op env) 2 (op_condition v1 TypeCompleted ''Unknown'' ConditionUnknown '''')
             (v1\<lparr> op_Phase := VMOPPhasePending \<rparr>) else v1)"

definition found_machine :: "'q mig_env \<Rightarrow> 'q virtual_machine \<Rightarrow> vmop \<Rightarrow> vmop" where
  "found_machine env vm v =
     (init_op_of env v)\<lparr> op_Labels := (op_Labels (init_op_of env v))(LabelVirtualMachineUID \<mapsto> vm_UID vm) \<rparr>"

lemma found_machine_same: "same_op (found_machine env vm v) v"
  by (simp add: found_machine_def init_op_of_def init_signal_def Let_def)

lemma lift_Init:
  "\<exists>new. lift_run Op api (\<lambda>_. Init (me_Op env) (init_signal env v)) l = (Returned (init_op_of env v), l @ new)"
  by (simp add: lift_run_def Init_def init_op_of_def bind_run_def event_def ret_def Let_def)

lemma allowed_Handle:
  assumes all: "allows env v vm" and vm: "env_VM (me_Op env) = Got vm" and act: "\<not> IsTerminating v" "\<not> IsFinished v"
    and unsent: "op_status TypeSignalSent v \<noteq> ConditionTrue"
  shows "\<exists>new. MigrationLifecycle_Handle api F env (v, s) l = try_execute api F env vm (found_machine env vm v, s) (l @ new)"
proof -
  let ?v = "found_machine env vm v"
  have ok: "allows env ?v vm" using all allows_same [OF found_machine_same] by blast
  obtain new where init: "lift_run Op api (\<lambda>_. Init (me_Op env) (init_signal env v)) l = (Returned (init_op_of env v), l @ new)"
    using lift_Init by blast
  have sel: "\<not> unsupported_selector env (init_op_of env v)"
    using ok by (simp add: allows_def found_machine_def unsupported_selector_def)
  have signal: "op_status TypeSignalSent ?v \<noteq> ConditionTrue" using unsent
    by (auto simp: found_machine_def init_op_of_def init_signal_def Let_def)
  then have idle: "\<not> IsOperationInProgress ?v" by (simp add: IsOperationInProgress_def op_status_def)
  have should: "lift_run Op api (\<lambda>a. ShouldExecuteOrSetFailedPhase a (me_Op env) ?v) = ret (?v, Inr True)"
    using ok by (simp add: allows_def ShouldExecuteOrSetFailedPhase_def ShouldExecuteOrSupersedeOrSetFailedPhase_def)
  have appl: "lift_run Op api (\<lambda>_. IsApplicableOrSetFailedPhase (me_Op env) MigrationService_IsApplicableForRunPolicy
      MigrationService_IsApplicableForVMPhase ?v vm) = ret (?v, True)"
    using ok by (simp add: allows_def IsApplicableOrSetFailedPhase_def)
  have policy: "\<exists>m. isApplicableForLiveMigrationPolicy env ?v vm = (m, True) \<and> m \<noteq> ''''"
    using ok by (auto simp: allows_def isApplicableForLiveMigrationPolicy_def split: prod.splits option.splits)
  then have "\<exists>new'. check_applicable api F env vm (?v, s) (l @ new) = try_execute api F env vm (?v, s) (l @ new @ new')"
    using ok unfolding check_applicable_def fst_conv appl
    by (auto simp: allows_def Let_def check_policy_def check_others_def bind_run_def event_def)
  moreover have "MigrationLifecycle_Handle api F env (v, s) l = check_applicable api F env vm (?v, s) (l @ new)"
    using init sel act idle should ok vm
    by (simp add: MigrationLifecycle_Handle_def Let_def bind_run_def check_quota_def isKubeVirtMigrationRejectedDueToQuota_def allows_def
        fetch_machine_def FetchVirtualMachineOrSetFailedPhase_def found_machine_def [symmetric] drive_migration_def start_migration_def ret_def)
  ultimately show ?thesis by (metis append.assoc)
qed

section \<open>The operation waits\<close>

lemma fresh_reason:
  assumes "op_Phase v = ''''"
  shows "cond_Reason (completed_condition (found_machine env vm v)) = ''Unknown''"
  using assms by (simp add: found_machine_def init_op_of_def init_signal_def Let_def set_op_condition_def SetCondition_same)

definition waiting_op :: "'q mig_env \<Rightarrow> 'q virtual_machine \<Rightarrow> vmop \<Rightarrow> vmop" where
  "waiting_op env vm v =
     fst (complete_condition env 26 ReasonWaitingForVM ConditionFalse '''' (set_phase VMOPPhasePending (found_machine env vm v, (\<lambda>_. None :: unit pstate option))))"

lemma found_machine_signal:
  assumes "op_status TypeSignalSent v \<noteq> ConditionTrue"
  shows "op_status TypeSignalSent (found_machine env vm v) \<noteq> ConditionTrue"
  using assms by (auto simp: found_machine_def init_op_of_def init_signal_def Let_def)

lemma found_machine_deleting: "op_Deleting (found_machine env vm v) = op_Deleting v"
  by (simp add: found_machine_def init_op_of_def init_signal_def Let_def set_op_condition_def)

lemma waiting_op_fields:
  assumes "\<not> op_Deleting v" and "op_status TypeSignalSent v \<noteq> ConditionTrue"
  shows "same_op (waiting_op env vm v) v" "op_Phase (waiting_op env vm v) = VMOPPhasePending"
    "cond_Reason (completed_condition (waiting_op env vm v)) = ReasonWaitingForVM"
    "op_status TypeSignalSent (waiting_op env vm v) \<noteq> ConditionTrue" "\<not> op_Deleting (waiting_op env vm v)"
proof -
  show "same_op (waiting_op env vm v) v" "op_Phase (waiting_op env vm v) = VMOPPhasePending"
    using found_machine_same [of env vm v] by (simp_all add: waiting_op_def complete_condition_def set_phase_def)
  show "cond_Reason (completed_condition (waiting_op env vm v)) = ReasonWaitingForVM"
    by (simp add: waiting_op_def complete_condition_def set_phase_def set_op_condition_def SetCondition_same)
  show "op_status TypeSignalSent (waiting_op env vm v) \<noteq> ConditionTrue"
    using found_machine_signal [OF assms(2)] by (simp add: waiting_op_def complete_condition_def set_phase_def)
  show "\<not> op_Deleting (waiting_op env vm v)"
    using assms(1) by (simp add: waiting_op_def complete_condition_def set_phase_def set_op_condition_def found_machine_deleting)
qed

lemma waiting_pass:
  assumes "allows env v vm" and "env_VM (me_Op env) = Got vm" and "op_Phase v = ''''" and "\<not> op_Deleting v"
    and "op_status TypeSignalSent v \<noteq> ConditionTrue"
    and "\<not> ready_to_migrate vm" and "cond_Status (fst (GetCondition ''Migratable'' (Conditions (vm_Status vm)))) = ConditionTrue"
  shows "\<exists>new. MigrationLifecycle_Handle api F env (v, s) l =
    (Returned ((waiting_op env vm v, s), requeue_after timeElapsedUpdateInterval, None), l @ new)"
proof -
  have act: "\<not> IsTerminating v" "\<not> IsFinished v" using assms(3,4) by (simp_all add: IsTerminating_def IsFinished_def)
  obtain new where run: "MigrationLifecycle_Handle api F env (v, s) l = try_execute api F env vm (found_machine env vm v, s) (l @ new)"
    using allowed_Handle [OF assms(1,2) act assms(5)] by blast
  have "canExecute env vm (found_machine env vm v, s) =
      ret (complete_condition env 26 ReasonWaitingForVM ConditionFalse '''' (set_phase VMOPPhasePending (found_machine env vm v, s)), False)"
    using assms(6,7) fresh_reason [OF assms(3), of env vm] by (simp add: canExecute_def ready_to_migrate_def Let_def)
  moreover have "complete_condition env 26 ReasonWaitingForVM ConditionFalse '''' (set_phase VMOPPhasePending (found_machine env vm v, s)) =
      (waiting_op env vm v, s)"
    by (simp add: waiting_op_def complete_condition_def set_phase_def)
  ultimately show ?thesis
    unfolding run try_execute_def using waiting_op_fields(2) [OF assms(4,5), of env vm] by (simp add: bind_run_def ret_def)
qed

section \<open>The migration is created\<close>

lemma creating_pass:
  assumes "allows env v vm" and "env_VM (me_Op env) = Got vm" and "\<not> IsTerminating v" "\<not> IsFinished v"
    and "op_status TypeSignalSent v \<noteq> ConditionTrue" and "ready_to_migrate vm"
  shows "Call (CreateMigration (new_migration v)) \<in> set (snd (MigrationLifecycle_Handle api F env (v, s) l))"
proof -
  let ?v = "found_machine env vm v"
  obtain new where run: "MigrationLifecycle_Handle api F env (v, s) l = try_execute api F env vm (?v, s) (l @ new)"
    using allowed_Handle [OF assms(1-5)] by blast
  have can: "canExecute env vm (?v, s) = ret ((?v, s), True)" using assms(6) by (simp add: canExecute_def ready_to_migrate_def Let_def)
  have same: "new_migration ?v = new_migration v" using found_machine_same [of env vm v] by (simp add: same_op_def)
  let ?c = "CreateMigration (new_migration v)"
  have "\<exists>pre. Migration_recordEvent ?v (l @ new) = (Returned (), l @ new @ pre)" by (simp add: Migration_recordEvent_def event_def ret_def)
  then obtain pre where pre: "Migration_recordEvent ?v (l @ new) = (Returned (), l @ new @ pre)" by blast
  have "\<exists>post. snd (Migration_execute api F env (?v, s) (l @ new)) = (l @ new @ pre @ [Call ?c]) @ post"
    using pre same by (auto simp: Migration_execute_def bind_run_def MigrationService_CreateMigration_def call_def ret_def event_def
        split: option.splits reading.splits sum.splits prod.splits)
  then have "Call ?c \<in> set (snd (Migration_execute api F env (?v, s) (l @ new)))" by auto
  then show ?thesis unfolding run try_execute_def can by (auto simp: bind_run_def ret_def split: prod.splits outcome.splits)
qed

section \<open>The machine is reported as ready\<close>

lemma put_keeps:
  "vm_Spec (put_conditions cs w) = vm_Spec w" "Phase (vm_Status (put_conditions cs w)) = Phase (vm_Status w)"
  "StatusNode (vm_Status (put_conditions cs w)) = StatusNode (vm_Status w)"
  "vm_Spec (put_migration_state m w) = vm_Spec w" "Phase (vm_Status (put_migration_state m w)) = Phase (vm_Status w)"
  "StatusNode (vm_Status (put_migration_state m w)) = StatusNode (vm_Status w)"
  by (simp_all add: put_conditions_def put_migration_state_def)

text \<open>What the first check of an operation reads of a machine.\<close>

definition same_machine :: "'q virtual_machine \<Rightarrow> 'q virtual_machine \<Rightarrow> bool" where
  "same_machine vm vm' \<longleftrightarrow> vm_Spec vm = vm_Spec vm' \<and> Phase (vm_Status vm) = Phase (vm_Status vm') \<and>
     StatusNode (vm_Status vm) = StatusNode (vm_Status vm')"

lemma syncMigratable_keeps: "same_machine (fst (syncMigratable env kvvm vm)) vm"
  by (simp add: same_machine_def syncMigratable_def set_vm_condition_def put_keeps split: sum.splits prod.splits)

lemma syncMigrating_keeps: "same_machine (fst (syncMigrating env b vm)) vm"
  by (simp add: same_machine_def syncMigrating_def Let_def set_vm_condition_def RemoveCondition_def put_keeps
      split: sum.splits prod.splits option.splits)

lemma MigratingHandler_keeps: "same_machine (fst (MigratingHandler_Handle env vm)) vm"
proof -
  have first: "syncMigratable env kvvm (put_migration_state m vm) = (vm1, e) \<Longrightarrow> same_machine vm1 vm" for kvvm m vm1 e
    using syncMigratable_keeps [of env kvvm "put_migration_state m vm"] by (simp add: same_machine_def put_keeps)
  have second: "syncMigrating env b vm1 = (vm2, e) \<Longrightarrow> same_machine vm1 vm \<Longrightarrow> same_machine vm2 vm" for b vm1 vm2 e
    using syncMigrating_keeps [of env b vm1] by (simp add: same_machine_def)
  have "same_machine vm vm" by (simp add: same_machine_def)
  then show ?thesis
    unfolding MigratingHandler_Handle_def by (auto split: option.splits prod.splits dest: first second)
qed

lemma only_candidate:
  assumes "sorts_by_creation (mh_Sort env)" and "mh_VMOPs env = Some ops" and "v \<in> set ops" and "op_VirtualMachine v = vm_Name vm"
    and "IsMigration v" and "IsInProgressOrPending v"
    and "\<forall>w \<in> set ops. op_VirtualMachine w = vm_Name vm \<and> IsMigration w \<and> IsInProgressOrPending w \<longrightarrow> w = v"
  shows "getVMOPCandidate env vm = Some (Some v)"
proof -
  have ops: "state_VMOPs env vm = Some (filter (\<lambda>v. op_VirtualMachine v = vm_Name vm) ops)" using assms(2) by (simp add: state_VMOPs_def)
  have "v \<in> set (filter (\<lambda>v. op_VirtualMachine v = vm_Name vm) ops)" using assms(3,4) by simp
  from getVMOPCandidate_oldest [OF assms(1) ops this assms(5,6)]
  obtain w where w: "getVMOPCandidate env vm = Some (Some w)" "w \<in> set ops" "op_VirtualMachine w = vm_Name vm" "IsMigration w"
    "IsInProgressOrPending w" by auto
  then have "w = v" using assms(7) by blast
  then show ?thesis using w(1) by simp
qed


text \<open>
  Claim C7: an operation that has to wait gets its migration.  A new operation for a machine that may be migrated, but
  is not reported as ready, is left waiting for the machine by its first pass.  If the handler of the machine then sees it as the only
  unfinished migration of the machine, with an instance that is not migrating, synchronized volumes and no disk that is not
  ready, the machine is reported as ready, and the next pass of the operation over that machine asks for exactly the
  migration of the operation.
\<close>

theorem waiting_operation_gets_migrated:
  assumes "op_Phase v = ''''" and "\<not> op_Deleting v" and "op_status TypeSignalSent v \<noteq> ConditionTrue"
    and "IsMigration v" and "op_VirtualMachine v = vm_Name vm"
    and "\<not> vm_Deleting vm" and "\<not> ready_to_migrate vm" and "cond_Status (migratable_condition vm) = ConditionTrue"
    and "allows env v vm" and "env_VM (me_Op env) = Got vm"
    and first: "MigrationLifecycle_Handle api F env (v, s) l = (Returned ((v1, s1), r, e), l1)"
    and laws: "removes_conditions (mh_Remove menv)" "sorts_by_creation (mh_Sort menv)"
    and ops: "mh_VMOPs menv = Some ops" "v1 \<in> set ops"
      "\<forall>w \<in> set ops. op_VirtualMachine w = vm_Name vm \<and> IsMigration w \<and> IsInProgressOrPending w \<longrightarrow> w = v1"
    and "mh_KVVMI menv = Got m" and "\<not> liveMigrationInProgress (wrapMigrationState (Some m))"
    and "mh_VolumesSynced menv = Some True" and "mh_UnreadyDisks menv = Some []"
    and second: "MigratingHandler_Handle menv vm = (vm1, None)"
    and "allows env' v vm" and "env_VM (me_Op env') = Got vm1"
  shows "ready_to_migrate vm1 \<and> Call (CreateMigration (new_migration v)) \<in> set (new_effects (MigrationLifecycle_Handle api' F' env' (v1, s1)) [])"
proof -
  have "v1 = waiting_op env vm v"
    using waiting_pass [OF assms(9,10,1,2,3,7), of api F s l] assms(8) first by (auto simp: vm_conditions_def)
  then have waits: "same_op v1 v" "op_Phase v1 = VMOPPhasePending" "cond_Reason (completed_condition v1) = ReasonWaitingForVM"
      "op_status TypeSignalSent v1 \<noteq> ConditionTrue" "\<not> op_Deleting v1"
    using waiting_op_fields [OF assms(2,3), of env vm] by simp_all
  have "getVMOPCandidate menv vm = Some (Some v1)"
    using only_candidate [OF laws(2) ops(1,2) _ _ _ ops(3)] waits(2) assms(4,5) same_op_fields(4) [OF waits(1)] same_op_reads(3) [OF waits(1)]
    by (simp add: IsInProgressOrPending_def)
  then have ready: "ready_to_migrate vm1"
    using reported_ready [OF laws(1) second assms(6)] assms(17-20) waits(3) by (simp add: ready_to_migrate_def vm_conditions_def)
  have "same_machine vm1 vm" using MigratingHandler_keeps [of menv vm] second by simp
  then have "allows env' v1 vm1" using assms(22) allows_same [OF waits(1), of vm1 vm env'] by (simp add: same_machine_def)
  moreover have "\<not> IsTerminating v1" "\<not> IsFinished v1" using waits(2,5) by (simp_all add: IsTerminating_def IsFinished_def)
  ultimately have "Call (CreateMigration (new_migration v1)) \<in> set (snd (MigrationLifecycle_Handle api' F' env' (v1, s1) []))"
    using creating_pass [OF _ assms(23) _ _ waits(4) ready] by blast
  then show ?thesis using ready waits(1) by (simp add: new_effects_def same_op_def)
qed

section \<open>Examples\<close>

definition waiting_vm :: "int virtual_machine" where
  "waiting_vm = migrating_vm\<lparr> vm_Status := (vm_Status migrating_vm)\<lparr>
     Conditions := [\<lparr> cond_Type = TypeMigratable, cond_Status = ConditionTrue, cond_Reason = ''VirtualMachineMigratable'', cond_Message = '''',
       cond_ObservedGeneration = 1, cond_LastTransitionTime = 1 \<rparr>] \<rparr> \<rparr>"

definition on_machine :: "int virtual_machine \<Rightarrow> int mig_env" where
  "on_machine vm = (example_mig_env Missing 1)\<lparr> me_Op := (me_Op (example_mig_env Missing 1))\<lparr> env_VM := Got vm \<rparr> \<rparr>"

abbreviation new_op :: vmop where "new_op \<equiv> example_op ''a'' ''Migrate'' None"

abbreviation waited_op :: vmop where "waited_op \<equiv> waiting_op (on_machine waiting_vm) waiting_vm new_op"

abbreviation reported_vm :: "int virtual_machine" where
  "reported_vm \<equiv> fst (MigratingHandler_Handle (example_migrating_env [waited_op]) waiting_vm)"

lemma example_allows:
  assumes "vm_Spec vm = vm_Spec example_vm" and "Phase (vm_Status vm) = MachineRunning" and "StatusNode (vm_Status vm) = ''node''"
  shows "allows (on_machine w) new_op vm"
proof -
  let ?e = "on_machine w"
  have reads: "findOlderActiveVMOPs (me_Op ?e) new_op = Some []" "otherMigrationsAreInProgress ?e new_op = Inr False" "me_Migration ?e k = Missing"
    "me_TargetMigration ?e" for k
    by (simp_all add: on_machine_def example_mig_env_def example_op_env_def findOlderActiveVMOPs_def otherMigrationsAreInProgress_def)
  have machine: "MigrationService_IsApplicableForRunPolicy (RunPolicy (vm_Spec migrating_vm))"
    "MigrationService_IsApplicableForVMPhase (Phase (vm_Status migrating_vm))" by code_simp+
  have "snd (isApplicableForLiveMigrationPolicy (example_mig_env Missing 1) new_op migrating_vm)" by code_simp
  then have "snd (isApplicableForLiveMigrationPolicy ?e new_op migrating_vm)" by (simp add: policy_applicable on_machine_def)
  moreover have "checkMigrationNetwork ?e migrating_vm = None"
    by (simp add: checkMigrationNetwork_def on_machine_def example_mig_env_def migrating_vm_def)
  ultimately have "allows ?e new_op migrating_vm" using reads machine by (simp add: allows_def unsupported_selector_def)
  then show ?thesis using allows_same [of new_op new_op vm migrating_vm "on_machine w"] assms
    by (simp add: migrating_vm_def same_op_def)
qed

theorem waiting_operation_gets_migrated_witness:
  "ready_to_migrate reported_vm \<and>
   Call (CreateMigration (new_migration new_op)) \<in>
     set (new_effects (MigrationLifecycle_Handle accept real_floats (on_machine reported_vm) (waited_op, empty_store)) [])"
proof -
  let ?env = "on_machine waiting_vm" and ?menv = "example_migrating_env [waited_op]"
  have op: "op_Phase new_op = ''''" "\<not> op_Deleting new_op" "op_status TypeSignalSent new_op \<noteq> ConditionTrue" "IsMigration new_op"
      "op_VirtualMachine new_op = vm_Name waiting_vm"
    by code_simp+
  have vm: "\<not> vm_Deleting waiting_vm" "\<not> ready_to_migrate waiting_vm" "cond_Status (migratable_condition waiting_vm) = ConditionTrue"
    by code_simp+
  have allows: "allows (on_machine w) new_op waiting_vm" for w
    by (rule example_allows) (simp_all add: waiting_vm_def migrating_vm_def)
  have reads: "env_VM (me_Op (on_machine w)) = Got w" for w by (simp add: on_machine_def)
  have "cond_Status (fst (GetCondition ''Migratable'' (Conditions (vm_Status waiting_vm)))) = ConditionTrue" by code_simp
  then obtain r l where first: "MigrationLifecycle_Handle accept real_floats ?env (new_op, empty_store) [] = (Returned ((waited_op, empty_store), r, None), l)"
    using waiting_pass [OF allows reads op(1-3) vm(2)] by blast
  have only: "\<forall>w \<in> set [waited_op]. op_VirtualMachine w = vm_Name waiting_vm \<and> IsMigration w \<and> IsInProgressOrPending w \<longrightarrow> w = waited_op" by simp
  have second: "MigratingHandler_Handle ?menv waiting_vm = (reported_vm, None)"
    by (rule example_migrating_pass [OF vm(1)])
  show ?thesis
    by (rule waiting_operation_gets_migrated [OF op vm allows reads first example_migrating_laws _ _ only _ _ _ _ second allows reads, of None])
      (simp_all add: example_migrating_env_def wrapMigrationState_def liveMigrationInProgress_def)
qed

end
