(* ===== verification/Spec2Isabelle.thy ===== *)
theory Spec2Isabelle
  imports VMCompare SizePolicyService SizingValidators NetworkSpec VMOPPowerState LiveMigration VMPoolSystem Reconciler IPBinding MigrationHandshake
begin

text \<open>
  \<^bold>\<open>Verification of the virtualization controller.\<close>

  The program is a Kubernetes controller that turns \<^verbatim>\<open>VirtualMachine\<close> resources into internal
  (KubeVirt) machines.  An admission webhook defaults and validates a resource; a reconciler runs a
  chain of handlers that compare the desired specification with the one that was applied last, decide
  which changes can be applied to the running machine and which need a restart, fill in networks and
  addresses, and switch the machine on or off according to its run policy.  The development models the
  parts that decide; paths below are relative to
  \<^verbatim>\<open>src/images/virtualization-artifact/pkg\<close>.

  \<^item> \<^verbatim>\<open>GoPrelude\<close>: what the code uses of Go: slices with bounds, 64-bit integers (\<open>wrap64\<close> on
    \<open>int\<close>), \<^verbatim>\<open>strconv.Atoi\<close>, string functions, and the lemmas the components share.
  \<^item> \<^verbatim>\<open>ApiTypes\<close>: the resources (\<^verbatim>\<open>src/api/core/v1alpha2\<close>).  \<^verbatim>\<open>resource.Quantity\<close> is third-party
    code: a record of operations \<open>quantity_ops\<close> with the laws \<open>quantity_laws\<close> as hypotheses, given as
    the locale \<open>quantity_arith\<close> and interpreted on exact integers.
  \<^item> \<^verbatim>\<open>VMChange\<close>, \<^verbatim>\<open>VMComparators\<close>, \<^verbatim>\<open>VMBlockDevices\<close>, \<^verbatim>\<open>VMCompare\<close>: change detection
    (\<^verbatim>\<open>controller/vmchange\<close>).  The locale \<open>comparator_suite\<close> states what a suite of comparators
    promises; its instances give that a comparison never panics, is empty exactly on equivalent
    specifications, and asks for a restart exactly when the rules do.
  \<^item> \<^verbatim>\<open>SizingPolicy\<close>, \<^verbatim>\<open>SizePolicyService\<close>, \<^verbatim>\<open>SizingValidators\<close>: sizing policies of classes
    (\<^verbatim>\<open>common/sizing_policy\<close>, \<^verbatim>\<open>controller/service/size_policy_service.go\<close>,
    \<^verbatim>\<open>controller/vmclass/internal/validators\<close>): exactness of the checks, and that their suggestions are
    the nearest allowed values.  The loops that build grids are partial functions: not returning is
    \<open>None\<close>, and the locale \<open>step_grid\<close> gives that they return for usable steps.
  \<^item> \<^verbatim>\<open>VMTopology\<close>: CPU topology and helpers (\<^verbatim>\<open>common/vm/vm.go\<close>).
  \<^item> \<^verbatim>\<open>NetworkIDs\<close>, \<^verbatim>\<open>NetworkSpec\<close>: interface identifiers, the validator of networks, MAC addresses
    and the provisioning of interfaces (\<^verbatim>\<open>common/network\<close>,
    \<^verbatim>\<open>controller/vm/internal/validators/networks_validator.go\<close>).  The API client is a parameter.
  \<^item> \<^verbatim>\<open>Conditions\<close>, \<^verbatim>\<open>PowerState\<close>, \<^verbatim>\<open>SyncPowerState\<close>: status conditions
    (\<^verbatim>\<open>controller/conditions\<close>), power requests (\<^verbatim>\<open>controller/powerstate\<close>, \<^verbatim>\<open>common/kvvm\<close>) and the
    handler of run policies (\<^verbatim>\<open>controller/vm/internal/sync_power_state.go\<close>).  A handler is a run that
    extends a log of API calls and events; the API server is a parameter that may answer anything.
  \<^item> \<^verbatim>\<open>Effects\<close>: runs with a log.  \<open>emits P r\<close> (every entry of the log satisfies \<open>P\<close>), \<open>no_panic\<close> and
    \<open>returns\<close> are closed under sequencing, so that a safety property of a handler is one rule per call; \<open>triple\<close> adds
    assertions on the state that a chain of handlers passes on.
  \<^item> \<^verbatim>\<open>Expectations\<close>, \<^verbatim>\<open>VMPool\<close>, \<^verbatim>\<open>VMPoolSystem\<close>: pools of machines (\<^verbatim>\<open>controller/vmpool\<close>).  The tracker of expected creations and deletions is the provider of a
    locale that the synchronisation of replicas uses; \<open>VMPoolSystem\<close> closes the loop with a cluster whose
    cache lags behind, as a step relation, and gives the invariants of the reachable states.
  \<^item> \<^verbatim>\<open>VMOPService\<close>, \<^verbatim>\<open>VMOPPowerState\<close>: operations on machines (\<^verbatim>\<open>common/vmop\<close>,
    \<^verbatim>\<open>controller/vmop/service\<close>, \<^verbatim>\<open>controller/vmop/powerstate\<close>): which operation may run, which one
    supersedes another, and the phases of start, stop and restart.
  \<^item> \<^verbatim>\<open>LiveMigration\<close>: policies, settings and the limits on concurrent migrations
    (\<^verbatim>\<open>controller/livemigration\<close>, \<^verbatim>\<open>livemigration\<close>).  The locale \<open>slot_registry\<close> is the contract of a
    limiter; both limiters are instances, and the handler's lemmas rest on it.
  \<^item> \<^verbatim>\<open>MigrationProgress\<close>, \<^verbatim>\<open>MigrationOps\<close>, \<^verbatim>\<open>MigrationLifecycle\<close>, \<^verbatim>\<open>MigrationGuarantees\<close>: operations that migrate a
    machine (\<^verbatim>\<open>controller/vmop/migration\<close>, \<^verbatim>\<open>common/percent\<close>): the progress of the synchronization, with floating point
    arithmetic as a parameter \<open>float_ops\<close> and the laws \<open>float_laws\<close>; the migration service, reasons and messages; the lifecycle and deletion
    handlers; and what they guarantee.  The locale \<open>pass_invariant\<close> proves once what a pass keeps; it is interpreted for the
    meaning of the completed phase and for the type of the status.
  \<^item> \<^verbatim>\<open>VMMigrating\<close>, \<^verbatim>\<open>MigrationHandshake\<close>: the handler that reports whether a machine can be migrated
    (\<^verbatim>\<open>controller/vm/internal/migrating.go\<close>), exactly when it reports the machine as ready, and the handshake of the two
    controllers: an operation that waits for the machine gets its migration.
  \<^item> \<^verbatim>\<open>Reconciler\<close>: the frame of all controllers (\<^verbatim>\<open>controller/reconciler\<close>, \<^verbatim>\<open>common/patch\<close>): the chain
    of handlers with its errors and delays, and the update of a resource as a status update and a JSON patch
    of its metadata, whose effect is proved against a semantics of patches.
  \<^item> \<^verbatim>\<open>IPAddresses\<close>: texts and ranges of addresses and their allocation (\<^verbatim>\<open>common/ip\<close>,
    \<^verbatim>\<open>controller/vmip/internal/service\<close>).  Subnet arithmetic is third-party: the locale \<open>subnet_arith\<close> over its
    documented results, interpreted on exact ones.
  \<^item> \<^verbatim>\<open>IPLeases\<close>, \<^verbatim>\<open>IPLeaseSystem\<close>, \<^verbatim>\<open>IPBinding\<close>: the controllers of addresses and of leases
    (\<^verbatim>\<open>controller/vmip\<close>, \<^verbatim>\<open>controller/vmiplease\<close>, \<^verbatim>\<open>common/steptaker\<close>) with their webhooks.  \<open>ip_step\<close> is the
    cluster with both controllers and with users; its invariants give that no IP address is bound twice and
    that leases keep their namespace, and three passes are shown to bind a new address.  A pass is one step
    whose calls take effect in order; its reads may fail but are not stale.

  \<^bold>\<open>Parameters and bounds.\<close>  What the code reads from the cluster is a value of the environment (a
  record per component); what it writes is an entry of the log, and the answer of the API server is a
  function of the call that may report any error.  The clock is a parameter.  Loops that retry on a
  conflict are bounded by the number of attempts of the source's back-off (a field of the environment); a
  loop over a grid that may not end is a partial function whose result is \<open>None\<close> when it does not, and the
  properties that claim a result prove it.

  \<^bold>\<open>Not modelled.\<close>  Texts of messages (the data in them is kept), logging, metrics, the conversion to
  JSON and YAML, caches and watches, and these components: the disk,
  image and snapshot controllers, the controllers of MAC addresses, snapshot operations, the disks and webhooks of pools,
  the builder of the internal specification, the API server, audit, the DVCR tools, device drivers,
  hooks and clients.
\<close>

end
